(* ===== verification/Prelude.thy ===== *)
theory Prelude
  imports Main "HOL-Library.Word" "HOL-Library.AList"
begin

text \<open>
  Shared vocabulary of the development: machine integers and byte strings, the big-endian
  conversions of the Rust standard library, results with early return (the \<open>?\<close> operator),
  saturating and checked arithmetic, hash maps as association lists with distinct keys, and the
  interfaces (locales) that several components implement: byte formats, guarded state machines
  and sources of sequence numbers.

  Conventions. \<open>u8\<close>, \<open>u16\<close>, \<open>u32\<close> and \<open>u64\<close> are words of that width. \<open>usize\<close> values are
  lengths of buffers in memory and are modelled as \<^typ>\<open>nat\<close>. An \<open>Instant\<close> or a \<open>Duration\<close> is a
  number of nanoseconds, a \<^typ>\<open>nat\<close>; subtraction of instants saturates at zero in Rust, as
  subtraction on \<^typ>\<open>nat\<close> does. A \<open>Result<T, E>\<close> is \<open>'e + 'a\<close> with \<open>Inl\<close> for the error.
\<close>

unbundle bit_operations_syntax

section \<open>Types\<close>

type_synonym u8 = "8 word"
type_synonym u16 = "16 word"
type_synonym u32 = "32 word"
type_synonym u64 = "64 word"
type_synonym bytes = "8 word list"
type_synonym instant = nat
type_synonym duration = nat

named_theorems codec_simps \<open>characteristic equations of the byte formats\<close>
named_theorems result_simps \<open>inversion of results with early return\<close>
named_theorems inv_intros \<open>preservation of component invariants\<close>

abbreviation secs :: "nat \<Rightarrow> duration" where
  "secs n \<equiv> n * 1000000000"

section \<open>Results with early return\<close>

text \<open>\<open>bind_r r f\<close> is the question mark operator followed by the rest of the block.\<close>

definition bind_r :: "'e + 'a \<Rightarrow> ('a \<Rightarrow> 'e + 'b) \<Rightarrow> 'e + 'b" where
  "bind_r r f = (case r of Inl e \<Rightarrow> Inl e | Inr x \<Rightarrow> f x)"

definition map_err :: "('e \<Rightarrow> 'f) \<Rightarrow> 'e + 'a \<Rightarrow> 'f + 'a" where
  "map_err g r = (case r of Inl e \<Rightarrow> Inl (g e) | Inr x \<Rightarrow> Inr x)"

definition ok_or :: "'e \<Rightarrow> 'a option \<Rightarrow> 'e + 'a" where
  "ok_or e x = (case x of None \<Rightarrow> Inl e | Some y \<Rightarrow> Inr y)"

definition ok :: "'e + 'a \<Rightarrow> 'a option" where
  "ok r = (case r of Inl _ \<Rightarrow> None | Inr x \<Rightarrow> Some x)"

lemma bind_r_simps [simp]: "bind_r (Inl e) f = Inl e" "bind_r (Inr x) f = f x"
  by (simp_all add: bind_r_def)

lemma map_err_simps [simp]: "map_err g (Inl e) = Inl (g e)" "map_err g (Inr x) = Inr x"
  by (simp_all add: map_err_def)

lemma ok_or_simps [simp]: "ok_or e None = Inl e" "ok_or e (Some y) = Inr y"
  by (simp_all add: ok_or_def)

lemma ok_simps [simp]: "ok (Inl e) = None" "ok (Inr x) = Some x"
  by (simp_all add: ok_def)

lemma bind_r_eq_Inr [result_simps]: "bind_r r f = Inr y \<longleftrightarrow> (\<exists>x. r = Inr x \<and> f x = Inr y)"
  by (cases r) auto

lemma map_err_eq_Inr [result_simps]: "map_err g r = Inr x \<longleftrightarrow> r = Inr x"
  by (cases r) auto

lemma ok_or_eq_Inr [result_simps]: "ok_or e x = Inr y \<longleftrightarrow> x = Some y"
  by (cases x) auto

lemma ok_eq_Some [result_simps]: "ok r = Some x \<longleftrightarrow> r = Inr x"
  by (cases r) auto

lemma bind_r_assoc: "bind_r (bind_r r f) g = bind_r r (\<lambda>x. bind_r (f x) g)"
  by (cases r) auto

section \<open>Checked and saturating arithmetic on words\<close>

definition checked_add :: "'a::len word \<Rightarrow> 'a word \<Rightarrow> 'a word option" where
  "checked_add a b = (if unat a + unat b < 2 ^ LENGTH('a) then Some (a + b) else None)"

definition saturating_add :: "'a::len word \<Rightarrow> 'a word \<Rightarrow> 'a word" where
  "saturating_add a b = (if unat a + unat b < 2 ^ LENGTH('a) then a + b else - 1)"

definition saturating_sub :: "'a::len word \<Rightarrow> 'a word \<Rightarrow> 'a word" where
  "saturating_sub a b = (if b \<le> a then a - b else 0)"

lemma unat_bound: "unat (w :: 'a::len word) < 2 ^ LENGTH('a)"
  by (rule unsigned_less)

lemma unat_add_no_overflow:
  fixes a b :: "'a::len word"
  shows "unat a + unat b < 2 ^ LENGTH('a) \<Longrightarrow> unat (a + b) = unat a + unat b"
  by (simp add: unat_word_ariths)

lemma unat_not_max:
  fixes w :: "'a::len word"
  assumes "w \<noteq> - 1"
  shows "unat w + 1 < 2 ^ LENGTH('a)"
proof -
  have "unat w \<noteq> unat (- 1 :: 'a word)" using assms by (simp only: word_unat_eq_iff not_False_eq_True)
  then have "unat w \<noteq> 2 ^ LENGTH('a) - 1" by (simp add: unsigned_minus_1_eq_mask mask_eq_exp_minus_1)
  then show ?thesis using unat_bound [of w] by linarith
qed

lemma unat_succ: "(w :: 'a::len word) \<noteq> - 1 \<Longrightarrow> unat (w + 1) = unat w + 1"
  using unat_not_max [of w] by (simp add: unat_add_no_overflow)

lemma checked_add_Some:
  fixes a b c :: "'a::len word"
  shows "checked_add a b = Some c \<longleftrightarrow> unat c = unat a + unat b"
proof
  assume "checked_add a b = Some c"
  then show "unat c = unat a + unat b"
    by (auto simp: checked_add_def unat_add_no_overflow split: if_splits)
next
  assume c: "unat c = unat a + unat b"
  moreover have "unat c < 2 ^ LENGTH('a)" by (rule unat_bound)
  ultimately show "checked_add a b = Some c"
    by (auto simp: checked_add_def unat_word_ariths intro!: word_unat_eq_iff [THEN iffD2])
qed

lemma unat_saturating_add:
  fixes a b :: "'a::len word"
  shows "unat (saturating_add a b) = min (unat a + unat b) (2 ^ LENGTH('a) - 1)"
  by (auto simp: saturating_add_def unat_add_no_overflow unsigned_minus_1_eq_mask mask_eq_exp_minus_1)

lemma unat_saturating_sub:
  fixes a b :: "'a::len word"
  shows "unat (saturating_sub a b) = unat a - unat b"
  by (auto simp: saturating_sub_def unat_sub word_le_nat_alt)

section \<open>Big-endian bytes\<close>

text \<open>
  \<open>to_be_bytes\<close> and \<open>from_be_bytes\<close> of the Rust integers. The number of bytes is explicit: two
  for \<open>u16\<close>, four for \<open>u32\<close>, eight for \<open>u64\<close>.
\<close>

fun be_digits :: "nat \<Rightarrow> nat \<Rightarrow> nat list" where
  "be_digits 0 x = []"
| "be_digits (Suc n) x = be_digits n (x div 256) @ [x mod 256]"

definition be_value :: "nat list \<Rightarrow> nat" where
  "be_value = foldl (\<lambda>acc d. acc * 256 + d) 0"

definition to_be :: "nat \<Rightarrow> 'a::len word \<Rightarrow> bytes" where
  "to_be n w = map of_nat (be_digits n (unat w))"

definition from_be :: "bytes \<Rightarrow> 'a::len word" where
  "from_be bs = of_nat (be_value (map unat bs))"

lemma be_value_snoc [simp]: "be_value (ds @ [d]) = be_value ds * 256 + d"
  by (simp add: be_value_def)

lemma be_value_Nil [simp]: "be_value [] = 0"
  by (simp add: be_value_def)

lemma length_be_digits [simp]: "length (be_digits n x) = n"
  by (induction n arbitrary: x) auto

lemma be_digits_lt: "d \<in> set (be_digits n x) \<Longrightarrow> d < 256"
  by (induction n arbitrary: x) auto

lemma be_value_digits: "be_value (be_digits n x) = x mod 256 ^ n"
proof (induction n arbitrary: x)
  case 0
  then show ?case by simp
next
  case (Suc n)
  have "x mod 256 ^ Suc n = (x div 256) mod 256 ^ n * 256 + x mod 256"
    by (simp add: mod_mult2_eq mult.commute)
  with Suc show ?case by simp
qed

lemma be_digits_value:
  assumes "\<forall>d\<in>set ds. d < 256"
  shows "be_digits (length ds) (be_value ds) = ds"
  using assms by (induction ds rule: rev_induct) auto

lemma be_value_lt:
  assumes "\<forall>d\<in>set ds. d < 256"
  shows "be_value ds < 256 ^ length ds"
  using assms
proof (induction ds rule: rev_induct)
  case Nil
  then show ?case by simp
next
  case (snoc d ds)
  then have "be_value ds < 256 ^ length ds" and "d < 256" by auto
  then have "be_value ds * 256 + d < 256 ^ length ds * 256" by linarith
  then show ?case by (simp add: mult.commute)
qed

lemma unat_byte_lt: "unat (b :: u8) < 256"
  using unat_bound [of b] by simp

lemma length_to_be [simp]: "length (to_be n w) = n"
  by (simp add: to_be_def)

lemma from_to_be:
  fixes w :: "'a::len word"
  assumes "LENGTH('a) \<le> 8 * n"
  shows "from_be (to_be n w) = w"
proof -
  have p: "(256::nat) ^ n = 2 ^ (8 * n)" by (simp add: power_mult)
  have "map (unat \<circ> (of_nat :: nat \<Rightarrow> u8)) (be_digits n (unat w)) = be_digits n (unat w)"
    by (rule map_idI) (auto dest: be_digits_lt simp: unat_of_nat)
  then have "from_be (to_be n w) = (of_nat (unat w mod 2 ^ (8 * n)) :: 'a word)"
    by (simp add: from_be_def to_be_def be_value_digits p)
  also have "unat w mod 2 ^ (8 * n) = unat w"
    using unat_bound [of w] assms
    by (metis mod_less order_less_le_trans one_le_numeral power_increasing)
  finally show ?thesis by simp
qed

lemma to_from_be:
  assumes "length bs = n" and "8 * n \<le> LENGTH('a::len)"
  shows "to_be n (from_be bs :: 'a word) = bs"
proof -
  let ?ds = "map unat bs"
  have small: "\<forall>d\<in>set ?ds. d < 256" by (auto simp: unat_byte_lt)
  have "be_value ?ds < 256 ^ n" using be_value_lt [OF small] assms(1) by simp
  also have "(256::nat) ^ n = 2 ^ (8 * n)" by (simp add: power_mult)
  also have "(2::nat) ^ (8 * n) \<le> 2 ^ LENGTH('a)" using assms(2) by (simp add: power_increasing)
  finally have "unat (of_nat (be_value ?ds) :: 'a word) = be_value ?ds"
    by (simp add: unat_of_nat)
  then have "to_be n (from_be bs :: 'a word) = map of_nat (be_digits (length ?ds) (be_value ?ds))"
    using assms(1) by (simp add: to_be_def from_be_def)
  also have "\<dots> = bs" unfolding be_digits_value [OF small] by (simp add: comp_def)
  finally show ?thesis .
qed

lemmas from_to_be_16 [simp] = from_to_be [where 'a = 16 and n = 2, simplified]
lemmas from_to_be_32 [simp] = from_to_be [where 'a = 32 and n = 4, simplified]
lemmas from_to_be_64 [simp] = from_to_be [where 'a = 64 and n = 8, simplified]
lemmas to_from_be_16 = to_from_be [where 'a = 16 and n = 2, simplified]
lemmas to_from_be_32 = to_from_be [where 'a = 32 and n = 4, simplified]
lemmas to_from_be_64 = to_from_be [where 'a = 64 and n = 8, simplified]

section \<open>Hash maps\<close>

text \<open>
  A \<open>HashMap\<close> whose length or iteration matters is an association list with distinct keys; the
  order of the list is the (unspecified) iteration order, so a theorem over every list holds for
  every order. Maps that are only looked up and updated are plain partial functions.
\<close>

type_synonym ('k, 'v) hashmap = "('k \<times> 'v) list"

definition hm_ok :: "('k, 'v) hashmap \<Rightarrow> bool" where
  "hm_ok m \<longleftrightarrow> distinct (map fst m)"

definition hm_insert :: "'k \<Rightarrow> 'v \<Rightarrow> ('k, 'v) hashmap \<Rightarrow> ('k, 'v) hashmap" where
  "hm_insert k v m = AList.update k v m"

definition hm_remove :: "'k \<Rightarrow> ('k, 'v) hashmap \<Rightarrow> ('k, 'v) hashmap" where
  "hm_remove k m = AList.delete k m"

definition hm_retain :: "('k \<Rightarrow> 'v \<Rightarrow> bool) \<Rightarrow> ('k, 'v) hashmap \<Rightarrow> ('k, 'v) hashmap" where
  "hm_retain P m = filter (\<lambda>(k, v). P k v) m"

text \<open>The contract of a hash map: what a lookup returns after each update, and its length.\<close>

locale hash_table =
  fixes valid :: "'m \<Rightarrow> bool"
    and get :: "'m \<Rightarrow> 'k \<Rightarrow> 'v option"
    and insert :: "'k \<Rightarrow> 'v \<Rightarrow> 'm \<Rightarrow> 'm"
    and remove :: "'k \<Rightarrow> 'm \<Rightarrow> 'm"
    and retain :: "('k \<Rightarrow> 'v \<Rightarrow> bool) \<Rightarrow> 'm \<Rightarrow> 'm"
    and len :: "'m \<Rightarrow> nat"
  assumes get_insert: "get (insert k v m) = (get m)(k \<mapsto> v)"
    and get_remove: "get (remove k m) = (get m)(k := None)"
    and get_retain: "valid m \<Longrightarrow>
          get (retain P m) k = (case get m k of None \<Rightarrow> None | Some v \<Rightarrow> if P k v then Some v else None)"
    and valid_insert: "valid m \<Longrightarrow> valid (insert k v m)"
    and valid_remove: "valid m \<Longrightarrow> valid (remove k m)"
    and valid_retain: "valid m \<Longrightarrow> valid (retain P m)"
    and len_card: "valid m \<Longrightarrow> len m = card (dom (get m)) \<and> finite (dom (get m))"
begin

lemma dom_retain_subset: "valid m \<Longrightarrow> dom (get (retain P m)) \<subseteq> dom (get m)"
  by (auto simp: get_retain split: option.splits)

lemma len_retain_le: "valid m \<Longrightarrow> len (retain P m) \<le> len m"
  using len_card [of m] len_card [of "retain P m"] dom_retain_subset [of m P]
  by (simp add: valid_retain card_mono)

lemma len_insert_present: "valid m \<Longrightarrow> get m k \<noteq> None \<Longrightarrow> len (insert k v m) = len m"
  using len_card [of m] len_card [of "insert k v m"]
  by (auto simp: valid_insert get_insert insert_absorb domIff)

lemma len_insert_fresh: "valid m \<Longrightarrow> get m k = None \<Longrightarrow> len (insert k v m) = Suc (len m)"
  using len_card [of m] len_card [of "insert k v m"]
  by (auto simp: valid_insert get_insert domIff)

lemma len_insert_le: "valid m \<Longrightarrow> len (insert k v m) \<le> Suc (len m)"
  by (cases "get m k") (simp_all add: len_insert_present len_insert_fresh)

end

lemma map_of_filter_distinct:
  "distinct (map fst m) \<Longrightarrow>
   map_of (filter (\<lambda>(k, v). P k v) m) k =
     (case map_of m k of None \<Rightarrow> None | Some v \<Rightarrow> if P k v then Some v else None)"
  by (induction m) (auto split: option.splits simp: map_of_eq_None_iff dest: map_of_SomeD)

interpretation hm: hash_table hm_ok map_of hm_insert hm_remove hm_retain length
proof (unfold_locales, goal_cases)
  case (1 k v m)
  show ?case by (simp add: hm_insert_def AList.update_conv')
next
  case (2 k m)
  show ?case by (simp add: hm_remove_def AList.delete_conv')
next
  case (3 m P k)
  then show ?case by (simp add: hm_ok_def hm_retain_def map_of_filter_distinct)
next
  case (4 m k v)
  then show ?case by (simp add: hm_ok_def hm_insert_def AList.distinct_update)
next
  case (5 m k)
  then show ?case by (simp add: hm_ok_def hm_remove_def AList.distinct_delete)
next
  case (6 m P)
  then show ?case by (simp add: hm_ok_def hm_retain_def distinct_map_filter)
next
  case (7 m)
  then have "card (set (map fst m)) = length (map fst m)"
    by (simp add: hm_ok_def distinct_card del: set_map length_map)
  then show ?case by (simp add: dom_map_of_conv_image_fst)
qed

lemma hm_ok_Nil [simp]: "hm_ok []"
  by (simp add: hm_ok_def)

lemmas hm_get = hm.get_insert hm.get_remove hm.get_retain
lemmas hm_valid = hm.valid_insert hm.valid_remove hm.valid_retain

section \<open>Interfaces\<close>

subsection \<open>Byte formats\<close>

text \<open>
  A format that covers a complete message: decoding inverts encoding on valid values, and a
  message that decodes is the encoding of what it decodes to, so a message has one byte string.
\<close>

locale wire_format =
  fixes valid :: "'a \<Rightarrow> bool"
    and enc :: "'a \<Rightarrow> bytes"
    and dec :: "bytes \<Rightarrow> 'e + 'a"
  assumes dec_enc: "valid x \<Longrightarrow> dec (enc x) = Inr x"
    and dec_sound: "dec bs = Inr x \<Longrightarrow> valid x \<and> enc x = bs"
begin

lemma enc_inj: "valid x \<Longrightarrow> valid y \<Longrightarrow> enc x = enc y \<Longrightarrow> x = y"
  by (metis dec_enc sum.inject(2))

lemma dec_inj: "dec bs = Inr x \<Longrightarrow> dec cs = Inr x \<Longrightarrow> bs = cs"
  using dec_sound [of bs x] dec_sound [of cs x] by simp

lemma dec_iff: "dec bs = Inr x \<longleftrightarrow> valid x \<and> enc x = bs"
  using dec_enc [of x] dec_sound [of bs x] by auto

end

text \<open>
  A fixed-size header at the front of a longer message. The second law says the header is
  canonical; from both the framing of a header and its payload is a byte format.
\<close>

locale header_format =
  fixes size :: nat
    and enc :: "'a \<Rightarrow> bytes"
    and dec :: "bytes \<Rightarrow> 'e + 'a"
  assumes length_enc: "length (enc x) = size"
    and dec_enc_append: "dec (enc x @ rest) = Inr x"
    and dec_canonical: "dec bs = Inr x \<Longrightarrow> size \<le> length bs \<and> take size bs = enc x"
begin

lemma dec_prefix: "dec bs = Inr x \<Longrightarrow> bs = enc x @ drop size bs"
  using dec_canonical [of bs x] by (metis append_take_drop_id)

lemma dec_enc_only: "dec (enc x) = Inr x"
  using dec_enc_append [of x "[]"] by simp

lemma enc_inj: "enc x = enc y \<Longrightarrow> x = y"
  by (metis dec_enc_only sum.inject(2))

lemma framed_dec_enc: "dec (enc h @ p) = Inr h \<and> drop size (enc h @ p) = p"
  by (simp add: dec_enc_append length_enc)

end

subsection \<open>State machines with an invariant\<close>

locale invariant_machine =
  fixes step :: "'s \<Rightarrow> 'e \<Rightarrow> 's"
    and inv :: "'s \<Rightarrow> bool"
  assumes step_inv: "inv s \<Longrightarrow> inv (step s e)"
begin

lemma run_inv: "inv s \<Longrightarrow> inv (foldl step s es)"
  by (induction es arbitrary: s) (auto intro: step_inv)

lemma run_inv_prefix: "inv s \<Longrightarrow> inv (foldl step s (take n es))"
  by (rule run_inv)

end

subsection \<open>Machines with outputs\<close>

fun run_outputs :: "('s \<Rightarrow> 'i \<Rightarrow> 'o \<times> 's) \<Rightarrow> 's \<Rightarrow> 'i list \<Rightarrow> 'o list" where
  "run_outputs step s [] = []"
| "run_outputs step s (i # rest) = (let (out, s') = step s i in out # run_outputs step s' rest)"

text \<open>
  Two machines related by \<open>rel\<close> that answer every input alike, so they cannot be told apart by any
  sequence of inputs.
\<close>

locale bisimilar =
  fixes step1 :: "'s \<Rightarrow> 'i \<Rightarrow> 'o \<times> 's"
    and step2 :: "'t \<Rightarrow> 'i \<Rightarrow> 'o \<times> 't"
    and rel :: "'s \<Rightarrow> 't \<Rightarrow> bool"
  assumes same_output: "rel s t \<Longrightarrow> fst (step1 s i) = fst (step2 t i)"
    and rel_step: "rel s t \<Longrightarrow> rel (snd (step1 s i)) (snd (step2 t i))"
begin

lemma same_outputs: "rel s t \<Longrightarrow> run_outputs step1 s inputs = run_outputs step2 t inputs"
proof (induction inputs arbitrary: s t)
  case Nil
  then show ?case by simp
next
  case (Cons i inputs)
  from Cons.IH [OF rel_step [OF Cons.prems]] same_output [OF Cons.prems] show ?case
    by (simp add: Let_def split_beta)
qed

end

subsection \<open>Sources of sequence numbers\<close>

text \<open>
  \<open>used s i\<close> is the sequence number a step consumes, if it consumes one. Over a whole run the
  consumed numbers strictly increase, so none is used twice.
\<close>

fun trace_used :: "('s \<Rightarrow> 'i \<Rightarrow> 's) \<Rightarrow> ('s \<Rightarrow> 'i \<Rightarrow> nat option) \<Rightarrow> 's \<Rightarrow> 'i list \<Rightarrow> nat list" where
  "trace_used step used s [] = []"
| "trace_used step used s (i # is) =
     (case used s i of None \<Rightarrow> [] | Some n \<Rightarrow> [n]) @ trace_used step used (step s i) is"

locale sequence_source =
  fixes step :: "'s \<Rightarrow> 'i \<Rightarrow> 's"
    and used :: "'s \<Rightarrow> 'i \<Rightarrow> nat option"
    and nxt :: "'s \<Rightarrow> nat"
  assumes used_next: "used s i = Some n \<Longrightarrow> n = nxt s \<and> nxt (step s i) = Suc n"
    and unused_keeps: "used s i = None \<Longrightarrow> nxt (step s i) = nxt s"
begin

lemma nxt_mono: "nxt s \<le> nxt (step s i)"
  by (cases "used s i") (auto dest: used_next unused_keeps)

lemma trace_used_ge: "n \<in> set (trace_used step used s is) \<Longrightarrow> nxt s \<le> n"
proof (induction "is" arbitrary: s)
  case Nil
  then show ?case by simp
next
  case (Cons i "is")
  from Cons.prems consider "used s i = Some n" | "n \<in> set (trace_used step used (step s i) is)"
    by (auto split: option.splits)
  then show ?case
  proof cases
    case 1
    then show ?thesis using used_next by simp
  next
    case 2
    then show ?thesis using Cons.IH [of "step s i"] nxt_mono [of s i] by simp
  qed
qed

lemma trace_used_increasing: "sorted_wrt (<) (trace_used step used s is)"
proof (induction "is" arbitrary: s)
  case Nil
  then show ?case by simp
next
  case (Cons i "is")
  have "\<forall>m\<in>set (trace_used step used (step s i) is). nxt (step s i) \<le> m"
    using trace_used_ge by blast
  with Cons show ?case
    by (cases "used s i") (auto dest!: used_next simp: Suc_le_eq)
qed

lemma trace_used_distinct: "distinct (trace_used step used s is)"
  using trace_used_increasing strict_sorted_iff by blast

end

end
