(* ===== verification/Replay.thy ===== *)
theory Replay
  imports Prelude
begin

text \<open>
  The sliding receive window of \<^verbatim>\<open>src/crates/crypto/src/replay.rs\<close>: a circular bitmap of 129 words
  that remembers which of the last 8192 sequence numbers were authenticated. The specification is
  the set of sequence numbers accepted so far; the refinement lemma says that the bitmap answers
  exactly as the set does, for every history of packets.
\<close>

section \<open>The window\<close>

definition WINDOW_SIZE :: u64 where
  "WINDOW_SIZE = 8192"

definition WORD_BITS :: u64 where
  "WORD_BITS = 64"

definition WORD_COUNT :: nat where
  "WORD_COUNT = 129"

datatype ReplayError = Duplicate | TooOld

record ReplayWindow =
  highest :: "u64 option"
  seen :: "u64 list"

definition ReplayWindow_default :: ReplayWindow where
  "ReplayWindow_default = \<lparr>highest = None, seen = replicate WORD_COUNT 0\<rparr>"

text \<open>\<open>sequence % 64\<close> is at most 63, so the shift never overflows.\<close>

definition rw_mask :: "u64 \<Rightarrow> u64" where
  "rw_mask sequence = push_bit (unat (sequence mod WORD_BITS)) 1"

definition rw_index :: "u64 \<Rightarrow> nat" where
  "rw_index word = unat (word mod of_nat WORD_COUNT)"

text \<open>
  The bitmap always has \<^const>\<open>WORD_COUNT\<close> words (lemma \<open>length_seen\<close> below), so no index is out of
  range.
\<close>

definition ensure_acceptable :: "ReplayWindow \<Rightarrow> u64 \<Rightarrow> ReplayError + unit" where
  "ensure_acceptable w sequence =
     (case highest w of
        None \<Rightarrow> Inr ()
      | Some h \<Rightarrow>
          if sequence > h then Inr ()
          else if h - sequence \<ge> WINDOW_SIZE then Inl TooOld
          else if seen w ! rw_index (sequence div WORD_BITS) AND rw_mask sequence \<noteq> 0
          then Inl Duplicate
          else Inr ())"

text \<open>The loop \<open>for word in previous_word + 1..=next_word\<close>, over the words it visits in order.\<close>

fun clear_words :: "u64 list \<Rightarrow> u64 list \<Rightarrow> u64 list" where
  "clear_words [] s = s"
| "clear_words (word # words) s = clear_words words (s[rw_index word := 0])"

definition word_range :: "u64 \<Rightarrow> u64 \<Rightarrow> u64 list" where
  "word_range lo hi = map of_nat [unat lo ..< Suc (unat hi)]"

definition mark_authenticated :: "ReplayWindow \<Rightarrow> u64 \<Rightarrow> ReplayWindow" where
  "mark_authenticated w sequence =
     (let cleared =
        (case highest w of
           None \<Rightarrow> seen w
         | Some h \<Rightarrow>
             if sequence > h then
               let previous_word = h div WORD_BITS; next_word = sequence div WORD_BITS in
               if next_word - previous_word \<ge> of_nat WORD_COUNT then replicate (length (seen w)) 0
               else clear_words (word_range (previous_word + 1) next_word) (seen w)
             else seen w);
        i = rw_index (sequence div WORD_BITS);
        marked = cleared[i := cleared ! i OR rw_mask sequence]
      in
      w\<lparr>seen := marked,
        highest := (case highest w of
                      None \<Rightarrow> Some sequence
                    | Some h \<Rightarrow> if sequence > h then Some sequence else Some h)\<rparr>)"

text \<open>
  One packet as the receiving session treats it: the check, then (for a packet that authenticates)
  the mark.
\<close>

definition receive_authentic :: "ReplayWindow \<Rightarrow> u64 \<Rightarrow> ReplayWindow" where
  "receive_authentic w sequence =
     (case ensure_acceptable w sequence of Inl _ \<Rightarrow> w | Inr _ \<Rightarrow> mark_authenticated w sequence)"

section \<open>Specification: the set of accepted sequence numbers\<close>

definition spec_check :: "nat set \<Rightarrow> nat \<Rightarrow> ReplayError + unit" where
  "spec_check A s =
     (if A = {} \<or> Max A < s then Inr ()
      else if Max A - s \<ge> 8192 then Inl TooOld
      else if s \<in> A then Inl Duplicate
      else Inr ())"

definition spec_receive :: "nat set \<Rightarrow> nat \<Rightarrow> nat set" where
  "spec_receive A s = (case spec_check A s of Inl _ \<Rightarrow> A | Inr _ \<Rightarrow> insert s A)"

text \<open>
  The simulation relation. Below the highest number the bit of a sequence number is exact for the
  last \<^const>\<open>WORD_COUNT\<close> blocks of 64 numbers, which cover the window.
\<close>

definition window_bit :: "u64 list \<Rightarrow> nat \<Rightarrow> bool" where
  "window_bit ws s \<longleftrightarrow> bit (ws ! ((s div 64) mod 129)) (s mod 64)"

definition represents :: "ReplayWindow \<Rightarrow> nat set \<Rightarrow> bool" where
  "represents w A \<longleftrightarrow>
     length (seen w) = WORD_COUNT \<and> finite A \<and>
     (case highest w of
        None \<Rightarrow> A = {} \<and> seen w = replicate WORD_COUNT 0
      | Some h \<Rightarrow> A \<noteq> {} \<and> Max A = unat h \<and>
          (\<forall>s. s div 64 \<le> unat h div 64 \<and> unat h div 64 < s div 64 + 129 \<longrightarrow>
               window_bit (seen w) s = (s \<in> A)))"

section \<open>Words and bits\<close>

lemma unat_WORD_BITS_div: "unat (s div WORD_BITS) = unat s div 64"
  by (simp add: WORD_BITS_def unat_div)

lemma rw_index_nat: "rw_index w = unat w mod 129"
  by (simp add: rw_index_def WORD_COUNT_def unat_mod)

lemma rw_index_lt: "rw_index w < WORD_COUNT"
  by (simp add: rw_index_nat WORD_COUNT_def)

lemma bit_rw_mask: "bit (rw_mask s) n \<longleftrightarrow> n = unat s mod 64"
  by (auto simp: rw_mask_def WORD_BITS_def unat_mod bit_exp_iff)

lemma and_rw_mask: "x AND rw_mask s \<noteq> 0 \<longleftrightarrow> bit x (unat s mod 64)"
proof
  assume "x AND rw_mask s \<noteq> 0"
  then obtain n where "bit (x AND rw_mask s) n" by (auto simp: bit_eq_iff [of "x AND rw_mask s" 0])
  then show "bit x (unat s mod 64)" by (auto simp: bit_and_iff bit_rw_mask)
next
  assume "bit x (unat s mod 64)"
  then have "bit (x AND rw_mask s) (unat s mod 64)" by (simp add: bit_and_iff bit_rw_mask)
  then show "x AND rw_mask s \<noteq> 0" by auto
qed

lemma same_slot:
  assumes "a \<le> H" "H < a + 129" "b \<le> H" "H < b + 129" "a mod 129 = b mod (129::nat)"
  shows "a = b"
proof -
  have *: "x = y" if "x \<le> y" "y < x + 129" "x mod 129 = y mod (129::nat)" for x y
  proof -
    have "129 dvd y - x" using that(1,3) mod_eq_dvd_iff_nat [of x y 129] by simp
    moreover have "y - x < 129" using that(1,2) by simp
    ultimately show ?thesis using that(1) by (metis dvd_imp_le le_antisym le_neq_implies_less
        linorder_not_less zero_less_diff)
  qed
  show ?thesis using *[of a b] *[of b a] assms by linarith
qed

lemma length_clear_words [simp]: "length (clear_words ws s) = length s"
  by (induction ws s rule: clear_words.induct) auto

lemma nth_clear_words:
  "j < length s \<Longrightarrow>
   clear_words ws s ! j = (if j \<in> rw_index ` set ws then 0 else s ! j)"
  by (induction ws s rule: clear_words.induct) (auto simp: nth_list_update)

lemma set_word_range:
  "j \<in> rw_index ` set (word_range a b) \<longleftrightarrow> (\<exists>B. unat a \<le> B \<and> B \<le> unat b \<and> B mod 129 = j)"
proof -
  have *: "unat (of_nat B :: u64) = B" if "B \<le> unat b" for B
    using that unat_bound [of b] by (simp add: unat_of_nat)
  have "rw_index ` set (word_range a b) = (\<lambda>B. B mod 129) ` {unat a .. unat b}"
    unfolding word_range_def set_map image_image
    by (rule image_cong) (auto simp: rw_index_nat *)
  then show ?thesis by auto
qed

text \<open>
  \<open>exact c A H\<close>: in the blocks up to block \<open>H\<close> that the ring can hold, the bits of \<open>c\<close> are the
  members of \<open>A\<close>.
\<close>

definition exact :: "u64 list \<Rightarrow> nat set \<Rightarrow> nat \<Rightarrow> bool" where
  "exact c A H \<longleftrightarrow> length c = 129 \<and>
     (\<forall>x. x div 64 \<le> H \<and> H < x div 64 + 129 \<longrightarrow> window_bit c x = (x \<in> A))"

lemma exact_mark:
  assumes "exact c A H" and "unat s div 64 \<le> H" and "H < unat s div 64 + 129"
  shows "exact (c[rw_index (s div WORD_BITS) := c ! rw_index (s div WORD_BITS) OR rw_mask s])
           (insert (unat s) A) H"
proof -
  let ?i = "unat s div 64 mod 129"
  have i: "rw_index (s div WORD_BITS) = ?i" by (simp add: rw_index_nat unat_WORD_BITS_div)
  have len: "length c = 129" using assms(1) by (simp add: exact_def)
  have "window_bit (c[?i := c ! ?i OR rw_mask s]) x = (x = unat s \<or> x \<in> A)"
    if x: "x div 64 \<le> H" "H < x div 64 + 129" for x
  proof (cases "x div 64 mod 129 = ?i")
    case True
    then have "x div 64 = unat s div 64" using same_slot x assms(2,3) by blast
    then have "x mod 64 = unat s mod 64 \<longleftrightarrow> x = unat s" by (metis div_mult_mod_eq)
    moreover have "window_bit c x = (x \<in> A)" using assms(1) x by (simp add: exact_def)
    ultimately show ?thesis
      using True len by (simp add: window_bit_def bit_or_iff bit_rw_mask) blast
  next
    case False
    then show ?thesis using assms(1) x by (auto simp: window_bit_def exact_def)
  qed
  with len show ?thesis by (simp add: exact_def i)
qed

lemma exact_zero: "finite A \<Longrightarrow> \<forall>a\<in>A. a div 64 + 129 \<le> H \<Longrightarrow> exact (replicate 129 0) A H"
  by (auto simp: exact_def window_bit_def)

lemma exact_clear:
  assumes "exact c A H" and "\<forall>a\<in>A. a div 64 \<le> H" and "H < H'" and "H' < H + 129"
    and "unat lo = H + 1" and "unat hi = H'"
  shows "exact (clear_words (word_range lo hi) c) A H'"
proof -
  have len: "length c = 129" using assms(1) by (simp add: exact_def)
  have "window_bit (clear_words (word_range lo hi) c) x = (x \<in> A)"
    if x: "x div 64 \<le> H'" "H' < x div 64 + 129" for x
  proof (cases "x div 64 \<le> H")
    case True
    have "\<not> (\<exists>B. H + 1 \<le> B \<and> B \<le> H' \<and> B mod 129 = x div 64 mod 129)"
    proof
      assume "\<exists>B. H + 1 \<le> B \<and> B \<le> H' \<and> B mod 129 = x div 64 mod 129"
      then obtain B where B: "H + 1 \<le> B" "B \<le> H'" "B mod 129 = x div 64 mod 129" by blast
      then have "B = x div 64" using same_slot [of B H' "x div 64"] x assms(4) by linarith
      with True B show False by simp
    qed
    then have "x div 64 mod 129 \<notin> rw_index ` set (word_range lo hi)"
      by (simp add: set_word_range assms(5,6))
    then have "clear_words (word_range lo hi) c ! (x div 64 mod 129) = c ! (x div 64 mod 129)"
      using len by (simp add: nth_clear_words)
    moreover have "window_bit c x = (x \<in> A)"
      using assms(1,3) True x by (simp add: exact_def)
    ultimately show ?thesis by (simp add: window_bit_def)
  next
    case False
    then have "x div 64 mod 129 \<in> rw_index ` set (word_range lo hi)"
      using x by (auto simp: set_word_range assms(5,6) intro!: exI [of _ "x div 64"])
    then have "clear_words (word_range lo hi) c ! (x div 64 mod 129) = 0"
      using len by (auto simp: nth_clear_words)
    moreover have "x \<notin> A" using False assms(2) by auto
    ultimately show ?thesis by (simp add: window_bit_def)
  qed
  with len show ?thesis by (simp add: exact_def)
qed

section \<open>Simulation\<close>

lemma represents_None: "represents \<lparr>highest = None, seen = ws\<rparr> A \<longleftrightarrow> A = {} \<and> ws = replicate 129 0"
  by (auto simp: represents_def WORD_COUNT_def)

lemma represents_Some:
  "highest w = Some h \<Longrightarrow>
   represents w A \<longleftrightarrow> finite A \<and> A \<noteq> {} \<and> Max A = unat h \<and> exact (seen w) A (unat h div 64)"
  by (auto simp: represents_def exact_def WORD_COUNT_def)

lemma represents_default: "represents ReplayWindow_default {}"
  by (simp add: represents_def ReplayWindow_default_def)

lemma length_seen: "represents w A \<Longrightarrow> length (seen w) = WORD_COUNT"
  by (simp add: represents_def)

text \<open>The check of the bitmap is the check of the set.\<close>

lemma ensure_acceptable_spec:
  assumes "represents w A"
  shows "ensure_acceptable w s = spec_check A (unat s)"
proof (cases "highest w")
  case None
  with assms show ?thesis by (simp add: ensure_acceptable_def spec_check_def represents_def)
next
  case (Some h)
  with assms have A: "A \<noteq> {}" "Max A = unat h" "exact (seen w) A (unat h div 64)"
    by (simp_all add: represents_Some)
  show ?thesis
  proof (cases "h < s")
    case True
    with Some A show ?thesis
      by (simp add: ensure_acceptable_def spec_check_def word_less_nat_alt)
  next
    case False
    then have le: "s \<le> h" "unat s \<le> unat h" by (simp_all add: word_le_nat_alt not_less)
    then have old: "WINDOW_SIZE \<le> h - s \<longleftrightarrow> 8192 \<le> unat h - unat s"
      by (simp add: WINDOW_SIZE_def word_le_nat_alt unat_sub)
    have dup: "seen w ! rw_index (s div WORD_BITS) AND rw_mask s \<noteq> 0 \<longleftrightarrow> unat s \<in> A"
      if "\<not> 8192 \<le> unat h - unat s"
    proof -
      have "unat s div 64 \<le> unat h div 64" using le(2) by (rule div_le_mono)
      moreover have "unat h div 64 < unat s div 64 + 129" using that le(2) by linarith
      ultimately have "window_bit (seen w) (unat s) = (unat s \<in> A)"
        using A(3) by (simp add: exact_def)
      then show ?thesis
        by (simp add: and_rw_mask rw_index_nat unat_WORD_BITS_div window_bit_def)
    qed
    show ?thesis
      using Some A le old dup False by (auto simp: ensure_acceptable_def spec_check_def)
  qed
qed

lemma exact_advance:
  assumes A: "finite A" "Max A = unat h" "A \<noteq> {}" and ex: "exact c A (unat h div 64)"
    and lt: "h < s"
  shows "exact (if s div WORD_BITS - h div WORD_BITS \<ge> of_nat WORD_COUNT then replicate (length c) 0
                else clear_words (word_range (h div WORD_BITS + 1) (s div WORD_BITS)) c)
           A (unat s div 64)"
proof -
  let ?H = "unat h div 64" and ?S = "unat s div 64"
  have mono: "?H \<le> ?S" using lt by (simp add: word_less_nat_alt div_le_mono)
  have below: "\<forall>a\<in>A. a div 64 \<le> ?H" using A(1,2) by (metis Max_ge div_le_mono)
  have "h div WORD_BITS \<le> s div WORD_BITS"
    using mono by (simp add: word_le_nat_alt unat_WORD_BITS_div)
  then have diff: "unat (s div WORD_BITS - h div WORD_BITS) = ?S - ?H"
    by (simp add: unat_sub unat_WORD_BITS_div)
  have far: "of_nat WORD_COUNT \<le> s div WORD_BITS - h div WORD_BITS \<longleftrightarrow> 129 \<le> ?S - ?H"
    by (simp add: word_le_nat_alt diff WORD_COUNT_def)
  have len: "length c = 129" using ex by (simp add: exact_def)
  show ?thesis
  proof (cases "129 \<le> ?S - ?H")
    case True
    then have "\<forall>a\<in>A. a div 64 + 129 \<le> ?S" using below by fastforce
    then show ?thesis using True far len A(1) by (simp add: exact_zero)
  next
    case False
    show ?thesis
    proof (cases "?H = ?S")
      case True
      have "unat (h div WORD_BITS + 1) = ?H + 1"
        using unat_bound [of h] by (simp add: unat_add_no_overflow unat_WORD_BITS_div)
      then have "word_range (h div WORD_BITS + 1) (s div WORD_BITS) = []"
        using True by (simp add: word_range_def unat_WORD_BITS_div)
      then show ?thesis using True ex far False by simp
    next
      case ne: False
      have near: "?S < ?H + 129" using False by linarith
      have "unat (h div WORD_BITS + 1) = ?H + 1"
        using unat_bound [of h] by (simp add: unat_add_no_overflow unat_WORD_BITS_div)
      then show ?thesis
        using exact_clear [OF ex below, of ?S "h div WORD_BITS + 1" "s div WORD_BITS"]
          ne mono near False far by (simp add: unat_WORD_BITS_div)
    qed
  qed
qed

text \<open>Marking an acceptable number adds it to the set.\<close>

lemma mark_authenticated_spec:
  assumes rep: "represents w A" and acc: "spec_check A (unat s) = Inr ()"
  shows "represents (mark_authenticated w s) (insert (unat s) A)"
proof (cases "highest w")
  case None
  with rep have A: "A = {}" and z: "seen w = replicate 129 0"
    by (simp_all add: represents_def WORD_COUNT_def)
  have "exact (seen w) A (unat s div 64)" by (simp add: z A exact_zero)
  from exact_mark [OF this] None A show ?thesis
    by (subst represents_Some [where h = s]) (simp_all add: mark_authenticated_def Let_def)
next
  case (Some h)
  with rep have A: "finite A" "A \<noteq> {}" "Max A = unat h" and ex: "exact (seen w) A (unat h div 64)"
    by (simp_all add: represents_Some)
  show ?thesis
  proof (cases "h < s")
    case True
    note adv = exact_mark [OF exact_advance [OF A(1,3,2) ex True]]
    have "Max (insert (unat s) A) = unat s"
      using A True by (simp add: word_less_nat_alt)
    with adv Some True A show ?thesis
      by (subst represents_Some [where h = s]) (simp_all add: mark_authenticated_def Let_def)
  next
    case False
    then have le: "unat s \<le> unat h" by (simp add: word_le_nat_alt not_less)
    with acc A have win: "unat h - unat s < 8192"
      by (auto simp: spec_check_def split: if_splits)
    have "unat s div 64 \<le> unat h div 64" using le by (rule div_le_mono)
    moreover have "unat h div 64 < unat s div 64 + 129" using win le by linarith
    moreover have "Max (insert (unat s) A) = unat h" using A le by simp
    ultimately show ?thesis
      using exact_mark [OF ex, of s] Some False A
      by (subst represents_Some [where h = h]) (simp_all add: mark_authenticated_def Let_def)
  qed
qed

lemma receive_authentic_spec:
  "represents w A \<Longrightarrow> represents (receive_authentic w s) (spec_receive A (unat s))"
  by (auto simp: receive_authentic_def spec_receive_def ensure_acceptable_spec
      intro: mark_authenticated_spec split: sum.splits)

section \<open>The interface the receiving sessions rely on\<close>

text \<open>
  The numbers that pass the filter over a stream of packets. Each packet carries its sequence
  number and whether it authenticates; only a packet that is acceptable and authenticates is marked.
\<close>

fun filter_trace ::
  "('w \<Rightarrow> u64 \<Rightarrow> 'e + unit) \<Rightarrow> ('w \<Rightarrow> u64 \<Rightarrow> 'w) \<Rightarrow> 'w \<Rightarrow> (u64 \<times> bool) list \<Rightarrow> u64 list" where
  "filter_trace check mark w [] = []"
| "filter_trace check mark w ((s, authentic) # ps) =
     (case check w s of
        Inl _ \<Rightarrow> filter_trace check mark w ps
      | Inr _ \<Rightarrow> if authentic then s # filter_trace check mark (mark w s) ps
               else filter_trace check mark w ps)"

locale replay_filter =
  fixes start :: 'w
    and check :: "'w \<Rightarrow> u64 \<Rightarrow> 'e + unit"
    and mark :: "'w \<Rightarrow> u64 \<Rightarrow> 'w"
    and rep :: "'w \<Rightarrow> nat set \<Rightarrow> bool"
  assumes rep_start: "rep start {}"
    and check_fresh: "rep w A \<Longrightarrow> check w s = Inr () \<Longrightarrow> unat s \<notin> A"
    and rep_mark: "rep w A \<Longrightarrow> check w s = Inr () \<Longrightarrow> rep (mark w s) (insert (unat s) A)"
begin

lemma filter_trace_fresh:
  "rep w A \<Longrightarrow> distinct (filter_trace check mark w ps) \<and> unat ` set (filter_trace check mark w ps) \<inter> A = {}"
proof (induction ps arbitrary: w A)
  case Nil
  then show ?case by simp
next
  case (Cons p ps)
  obtain s a where p: "p = (s, a)" by (cases p)
  show ?case
  proof (cases "check w s = Inr () \<and> a")
    case True
    from Cons.IH [OF rep_mark [OF Cons.prems]] True
    have "distinct (filter_trace check mark (mark w s) ps)"
      and "unat ` set (filter_trace check mark (mark w s) ps) \<inter> insert (unat s) A = {}" by auto
    moreover have "unat s \<notin> A" using check_fresh Cons.prems True by blast
    ultimately show ?thesis using True by (auto simp: p)
  next
    case False
    then have "filter_trace check mark w (p # ps) = filter_trace check mark w ps"
      by (cases "check w s") (auto simp: p)
    then show ?thesis using Cons.IH [OF Cons.prems] by simp
  qed
qed

lemma never_twice: "distinct (filter_trace check mark start ps)"
  using filter_trace_fresh [OF rep_start] by blast

end

lemma spec_check_fresh: "finite A \<Longrightarrow> spec_check A n = Inr () \<Longrightarrow> n \<notin> A"
  by (auto simp: spec_check_def split: if_splits dest: Max_ge)

interpretation rw: replay_filter ReplayWindow_default ensure_acceptable mark_authenticated represents
proof (unfold_locales, goal_cases)
  case 1
  show ?case by (rule represents_default)
next
  case (2 w A s)
  then show ?case using ensure_acceptable_spec spec_check_fresh by (fastforce simp: represents_def)
next
  case (3 w A s)
  then show ?case using ensure_acceptable_spec mark_authenticated_spec by simp
qed

section \<open>Properties\<close>

text \<open>
  C3. The circular bitmap answers exactly as the set of accepted sequence numbers does: after any
  history of authenticated packets, a sequence number is accepted, rejected as a duplicate or
  rejected as too old just when the set of the numbers accepted so far says so. The window is the
  8192 numbers of the code; the documents THREAT_MODEL and PROTOCOL still give 128 and 1024.
\<close>

theorem replay_window_refines_set:
  "ensure_acceptable (foldl receive_authentic ReplayWindow_default hs) s =
   spec_check (foldl spec_receive {} (map unat hs)) (unat s)"
proof -
  have "represents (foldl receive_authentic w hs) (foldl spec_receive A (map unat hs))"
    if "represents w A" for w A
    using that by (induction hs arbitrary: w A) (auto intro: receive_authentic_spec)
  from ensure_acceptable_spec [OF this [OF represents_default]] show ?thesis .
qed

text \<open>
  No sequence number passes the window twice, whatever the order, the duplicates and the
  forgeries in the stream of packets.
\<close>

lemma replay_never_accepts_twice:
  "distinct (filter_trace ensure_acceptable mark_authenticated ReplayWindow_default ps)"
  by (rule rw.never_twice)

end
