(* ===== verification/Keys.thy ===== *)
theory Keys
  imports Replay
begin

text \<open>
  Keys, key derivation and protocol contexts of the crate \<^verbatim>\<open>crypto\<close> (\<^verbatim>\<open>keys.rs\<close>, \<^verbatim>\<open>context.rs\<close>,
  \<^verbatim>\<open>error.rs\<close>). The primitives come from other crates (\<^verbatim>\<open>x25519-dalek\<close>, \<^verbatim>\<open>hkdf\<close>, \<^verbatim>\<open>sha2\<close>,
  \<^verbatim>\<open>snow\<close>) and are the fields of a record that the definitions take as an argument. Erasing
  secrets (\<open>Zeroize\<close>, \<open>Drop\<close>) has no effect on results and is not modelled.
\<close>

section \<open>Errors and keys\<close>

text \<open>An error of \<^verbatim>\<open>snow\<close> is opaque; it is represented by its message.\<close>

type_synonym SnowError = string

datatype CryptoError =
  Noise SnowError
| InvalidKeyLength nat
| MessageTooLarge nat nat
| InvalidSharedSecret
| MissingPeerStaticKey
| Replay ReplayError

definition KEY_LEN :: nat where
  "KEY_LEN = 32"

datatype SecretKey = SecretKey (sk_bytes: bytes)

datatype PublicKey = PublicKey (pk_bytes: bytes)

text \<open>The bytes of a Rust byte-string literal.\<close>

definition ascii :: "string \<Rightarrow> bytes" where
  "ascii s = map of_char s"

text \<open>
  The primitives: scalar multiplication and its base point, HKDF-SHA256 (salt, input key, info and
  output length; \<open>None\<close> when the length is refused) and SHA-256.
\<close>

record crypto_lib =
  x25519 :: "bytes \<Rightarrow> bytes \<Rightarrow> bytes"
  basepoint :: bytes
  hkdf_sha256 :: "bytes \<Rightarrow> bytes \<Rightarrow> bytes \<Rightarrow> nat \<Rightarrow> bytes option"
  sha256 :: "bytes \<Rightarrow> bytes"

definition SecretKey_public_key :: "crypto_lib \<Rightarrow> SecretKey \<Rightarrow> PublicKey" where
  "SecretKey_public_key L k = PublicKey (x25519 L (sk_bytes k) (basepoint L))"

definition SecretKey_from_vec :: "bytes \<Rightarrow> CryptoError + SecretKey" where
  "SecretKey_from_vec bs =
     (if length bs = KEY_LEN then Inr (SecretKey bs) else Inl (InvalidKeyLength (length bs)))"

definition PublicKey_from_slice :: "bytes \<Rightarrow> CryptoError + PublicKey" where
  "PublicKey_from_slice bs =
     (if length bs = KEY_LEN then Inr (PublicKey bs) else Inl (InvalidKeyLength (length bs)))"

record KeyPair =
  kp_secret :: SecretKey
  kp_public :: PublicKey

text \<open>
  \<open>generated\<close> is what \<^verbatim>\<open>Builder::generate_keypair\<close> returned for the parsed Noise parameters: the
  private and the public bytes, or an error.
\<close>

definition KeyPair_generate :: "SnowError + bytes \<times> bytes \<Rightarrow> CryptoError + KeyPair" where
  "KeyPair_generate generated =
     bind_r (map_err Noise generated) (\<lambda>(private, public).
     bind_r (SecretKey_from_vec private) (\<lambda>secret.
     bind_r (PublicKey_from_slice public) (\<lambda>pub.
       Inr \<lparr>kp_secret = secret, kp_public = pub\<rparr>)))"

section \<open>Wire keys\<close>

definition MORPH_KEY_LABEL :: bytes where
  "MORPH_KEY_LABEL = ascii ''MouseVPN MouseMorph v2 key''"

definition SPEEDY_KEY_LABEL :: bytes where
  "SPEEDY_KEY_LABEL = ascii ''MouseVPN Speedy v1 key''"

definition derive_wire_key ::
  "crypto_lib \<Rightarrow> SecretKey \<Rightarrow> PublicKey \<Rightarrow> PublicKey \<Rightarrow> PublicKey \<Rightarrow> bytes \<Rightarrow> CryptoError + bytes" where
  "derive_wire_key L local_secret peer_public server_public client_public label =
     (let shared = x25519 L (sk_bytes local_secret) (pk_bytes peer_public) in
      if shared = replicate KEY_LEN 0 then Inl InvalidSharedSecret
      else
        let info = pk_bytes server_public @ pk_bytes client_public in
        case hkdf_sha256 L label shared info KEY_LEN of
          None \<Rightarrow> Inl (InvalidKeyLength KEY_LEN)
        | Some output \<Rightarrow> Inr output)"

definition derive_morph_key ::
  "crypto_lib \<Rightarrow> SecretKey \<Rightarrow> PublicKey \<Rightarrow> PublicKey \<Rightarrow> PublicKey \<Rightarrow> CryptoError + bytes" where
  "derive_morph_key L local_secret peer_public server_public client_public =
     derive_wire_key L local_secret peer_public server_public client_public MORPH_KEY_LABEL"

definition derive_speedy_key ::
  "crypto_lib \<Rightarrow> SecretKey \<Rightarrow> PublicKey \<Rightarrow> PublicKey \<Rightarrow> PublicKey \<Rightarrow> CryptoError + bytes" where
  "derive_speedy_key L local_secret peer_public server_public client_public =
     derive_wire_key L local_secret peer_public server_public client_public SPEEDY_KEY_LABEL"

section \<open>Protocol contexts\<close>

datatype ProtocolContext = ProtocolContext (context_bytes: bytes)

definition CONTEXT_LABEL :: bytes where
  "CONTEXT_LABEL = ascii (''MouseVPN deployment context v1'' @ [CHR 0x00])"

definition SPEEDY_CONTEXT_LABEL :: bytes where
  "SPEEDY_CONTEXT_LABEL = ascii (''MouseVPN Speedy v1 context'' @ [CHR 0x00])"

definition for_server :: "crypto_lib \<Rightarrow> PublicKey \<Rightarrow> ProtocolContext" where
  "for_server L server_public = ProtocolContext (sha256 L (CONTEXT_LABEL @ pk_bytes server_public))"

definition for_speedy_server :: "crypto_lib \<Rightarrow> PublicKey \<Rightarrow> ProtocolContext" where
  "for_speedy_server L server_public =
     ProtocolContext (sha256 L (SPEEDY_CONTEXT_LABEL @ pk_bytes server_public))"

section \<open>Lemmas\<close>

text \<open>The Diffie--Hellman law of X25519: both sides compute the same shared secret.\<close>

definition dh_commutes :: "crypto_lib \<Rightarrow> bool" where
  "dh_commutes L \<longleftrightarrow>
     (\<forall>a b. x25519 L a (x25519 L b (basepoint L)) = x25519 L b (x25519 L a (basepoint L)))"

lemma derive_wire_key_agrees:
  "dh_commutes L \<Longrightarrow>
   derive_wire_key L client (SecretKey_public_key L server) sp cp label =
   derive_wire_key L server (SecretKey_public_key L client) sp cp label"
  by (simp add: derive_wire_key_def SecretKey_public_key_def dh_commutes_def)

lemmas derive_key_agrees =
  derive_wire_key_agrees [where label = MORPH_KEY_LABEL, folded derive_morph_key_def]
  derive_wire_key_agrees [where label = SPEEDY_KEY_LABEL, folded derive_speedy_key_def]

lemma PublicKey_from_slice_Inr [result_simps]:
  "PublicKey_from_slice bs = Inr k \<longleftrightarrow> length bs = 32 \<and> k = PublicKey bs"
  by (auto simp: PublicKey_from_slice_def KEY_LEN_def)

lemma SecretKey_from_vec_Inr [result_simps]:
  "SecretKey_from_vec bs = Inr k \<longleftrightarrow> length bs = 32 \<and> k = SecretKey bs"
  by (auto simp: SecretKey_from_vec_def KEY_LEN_def)

lemma KeyPair_generate_length:
  "KeyPair_generate g = Inr kp \<Longrightarrow>
   length (sk_bytes (kp_secret kp)) = KEY_LEN \<and> length (pk_bytes (kp_public kp)) = KEY_LEN"
  by (auto simp: KeyPair_generate_def KEY_LEN_def result_simps)

lemma context_labels_length: "length CONTEXT_LABEL = 31" "length SPEEDY_CONTEXT_LABEL = 27"
  by (simp_all add: CONTEXT_LABEL_def SPEEDY_CONTEXT_LABEL_def ascii_def)

text \<open>
  Legacy and Speedy handshakes are domain separated: over keys of the same length the two contexts
  digest different inputs.
\<close>

lemma context_preimages_differ:
  assumes "length (pk_bytes k) = KEY_LEN" and "length (pk_bytes k') = KEY_LEN"
  shows "CONTEXT_LABEL @ pk_bytes k \<noteq> SPEEDY_CONTEXT_LABEL @ pk_bytes k'"
proof
  assume "CONTEXT_LABEL @ pk_bytes k = SPEEDY_CONTEXT_LABEL @ pk_bytes k'"
  from arg_cong [OF this, of length] assms show False by (simp add: context_labels_length)
qed

end
