(* ===== verification/Session.thy ===== *)
theory Session
  imports Keys
begin

text \<open>
  Established sessions of the crate \<^verbatim>\<open>crypto\<close> (\<^verbatim>\<open>session.rs\<close>): encryption with an explicit sequence
  number, authenticated decryption behind the replay window, and the two halves a session splits
  into. The Noise transport state of \<^verbatim>\<open>snow\<close> is a value of type \<open>Transport\<close>: its two functions take
  the nonce, the input and the length of the output buffer, and return the bytes they write.
\<close>

section \<open>Transport state\<close>

record Transport =
  tr_write :: "u64 \<Rightarrow> bytes \<Rightarrow> nat \<Rightarrow> SnowError + bytes"
  tr_read :: "u64 \<Rightarrow> bytes \<Rightarrow> nat \<Rightarrow> SnowError + bytes"

definition AUTH_TAG_LEN :: nat where
  "AUTH_TAG_LEN = 16"

definition MAX_NOISE_MESSAGE_LEN :: nat where
  "MAX_NOISE_MESSAGE_LEN = 65535"

definition MAX_PLAINTEXT_LEN :: nat where
  "MAX_PLAINTEXT_LEN = MAX_NOISE_MESSAGE_LEN - AUTH_TAG_LEN"

section \<open>Encryption and decryption\<close>

definition encrypt_into :: "Transport \<Rightarrow> u64 \<Rightarrow> bytes \<Rightarrow> nat \<Rightarrow> CryptoError + bytes" where
  "encrypt_into transport sequence plaintext room =
     (if length plaintext > MAX_PLAINTEXT_LEN
      then Inl (MessageTooLarge (length plaintext) MAX_PLAINTEXT_LEN)
      else map_err Noise (tr_write transport sequence plaintext room))"

definition decrypt_into ::
  "Transport \<Rightarrow> ReplayWindow \<Rightarrow> u64 \<Rightarrow> bytes \<Rightarrow> nat \<Rightarrow> (CryptoError + bytes) \<times> ReplayWindow" where
  "decrypt_into transport window sequence ciphertext room =
     (if length ciphertext > MAX_NOISE_MESSAGE_LEN
      then (Inl (MessageTooLarge (length ciphertext) MAX_NOISE_MESSAGE_LEN), window)
      else case ensure_acceptable window sequence of
        Inl e \<Rightarrow> (Inl (Replay e), window)
      | Inr _ \<Rightarrow>
          (case tr_read transport sequence ciphertext room of
             Inl e \<Rightarrow> (Inl (Noise e), window)
           | Inr plaintext \<Rightarrow> (Inr plaintext, mark_authenticated window sequence)))"

record SecureSession =
  ss_transport :: Transport
  ss_receive_window :: ReplayWindow
  ss_peer_static_key :: PublicKey

definition SecureSession_new :: "Transport \<Rightarrow> PublicKey \<Rightarrow> SecureSession" where
  "SecureSession_new transport peer =
     \<lparr>ss_transport = transport, ss_receive_window = ReplayWindow_default, ss_peer_static_key = peer\<rparr>"

definition SecureSession_encrypt :: "SecureSession \<Rightarrow> u64 \<Rightarrow> bytes \<Rightarrow> CryptoError + bytes" where
  "SecureSession_encrypt s sequence plaintext =
     encrypt_into (ss_transport s) sequence plaintext (length plaintext + AUTH_TAG_LEN)"

definition SecureSession_decrypt ::
  "SecureSession \<Rightarrow> u64 \<Rightarrow> bytes \<Rightarrow> (CryptoError + bytes) \<times> SecureSession" where
  "SecureSession_decrypt s sequence ciphertext =
     (let (r, window) = decrypt_into (ss_transport s) (ss_receive_window s) sequence ciphertext
                          (length ciphertext)
      in (r, s\<lparr>ss_receive_window := window\<rparr>))"

record SendHalf =
  sh_transport :: Transport
  sh_peer_static_key :: PublicKey

record ReceiveHalf =
  rh_transport :: Transport
  rh_receive_window :: ReplayWindow
  rh_peer_static_key :: PublicKey

definition SecureSession_split :: "SecureSession \<Rightarrow> SendHalf \<times> ReceiveHalf" where
  "SecureSession_split s =
     (\<lparr>sh_transport = ss_transport s, sh_peer_static_key = ss_peer_static_key s\<rparr>,
      \<lparr>rh_transport = ss_transport s, rh_receive_window = ss_receive_window s,
       rh_peer_static_key = ss_peer_static_key s\<rparr>)"

definition SendHalf_encrypt_into :: "SendHalf \<Rightarrow> u64 \<Rightarrow> bytes \<Rightarrow> nat \<Rightarrow> CryptoError + bytes" where
  "SendHalf_encrypt_into h sequence plaintext room =
     encrypt_into (sh_transport h) sequence plaintext room"

definition ReceiveHalf_decrypt_into ::
  "ReceiveHalf \<Rightarrow> u64 \<Rightarrow> bytes \<Rightarrow> nat \<Rightarrow> (CryptoError + bytes) \<times> ReceiveHalf" where
  "ReceiveHalf_decrypt_into h sequence ciphertext room =
     (let (r, window) = decrypt_into (rh_transport h) (rh_receive_window h) sequence ciphertext room
      in (r, h\<lparr>rh_receive_window := window\<rparr>))"

section \<open>What the Noise transport promises\<close>

text \<open>
  \<open>noise_pair a b\<close>: what \<open>a\<close> writes has the sixteen-byte tag added and is read back by \<open>b\<close> under the
  same nonce, into any buffer with room for the plaintext. \<open>noise_live a\<close>: writing succeeds for
  every message that fits the buffer and the Noise limit, except under the reserved last nonce.
\<close>

definition noise_pair :: "Transport \<Rightarrow> Transport \<Rightarrow> bool" where
  "noise_pair a b \<longleftrightarrow>
     (\<forall>n p room c. tr_write a n p room = Inr c \<longrightarrow>
        length c = length p + AUTH_TAG_LEN \<and>
        (\<forall>room'. length p \<le> room' \<longrightarrow> tr_read b n c room' = Inr p))"

definition noise_live :: "Transport \<Rightarrow> bool" where
  "noise_live a \<longleftrightarrow>
     (\<forall>n p room. n \<noteq> - 1 \<and> length p + AUTH_TAG_LEN \<le> room \<and> length p \<le> MAX_PLAINTEXT_LEN \<longrightarrow>
        (\<exists>c. tr_write a n p room = Inr c))"

text \<open>A transport without secrecy that keeps both promises: sixteen zero bytes for the tag.\<close>

definition plain_transport :: Transport where
  "plain_transport =
     \<lparr>tr_write = (\<lambda>n p room. if length p + 16 \<le> room then Inr (p @ replicate 16 0) else Inl ''Input''),
      tr_read = (\<lambda>n c room. if length c - 16 \<le> room then Inr (take (length c - 16) c) else Inl ''Decrypt'')\<rparr>"

lemma plain_transport_pair: "noise_pair plain_transport plain_transport"
  by (auto simp: noise_pair_def plain_transport_def AUTH_TAG_LEN_def split: if_splits)

lemma plain_transport_live: "noise_live plain_transport"
  by (auto simp: noise_live_def plain_transport_def AUTH_TAG_LEN_def)

section \<open>Lemmas\<close>

lemma encrypt_into_Inr [result_simps]:
  "encrypt_into t n p room = Inr c \<longleftrightarrow> length p \<le> MAX_PLAINTEXT_LEN \<and> tr_write t n p room = Inr c"
  by (auto simp: encrypt_into_def result_simps)

lemma decrypt_into_cases:
  obtains (accepted) p where "decrypt_into t w n c room = (Inr p, mark_authenticated w n)"
      "length c \<le> MAX_NOISE_MESSAGE_LEN" "ensure_acceptable w n = Inr ()" "tr_read t n c room = Inr p"
  | (rejected) e where "decrypt_into t w n c room = (Inl e, w)"
proof (cases "fst (decrypt_into t w n c room)")
  case (Inl e)
  then show ?thesis using rejected
    by (auto simp: decrypt_into_def split: if_splits sum.splits)
next
  case (Inr p)
  then show ?thesis using accepted
    by (auto simp: decrypt_into_def split: if_splits sum.splits)
qed

lemma decrypt_into_Inr:
  assumes "decrypt_into t w n c room = (Inr p, w')"
  shows "ensure_acceptable w n = Inr () \<and> w' = mark_authenticated w n \<and> tr_read t n c room = Inr p"
  using assms by (cases rule: decrypt_into_cases [of t w n c room]) auto

lemma decrypt_into_Inl: "decrypt_into t w n c room = (Inl e, w') \<Longrightarrow> w' = w"
  by (cases rule: decrypt_into_cases [of t w n c room]) auto

lemma noise_pair_length:
  "noise_pair a b \<Longrightarrow> tr_write a n p room = Inr c \<Longrightarrow> length c = length p + AUTH_TAG_LEN"
  by (simp add: noise_pair_def)

lemma noise_pair_read:
  "noise_pair a b \<Longrightarrow> tr_write a n p room = Inr c \<Longrightarrow> length p \<le> room' \<Longrightarrow> tr_read b n c room' = Inr p"
  by (simp add: noise_pair_def)

lemma decrypt_into_encrypt_into:
  assumes "noise_pair a b" and "encrypt_into a n p room = Inr c"
    and "ensure_acceptable w n = Inr ()" and "length p \<le> room'"
  shows "decrypt_into b w n c room' = (Inr p, mark_authenticated w n)"
proof -
  from assms(2) have "length p \<le> MAX_PLAINTEXT_LEN" and wr: "tr_write a n p room = Inr c"
    by (simp_all add: result_simps)
  then have "length c \<le> MAX_NOISE_MESSAGE_LEN"
    using noise_pair_length [OF assms(1) wr]
    by (simp add: MAX_PLAINTEXT_LEN_def MAX_NOISE_MESSAGE_LEN_def AUTH_TAG_LEN_def)
  then show ?thesis
    using noise_pair_read [OF assms(1) wr assms(4)] assms(3) by (simp add: decrypt_into_def)
qed

text \<open>The halves compute what the whole session computes.\<close>

lemma split_encrypt:
  "SecureSession_split s = (snd_half, rcv_half) \<Longrightarrow>
   SendHalf_encrypt_into snd_half n p (length p + AUTH_TAG_LEN) = SecureSession_encrypt s n p"
  by (auto simp: SecureSession_split_def SendHalf_encrypt_into_def SecureSession_encrypt_def)

lemma split_decrypt:
  "SecureSession_split s = (snd_half, rcv_half) \<Longrightarrow>
   fst (ReceiveHalf_decrypt_into rcv_half n c (length c)) = fst (SecureSession_decrypt s n c)"
  by (auto simp: SecureSession_split_def ReceiveHalf_decrypt_into_def SecureSession_decrypt_def
      split: prod.splits)

section \<open>Streams of packets\<close>

text \<open>The sequence numbers whose packets a session delivers, over a stream of received packets.\<close>

fun delivered :: "SecureSession \<Rightarrow> (u64 \<times> bytes) list \<Rightarrow> u64 list" where
  "delivered s [] = []"
| "delivered s ((n, c) # ps) =
     (case SecureSession_decrypt s n c of
        (Inl _, s') \<Rightarrow> delivered s' ps
      | (Inr _, s') \<Rightarrow> n # delivered s' ps)"

text \<open>A session is a client of the replay filter: what it delivers is what passes the filter.\<close>

lemma delivered_filter_trace:
  "\<exists>qs. delivered s ps = filter_trace ensure_acceptable mark_authenticated (ss_receive_window s) qs"
proof (induction ps arbitrary: s)
  case Nil
  then show ?case by (auto intro: exI [of _ "[]"])
next
  case (Cons p ps)
  obtain n c where p: "p = (n, c)" by (cases p)
  show ?case
  proof (cases rule: decrypt_into_cases [of "ss_transport s" "ss_receive_window s" n c "length c"])
    case (accepted pt)
    obtain qs where "delivered (s\<lparr>ss_receive_window := mark_authenticated (ss_receive_window s) n\<rparr>) ps =
        filter_trace ensure_acceptable mark_authenticated (mark_authenticated (ss_receive_window s) n) qs"
      using Cons.IH [of "s\<lparr>ss_receive_window := mark_authenticated (ss_receive_window s) n\<rparr>"] by auto
    with accepted show ?thesis
      by (auto simp: p SecureSession_decrypt_def intro!: exI [of _ "(n, True) # qs"])
  next
    case (rejected e)
    with Cons.IH [of s] show ?thesis by (simp add: p SecureSession_decrypt_def)
  qed
qed

section \<open>Properties\<close>

text \<open>
  C4. A session delivers at most one packet per sequence number, over any stream of received
  packets, whatever the transport accepts.
\<close>

theorem session_delivers_once:
  "distinct (delivered (SecureSession_new transport peer) ps)"
proof -
  obtain qs where "delivered (SecureSession_new transport peer) ps =
      filter_trace ensure_acceptable mark_authenticated ReplayWindow_default qs"
    using delivered_filter_trace [of "SecureSession_new transport peer" ps]
    by (auto simp: SecureSession_new_def)
  then show ?thesis using rw.never_twice by simp
qed

text \<open>
  C5. The receive window moves only for packets that authenticate. Every received packet is either
  delivered, and then it was acceptable, the transport authenticated it and its sequence number is
  now marked, or it is refused and the session is exactly as it was: a forged sequence number cannot
  move the window.
\<close>

theorem window_moves_only_on_authentication:
  "(\<exists>p. SecureSession_decrypt s n c =
          (Inr p, s\<lparr>ss_receive_window := mark_authenticated (ss_receive_window s) n\<rparr>) \<and>
        ensure_acceptable (ss_receive_window s) n = Inr () \<and>
        tr_read (ss_transport s) n c (length c) = Inr p) \<or>
   (\<exists>e. SecureSession_decrypt s n c = (Inl e, s))"
  by (cases rule: decrypt_into_cases [of "ss_transport s" "ss_receive_window s" n c "length c"])
    (simp_all add: SecureSession_decrypt_def)

end
