(* ===== verification/Handshake.thy ===== *)
theory Handshake
  imports Session
begin

text \<open>
  The Noise IK handshake wrappers of the crate \<^verbatim>\<open>crypto\<close> (\<^verbatim>\<open>handshake.rs\<close>). The handshake state machine
  itself is \<^verbatim>\<open>snow\<close>'s; it is a record of functions over an abstract state, and what its documentation
  promises of a complete IK run is the predicate \<open>noise_ik\<close>.
\<close>

section \<open>The handshake library\<close>

text \<open>
  \<open>sn_initiator\<close> and \<open>sn_responder\<close> are the builder chains of \<^verbatim>\<open>ClientHandshake::new\<close> and
  \<^verbatim>\<open>ServerHandshake::new\<close> (parse the pattern, set the keys and the prologue, build). Writing and
  reading return the next state and the bytes written into a buffer of the given length.
\<close>

record 'h Snow =
  sn_initiator :: "bytes \<Rightarrow> bytes \<Rightarrow> bytes \<Rightarrow> SnowError + 'h"
  sn_responder :: "bytes \<Rightarrow> bytes \<Rightarrow> SnowError + 'h"
  sn_write :: "'h \<Rightarrow> bytes \<Rightarrow> nat \<Rightarrow> SnowError + 'h \<times> bytes"
  sn_read :: "'h \<Rightarrow> bytes \<Rightarrow> nat \<Rightarrow> SnowError + 'h \<times> bytes"
  sn_remote_static :: "'h \<Rightarrow> bytes option"
  sn_transport :: "'h \<Rightarrow> SnowError + Transport"

section \<open>Messages\<close>

definition write_handshake_message :: "'h Snow \<Rightarrow> 'h \<Rightarrow> bytes \<Rightarrow> CryptoError + 'h \<times> bytes" where
  "write_handshake_message S state payload =
     map_err Noise (sn_write S state payload MAX_NOISE_MESSAGE_LEN)"

definition read_handshake_message :: "'h Snow \<Rightarrow> 'h \<Rightarrow> bytes \<Rightarrow> CryptoError + 'h \<times> bytes" where
  "read_handshake_message S state message =
     (if length message > MAX_NOISE_MESSAGE_LEN
      then Inl (MessageTooLarge (length message) MAX_NOISE_MESSAGE_LEN)
      else map_err Noise (sn_read S state message (length message)))"

definition peer_static_key :: "'h Snow \<Rightarrow> 'h \<Rightarrow> CryptoError + PublicKey" where
  "peer_static_key S state =
     bind_r (ok_or MissingPeerStaticKey (sn_remote_static S state)) PublicKey_from_slice"

section \<open>Client\<close>

definition ClientHandshake_new ::
  "'h Snow \<Rightarrow> SecretKey \<Rightarrow> PublicKey \<Rightarrow> ProtocolContext \<Rightarrow> CryptoError + 'h" where
  "ClientHandshake_new S client_secret server_public context =
     map_err Noise (sn_initiator S (sk_bytes client_secret) (pk_bytes server_public)
                     (context_bytes context))"

definition ClientHandshake_write_initial :: "'h Snow \<Rightarrow> 'h \<Rightarrow> bytes \<Rightarrow> CryptoError + 'h \<times> bytes" where
  "ClientHandshake_write_initial S state payload = write_handshake_message S state payload"

definition ClientHandshake_finish ::
  "'h Snow \<Rightarrow> 'h \<Rightarrow> bytes \<Rightarrow> CryptoError + SecureSession \<times> bytes" where
  "ClientHandshake_finish S state response =
     bind_r (read_handshake_message S state response) (\<lambda>(state', payload).
     bind_r (peer_static_key S state') (\<lambda>peer.
     bind_r (map_err Noise (sn_transport S state')) (\<lambda>transport.
       Inr (SecureSession_new transport peer, payload))))"

section \<open>Server\<close>

definition ServerHandshake_new ::
  "'h Snow \<Rightarrow> SecretKey \<Rightarrow> ProtocolContext \<Rightarrow> CryptoError + 'h" where
  "ServerHandshake_new S server_secret context =
     map_err Noise (sn_responder S (sk_bytes server_secret) (context_bytes context))"

definition ServerHandshake_read_initial :: "'h Snow \<Rightarrow> 'h \<Rightarrow> bytes \<Rightarrow> CryptoError + 'h \<times> bytes" where
  "ServerHandshake_read_initial S state message = read_handshake_message S state message"

definition ServerHandshake_peer_static_key :: "'h Snow \<Rightarrow> 'h \<Rightarrow> PublicKey option" where
  "ServerHandshake_peer_static_key S state =
     (case sn_remote_static S state of
        None \<Rightarrow> None
      | Some bs \<Rightarrow> ok (PublicKey_from_slice bs))"

definition ServerHandshake_finish ::
  "'h Snow \<Rightarrow> 'h \<Rightarrow> bytes \<Rightarrow> CryptoError + SecureSession \<times> bytes" where
  "ServerHandshake_finish S state payload =
     bind_r (peer_static_key S state) (\<lambda>peer.
     bind_r (write_handshake_message S state payload) (\<lambda>(state', response).
     bind_r (map_err Noise (sn_transport S state')) (\<lambda>transport.
       Inr (SecureSession_new transport peer, response))))"

section \<open>What a Noise IK run promises\<close>

text \<open>
  For a client key pair and a server key pair under one prologue: the first message the initiator
  writes is read by a fresh responder, which then knows the client's static key; what the responder
  answers is read by the initiator, whose peer is the pinned server key; and the two transport
  states form a pair in both directions.
\<close>

definition ik_answer :: "'h Snow \<Rightarrow> bytes \<Rightarrow> 'h \<Rightarrow> 'h \<Rightarrow> bool" where
  "ik_answer S server_pub hi hr \<longleftrightarrow>
     (\<forall>hr' m p room. sn_write S hr p room = Inr (hr', m) \<longrightarrow>
        length p \<le> length m \<and>
        (\<exists>hi' ti tr.
           (\<forall>room'. length p \<le> room' \<longrightarrow> sn_read S hi m room' = Inr (hi', p)) \<and>
           sn_remote_static S hi' = Some server_pub \<and>
           sn_transport S hi' = Inr ti \<and> sn_transport S hr' = Inr tr \<and>
           noise_pair ti tr \<and> noise_pair tr ti))"

definition noise_ik :: "'h Snow \<Rightarrow> (bytes \<Rightarrow> bytes) \<Rightarrow> bytes \<Rightarrow> bytes \<Rightarrow> bytes \<Rightarrow> bool" where
  "noise_ik S pub c s prologue \<longleftrightarrow>
     (\<forall>hi hr hi' m p room.
        sn_initiator S c (pub s) prologue = Inr hi \<and> sn_responder S s prologue = Inr hr \<and>
        sn_write S hi p room = Inr (hi', m) \<longrightarrow>
        length p \<le> length m \<and>
        (\<exists>hr'. (\<forall>room'. length p \<le> room' \<longrightarrow> sn_read S hr m room' = Inr (hr', p)) \<and>
           sn_remote_static S hr' = Some (pub c) \<and> ik_answer S (pub s) hi' hr'))"

section \<open>Lemmas\<close>

lemma noise_ik_first:
  assumes "noise_ik S pub c s prologue"
    and "sn_initiator S c (pub s) prologue = Inr hi" "sn_responder S s prologue = Inr hr"
    and "sn_write S hi p room = Inr (hi', m)"
  obtains hr' where "\<forall>room'. length p \<le> room' \<longrightarrow> sn_read S hr m room' = Inr (hr', p)"
    "length p \<le> length m" "sn_remote_static S hr' = Some (pub c)" "ik_answer S (pub s) hi' hr'"
  using assms unfolding noise_ik_def by blast

lemma ik_answer_second:
  assumes "ik_answer S spub hi hr" and "sn_write S hr p room = Inr (hr', m)"
  obtains hi' ti tr where "\<forall>room'. length p \<le> room' \<longrightarrow> sn_read S hi m room' = Inr (hi', p)"
    "length p \<le> length m" "sn_remote_static S hi' = Some spub" "sn_transport S hi' = Inr ti"
    "sn_transport S hr' = Inr tr" "noise_pair ti tr" "noise_pair tr ti"
  using assms unfolding ik_answer_def by blast

lemma fresh_sessions_talk:
  assumes "noise_pair a b" and "SecureSession_encrypt (SecureSession_new a k) n p = Inr c"
  shows "fst (SecureSession_decrypt (SecureSession_new b k') n c) = Inr p"
proof -
  from assms(2) have enc: "encrypt_into a n p (length p + AUTH_TAG_LEN) = Inr c"
    by (simp add: SecureSession_encrypt_def SecureSession_new_def)
  then have "length p \<le> length c"
    using noise_pair_length [OF assms(1), of n p "length p + AUTH_TAG_LEN" c]
    by (simp add: result_simps)
  moreover have "ensure_acceptable ReplayWindow_default n = Inr ()"
    by (simp add: ensure_acceptable_def ReplayWindow_default_def)
  ultimately show ?thesis
    using decrypt_into_encrypt_into [OF assms(1) enc]
    by (simp add: SecureSession_decrypt_def SecureSession_new_def)
qed

lemma client_finish:
  assumes "\<forall>room. length p \<le> room \<longrightarrow> sn_read S hc m room = Inr (hc', p)"
    and "length p \<le> length m" "length m \<le> MAX_NOISE_MESSAGE_LEN"
    and "sn_remote_static S hc' = Some k" "length k = KEY_LEN" "sn_transport S hc' = Inr t"
  shows "ClientHandshake_finish S hc m = Inr (SecureSession_new t (PublicKey k), p)"
  using assms by (simp add: ClientHandshake_finish_def read_handshake_message_def
      peer_static_key_def PublicKey_from_slice_def)

lemma server_finish:
  assumes "ServerHandshake_finish S hs p = Inr (sess, m)"
    and "sn_remote_static S hs = Some k" "length k = KEY_LEN"
  obtains hs' t where "sn_write S hs p MAX_NOISE_MESSAGE_LEN = Inr (hs', m)"
    "sn_transport S hs' = Inr t" "sess = SecureSession_new t (PublicKey k)"
  using assms by (auto simp: ServerHandshake_finish_def peer_static_key_def
      PublicKey_from_slice_def write_handshake_message_def result_simps)

section \<open>Properties\<close>

text \<open>
  C6. A complete handshake through the client's and the server's wrappers, under the promise of a
  Noise IK run: the server learns the client's authenticated static key and the client's payload
  before it answers, the client accepts the answer and receives the server's payload, each side's
  peer key is the other's static key, and every packet one session encrypts the other, fresh,
  decrypts.
\<close>

theorem handshake_establishes_sessions:
  assumes ik: "noise_ik S pub (sk_bytes client) (sk_bytes server) (context_bytes context)"
    and pubs: "length (pub (sk_bytes client)) = KEY_LEN" "length (pub (sk_bytes server)) = KEY_LEN"
    and c0: "ClientHandshake_new S client (PublicKey (pub (sk_bytes server))) context = Inr hc"
    and s0: "ServerHandshake_new S server context = Inr hs"
    and c1: "ClientHandshake_write_initial S hc p1 = Inr (hc1, m1)"
    and m1: "length m1 \<le> MAX_NOISE_MESSAGE_LEN"
  shows "\<exists>hs1. ServerHandshake_read_initial S hs m1 = Inr (hs1, p1) \<and>
           ServerHandshake_peer_static_key S hs1 = Some (PublicKey (pub (sk_bytes client))) \<and>
           (\<forall>sess m2 p2. ServerHandshake_finish S hs1 p2 = Inr (sess, m2) \<and>
                length m2 \<le> MAX_NOISE_MESSAGE_LEN \<longrightarrow>
              ss_peer_static_key sess = PublicKey (pub (sk_bytes client)) \<and>
              (\<exists>sess'. ClientHandshake_finish S hc1 m2 = Inr (sess', p2) \<and>
                 ss_peer_static_key sess' = PublicKey (pub (sk_bytes server)) \<and>
                 (\<forall>n p c. SecureSession_encrypt sess' n p = Inr c \<longrightarrow>
                            fst (SecureSession_decrypt sess n c) = Inr p) \<and>
                 (\<forall>n p c. SecureSession_encrypt sess n p = Inr c \<longrightarrow>
                            fst (SecureSession_decrypt sess' n c) = Inr p)))"
proof -
  have init: "sn_initiator S (sk_bytes client) (pub (sk_bytes server)) (context_bytes context) = Inr hc"
    and resp: "sn_responder S (sk_bytes server) (context_bytes context) = Inr hs"
    and w1: "sn_write S hc p1 MAX_NOISE_MESSAGE_LEN = Inr (hc1, m1)"
    using c0 s0 c1
    by (simp_all add: ClientHandshake_new_def ServerHandshake_new_def
        ClientHandshake_write_initial_def write_handshake_message_def result_simps)
  from noise_ik_first [OF ik init resp w1] obtain hs1 where
    r1: "\<forall>room. length p1 \<le> room \<longrightarrow> sn_read S hs m1 room = Inr (hs1, p1)"
    and l1: "length p1 \<le> length m1"
    and st: "sn_remote_static S hs1 = Some (pub (sk_bytes client))"
    and answer: "ik_answer S (pub (sk_bytes server)) hc1 hs1"
    by blast
  have "ServerHandshake_read_initial S hs m1 = Inr (hs1, p1)"
    using r1 l1 m1 by (simp add: ServerHandshake_read_initial_def read_handshake_message_def)
  moreover have "ServerHandshake_peer_static_key S hs1 = Some (PublicKey (pub (sk_bytes client)))"
    using st pubs by (simp add: ServerHandshake_peer_static_key_def PublicKey_from_slice_def)
  moreover have "ss_peer_static_key sess = PublicKey (pub (sk_bytes client)) \<and>
      (\<exists>sess'. ClientHandshake_finish S hc1 m2 = Inr (sess', p2) \<and>
         ss_peer_static_key sess' = PublicKey (pub (sk_bytes server)) \<and>
         (\<forall>n p c. SecureSession_encrypt sess' n p = Inr c \<longrightarrow>
                    fst (SecureSession_decrypt sess n c) = Inr p) \<and>
         (\<forall>n p c. SecureSession_encrypt sess n p = Inr c \<longrightarrow>
                    fst (SecureSession_decrypt sess' n c) = Inr p))"
    if fin: "ServerHandshake_finish S hs1 p2 = Inr (sess, m2)"
      and m2: "length m2 \<le> MAX_NOISE_MESSAGE_LEN" for sess m2 p2
  proof -
    from server_finish [OF fin st pubs(1)] obtain hs2 tr where
      w2: "sn_write S hs1 p2 MAX_NOISE_MESSAGE_LEN = Inr (hs2, m2)"
      and tr: "sn_transport S hs2 = Inr tr"
      and sess: "sess = SecureSession_new tr (PublicKey (pub (sk_bytes client)))" .
    from ik_answer_second [OF answer w2] obtain hc2 ti tr' where
      r2: "\<forall>room'. length p2 \<le> room' \<longrightarrow> sn_read S hc1 m2 room' = Inr (hc2, p2)"
      "length p2 \<le> length m2" "sn_remote_static S hc2 = Some (pub (sk_bytes server))"
      "sn_transport S hc2 = Inr ti"
      and tr': "sn_transport S hs2 = Inr tr'" "noise_pair ti tr'" "noise_pair tr' ti" .
    from tr tr' have pair: "noise_pair ti tr" "noise_pair tr ti" by simp_all
    have "ClientHandshake_finish S hc1 m2 =
        Inr (SecureSession_new ti (PublicKey (pub (sk_bytes server))), p2)"
      by (rule client_finish [OF r2(1,2) m2 r2(3) pubs(2) r2(4)])
    then show ?thesis
      using fresh_sessions_talk [OF pair(1)] fresh_sessions_talk [OF pair(2)]
      by (auto simp: sess SecureSession_new_def)
  qed
  ultimately show ?thesis by blast
qed

text \<open>
  A handshake without secrecy that keeps the promise: messages carry the sender's key in front of
  the payload.
\<close>

definition plain_snow :: "(bytes \<times> bytes option) Snow" where
  "plain_snow =
     \<lparr>sn_initiator = (\<lambda>c spub prologue. Inr (c, Some spub)),
      sn_responder = (\<lambda>s prologue. Inr (s, None)),
      sn_write = (\<lambda>h p room. if 32 + length p \<le> room then Inr (h, fst h @ p) else Inl ''Input''),
      sn_read = (\<lambda>h m room. if length m - 32 \<le> room \<and> 32 \<le> length m
                   then Inr ((fst h, Some (take 32 m)), drop 32 m) else Inl ''Decrypt''),
      sn_remote_static = snd,
      sn_transport = (\<lambda>h. Inr plain_transport)\<rparr>"

lemma plain_snow_ik:
  "length c = 32 \<Longrightarrow> length s = 32 \<Longrightarrow> noise_ik plain_snow (\<lambda>k. k) c s prologue"
  using plain_transport_pair
  by (auto simp: noise_ik_def ik_answer_def plain_snow_def split: if_splits)

theorem handshake_establishes_sessions_witness:
  "\<exists>hs1. ServerHandshake_read_initial plain_snow (replicate 32 2, None) (replicate 32 1 @ [7]) =
        Inr (hs1, [7]) \<and>
     ServerHandshake_peer_static_key plain_snow hs1 = Some (PublicKey (replicate 32 1))"
  using handshake_establishes_sessions
    [of plain_snow "\<lambda>k. k" "SecretKey (replicate 32 1)" "SecretKey (replicate 32 2)"
      "ProtocolContext []" "(replicate 32 1, Some (replicate 32 2))" "(replicate 32 2, None)" "[7]"
      "(replicate 32 1, Some (replicate 32 2))" "replicate 32 1 @ [7]"]
    plain_snow_ik [of "replicate 32 1" "replicate 32 2" "[]"]
  by (auto simp: KEY_LEN_def ClientHandshake_new_def ServerHandshake_new_def plain_snow_def
      ClientHandshake_write_initial_def write_handshake_message_def MAX_NOISE_MESSAGE_LEN_def)

end
