(* ===== verification/Protocol.thy ===== *)
theory Protocol
  imports Prelude
begin

text \<open>
  The wire types of the crate \<^verbatim>\<open>protocol\<close> (\<^verbatim>\<open>src/crates/protocol/src\<close>): packet kinds, the
  twenty-byte outer header, datagrams, the one-byte inner framing and the session parameters the
  server sends in its handshake response. The lemmas show that every format is canonical: decoding
  inverts encoding, and only encodings decode.
\<close>

section \<open>Packet kinds\<close>

datatype PacketKind = HandshakeInit | HandshakeResponse | Data | Keepalive | Close

datatype DecodeError =
  Truncated nat nat
| UnsupportedVersion u8
| UnknownPacketKind u8
| InvalidHeader

definition VERSION :: u8 where
  "VERSION = 1"

fun PacketKind_byte :: "PacketKind \<Rightarrow> u8" where
  "PacketKind_byte HandshakeInit = 1"
| "PacketKind_byte HandshakeResponse = 2"
| "PacketKind_byte Data = 3"
| "PacketKind_byte Keepalive = 4"
| "PacketKind_byte Close = 5"

definition PacketKind_try_from :: "u8 \<Rightarrow> DecodeError + PacketKind" where
  "PacketKind_try_from value =
     (if value = 1 then Inr HandshakeInit
      else if value = 2 then Inr HandshakeResponse
      else if value = 3 then Inr Data
      else if value = 4 then Inr Keepalive
      else if value = 5 then Inr Close
      else Inl (UnknownPacketKind value))"

section \<open>Outer header\<close>

definition HEADER_LEN :: nat where
  "HEADER_LEN = 20"

record Header =
  hdr_kind :: PacketKind
  hdr_flags :: u16
  hdr_session_id :: u64
  hdr_sequence :: u64

definition Header_encode :: "Header \<Rightarrow> bytes" where
  "Header_encode h =
     [VERSION, PacketKind_byte (hdr_kind h)] @ to_be 2 (hdr_flags h)
       @ to_be 8 (hdr_session_id h) @ to_be 8 (hdr_sequence h)"

text \<open>
  The two \<open>try_into\<close> conversions of eight-byte slices cannot fail, since the slices have that
  length; the error \<open>InvalidHeader\<close> is therefore never produced.
\<close>

definition Header_decode :: "bytes \<Rightarrow> DecodeError + Header" where
  "Header_decode input =
     (if length input < HEADER_LEN then Inl (Truncated (length input) HEADER_LEN)
      else if input ! 0 \<noteq> VERSION then Inl (UnsupportedVersion (input ! 0))
      else bind_r (PacketKind_try_from (input ! 1)) (\<lambda>kind.
        Inr \<lparr>hdr_kind = kind,
             hdr_flags = from_be [input ! 2, input ! 3],
             hdr_session_id = from_be (take 8 (drop 4 input)),
             hdr_sequence = from_be (take 8 (drop 12 input))\<rparr>))"

section \<open>Datagrams\<close>

record Datagram =
  dg_header :: Header
  dg_payload :: bytes

definition Datagram_encode :: "Datagram \<Rightarrow> bytes" where
  "Datagram_encode d = Header_encode (dg_header d) @ dg_payload d"

definition Datagram_decode :: "bytes \<Rightarrow> DecodeError + Datagram" where
  "Datagram_decode input =
     bind_r (Header_decode input) (\<lambda>header.
       Inr \<lparr>dg_header = header, dg_payload = drop HEADER_LEN input\<rparr>)"

section \<open>Inner packets\<close>

datatype InnerPacketKind = InnerData | InnerKeepalive | InnerClose

datatype InnerDecodeError = Empty | UnknownKind u8

fun InnerPacketKind_byte :: "InnerPacketKind \<Rightarrow> u8" where
  "InnerPacketKind_byte InnerData = 1"
| "InnerPacketKind_byte InnerKeepalive = 2"
| "InnerPacketKind_byte InnerClose = 3"

definition InnerPacketKind_try_from :: "u8 \<Rightarrow> InnerDecodeError + InnerPacketKind" where
  "InnerPacketKind_try_from value =
     (if value = 1 then Inr InnerData
      else if value = 2 then Inr InnerKeepalive
      else if value = 3 then Inr InnerClose
      else Inl (UnknownKind value))"

record InnerPacket =
  inner_kind :: InnerPacketKind
  inner_payload :: bytes

definition InnerPacket_encode :: "InnerPacket \<Rightarrow> bytes" where
  "InnerPacket_encode p = InnerPacketKind_byte (inner_kind p) # inner_payload p"

definition InnerPacket_decode :: "bytes \<Rightarrow> InnerDecodeError + InnerPacket" where
  "InnerPacket_decode input =
     (case input of
        [] \<Rightarrow> Inl Empty
      | kind # payload \<Rightarrow>
          bind_r (InnerPacketKind_try_from kind) (\<lambda>k.
            Inr \<lparr>inner_kind = k, inner_payload = payload\<rparr>))"

section \<open>Session parameters\<close>

text \<open>An IPv4 address is its four octets; \<open>ipv4_bits\<close> is the conversion \<open>u32::from\<close>.\<close>

datatype ipv4 = Ipv4Addr u8 u8 u8 u8

fun octets :: "ipv4 \<Rightarrow> bytes" where
  "octets (Ipv4Addr a b c d) = [a, b, c, d]"

definition ipv4_bits :: "ipv4 \<Rightarrow> u32" where
  "ipv4_bits a = from_be (octets a)"

definition ipv4_of_bits :: "u32 \<Rightarrow> ipv4" where
  "ipv4_of_bits w = (let bs = to_be 4 w in Ipv4Addr (bs ! 0) (bs ! 1) (bs ! 2) (bs ! 3))"

definition SESSION_PARAMETERS_LEN :: nat where
  "SESSION_PARAMETERS_LEN = 11"

record SessionParameters =
  sp_client_address :: ipv4
  sp_prefix_len :: u8
  sp_mtu :: u16
  sp_dns :: ipv4

datatype SessionParametersError =
  InvalidLength nat nat
| InvalidPrefix u8
| InvalidMtu u16

definition SessionParameters_encode :: "SessionParameters \<Rightarrow> bytes" where
  "SessionParameters_encode p =
     octets (sp_client_address p) @ [sp_prefix_len p] @ to_be 2 (sp_mtu p) @ octets (sp_dns p)"

definition SessionParameters_decode :: "bytes \<Rightarrow> SessionParametersError + SessionParameters" where
  "SessionParameters_decode input =
     (if length input \<noteq> SESSION_PARAMETERS_LEN
      then Inl (InvalidLength (length input) SESSION_PARAMETERS_LEN)
      else
        let parameters =
          \<lparr>sp_client_address = Ipv4Addr (input ! 0) (input ! 1) (input ! 2) (input ! 3),
           sp_prefix_len = input ! 4,
           sp_mtu = from_be [input ! 5, input ! 6],
           sp_dns = Ipv4Addr (input ! 7) (input ! 8) (input ! 9) (input ! 10)\<rparr>
        in
        if sp_prefix_len parameters > 32 then Inl (InvalidPrefix (sp_prefix_len parameters))
        else if \<not> (576 \<le> sp_mtu parameters \<and> sp_mtu parameters \<le> 9000)
        then Inl (InvalidMtu (sp_mtu parameters))
        else Inr parameters)"

definition SessionParameters_valid :: "SessionParameters \<Rightarrow> bool" where
  "SessionParameters_valid p \<longleftrightarrow> sp_prefix_len p \<le> 32 \<and> 576 \<le> sp_mtu p \<and> sp_mtu p \<le> 9000"

section \<open>Lemmas\<close>

lemma length_octets [simp]: "length (octets a) = 4"
  by (cases a) simp

lemma PacketKind_roundtrip [simp]: "PacketKind_try_from (PacketKind_byte k) = Inr k"
  by (cases k) (simp_all add: PacketKind_try_from_def)

lemma PacketKind_try_from_Inr [result_simps]:
  "PacketKind_try_from v = Inr k \<longleftrightarrow> v = PacketKind_byte k"
  by (cases k) (auto simp: PacketKind_try_from_def split: if_splits)

lemma InnerPacketKind_roundtrip [simp]: "InnerPacketKind_try_from (InnerPacketKind_byte k) = Inr k"
  by (cases k) (simp_all add: InnerPacketKind_try_from_def)

lemma InnerPacketKind_try_from_Inr [result_simps]:
  "InnerPacketKind_try_from v = Inr k \<longleftrightarrow> v = InnerPacketKind_byte k"
  by (cases k) (auto simp: InnerPacketKind_try_from_def split: if_splits)

lemma length_Header_encode [simp]: "length (Header_encode h) = HEADER_LEN"
  by (simp add: Header_encode_def HEADER_LEN_def)

lemma two_bytes: "length bs = 2 \<Longrightarrow> \<exists>a b. bs = [a, b]"
  by (auto simp: numeral_2_eq_2 length_Suc_conv)

lemma four_bytes: "length bs = 4 \<Longrightarrow> \<exists>a b c d. bs = [a, b, c, d]"
  by (auto simp: numeral_eq_Suc length_Suc_conv)

lemma from_be_two_bytes: "to_be 2 (w :: u16) = [a, b] \<Longrightarrow> from_be [a, b] = w"
  by (metis from_to_be_16)

lemma Header_decode_encode_append: "Header_decode (Header_encode h @ rest) = Inr h"
proof -
  obtain a b where ab: "to_be 2 (hdr_flags h) = [a, b]"
    using two_bytes [of "to_be 2 (hdr_flags h)"] by auto
  show ?thesis
    by (simp add: Header_decode_def HEADER_LEN_def Header_encode_def ab from_be_two_bytes [OF ab])
qed

lemma Header_decode_canonical:
  assumes "Header_decode bs = Inr h"
  shows "HEADER_LEN \<le> length bs \<and> take HEADER_LEN bs = Header_encode h"
proof -
  from assms have len: "20 \<le> length bs" and v: "bs ! 0 = VERSION"
    and k: "bs ! 1 = PacketKind_byte (hdr_kind h)"
    and f: "hdr_flags h = from_be [bs ! 2, bs ! 3]"
    and sid: "hdr_session_id h = from_be (take 8 (drop 4 bs))"
    and sq: "hdr_sequence h = from_be (take 8 (drop 12 bs))"
    by (auto simp: Header_decode_def HEADER_LEN_def result_simps split: if_splits)
  have four: "[bs ! 0, bs ! 1, bs ! 2, bs ! 3] = take 4 bs"
    using len by (simp add: list_eq_iff_nth_eq less_Suc_eq numeral_eq_Suc nth_Cons')
  have "Header_encode h = [bs ! 0, bs ! 1, bs ! 2, bs ! 3] @ take 8 (drop 4 bs) @ take 8 (drop 12 bs)"
    unfolding Header_encode_def f sid sq
    using len by (simp add: v k [symmetric] to_from_be_16 to_from_be_64)
  also have "\<dots> = take 20 bs"
    unfolding four using take_add [of 4 8 bs] take_add [of 12 8 bs] by simp
  finally show ?thesis using len by (simp add: HEADER_LEN_def)
qed

interpretation header: header_format HEADER_LEN Header_encode Header_decode
  by unfold_locales (simp_all add: Header_decode_encode_append Header_decode_canonical)

interpretation datagram: wire_format "\<lambda>_. True" Datagram_encode Datagram_decode
proof (unfold_locales, goal_cases)
  case (1 d)
  show ?case by (simp add: Datagram_decode_def Datagram_encode_def header.dec_enc_append)
next
  case (2 bs d)
  then show ?case
    by (auto simp: Datagram_decode_def Datagram_encode_def result_simps
        header.dec_prefix [symmetric])
qed

interpretation inner: wire_format "\<lambda>_. True" InnerPacket_encode InnerPacket_decode
  by unfold_locales
    (auto simp: InnerPacket_decode_def InnerPacket_encode_def result_simps split: list.splits)

text \<open>Eleven bytes, written out; the decoder then reads them one by one.\<close>

lemma eleven_bytes:
  "length bs = 11 \<Longrightarrow>
   \<exists>a b c d e f g h i j k. bs = [a, b, c, d, e, f, g, h, i, j, k]"
  by (auto simp: numeral_eq_Suc length_Suc_conv)

interpretation session_parameters:
  wire_format SessionParameters_valid SessionParameters_encode SessionParameters_decode
proof (unfold_locales, goal_cases)
  case (1 p)
  obtain a b where ab: "to_be 2 (sp_mtu p) = [a, b]"
    using two_bytes [of "to_be 2 (sp_mtu p)"] by auto
  obtain q r s t where c: "sp_client_address p = Ipv4Addr q r s t" by (cases "sp_client_address p")
  obtain u v w x where d: "sp_dns p = Ipv4Addr u v w x" by (cases "sp_dns p")
  from 1 show ?case
    by (cases p) (use ab c d in \<open>auto simp: SessionParameters_decode_def SessionParameters_encode_def
      SessionParameters_valid_def SESSION_PARAMETERS_LEN_def from_be_two_bytes Let_def\<close>)
next
  case (2 bs p)
  then have "length bs = 11"
    by (auto simp: SessionParameters_decode_def SESSION_PARAMETERS_LEN_def split: if_splits)
  from eleven_bytes [OF this] 2 show ?case
    by (auto simp: SessionParameters_decode_def SessionParameters_encode_def
        SessionParameters_valid_def SESSION_PARAMETERS_LEN_def Let_def to_from_be_16 split: if_splits)
qed

lemma ipv4_of_bits_bits [simp]: "ipv4_of_bits (ipv4_bits a) = a"
  by (cases a) (simp add: ipv4_of_bits_def ipv4_bits_def to_from_be_32 Let_def)

lemma ipv4_bits_of_bits [simp]: "ipv4_bits (ipv4_of_bits w) = w"
proof -
  obtain a b c d where "to_be 4 w = [a, b, c, d]"
    using four_bytes [of "to_be 4 w"] by auto
  moreover from this have "from_be [a, b, c, d] = w"
    by (metis from_to_be_32)
  ultimately show ?thesis by (simp add: ipv4_of_bits_def ipv4_bits_def Let_def)
qed

lemma ipv4_bits_inj [simp]: "ipv4_bits a = ipv4_bits b \<longleftrightarrow> a = b"
  by (metis ipv4_of_bits_bits)

end
