(* ===== verification/DataPlane.thy ===== *)
theory DataPlane
  imports Protocol Session
begin

text \<open>
  The crate \<^verbatim>\<open>data-plane\<close>: the structural IPv4 parser (\<^verbatim>\<open>ipv4.rs\<close>) and the encrypted tunnel
  (\<^verbatim>\<open>tunnel.rs\<close>), both the whole \<^verbatim>\<open>TunnelDataPlane\<close> and the two halves it splits into. Operations
  that take \<open>&mut self\<close> return the new state next to their result; the caller's output buffer is
  the result itself, since every method overwrites it and callers read it only on success.
\<close>

section \<open>IPv4 packets\<close>

datatype Ipv4PacketError =
  IpTruncated
| IpUnsupportedVersion u8
| InvalidHeaderLength
| InvalidTotalLength

definition MINIMUM_HEADER_LEN :: nat where
  "MINIMUM_HEADER_LEN = 20"

record Ipv4Packet =
  ip_bytes :: bytes
  ip_source :: ipv4
  ip_destination :: ipv4

definition Ipv4Packet_parse :: "bytes \<Rightarrow> Ipv4PacketError + Ipv4Packet" where
  "Ipv4Packet_parse input =
     (if length input < MINIMUM_HEADER_LEN then Inl IpTruncated
      else
        let version = drop_bit 4 (input ! 0) in
        if version \<noteq> 4 then Inl (IpUnsupportedVersion version)
        else
          let header_len = unat (input ! 0 AND 0x0f) * 4 in
          if header_len < MINIMUM_HEADER_LEN \<or> header_len > length input
          then Inl InvalidHeaderLength
          else
            let total_len = unat (from_be [input ! 2, input ! 3] :: u16) in
            if total_len < header_len \<or> total_len > length input then Inl InvalidTotalLength
            else Inr \<lparr>ip_bytes = take total_len input,
                      ip_source = Ipv4Addr (input ! 12) (input ! 13) (input ! 14) (input ! 15),
                      ip_destination = Ipv4Addr (input ! 16) (input ! 17) (input ! 18) (input ! 19)\<rparr>)"

section \<open>Tunnel\<close>

datatype DataPlaneError =
  Crypto CryptoError
| Outer DecodeError
| Inner InnerDecodeError
| Ip Ipv4PacketError
| UnexpectedPacketKind PacketKind
| UnexpectedInnerPacketKind InnerPacketKind
| SessionMismatch
| PacketExceedsMtu nat nat
| SequenceExhausted

definition TUNNEL_OVERHEAD :: nat where
  "TUNNEL_OVERHEAD = HEADER_LEN + 1 + AUTH_TAG_LEN"

datatype DecodedPacket = DecodedIp bytes | DecodedKeepalive

record TunnelDataPlane =
  tdp_session_id :: u64
  tdp_next_sequence :: u64
  tdp_mtu :: nat
  tdp_crypto :: SecureSession

definition TunnelDataPlane_new :: "u64 \<Rightarrow> nat \<Rightarrow> SecureSession \<Rightarrow> TunnelDataPlane" where
  "TunnelDataPlane_new session_id mtu crypto =
     \<lparr>tdp_session_id = session_id, tdp_next_sequence = 0, tdp_mtu = mtu, tdp_crypto = crypto\<rparr>"

definition TunnelDataPlane_encode ::
  "TunnelDataPlane \<Rightarrow> PacketKind \<Rightarrow> bytes \<Rightarrow> (DataPlaneError + bytes) \<times> TunnelDataPlane" where
  "TunnelDataPlane_encode dp kind inner =
     (let sequence = tdp_next_sequence dp in
      case checked_add sequence 1 of
        None \<Rightarrow> (Inl SequenceExhausted, dp)
      | Some next \<Rightarrow>
          (case SecureSession_encrypt (tdp_crypto dp) sequence inner of
             Inl e \<Rightarrow> (Inl (Crypto e), dp)
           | Inr ciphertext \<Rightarrow>
               let header = \<lparr>hdr_kind = kind, hdr_flags = 0,
                             hdr_session_id = tdp_session_id dp, hdr_sequence = sequence\<rparr>
               in (Inr (Datagram_encode \<lparr>dg_header = header, dg_payload = ciphertext\<rparr>),
                   dp\<lparr>tdp_next_sequence := next\<rparr>)))"

definition TunnelDataPlane_encode_ip ::
  "TunnelDataPlane \<Rightarrow> bytes \<Rightarrow> (DataPlaneError + bytes) \<times> TunnelDataPlane" where
  "TunnelDataPlane_encode_ip dp ip_packet =
     (case Ipv4Packet_parse ip_packet of
        Inl e \<Rightarrow> (Inl (Ip e), dp)
      | Inr ip \<Rightarrow>
          if length (ip_bytes ip) > tdp_mtu dp
          then (Inl (PacketExceedsMtu (length (ip_bytes ip)) (tdp_mtu dp)), dp)
          else
            TunnelDataPlane_encode dp Data
              (InnerPacket_encode \<lparr>inner_kind = InnerData, inner_payload = ip_bytes ip\<rparr>))"

definition TunnelDataPlane_encode_keepalive ::
  "TunnelDataPlane \<Rightarrow> (DataPlaneError + bytes) \<times> TunnelDataPlane" where
  "TunnelDataPlane_encode_keepalive dp =
     TunnelDataPlane_encode dp Keepalive
       (InnerPacket_encode \<lparr>inner_kind = InnerKeepalive, inner_payload = []\<rparr>)"

definition TunnelDataPlane_decode ::
  "TunnelDataPlane \<Rightarrow> bytes \<Rightarrow> (DataPlaneError + DecodedPacket) \<times> TunnelDataPlane" where
  "TunnelDataPlane_decode dp input =
     (case Datagram_decode input of
        Inl e \<Rightarrow> (Inl (Outer e), dp)
      | Inr datagram \<Rightarrow>
          let header = dg_header datagram in
          if hdr_session_id header \<noteq> tdp_session_id dp then (Inl SessionMismatch, dp)
          else if hdr_kind header \<notin> {Data, Keepalive}
          then (Inl (UnexpectedPacketKind (hdr_kind header)), dp)
          else
            let (decrypted, crypto) =
                  SecureSession_decrypt (tdp_crypto dp) (hdr_sequence header) (dg_payload datagram);
                dp' = dp\<lparr>tdp_crypto := crypto\<rparr>
            in
            (bind_r (map_err Crypto decrypted) (\<lambda>plaintext.
             bind_r (map_err Inner (InnerPacket_decode plaintext)) (\<lambda>inner.
               if hdr_kind header = Data \<and> inner_kind inner = InnerData then
                 bind_r (map_err Ip (Ipv4Packet_parse (inner_payload inner))) (\<lambda>ip.
                   if length (ip_bytes ip) > tdp_mtu dp
                   then Inl (PacketExceedsMtu (length (ip_bytes ip)) (tdp_mtu dp))
                   else Inr (DecodedIp (ip_bytes ip)))
               else if hdr_kind header = Keepalive \<and> inner_kind inner = InnerKeepalive \<and>
                       inner_payload inner = []
               then Inr DecodedKeepalive
               else Inl (UnexpectedInnerPacketKind (inner_kind inner)))), dp'))"

definition TunnelDataPlane_decode_ip ::
  "TunnelDataPlane \<Rightarrow> bytes \<Rightarrow> (DataPlaneError + bytes) \<times> TunnelDataPlane" where
  "TunnelDataPlane_decode_ip dp input =
     (case TunnelDataPlane_decode dp input of
        (Inl e, dp') \<Rightarrow> (Inl e, dp')
      | (Inr (DecodedIp packet), dp') \<Rightarrow> (Inr packet, dp')
      | (Inr DecodedKeepalive, dp') \<Rightarrow> (Inl (UnexpectedPacketKind Keepalive), dp'))"

section \<open>The two halves\<close>

record TunnelSender =
  ts_session_id :: u64
  ts_next_sequence :: u64
  ts_mtu :: nat
  ts_crypto :: SendHalf
  ts_plaintext :: bytes

record TunnelReceiver =
  tr_session_id :: u64
  tr_mtu :: nat
  tr_crypto :: ReceiveHalf

definition TunnelDataPlane_split :: "TunnelDataPlane \<Rightarrow> TunnelSender \<times> TunnelReceiver" where
  "TunnelDataPlane_split dp =
     (let (send, receive) = SecureSession_split (tdp_crypto dp) in
      (\<lparr>ts_session_id = tdp_session_id dp, ts_next_sequence = tdp_next_sequence dp,
        ts_mtu = tdp_mtu dp, ts_crypto = send, ts_plaintext = []\<rparr>,
       \<lparr>tr_session_id = tdp_session_id dp, tr_mtu = tdp_mtu dp, tr_crypto = receive\<rparr>))"

definition TunnelSender_encode_into ::
  "TunnelSender \<Rightarrow> PacketKind \<Rightarrow> InnerPacketKind \<Rightarrow> bytes \<Rightarrow> (DataPlaneError + bytes) \<times> TunnelSender"
where
  "TunnelSender_encode_into s kind ikind payload =
     (let sequence = ts_next_sequence s in
      case checked_add sequence 1 of
        None \<Rightarrow> (Inl SequenceExhausted, s)
      | Some next \<Rightarrow>
          let plaintext = InnerPacketKind_byte ikind # payload;
              s' = s\<lparr>ts_plaintext := plaintext\<rparr>;
              room = (HEADER_LEN + length plaintext + AUTH_TAG_LEN) - HEADER_LEN
          in
          (case SendHalf_encrypt_into (ts_crypto s) sequence plaintext room of
             Inl e \<Rightarrow> (Inl (Crypto e), s')
           | Inr ciphertext \<Rightarrow>
               (Inr (Header_encode \<lparr>hdr_kind = kind, hdr_flags = 0,
                       hdr_session_id = ts_session_id s, hdr_sequence = sequence\<rparr> @ ciphertext),
                s'\<lparr>ts_next_sequence := next\<rparr>)))"

definition TunnelSender_encode_ip_into ::
  "TunnelSender \<Rightarrow> bytes \<Rightarrow> (DataPlaneError + bytes) \<times> TunnelSender" where
  "TunnelSender_encode_ip_into s ip_packet =
     (case Ipv4Packet_parse ip_packet of
        Inl e \<Rightarrow> (Inl (Ip e), s)
      | Inr ip \<Rightarrow>
          if length (ip_bytes ip) > ts_mtu s
          then (Inl (PacketExceedsMtu (length (ip_bytes ip)) (ts_mtu s)), s)
          else TunnelSender_encode_into s Data InnerData (ip_bytes ip))"

definition TunnelSender_encode_keepalive_into ::
  "TunnelSender \<Rightarrow> (DataPlaneError + bytes) \<times> TunnelSender" where
  "TunnelSender_encode_keepalive_into s = TunnelSender_encode_into s Keepalive InnerKeepalive []"

definition TunnelReceiver_decode_into ::
  "TunnelReceiver \<Rightarrow> Datagram \<Rightarrow> (DataPlaneError + DecodedPacket) \<times> TunnelReceiver" where
  "TunnelReceiver_decode_into r datagram =
     (let header = dg_header datagram in
      if hdr_session_id header \<noteq> tr_session_id r then (Inl SessionMismatch, r)
      else if hdr_kind header \<notin> {Data, Keepalive}
      then (Inl (UnexpectedPacketKind (hdr_kind header)), r)
      else
        let (decrypted, crypto) =
              ReceiveHalf_decrypt_into (tr_crypto r) (hdr_sequence header) (dg_payload datagram)
                (length (dg_payload datagram));
            r' = r\<lparr>tr_crypto := crypto\<rparr>
        in
        (bind_r (map_err Crypto decrypted) (\<lambda>output.
         bind_r (map_err Inner (InnerPacket_decode output)) (\<lambda>inner.
           if hdr_kind header = Data \<and> inner_kind inner = InnerData then
             bind_r (map_err Ip (Ipv4Packet_parse (inner_payload inner))) (\<lambda>ip.
               let ip_len = length (ip_bytes ip) in
               if ip_len > tr_mtu r then Inl (PacketExceedsMtu ip_len (tr_mtu r))
               else Inr (DecodedIp (take ip_len (drop 1 output))))
           else if hdr_kind header = Keepalive \<and> inner_kind inner = InnerKeepalive \<and>
                   inner_payload inner = []
           then Inr DecodedKeepalive
           else Inl (UnexpectedInnerPacketKind (inner_kind inner)))), r'))"

definition looks_like_protocol_datagram :: "bytes \<Rightarrow> bool" where
  "looks_like_protocol_datagram input \<longleftrightarrow> length input \<ge> HEADER_LEN \<and> input ! 0 = VERSION"

lemma encoded_looks_like [simp]: "looks_like_protocol_datagram (Datagram_encode datagram)"
  by (simp add: looks_like_protocol_datagram_def Datagram_encode_def Header_encode_def HEADER_LEN_def)

section \<open>Parsing\<close>

lemma Ipv4Packet_parse_Inr:
  assumes "Ipv4Packet_parse input = Inr ip"
  shows "20 \<le> length (ip_bytes ip)" "length (ip_bytes ip) \<le> length input"
    "ip_bytes ip = take (length (ip_bytes ip)) input" "length (ip_bytes ip) < 65536"
  using assms unat_bound [of "from_be [input ! 2, input ! 3] :: u16"]
  by (auto simp: Ipv4Packet_parse_def MINIMUM_HEADER_LEN_def Let_def split: if_splits)

lemma Ipv4Packet_parse_idem:
  assumes "Ipv4Packet_parse input = Inr ip"
  shows "Ipv4Packet_parse (ip_bytes ip) = Inr ip"
  using assms
  by (auto simp: Ipv4Packet_parse_def MINIMUM_HEADER_LEN_def Let_def min_def split: if_splits)

section \<open>Sending\<close>

lemma TunnelSender_encode_into_Inr:
  "TunnelSender_encode_into s kind ik payload = (Inr out, s') \<longleftrightarrow>
     unat (ts_next_sequence s) + 1 < 2 ^ 64 \<and>
     (\<exists>c. SendHalf_encrypt_into (ts_crypto s) (ts_next_sequence s) (InnerPacketKind_byte ik # payload)
             (Suc (length payload) + AUTH_TAG_LEN) = Inr c \<and>
         out = Datagram_encode
           \<lparr>dg_header = \<lparr>hdr_kind = kind, hdr_flags = 0, hdr_session_id = ts_session_id s,
                         hdr_sequence = ts_next_sequence s\<rparr>, dg_payload = c\<rparr> \<and>
         s' = s\<lparr>ts_plaintext := InnerPacketKind_byte ik # payload,
                ts_next_sequence := ts_next_sequence s + 1\<rparr>)"
  by (auto simp: TunnelSender_encode_into_def checked_add_def Datagram_encode_def Let_def
      split: sum.splits option.splits if_splits)

lemma TunnelSender_encode_into_Inl:
  "TunnelSender_encode_into s kind ik payload = (Inl e, s') \<Longrightarrow>
   ts_next_sequence s' = ts_next_sequence s"
  by (auto simp: TunnelSender_encode_into_def Let_def split: sum.splits option.splits)

text \<open>The sender as a machine: an input is an IP packet, or \<^const>\<open>None\<close> for a keepalive.\<close>

definition sender_step :: "TunnelSender \<Rightarrow> bytes option \<Rightarrow> (DataPlaneError + bytes) \<times> TunnelSender" where
  "sender_step s input =
     (case input of
        None \<Rightarrow> TunnelSender_encode_keepalive_into s
      | Some packet \<Rightarrow> TunnelSender_encode_ip_into s packet)"

definition wire_sequence :: "DataPlaneError + bytes \<Rightarrow> nat option" where
  "wire_sequence r =
     (case r of
        Inl _ \<Rightarrow> None
      | Inr out \<Rightarrow> map_option (\<lambda>d. unat (hdr_sequence (dg_header d))) (ok (Datagram_decode out)))"

lemma sender_step_cases:
  obtains e where "fst (sender_step s i) = Inl e" "ts_next_sequence (snd (sender_step s i)) = ts_next_sequence s"
  | kind ik payload out s' where "sender_step s i = (Inr out, s')"
      "TunnelSender_encode_into s kind ik payload = (Inr out, s')"
proof (cases "sender_step s i")
  case (Pair r s')
  show ?thesis
  proof (cases r)
    case (Inl e)
    have "ts_next_sequence s' = ts_next_sequence s"
      using Pair Inl TunnelSender_encode_into_Inl
      by (auto simp: sender_step_def TunnelSender_encode_keepalive_into_def
          TunnelSender_encode_ip_into_def split: option.splits sum.splits if_splits)
    with Pair Inl that(1) show ?thesis by simp
  next
    case (Inr out)
    with Pair that(2) show ?thesis
      by (auto simp: sender_step_def TunnelSender_encode_keepalive_into_def
          TunnelSender_encode_ip_into_def split: option.splits sum.splits if_splits)
  qed
qed

interpretation tunnel_sequence: sequence_source
  "\<lambda>s i. snd (sender_step s i)" "\<lambda>s i. wire_sequence (fst (sender_step s i))"
  "\<lambda>s. unat (ts_next_sequence s)"
proof (unfold_locales, goal_cases)
  case (1 s i n)
  show ?case
    using 1 by (cases rule: sender_step_cases [of s i])
      (auto simp: wire_sequence_def TunnelSender_encode_into_Inr datagram.dec_enc
        unat_add_no_overflow)
next
  case (2 s i)
  then show ?case
    by (cases rule: sender_step_cases [of s i])
      (auto simp: wire_sequence_def TunnelSender_encode_into_Inr datagram.dec_enc)
qed

section \<open>The whole plane and its halves\<close>

datatype tunnel_event = SendIp bytes | SendKeepalive | Receive bytes

definition plane_step ::
  "TunnelDataPlane \<Rightarrow> tunnel_event \<Rightarrow>
   ((DataPlaneError + bytes) + (DataPlaneError + DecodedPacket)) \<times> TunnelDataPlane" where
  "plane_step dp event =
     (case event of
        SendIp packet \<Rightarrow> map_prod Inl id (TunnelDataPlane_encode_ip dp packet)
      | SendKeepalive \<Rightarrow> map_prod Inl id (TunnelDataPlane_encode_keepalive dp)
      | Receive input \<Rightarrow> map_prod Inr id (TunnelDataPlane_decode dp input))"

text \<open>A receiver is driven with datagrams; framing is checked by its caller.\<close>

definition receiver_step ::
  "TunnelReceiver \<Rightarrow> bytes \<Rightarrow> (DataPlaneError + DecodedPacket) \<times> TunnelReceiver" where
  "receiver_step r input =
     (case Datagram_decode input of
        Inl e \<Rightarrow> (Inl (Outer e), r)
      | Inr datagram \<Rightarrow> TunnelReceiver_decode_into r datagram)"

definition halves_step ::
  "TunnelSender \<times> TunnelReceiver \<Rightarrow> tunnel_event \<Rightarrow>
   ((DataPlaneError + bytes) + (DataPlaneError + DecodedPacket)) \<times> (TunnelSender \<times> TunnelReceiver)"
where
  "halves_step h event =
     (case event of
        SendIp packet \<Rightarrow> (let (out, s) = sender_step (fst h) (Some packet) in (Inl out, (s, snd h)))
      | SendKeepalive \<Rightarrow> (let (out, s) = sender_step (fst h) None in (Inl out, (s, snd h)))
      | Receive input \<Rightarrow> (let (out, r) = receiver_step (snd h) input in (Inr out, (fst h, r))))"

text \<open>The sender's scratch buffer is the only part of the halves the plane does not have.\<close>

definition splits_into :: "TunnelDataPlane \<Rightarrow> TunnelSender \<times> TunnelReceiver \<Rightarrow> bool" where
  "splits_into dp h \<longleftrightarrow>
     (fst h)\<lparr>ts_plaintext := []\<rparr> = fst (TunnelDataPlane_split dp) \<and> snd h = snd (TunnelDataPlane_split dp)"

lemma splits_into_split: "splits_into dp (TunnelDataPlane_split dp)"
  by (simp add: splits_into_def TunnelDataPlane_split_def SecureSession_split_def)

lemma splits_into_iff:
  "splits_into dp (s, r) \<longleftrightarrow>
     ts_session_id s = tdp_session_id dp \<and> ts_next_sequence s = tdp_next_sequence dp \<and>
     ts_mtu s = tdp_mtu dp \<and> ts_crypto s = fst (SecureSession_split (tdp_crypto dp)) \<and>
     r = \<lparr>tr_session_id = tdp_session_id dp, tr_mtu = tdp_mtu dp,
          tr_crypto = snd (SecureSession_split (tdp_crypto dp))\<rparr>"
  by (cases s) (auto simp: splits_into_def TunnelDataPlane_split_def SecureSession_split_def)

lemma encode_split:
  assumes "splits_into dp (s, r)"
  shows "fst (TunnelDataPlane_encode dp kind (InnerPacketKind_byte ik # payload)) =
           fst (TunnelSender_encode_into s kind ik payload) \<and>
         splits_into (snd (TunnelDataPlane_encode dp kind (InnerPacketKind_byte ik # payload)))
           (snd (TunnelSender_encode_into s kind ik payload), r)"
  using assms
  by (auto simp: splits_into_iff TunnelDataPlane_encode_def TunnelSender_encode_into_def Let_def
      SecureSession_encrypt_def SendHalf_encrypt_into_def SecureSession_split_def Datagram_encode_def
      split: option.splits sum.splits)

lemma encode_ip_split:
  assumes "splits_into dp (s, r)"
  shows "fst (TunnelDataPlane_encode_ip dp packet) = fst (TunnelSender_encode_ip_into s packet) \<and>
         splits_into (snd (TunnelDataPlane_encode_ip dp packet))
           (snd (TunnelSender_encode_ip_into s packet), r)"
proof -
  have "ts_mtu s = tdp_mtu dp" using assms by (simp add: splits_into_iff)
  with assms encode_split [OF assms, of Data InnerData] show ?thesis
    by (auto simp: TunnelDataPlane_encode_ip_def TunnelSender_encode_ip_into_def
        InnerPacket_encode_def split: sum.splits)
qed

lemma Ipv4Packet_parse_take:
  "Ipv4Packet_parse input = Inr ip \<Longrightarrow> take (length (ip_bytes ip)) input = ip_bytes ip"
  using Ipv4Packet_parse_Inr(3) by metis

lemma decode_split:
  assumes "splits_into dp (s, r)"
  shows "fst (TunnelDataPlane_decode dp input) = fst (receiver_step r input) \<and>
         splits_into (snd (TunnelDataPlane_decode dp input)) (s, snd (receiver_step r input))"
  using assms
  by (auto simp: splits_into_iff TunnelDataPlane_decode_def receiver_step_def Let_def
      TunnelReceiver_decode_into_def SecureSession_decrypt_def ReceiveHalf_decrypt_into_def
      SecureSession_split_def Ipv4Packet_parse_take bind_r_def map_err_def InnerPacket_decode_def
      split: sum.splits prod.splits list.splits)

interpretation halves: bisimilar plane_step halves_step splits_into
proof (unfold_locales, goal_cases)
  case (1 dp h event)
  then show ?case
    using encode_ip_split [of dp "fst h" "snd h"] decode_split [of dp "fst h" "snd h"]
      encode_split [of dp "fst h" "snd h" Keepalive InnerKeepalive "[]"]
    by (auto simp: plane_step_def halves_step_def sender_step_def InnerPacket_encode_def
        TunnelDataPlane_encode_keepalive_def TunnelSender_encode_keepalive_into_def split_beta
        split: tunnel_event.splits)
next
  case (2 dp h event)
  then show ?case
    using encode_ip_split [of dp "fst h" "snd h"] decode_split [of dp "fst h" "snd h"]
      encode_split [of dp "fst h" "snd h" Keepalive InnerKeepalive "[]"]
    by (auto simp: plane_step_def halves_step_def sender_step_def InnerPacket_encode_def
        TunnelDataPlane_encode_keepalive_def TunnelSender_encode_keepalive_into_def split_beta
        split: tunnel_event.splits)
qed

text \<open>The inputs of each half in an interleaved run, and their outputs.\<close>

fun sends :: "tunnel_event list \<Rightarrow> bytes option list" where
  "sends [] = []"
| "sends (SendIp packet # es) = Some packet # sends es"
| "sends (SendKeepalive # es) = None # sends es"
| "sends (Receive _ # es) = sends es"

fun receives :: "tunnel_event list \<Rightarrow> bytes list" where
  "receives [] = []"
| "receives (Receive input # es) = input # receives es"
| "receives (_ # es) = receives es"

fun lefts :: "('a + 'b) list \<Rightarrow> 'a list" where
  "lefts [] = []"
| "lefts (Inl x # xs) = x # lefts xs"
| "lefts (Inr _ # xs) = lefts xs"

fun rights :: "('a + 'b) list \<Rightarrow> 'b list" where
  "rights [] = []"
| "rights (Inl _ # xs) = rights xs"
| "rights (Inr y # xs) = y # rights xs"

lemma halves_step_simps:
  "halves_step (s, r) (SendIp packet) =
     (Inl (fst (sender_step s (Some packet))), (snd (sender_step s (Some packet)), r))"
  "halves_step (s, r) SendKeepalive = (Inl (fst (sender_step s None)), (snd (sender_step s None), r))"
  "halves_step (s, r) (Receive input) = (Inr (fst (receiver_step r input)), (s, snd (receiver_step r input)))"
  by (simp_all add: halves_step_def split_beta)

lemma halves_run_apart:
  "lefts (run_outputs halves_step (s, r) es) = run_outputs sender_step s (sends es) \<and>
   rights (run_outputs halves_step (s, r) es) = run_outputs receiver_step r (receives es)"
proof (induction es arbitrary: s r)
  case Nil
  then show ?case by simp
next
  case (Cons e es)
  then show ?case by (cases e) (simp_all add: halves_step_simps split_beta)
qed

section \<open>Receiving\<close>

lemma TunnelReceiver_decode_into_ip:
  assumes "TunnelReceiver_decode_into r d = (Inr (DecodedIp p), r')"
  obtains inner where "hdr_session_id (dg_header d) = tr_session_id r" "hdr_kind (dg_header d) = Data"
    "tr_read (rh_transport (tr_crypto r)) (hdr_sequence (dg_header d)) (dg_payload d)
       (length (dg_payload d)) = Inr (InnerPacketKind_byte InnerData # inner)"
    "\<exists>ip. Ipv4Packet_parse inner = Inr ip \<and> p = ip_bytes ip" "length p \<le> tr_mtu r"
    "ensure_acceptable (rh_receive_window (tr_crypto r)) (hdr_sequence (dg_header d)) = Inr ()"
    "rh_receive_window (tr_crypto r') =
       mark_authenticated (rh_receive_window (tr_crypto r)) (hdr_sequence (dg_header d))"
proof -
  let ?h = "dg_header d" and ?rh = "tr_crypto r"
  from assms obtain plain where
    hdr: "hdr_session_id ?h = tr_session_id r" "hdr_kind ?h = Data" and
    dec: "decrypt_into (rh_transport ?rh) (rh_receive_window ?rh) (hdr_sequence ?h) (dg_payload d)
            (length (dg_payload d)) = (Inr plain, rh_receive_window (tr_crypto r'))" and
    ip: "\<exists>inner ip. InnerPacket_decode plain = Inr inner \<and> inner_kind inner = InnerData \<and>
            Ipv4Packet_parse (inner_payload inner) = Inr ip \<and> length (ip_bytes ip) \<le> tr_mtu r \<and>
            p = take (length (ip_bytes ip)) (drop 1 plain)"
    by (auto simp: TunnelReceiver_decode_into_def ReceiveHalf_decrypt_into_def Let_def result_simps
        split: prod.splits if_splits)
  from ip obtain inner ip where i: "plain = InnerPacketKind_byte InnerData # inner"
    "Ipv4Packet_parse inner = Inr ip" "length (ip_bytes ip) \<le> tr_mtu r"
    "p = take (length (ip_bytes ip)) inner"
    by (auto simp: inner.dec_iff InnerPacket_encode_def)
  show ?thesis
  proof (rule that [OF hdr])
    show "tr_read (rh_transport ?rh) (hdr_sequence ?h) (dg_payload d) (length (dg_payload d)) =
        Inr (InnerPacketKind_byte InnerData # inner)"
      and "ensure_acceptable (rh_receive_window ?rh) (hdr_sequence ?h) = Inr ()"
      and "rh_receive_window (tr_crypto r') = mark_authenticated (rh_receive_window ?rh) (hdr_sequence ?h)"
      using dec i(1) by (auto simp: decrypt_into_def split: if_splits sum.splits)
    show "\<exists>ip. Ipv4Packet_parse inner = Inr ip \<and> p = ip_bytes ip" "length p \<le> tr_mtu r"
      using i Ipv4Packet_parse_take by auto
  qed
qed

text \<open>What a sender has encoded is decoded by a receiver of its session that accepts the number.\<close>

lemma encoded_ip_decodes:
  assumes "noise_pair (sh_transport (ts_crypto s)) (rh_transport (tr_crypto r))"
    and "Ipv4Packet_parse packet = Inr ip" "length (ip_bytes ip) \<le> tr_mtu r" "ts_session_id s = tr_session_id r"
    and "TunnelSender_encode_into s Data InnerData (ip_bytes ip) = (Inr out, s')"
    and "ensure_acceptable (rh_receive_window (tr_crypto r)) (ts_next_sequence s) = Inr ()"
  shows "\<exists>d. Datagram_decode out = Inr d \<and> hdr_kind (dg_header d) = Data \<and> hdr_session_id (dg_header d) = ts_session_id s \<and>
      TunnelReceiver_decode_into r d = (Inr (DecodedIp (ip_bytes ip)), r\<lparr>tr_crypto := (tr_crypto r)\<lparr>rh_receive_window :=
        mark_authenticated (rh_receive_window (tr_crypto r)) (ts_next_sequence s)\<rparr>\<rparr>)"
    and "length out = length (ip_bytes ip) + TUNNEL_OVERHEAD"
    and "s' = s\<lparr>ts_plaintext := InnerPacketKind_byte InnerData # ip_bytes ip, ts_next_sequence := ts_next_sequence s + 1\<rparr>"
    and "ts_next_sequence s < ts_next_sequence s + 1"
proof -
  let ?n = "ts_next_sequence s" and ?w = "rh_receive_window (tr_crypto r)"
  let ?plain = "InnerPacketKind_byte InnerData # ip_bytes ip"
  from assms(5) obtain c where enc: "encrypt_into (sh_transport (ts_crypto s)) ?n ?plain (Suc (length (ip_bytes ip)) + AUTH_TAG_LEN) = Inr c"
    and seq: "unat ?n + 1 < 2 ^ 64"
    and out: "out = Datagram_encode \<lparr>dg_header = \<lparr>hdr_kind = Data, hdr_flags = 0, hdr_session_id = ts_session_id s,
                 hdr_sequence = ?n\<rparr>, dg_payload = c\<rparr>"
    and s': "s' = s\<lparr>ts_plaintext := ?plain, ts_next_sequence := ?n + 1\<rparr>"
    by (auto simp: TunnelSender_encode_into_Inr SendHalf_encrypt_into_def)
  have len: "length c = length ?plain + AUTH_TAG_LEN" using noise_pair_length [OF assms(1)] enc by (auto simp: result_simps)
  have "decrypt_into (rh_transport (tr_crypto r)) ?w ?n c (length c) = (Inr ?plain, mark_authenticated ?w ?n)"
    using decrypt_into_encrypt_into [OF assms(1) enc assms(6)] len by simp
  then show "\<exists>d. Datagram_decode out = Inr d \<and> hdr_kind (dg_header d) = Data \<and> hdr_session_id (dg_header d) = ts_session_id s \<and>
      TunnelReceiver_decode_into r d = (Inr (DecodedIp (ip_bytes ip)), r\<lparr>tr_crypto := (tr_crypto r)\<lparr>rh_receive_window :=
        mark_authenticated ?w ?n\<rparr>\<rparr>)"
    using assms(3,4) Ipv4Packet_parse_idem [OF assms(2)]
    by (simp add: out datagram.dec_enc TunnelReceiver_decode_into_def Let_def
        ReceiveHalf_decrypt_into_def InnerPacket_decode_def InnerPacketKind_try_from_def)
  show "length out = length (ip_bytes ip) + TUNNEL_OVERHEAD"
    using len by (simp add: out Datagram_encode_def TUNNEL_OVERHEAD_def)
  show "s' = s\<lparr>ts_plaintext := ?plain, ts_next_sequence := ?n + 1\<rparr>" by (rule s')
  show "?n < ?n + 1" using seq by (simp add: word_less_nat_alt unat_add_no_overflow)
qed

section \<open>Properties\<close>

text \<open>
  C7. A nonce is never used twice. Over any sequence of packets and keepalives given to a sending
  half, failures included, the sequence numbers of the datagrams it emits strictly increase; the
  counter stops with an error at its maximum and never wraps.
\<close>

theorem outgoing_sequences_increase:
  "sorted_wrt (<) (trace_used (\<lambda>s i. snd (sender_step s i)) (\<lambda>s i. wire_sequence (fst (sender_step s i)))
     s inputs)"
  by (rule tunnel_sequence.trace_used_increasing)

text \<open>
  C8. Splitting a tunnel is transparent. Whatever the interleaving of packets to send, keepalives
  and received datagrams, the answers of the whole plane are those of the sending half run on the
  sends alone together with those of the receiving half run on the receptions alone; the two
  halves need no common order.
\<close>

theorem split_is_transparent:
  "lefts (run_outputs plane_step dp es) =
     run_outputs sender_step (fst (TunnelDataPlane_split dp)) (sends es) \<and>
   rights (run_outputs plane_step dp es) =
     run_outputs receiver_step (snd (TunnelDataPlane_split dp)) (receives es)"
  using halves.same_outputs [OF splits_into_split, of dp es]
    halves_run_apart [of "fst (TunnelDataPlane_split dp)" "snd (TunnelDataPlane_split dp)" es]
  by simp

text \<open>
  Packets cross the tunnel. With matching ends and a live transport, every IPv4 packet that
  fits the MTU is encoded, costs exactly the tunnel overhead, carries the next sequence number, and
  is delivered unchanged by a receiver of the same session whose window has room for that number.
\<close>

lemma packet_crosses_tunnel:
  assumes "noise_pair (sh_transport (ts_crypto s)) (rh_transport (tr_crypto r))"
    and "noise_live (sh_transport (ts_crypto s))"
    and "Ipv4Packet_parse packet = Inr ip" "length (ip_bytes ip) \<le> ts_mtu s"
    and "ts_mtu s < MAX_PLAINTEXT_LEN" "ts_mtu s \<le> tr_mtu r"
    and "ts_next_sequence s \<noteq> - 1" "ts_session_id s = tr_session_id r"
    and "ensure_acceptable (rh_receive_window (tr_crypto r)) (ts_next_sequence s) = Inr ()"
  shows "\<exists>out s'. TunnelSender_encode_ip_into s packet = (Inr out, s') \<and>
           length out = length (ip_bytes ip) + TUNNEL_OVERHEAD \<and>
           ts_next_sequence s' = ts_next_sequence s + 1 \<and>
           fst (receiver_step r out) = Inr (DecodedIp (ip_bytes ip))"
proof -
  let ?n = "ts_next_sequence s" and ?plain = "InnerPacketKind_byte InnerData # ip_bytes ip"
  have short: "length ?plain \<le> MAX_PLAINTEXT_LEN" using assms(4,5) by simp
  then obtain c where "tr_write (sh_transport (ts_crypto s)) ?n ?plain (Suc (length (ip_bytes ip)) + AUTH_TAG_LEN) = Inr c"
    using assms(2,7) unfolding noise_live_def by (metis length_Cons order_refl)
  then have "encrypt_into (sh_transport (ts_crypto s)) ?n ?plain (Suc (length (ip_bytes ip)) + AUTH_TAG_LEN) = Inr c"
    using short by (simp add: result_simps)
  then obtain out s' where sent: "TunnelSender_encode_into s Data InnerData (ip_bytes ip) = (Inr out, s')"
    using unat_not_max [OF assms(7)] by (simp add: TunnelSender_encode_into_Inr SendHalf_encrypt_into_def)
  have "length (ip_bytes ip) \<le> tr_mtu r" using assms(4,6) by simp
  from encoded_ip_decodes [OF assms(1,3) this assms(8) sent assms(9)] sent assms(3,4) show ?thesis
    by (auto simp: TunnelSender_encode_ip_into_def receiver_step_def)
qed

text \<open>A minimal packet, and a receiver of a session over the transport without secrecy.\<close>

definition sample_packet :: bytes where
  "sample_packet = [0x45, 0, 0, 20, 0, 0, 0, 0, 64, 17, 0, 0, 10, 0, 0, 2, 10, 0, 0, 1]"

definition sample_receiver :: TunnelReceiver where
  "sample_receiver = \<lparr>tr_session_id = 9, tr_mtu = 1280,
     tr_crypto = \<lparr>rh_transport = plain_transport, rh_receive_window = ReplayWindow_default,
                  rh_peer_static_key = PublicKey []\<rparr>\<rparr>"

lemma sample_packet_parse:
  "Ipv4Packet_parse sample_packet =
     Inr \<lparr>ip_bytes = sample_packet, ip_source = Ipv4Addr 10 0 0 2, ip_destination = Ipv4Addr 10 0 0 1\<rparr>"
  by (simp add: Ipv4Packet_parse_def MINIMUM_HEADER_LEN_def sample_packet_def from_be_def be_value_def
      drop_bit_eq_div)

lemma fresh_window_accepts: "ensure_acceptable ReplayWindow_default n = Inr ()"
  by (simp add: ensure_acceptable_def ReplayWindow_default_def)

text \<open>
  Only authenticated, fresh, well-formed traffic is delivered. When the receiver delivers an IP
  packet, the datagram named its session, its sequence number was acceptable and is now marked, the
  transport authenticated it under that number, the packet is at most the MTU, and it is exactly one
  structurally valid IPv4 packet, so that a later parse of the delivered bytes sees the same
  addresses.
\<close>

lemma delivered_packets_are_authentic:
  assumes "TunnelReceiver_decode_into r d = (Inr (DecodedIp p), r')"
  shows "hdr_session_id (dg_header d) = tr_session_id r \<and> hdr_kind (dg_header d) = Data \<and>
     ensure_acceptable (rh_receive_window (tr_crypto r)) (hdr_sequence (dg_header d)) = Inr () \<and>
     rh_receive_window (tr_crypto r') =
       mark_authenticated (rh_receive_window (tr_crypto r)) (hdr_sequence (dg_header d)) \<and>
     (\<exists>rest. tr_read (rh_transport (tr_crypto r)) (hdr_sequence (dg_header d)) (dg_payload d)
               (length (dg_payload d)) = Inr (InnerPacketKind_byte InnerData # p @ rest)) \<and>
     length p \<le> tr_mtu r \<and> (\<exists>ip. Ipv4Packet_parse p = Inr ip \<and> ip_bytes ip = p)"
proof -
  from TunnelReceiver_decode_into_ip [OF assms] obtain inner ip where
    facts: "hdr_session_id (dg_header d) = tr_session_id r" "hdr_kind (dg_header d) = Data"
    "tr_read (rh_transport (tr_crypto r)) (hdr_sequence (dg_header d)) (dg_payload d)
       (length (dg_payload d)) = Inr (InnerPacketKind_byte InnerData # inner)"
    "Ipv4Packet_parse inner = Inr ip" "p = ip_bytes ip" "length p \<le> tr_mtu r"
    "ensure_acceptable (rh_receive_window (tr_crypto r)) (hdr_sequence (dg_header d)) = Inr ()"
    "rh_receive_window (tr_crypto r') =
       mark_authenticated (rh_receive_window (tr_crypto r)) (hdr_sequence (dg_header d))"
    by metis
  have "inner = p @ drop (length p) inner"
    using Ipv4Packet_parse_take [OF facts(4)] facts(5) by (metis append_take_drop_id)
  with facts Ipv4Packet_parse_idem [OF facts(4)] show ?thesis by (metis (no_types))
qed

end
