(* ===== verification/Net.thy ===== *)
theory Net
  imports Protocol
begin

text \<open>
  Addresses of the Rust standard library that several components share: socket addresses, the order
  of IPv4 addresses, and membership in a subnet given by a prefix length.
\<close>

datatype IpAddr = V4 ipv4 | V6 "128 word"

record SocketAddr =
  sa_ip :: IpAddr
  sa_port :: u16

fun is_loopback :: "IpAddr \<Rightarrow> bool" where
  "is_loopback (V4 (Ipv4Addr a b c d)) \<longleftrightarrow> a = 127"
| "is_loopback (V6 w) \<longleftrightarrow> w = 1"

section \<open>Order of addresses\<close>

text \<open>\<^verbatim>\<open>Ipv4Addr\<close> is ordered as its big-endian number.\<close>

instantiation ipv4 :: linorder
begin

definition less_eq_ipv4 :: "ipv4 \<Rightarrow> ipv4 \<Rightarrow> bool" where
  "less_eq_ipv4 a b \<longleftrightarrow> ipv4_bits a \<le> ipv4_bits b"

definition less_ipv4 :: "ipv4 \<Rightarrow> ipv4 \<Rightarrow> bool" where
  "less_ipv4 a b \<longleftrightarrow> ipv4_bits a < ipv4_bits b"

instance
  by standard (auto simp: less_eq_ipv4_def less_ipv4_def less_le_not_le intro: order.trans)

end

section \<open>Subnets\<close>

text \<open>The network mask of a prefix length of at most 32.\<close>

definition prefix_mask :: "nat \<Rightarrow> u32" where
  "prefix_mask p = (if p = 0 then 0 else push_bit (32 - p) (- 1))"

definition subnet_eq :: "ipv4 \<Rightarrow> ipv4 \<Rightarrow> nat \<Rightarrow> bool" where
  "subnet_eq a b p \<longleftrightarrow> ipv4_bits a AND prefix_mask p = ipv4_bits b AND prefix_mask p"

lemma bit_prefix_mask: "p \<le> 32 \<Longrightarrow> bit (prefix_mask p) i \<longleftrightarrow> 32 - p \<le> i \<and> i < 32"
  by (auto simp: prefix_mask_def bit_push_bit_iff bit_not_iff bit_mask_iff)

lemma and_prefix_mask_eq_iff:
  assumes "p \<le> 32"
  shows "x AND prefix_mask p = y AND prefix_mask p \<longleftrightarrow> drop_bit (32 - p) x = drop_bit (32 - p) (y :: u32)"
proof
  assume h: "x AND prefix_mask p = y AND prefix_mask p"
  have "bit x m = bit y m" if "32 - p \<le> m" for m
  proof (cases "m < 32")
    case True
    have "bit (x AND prefix_mask p) m = bit (y AND prefix_mask p) m" using h by simp
    then show ?thesis using True that assms by (simp add: bit_and_iff bit_prefix_mask)
  next
    case False
    then show ?thesis by (auto dest: bit_imp_le_length)
  qed
  then show "drop_bit (32 - p) x = drop_bit (32 - p) y"
    by (intro bit_eqI) (simp add: bit_drop_bit_eq)
next
  assume h: "drop_bit (32 - p) x = drop_bit (32 - p) y"
  have "bit (x AND prefix_mask p) n = bit (y AND prefix_mask p) n" for n
  proof (cases "32 - p \<le> n")
    case True
    then show ?thesis
      using arg_cong [OF h, of "\<lambda>w. bit w (n - (32 - p))"] by (simp add: bit_drop_bit_eq bit_and_iff)
  next
    case False
    then show ?thesis using assms by (simp add: bit_and_iff bit_prefix_mask)
  qed
  then show "x AND prefix_mask p = y AND prefix_mask p" by (simp add: bit_eq_iff)
qed

lemma subnet_eq_drop_bit:
  "p \<le> 32 \<Longrightarrow> subnet_eq a b p \<longleftrightarrow> drop_bit (32 - p) (ipv4_bits a) = drop_bit (32 - p) (ipv4_bits b)"
  unfolding subnet_eq_def by (rule and_prefix_mask_eq_iff)

lemma drop_bit_mono_word: "x \<le> y \<Longrightarrow> drop_bit n x \<le> drop_bit n (y :: u32)"
  by (simp add: word_le_nat_alt drop_bit_eq_div unat_div div_le_mono)

text \<open>Everything between the network and the broadcast address belongs to the subnet.\<close>

lemma between_network_and_broadcast:
  fixes t x :: u32
  assumes p: "p \<le> 32" and lo: "t AND prefix_mask p \<le> x" and hi: "x \<le> (t AND prefix_mask p) OR NOT (prefix_mask p)"
  shows "x AND prefix_mask p = t AND prefix_mask p"
proof -
  let ?n = "t AND prefix_mask p" and ?d = "drop_bit (32 - p) :: u32 \<Rightarrow> u32"
  have "(?n OR NOT (prefix_mask p)) AND prefix_mask p = ?n AND prefix_mask p"
    by (simp add: bit_eq_iff bit_or_iff bit_and_iff bit_not_iff) auto
  then have "?d (?n OR NOT (prefix_mask p)) = ?d ?n" using and_prefix_mask_eq_iff [OF p] by blast
  with drop_bit_mono_word [OF lo] drop_bit_mono_word [OF hi] have "?d x = ?d ?n" by (metis order.antisym)
  then have "x AND prefix_mask p = ?n AND prefix_mask p" using and_prefix_mask_eq_iff [OF p] by blast
  then show ?thesis by (simp add: and.assoc)
qed

lemma subnet_eq_equiv:
  "subnet_eq a a p" "subnet_eq a b p \<Longrightarrow> subnet_eq b a p"
  "subnet_eq a b p \<Longrightarrow> subnet_eq b c p \<Longrightarrow> subnet_eq a c p"
  by (simp_all add: subnet_eq_def)

end
