(* ===== verification/Morph.thy ===== *)
theory Morph
  imports Keys
begin

text \<open>
  The crate \<^verbatim>\<open>morph\<close>: the MouseMorph envelope, an authenticated frame with a rotating routing tag and
  random padding around a datagram. HMAC-SHA256 and ChaCha20-Poly1305 are functions of a record; the
  system clock (seconds since the Unix epoch, \<^const>\<open>None\<close> when the clock is earlier) and the answer of
  the operating system's random generator are arguments of the operations that consult them.
\<close>

section \<open>Constants and profiles\<close>

definition FORMAT_VERSION :: u8 where "FORMAT_VERSION = 2"
definition ROUTING_TAG_LEN :: nat where "ROUTING_TAG_LEN = 8"
definition NONCE_LEN :: nat where "NONCE_LEN = 12"
definition CLEAR_PREFIX_LEN :: nat where "CLEAR_PREFIX_LEN = ROUTING_TAG_LEN + NONCE_LEN"
definition INNER_HEADER_LEN :: nat where "INNER_HEADER_LEN = 6"
definition MORPH_AUTH_TAG_LEN :: nat where "MORPH_AUTH_TAG_LEN = 16"

definition MIN_FRAME_LEN :: nat where
  "MIN_FRAME_LEN = CLEAR_PREFIX_LEN + INNER_HEADER_LEN + MORPH_AUTH_TAG_LEN"

definition ROUTE_LABEL :: bytes where "ROUTE_LABEL = ascii ''MouseVPN MouseMorph v2 route''"
definition MAX_DATAGRAM_LEN :: nat where "MAX_DATAGRAM_LEN = 1472"
definition MORPH_SAFE_TUN_MTU :: u16 where "MORPH_SAFE_TUN_MTU = 1280"
definition MAX_RANDOM_PADDING :: nat where "MAX_RANDOM_PADDING = 31"
definition FRAME_RANDOM_LEN :: nat where "FRAME_RANDOM_LEN = NONCE_LEN + 2 + MAX_RANDOM_PADDING"

lemmas morph_consts = ROUTING_TAG_LEN_def NONCE_LEN_def CLEAR_PREFIX_LEN_def INNER_HEADER_LEN_def
  MORPH_AUTH_TAG_LEN_def MIN_FRAME_LEN_def MAX_DATAGRAM_LEN_def MAX_RANDOM_PADDING_def
  FRAME_RANDOM_LEN_def

datatype Profile = Quiet | Balanced | Paranoid

datatype Direction = ClientToServer | ServerToClient

datatype MorphError =
  MTruncated nat nat
| MFrameTooLarge nat nat
| MInvalidFrame
| MInvalidProfile u8
| MUnknownRoutingTag
| MClock
| MRandom string
| MCipherInit
| MEncryption
| MAuthentication

fun Profile_byte :: "Profile \<Rightarrow> u8" where
  "Profile_byte Quiet = 1"
| "Profile_byte Balanced = 2"
| "Profile_byte Paranoid = 3"

fun Profile_name :: "Profile \<Rightarrow> string" where
  "Profile_name Quiet = ''quiet''"
| "Profile_name Balanced = ''balanced''"
| "Profile_name Paranoid = ''paranoid''"

fun epoch_seconds :: "Profile \<Rightarrow> u64" where
  "epoch_seconds Quiet = 30"
| "epoch_seconds Balanced = 5"
| "epoch_seconds Paranoid = 1"

definition Profile_from_id :: "u8 \<Rightarrow> MorphError + Profile" where
  "Profile_from_id value =
     (if value = 1 then Inr Quiet
      else if value = 2 then Inr Balanced
      else if value = 3 then Inr Paranoid
      else Inl (MInvalidProfile value))"

fun Direction_byte :: "Direction \<Rightarrow> u8" where
  "Direction_byte ClientToServer = 0"
| "Direction_byte ServerToClient = 1"

section \<open>Random choices\<close>

text \<open>\<open>random\<close> is what the generator answers to the one request for two bytes.\<close>

definition random_inclusive :: "string + bytes \<Rightarrow> nat \<Rightarrow> nat \<Rightarrow> MorphError + nat" where
  "random_inclusive random minimum maximum =
     (if minimum = maximum then Inr minimum
      else bind_r (map_err MRandom random) (\<lambda>bs.
        let span = maximum - minimum + 1
        in Inr (minimum + unat (from_be bs :: u16) mod span)))"

fun cover_count :: "string + bytes \<Rightarrow> Profile \<Rightarrow> MorphError + nat" where
  "cover_count random Quiet = Inr 0"
| "cover_count random Balanced = random_inclusive random 1 2"
| "cover_count random Paranoid = random_inclusive random 3 5"

fun handshake_jitter_ms :: "string + bytes \<Rightarrow> Profile \<Rightarrow> MorphError + nat" where
  "handshake_jitter_ms random Quiet = Inr 0"
| "handshake_jitter_ms random Balanced = random_inclusive random 1 4"
| "handshake_jitter_ms random Paranoid = random_inclusive random 2 12"

section \<open>Routing tags and epochs\<close>

text \<open>
  \<open>aead_seal key nonce aad plaintext\<close> gives the ciphertext and the tag, \<open>aead_open\<close> the plaintext.
\<close>

record morph_lib =
  hmac_sha256 :: "bytes \<Rightarrow> bytes \<Rightarrow> bytes"
  aead_seal :: "bytes \<Rightarrow> bytes \<Rightarrow> bytes \<Rightarrow> bytes \<Rightarrow> (bytes \<times> bytes) option"
  aead_open :: "bytes \<Rightarrow> bytes \<Rightarrow> bytes \<Rightarrow> bytes \<Rightarrow> bytes \<Rightarrow> bytes option"

datatype MorphKey = MorphKey (mk_bytes: bytes)

definition routing_tag_at :: "morph_lib \<Rightarrow> MorphKey \<Rightarrow> Profile \<Rightarrow> Direction \<Rightarrow> u64 \<Rightarrow> bytes" where
  "routing_tag_at L key profile direction epoch =
     take ROUTING_TAG_LEN
       (hmac_sha256 L (mk_bytes key)
         (ROUTE_LABEL @ [Profile_byte profile] @ [Direction_byte direction] @ to_be 8 epoch))"

definition accepted_epochs :: "u64 \<Rightarrow> u64 list" where
  "accepted_epochs epoch = [saturating_sub epoch 1, epoch, saturating_add epoch 1]"

definition matches_routing_tag ::
  "morph_lib \<Rightarrow> MorphKey \<Rightarrow> Profile \<Rightarrow> Direction \<Rightarrow> u64 \<Rightarrow> bytes \<Rightarrow> bool" where
  "matches_routing_tag L key profile direction epoch route =
     list_ex (\<lambda>candidate. routing_tag_at L key profile direction candidate = route)
       [epoch, saturating_sub epoch 1, saturating_add epoch 1]"

definition current_epoch :: "u64 option \<Rightarrow> Profile \<Rightarrow> MorphError + u64" where
  "current_epoch now profile =
     bind_r (ok_or MClock now) (\<lambda>seconds. Inr (seconds div epoch_seconds profile))"

definition associated_data :: "bytes \<Rightarrow> Direction \<Rightarrow> bytes" where
  "associated_data route direction = route @ [Direction_byte direction]"

section \<open>Frames\<close>

datatype FrameKind = Cover | Payload

fun FrameKind_byte :: "FrameKind \<Rightarrow> u8" where
  "FrameKind_byte Cover = 0"
| "FrameKind_byte Payload = 1"

datatype DecodedFrame = DecodedCover Profile | DecodedPayload Profile

definition encode_frame ::
  "morph_lib \<Rightarrow> u64 option \<Rightarrow> string + bytes \<Rightarrow> MorphKey \<Rightarrow> Profile \<Rightarrow> FrameKind \<Rightarrow> bytes \<Rightarrow> Direction \<Rightarrow>
   MorphError + bytes" where
  "encode_frame L now rng key profile kind inner direction =
     (if length inner > 65535 then Inl (MFrameTooLarge (length inner) 65535)
      else
        let inner_len = (of_nat (length inner) :: u16);
            minimum = MIN_FRAME_LEN + length inner
        in
        if minimum > MAX_DATAGRAM_LEN then Inl (MFrameTooLarge minimum MAX_DATAGRAM_LEN)
        else
          bind_r (current_epoch now profile) (\<lambda>epoch.
          let route = routing_tag_at L key profile direction epoch in
          bind_r (map_err MRandom rng) (\<lambda>random.
          let nonce = take NONCE_LEN random;
              choice = (from_be [random ! NONCE_LEN, random ! (NONCE_LEN + 1)] :: u16);
              padding_len = min (unat choice mod (MAX_RANDOM_PADDING + 1)) (MAX_DATAGRAM_LEN - minimum);
              plain = [FORMAT_VERSION, FrameKind_byte kind, Profile_byte profile, 0]
                        @ to_be 2 inner_len @ inner @ take padding_len (drop (NONCE_LEN + 2) random)
          in
          if length (mk_bytes key) \<noteq> 32 then Inl MCipherInit
          else
            let aad = associated_data route direction in
            bind_r (ok_or MEncryption (aead_seal L (mk_bytes key) nonce aad plain))
              (\<lambda>(ciphertext, authentication). Inr (route @ nonce @ ciphertext @ authentication)))))"

definition decode_frame ::
  "morph_lib \<Rightarrow> u64 option \<Rightarrow> MorphKey \<Rightarrow> Profile \<Rightarrow> bytes \<Rightarrow> Direction \<Rightarrow>
   MorphError + DecodedFrame \<times> bytes" where
  "decode_frame L now key expected_profile input direction =
     (if length input < MIN_FRAME_LEN then Inl (MTruncated (length input) MIN_FRAME_LEN)
      else if length input > MAX_DATAGRAM_LEN then Inl (MFrameTooLarge (length input) MAX_DATAGRAM_LEN)
      else
        let route = take ROUTING_TAG_LEN input in
        bind_r (current_epoch now expected_profile) (\<lambda>epoch.
        if \<not> matches_routing_tag L key expected_profile direction epoch route
        then Inl MUnknownRoutingTag
        else
          let nonce = take NONCE_LEN (drop ROUTING_TAG_LEN input);
              ciphertext_end = length input - MORPH_AUTH_TAG_LEN;
              ciphertext = drop CLEAR_PREFIX_LEN (take ciphertext_end input)
          in
          if length (mk_bytes key) \<noteq> 32 then Inl MCipherInit
          else
            let aad = associated_data route direction in
            bind_r (ok_or MAuthentication
              (aead_open L (mk_bytes key) nonce aad ciphertext (drop ciphertext_end input))) (\<lambda>output.
            if length output < INNER_HEADER_LEN \<or> output ! 0 \<noteq> FORMAT_VERSION \<or> output ! 3 \<noteq> 0
            then Inl MInvalidFrame
            else
              bind_r (Profile_from_id (output ! 2)) (\<lambda>profile.
              if profile \<noteq> expected_profile then Inl MInvalidFrame
              else
                let inner_len = unat (from_be [output ! 4, output ! 5] :: u16) in
                if INNER_HEADER_LEN + inner_len > length output then Inl MInvalidFrame
                else if output ! 1 = FrameKind_byte Cover \<and> inner_len = 0
                then Inr (DecodedCover profile, [])
                else if output ! 1 = FrameKind_byte Payload
                then Inr (DecodedPayload profile, take inner_len (drop INNER_HEADER_LEN output))
                else Inl MInvalidFrame))))"

record MorphCodec =
  mc_key :: MorphKey
  mc_profile :: Profile

definition MorphCodec_encode_payload ::
  "morph_lib \<Rightarrow> u64 option \<Rightarrow> string + bytes \<Rightarrow> MorphCodec \<Rightarrow> bytes \<Rightarrow> Direction \<Rightarrow> MorphError + bytes"
where
  "MorphCodec_encode_payload L now rng codec inner direction =
     encode_frame L now rng (mc_key codec) (mc_profile codec) Payload inner direction"

definition MorphCodec_encode_cover ::
  "morph_lib \<Rightarrow> u64 option \<Rightarrow> string + bytes \<Rightarrow> MorphCodec \<Rightarrow> Direction \<Rightarrow> MorphError + bytes" where
  "MorphCodec_encode_cover L now rng codec direction =
     encode_frame L now rng (mc_key codec) (mc_profile codec) Cover [] direction"

definition MorphCodec_decode ::
  "morph_lib \<Rightarrow> u64 option \<Rightarrow> MorphCodec \<Rightarrow> bytes \<Rightarrow> Direction \<Rightarrow> MorphError + DecodedFrame \<times> bytes" where
  "MorphCodec_decode L now codec input direction =
     decode_frame L now (mc_key codec) (mc_profile codec) input direction"

section \<open>What the libraries promise\<close>

text \<open>
  HMAC-SHA256 gives thirty-two bytes; sealing under a thirty-two-byte key with a twelve-byte nonce
  succeeds for messages of a datagram's size, keeps the length, gives a sixteen-byte tag, and what
  was sealed opens to the plaintext under the same key, nonce and associated data.
\<close>

definition morph_lib_ok :: "morph_lib \<Rightarrow> bool" where
  "morph_lib_ok L \<longleftrightarrow>
     (\<forall>k m. length (hmac_sha256 L k m) = 32) \<and>
     (\<forall>k n a p. length k = 32 \<and> length n = 12 \<and> length p \<le> 65536 \<longrightarrow>
        (\<exists>c t. aead_seal L k n a p = Some (c, t) \<and> length c = length p \<and> length t = 16 \<and>
               aead_open L k n a c t = Some p))"

section \<open>Lemmas\<close>

lemma Profile_roundtrip [simp]: "Profile_from_id (Profile_byte p) = Inr p"
  by (cases p) (simp_all add: Profile_from_id_def)

lemma length_routing_tag [simp]:
  "morph_lib_ok L \<Longrightarrow> length (routing_tag_at L key profile direction epoch) = 8"
  by (simp add: routing_tag_at_def morph_lib_ok_def ROUTING_TAG_LEN_def)

lemma morph_lib_seal:
  assumes "morph_lib_ok L" "length k = 32" "length n = 12" "length p \<le> 65536"
  obtains c t where "aead_seal L k n a p = Some (c, t)" "length c = length p" "length t = 16"
    "aead_open L k n a c t = Some p"
  using assms unfolding morph_lib_ok_def by blast

lemma accepted_epochs_iff:
  "x \<in> set (accepted_epochs e) \<longleftrightarrow> unat x \<le> unat e + 1 \<and> unat e \<le> unat x + 1"
proof -
  have "unat x < 2 ^ 64" "unat e < 2 ^ 64" using unat_bound [of x] unat_bound [of e] by simp_all
  then show ?thesis
    by (auto simp: accepted_epochs_def word_unat_eq_iff unat_saturating_add unat_saturating_sub min_def)
qed

lemma matches_routing_tag_iff:
  "matches_routing_tag L key profile direction epoch route \<longleftrightarrow>
     (\<exists>e\<in>set (accepted_epochs epoch). routing_tag_at L key profile direction e = route)"
  by (auto simp: matches_routing_tag_def accepted_epochs_def)

lemma div_skew:
  fixes a b k :: nat
  assumes "0 < k" "a \<le> b + k"
  shows "a div k \<le> b div k + 1"
  using div_le_mono [OF assms(2), of k] assms(1) by (simp add: div_add_self2)

text \<open>Clocks that differ by at most one epoch length give epochs the other side accepts.\<close>

lemma epoch_skew:
  assumes "unat t1 \<le> unat t2 + unat (epoch_seconds p)" "unat t2 \<le> unat t1 + unat (epoch_seconds p)"
  shows "t1 div epoch_seconds p \<in> set (accepted_epochs (t2 div epoch_seconds p))"
proof -
  have "0 < unat (epoch_seconds p)" by (cases p) simp_all
  with assms div_skew show ?thesis by (simp add: accepted_epochs_iff unat_div)
qed

definition frame_plain :: "FrameKind \<Rightarrow> Profile \<Rightarrow> bytes \<Rightarrow> bytes \<Rightarrow> bytes" where
  "frame_plain kind profile inner padding =
     [FORMAT_VERSION, FrameKind_byte kind, Profile_byte profile, 0]
       @ to_be 2 (of_nat (length inner) :: u16) @ inner @ padding"

lemma length_frame_plain [simp]:
  "length (frame_plain kind profile inner padding) = 6 + length inner + length padding"
  by (simp add: frame_plain_def)

text \<open>What an encoder with a working clock, generator and key produces.\<close>

lemma encode_frame_shape:
  assumes L: "morph_lib_ok L" and key: "length (mk_bytes key) = 32"
    and rnd: "length random = FRAME_RANDOM_LEN"
    and size: "MIN_FRAME_LEN + length inner \<le> MAX_DATAGRAM_LEN"
  obtains padding c tag where
    "encode_frame L (Some t) (Inr random) key profile kind inner direction =
       Inr (routing_tag_at L key profile direction (t div epoch_seconds profile)
              @ take NONCE_LEN random @ c @ tag)"
    "length padding \<le> MAX_RANDOM_PADDING"
    "MIN_FRAME_LEN + length inner + length padding \<le> MAX_DATAGRAM_LEN"
    "length c = 6 + length inner + length padding" "length tag = MORPH_AUTH_TAG_LEN"
    "aead_open L (mk_bytes key) (take NONCE_LEN random)
       (associated_data (routing_tag_at L key profile direction (t div epoch_seconds profile)) direction)
       c tag = Some (frame_plain kind profile inner padding)"
proof -
  define minimum where "minimum = MIN_FRAME_LEN + length inner"
  define n where "n = min (unat (from_be [random ! NONCE_LEN, random ! (NONCE_LEN + 1)] :: u16)
    mod (MAX_RANDOM_PADDING + 1)) (MAX_DATAGRAM_LEN - minimum)"
  define padding where "padding = take n (drop (NONCE_LEN + 2) random)"
  have "n < MAX_RANDOM_PADDING + 1"
    unfolding n_def by (rule min.strict_coboundedI1) (simp add: MAX_RANDOM_PADDING_def)
  then have n: "n \<le> MAX_RANDOM_PADDING" "n \<le> MAX_DATAGRAM_LEN - minimum" by (simp_all add: n_def)
  then have pad: "length padding = n"
    using rnd by (simp add: padding_def morph_consts)
  let ?route = "routing_tag_at L key profile direction (t div epoch_seconds profile)"
  have "length (take NONCE_LEN random) = 12" "length (frame_plain kind profile inner padding) \<le> 65536"
    using rnd size n pad by (simp_all add: morph_consts)
  from morph_lib_seal [OF L key this, of "associated_data ?route direction"]
  obtain c tag where seal: "aead_seal L (mk_bytes key) (take NONCE_LEN random)
      (associated_data ?route direction) (frame_plain kind profile inner padding) = Some (c, tag)"
    "length c = length (frame_plain kind profile inner padding)" "length tag = 16"
    "aead_open L (mk_bytes key) (take NONCE_LEN random) (associated_data ?route direction) c tag =
       Some (frame_plain kind profile inner padding)" .
  have "\<not> 65535 < length inner" "\<not> MAX_DATAGRAM_LEN < MIN_FRAME_LEN + length inner"
    using size by (auto simp: morph_consts)
  then have "encode_frame L (Some t) (Inr random) key profile kind inner direction =
      Inr (?route @ take NONCE_LEN random @ c @ tag)"
    using key seal(1) by (simp add: encode_frame_def current_epoch_def frame_plain_def padding_def
        n_def minimum_def)
  then show ?thesis
    using that [of c tag padding] seal pad n size by (simp add: minimum_def MORPH_AUTH_TAG_LEN_def)
qed

lemma decode_frame_opened:
  assumes lens: "length route = ROUTING_TAG_LEN" "length nonce = NONCE_LEN"
      "length c = 6 + length inner + length padding" "length tag = MORPH_AUTH_TAG_LEN"
    and size: "MIN_FRAME_LEN + length inner + length padding \<le> MAX_DATAGRAM_LEN"
    and key: "length (mk_bytes key) = 32"
    and route: "matches_routing_tag L key profile direction (t div epoch_seconds profile) route"
    and opens: "aead_open L (mk_bytes key) nonce (associated_data route direction) c tag =
       Some (frame_plain kind profile inner padding)"
    and kind: "kind = Cover \<longrightarrow> inner = []"
  shows "decode_frame L (Some t) key profile (route @ nonce @ c @ tag) direction =
    Inr (case kind of Cover \<Rightarrow> (DecodedCover profile, []) | Payload \<Rightarrow> (DecodedPayload profile, inner))"
proof -
  let ?input = "route @ nonce @ c @ tag" and ?out = "frame_plain kind profile inner padding"
  have parts: "take ROUTING_TAG_LEN ?input = route" "take NONCE_LEN (drop ROUTING_TAG_LEN ?input) = nonce"
    "drop CLEAR_PREFIX_LEN (take (length ?input - MORPH_AUTH_TAG_LEN) ?input) = c"
    "drop (length ?input - MORPH_AUTH_TAG_LEN) ?input = tag"
    using lens by (simp_all add: morph_consts)
  have len: "\<not> length ?input < MIN_FRAME_LEN" "\<not> MAX_DATAGRAM_LEN < length ?input"
    using lens size by (simp_all add: morph_consts)
  have small: "length inner < 2 ^ 16" using size by (simp add: morph_consts)
  obtain x y where xy: "to_be 2 (of_nat (length inner) :: u16) = [x, y]"
    using length_to_be [of 2 "of_nat (length inner) :: u16"]
    by (auto simp: numeral_2_eq_2 length_Suc_conv simp del: length_to_be)
  then have inner_len: "unat (from_be [x, y] :: u16) = length inner"
    using from_to_be_16 [of "of_nat (length inner)"] small by (simp add: unat_of_nat)
  have "Profile_from_id (Profile_byte profile) = Inr profile" by simp
  then show ?thesis
    using route opens key kind len inner_len xy
    unfolding decode_frame_def Let_def parts
    by (cases kind) (simp_all add: current_epoch_def frame_plain_def INNER_HEADER_LEN_def)
qed

lemma frame_roundtrip:
  assumes L: "morph_lib_ok L" and key: "length (mk_bytes key) = 32"
    and rnd: "length random = FRAME_RANDOM_LEN"
    and size: "MIN_FRAME_LEN + length inner \<le> MAX_DATAGRAM_LEN"
    and skew: "unat t1 \<le> unat t2 + unat (epoch_seconds profile)"
      "unat t2 \<le> unat t1 + unat (epoch_seconds profile)"
    and kind: "kind = Cover \<longrightarrow> inner = []"
  shows "\<exists>frame. encode_frame L (Some t1) (Inr random) key profile kind inner direction = Inr frame \<and>
     MIN_FRAME_LEN + length inner \<le> length frame \<and>
     length frame \<le> min MAX_DATAGRAM_LEN (MIN_FRAME_LEN + length inner + MAX_RANDOM_PADDING) \<and>
     decode_frame L (Some t2) key profile frame direction =
       Inr (case kind of Cover \<Rightarrow> (DecodedCover profile, []) | Payload \<Rightarrow> (DecodedPayload profile, inner))"
proof -
  let ?route = "routing_tag_at L key profile direction (t1 div epoch_seconds profile)"
  from encode_frame_shape [OF L key rnd size, of t1 profile kind direction] obtain padding c tag where
    enc: "encode_frame L (Some t1) (Inr random) key profile kind inner direction =
       Inr (?route @ take NONCE_LEN random @ c @ tag)"
    and pad: "length padding \<le> MAX_RANDOM_PADDING"
      "MIN_FRAME_LEN + length inner + length padding \<le> MAX_DATAGRAM_LEN"
    and lens: "length c = 6 + length inner + length padding" "length tag = MORPH_AUTH_TAG_LEN"
    and opens: "aead_open L (mk_bytes key) (take NONCE_LEN random)
       (associated_data ?route direction) c tag = Some (frame_plain kind profile inner padding)" .
  have route: "length ?route = ROUTING_TAG_LEN" using L by (simp add: ROUTING_TAG_LEN_def)
  have nonce: "length (take NONCE_LEN random) = NONCE_LEN" using rnd by (simp add: morph_consts)
  have "matches_routing_tag L key profile direction (t2 div epoch_seconds profile) ?route"
    using epoch_skew [OF skew] by (auto simp: matches_routing_tag_iff)
  from decode_frame_opened [OF route nonce lens pad(2) key this opens kind] enc show ?thesis
    using route nonce lens pad by (simp add: morph_consts)
qed

lemma random_inclusive_bounds:
  assumes "random_inclusive random lo hi = Inr n" "lo \<le> hi"
  shows "lo \<le> n \<and> n \<le> hi"
proof -
  have "x mod (hi - lo + 1) \<le> hi - lo" for x :: nat
    using mod_less_divisor [of "hi - lo + 1" x] by linarith
  then have "lo + x mod (hi - lo + 1) \<le> hi" for x :: nat
    using assms(2) by (metis add_le_cancel_left le_add_diff_inverse)
  with assms show ?thesis
    by (auto simp: random_inclusive_def Let_def result_simps split: if_splits)
qed

section \<open>Properties\<close>

text \<open>
  C9. A MouseMorph frame arrives. Between two holders of the key whose clocks differ by at most one
  epoch length of the profile, every datagram that fits and every cover frame is encoded, the frame
  is at least the fixed overhead and at most thirty-one padding bytes longer than its content, never
  exceeds the maximal datagram, and decodes to the payload, or to a cover frame without content.
\<close>

theorem morph_frames_roundtrip:
  assumes "morph_lib_ok L" "length (mk_bytes (mc_key codec)) = 32"
    and "length random = FRAME_RANDOM_LEN" "MIN_FRAME_LEN + length inner \<le> MAX_DATAGRAM_LEN"
    and "unat t1 \<le> unat t2 + unat (epoch_seconds (mc_profile codec))"
    and "unat t2 \<le> unat t1 + unat (epoch_seconds (mc_profile codec))"
  shows "(\<exists>frame. MorphCodec_encode_payload L (Some t1) (Inr random) codec inner direction = Inr frame \<and>
            MIN_FRAME_LEN + length inner \<le> length frame \<and>
            length frame \<le> min MAX_DATAGRAM_LEN (MIN_FRAME_LEN + length inner + MAX_RANDOM_PADDING) \<and>
            MorphCodec_decode L (Some t2) codec frame direction =
              Inr (DecodedPayload (mc_profile codec), inner)) \<and>
         (\<exists>frame. MorphCodec_encode_cover L (Some t1) (Inr random) codec direction = Inr frame \<and>
            length frame \<le> MIN_FRAME_LEN + MAX_RANDOM_PADDING \<and>
            MorphCodec_decode L (Some t2) codec frame direction = Inr (DecodedCover (mc_profile codec), []))"
proof -
  have "MIN_FRAME_LEN + length [] \<le> MAX_DATAGRAM_LEN" by (simp add: morph_consts)
  from frame_roundtrip [OF assms(1-4) assms(5,6), of Payload direction]
    frame_roundtrip [OF assms(1-3) this assms(5,6), of Cover direction]
  show ?thesis
    by (auto simp: MorphCodec_encode_payload_def MorphCodec_encode_cover_def MorphCodec_decode_def)
qed

text \<open>A library without secrecy that keeps the promises.\<close>

definition plain_morph_lib :: morph_lib where
  "plain_morph_lib =
     \<lparr>hmac_sha256 = (\<lambda>k m. replicate 32 0),
      aead_seal = (\<lambda>k n a p. Some (p, replicate 16 0)),
      aead_open = (\<lambda>k n a c t. Some c)\<rparr>"

lemma plain_morph_lib_ok: "morph_lib_ok plain_morph_lib"
  by (simp add: morph_lib_ok_def plain_morph_lib_def)

theorem morph_frames_roundtrip_witness:
  "\<exists>frame. MorphCodec_encode_payload plain_morph_lib (Some 100) (Inr (replicate 45 7))
       \<lparr>mc_key = MorphKey (replicate 32 1), mc_profile = Balanced\<rparr> [1, 2, 3] ClientToServer = Inr frame \<and>
     MorphCodec_decode plain_morph_lib (Some 105)
       \<lparr>mc_key = MorphKey (replicate 32 1), mc_profile = Balanced\<rparr> frame ClientToServer =
     Inr (DecodedPayload Balanced, [1, 2, 3])"
  using morph_frames_roundtrip
    [of plain_morph_lib "\<lparr>mc_key = MorphKey (replicate 32 1), mc_profile = Balanced\<rparr>" "replicate 45 7"
      "[1, 2, 3]" 100 105 ClientToServer] plain_morph_lib_ok
  by (auto simp: morph_consts)

text \<open>
  Nothing unauthenticated leaves the decoder. A frame that decodes carries a routing tag of the
  previous, current or next epoch for this key, profile and direction; its ciphertext opens under the
  key with that tag and the direction as associated data; its content has the format version and the
  profile, and the delivered bytes are the announced part of the opened content.
\<close>

lemma morph_decodes_only_authenticated:
  assumes "MorphCodec_decode L (Some t) codec frame direction = Inr (decoded, out)"
  shows "length frame \<le> MAX_DATAGRAM_LEN \<and>
    (\<exists>e\<in>set (accepted_epochs (t div epoch_seconds (mc_profile codec))).
       routing_tag_at L (mc_key codec) (mc_profile codec) direction e = take 8 frame) \<and>
    (\<exists>plain. aead_open L (mk_bytes (mc_key codec)) (take 12 (drop 8 frame))
        (take 8 frame @ [Direction_byte direction]) (drop 20 (take (length frame - 16) frame))
        (drop (length frame - 16) frame) = Some plain \<and>
      plain ! 0 = FORMAT_VERSION \<and> plain ! 2 = Profile_byte (mc_profile codec) \<and>
      (decoded = DecodedCover (mc_profile codec) \<and> out = [] \<or>
       decoded = DecodedPayload (mc_profile codec) \<and>
       out = take (unat (from_be [plain ! 4, plain ! 5] :: u16)) (drop 6 plain)))"
proof -
  have ids: "Profile_from_id v = Inr q \<longleftrightarrow> v = Profile_byte q" for v q
    by (cases q) (auto simp: Profile_from_id_def)
  from assms show ?thesis
    by (auto simp: MorphCodec_decode_def decode_frame_def Let_def current_epoch_def result_simps ids
        matches_routing_tag_iff associated_data_def morph_consts split: if_splits)
qed

end
