(* ===== verification/Config.thy ===== *)
theory Config
  imports Net Morph
begin

text \<open>
  The crate \<^verbatim>\<open>config\<close>: key texts, client and server configurations and their validation, and the
  permission check before a private file is read. URL-safe Base64, the TOML parser and the file
  system are parameters.
\<close>

section \<open>Errors and keys\<close>

datatype ConfigError =
  CIo string
| CToml string
| InsecurePermissions string u32
| InvalidKeyEncoding
| CInvalidKeyLength nat
| DuplicateClientAddress
| DuplicateClientKey
| ClientAddressMatchesServer
| ClientOutsideTunnelSubnet
| ServerKeyPairMismatch
| CInvalidPrefix u8
| CInvalidMtu u16
| EmptyClients

record base64_lib =
  b64_decode :: "string \<Rightarrow> bytes option"
  b64_encode :: "bytes \<Rightarrow> string"

definition decode_public_key :: "base64_lib \<Rightarrow> string \<Rightarrow> ConfigError + PublicKey" where
  "decode_public_key B encoded =
     bind_r (ok_or InvalidKeyEncoding (b64_decode B encoded)) (\<lambda>bs.
       if length bs = KEY_LEN then Inr (PublicKey bs) else Inl (CInvalidKeyLength (length bs)))"

definition decode_secret_key :: "base64_lib \<Rightarrow> string \<Rightarrow> ConfigError + SecretKey" where
  "decode_secret_key B encoded =
     bind_r (ok_or InvalidKeyEncoding (b64_decode B encoded)) (\<lambda>bs.
       if length bs = KEY_LEN then Inr (SecretKey bs) else Inl (CInvalidKeyLength (length bs)))"

definition encode_public_key :: "base64_lib \<Rightarrow> PublicKey \<Rightarrow> string" where
  "encode_public_key B key = b64_encode B (pk_bytes key)"

definition encode_secret_key :: "base64_lib \<Rightarrow> SecretKey \<Rightarrow> string" where
  "encode_secret_key B key = b64_encode B (sk_bytes key)"

section \<open>Client configuration\<close>

datatype ClientProtocol = PLegacy | PMorphQuiet | PMorphBalanced | PMorphParanoid | PSpeedy

fun morph_profile :: "ClientProtocol \<Rightarrow> Profile option" where
  "morph_profile PLegacy = None"
| "morph_profile PSpeedy = None"
| "morph_profile PMorphQuiet = Some Quiet"
| "morph_profile PMorphBalanced = Some Balanced"
| "morph_profile PMorphParanoid = Some Paranoid"

record ClientConfig =
  cc_server :: SocketAddr
  cc_server_public_key :: string
  cc_client_private_key :: string
  cc_tun_name :: string
  cc_protocol :: ClientProtocol

record ValidatedClientConfig =
  vcc_server :: SocketAddr
  vcc_server_public_key :: PublicKey
  vcc_client_private_key :: SecretKey
  vcc_context :: ProtocolContext
  vcc_tun_name :: string
  vcc_protocol :: ClientProtocol

definition ClientConfig_validate ::
  "base64_lib \<Rightarrow> crypto_lib \<Rightarrow> ClientConfig \<Rightarrow> ConfigError + ValidatedClientConfig" where
  "ClientConfig_validate B L config =
     bind_r (decode_public_key B (cc_server_public_key config)) (\<lambda>server_public.
     bind_r (decode_secret_key B (cc_client_private_key config)) (\<lambda>client_private.
       Inr \<lparr>vcc_server = cc_server config,
            vcc_server_public_key = server_public,
            vcc_client_private_key = client_private,
            vcc_context = (case cc_protocol config of
                             PSpeedy \<Rightarrow> for_speedy_server L server_public
                           | _ \<Rightarrow> for_server L server_public),
            vcc_tun_name = cc_tun_name config,
            vcc_protocol = cc_protocol config\<rparr>))"

section \<open>Server configuration\<close>

definition DEFAULT_TUN_MTU :: u16 where "DEFAULT_TUN_MTU = 1420"
definition MAX_SAFE_TUN_MTU :: u16 where "MAX_SAFE_TUN_MTU = 1435"

record ServerTunConfig =
  tun_name :: string
  tun_address :: ipv4
  tun_prefix_len :: u8
  tun_mtu :: u16
  tun_dns :: ipv4

record AuthorizedClientConfig =
  ac_name :: string
  ac_public_key :: string
  ac_address :: ipv4

record ServerConfig =
  sc_listen :: SocketAddr
  sc_public_endpoint :: "SocketAddr option"
  sc_server_public_key :: string
  sc_server_private_key :: string
  sc_tun :: ServerTunConfig
  sc_clients :: "AuthorizedClientConfig list"

record ValidatedAuthorizedClient =
  vac_name :: string
  vac_public_key :: PublicKey
  vac_address :: ipv4

record ValidatedServerConfig =
  vsc_listen :: SocketAddr
  vsc_public_endpoint :: "SocketAddr option"
  vsc_server_public_key :: PublicKey
  vsc_server_private_key :: SecretKey
  vsc_context :: ProtocolContext
  vsc_tun :: ServerTunConfig
  vsc_clients :: "ValidatedAuthorizedClient list"

text \<open>
  The shift by \<open>32 - prefix_len\<close> is evaluated only for prefix lengths of at most 32: \<open>validate\<close>
  refuses larger ones first.
\<close>

definition same_subnet :: "ipv4 \<Rightarrow> ipv4 \<Rightarrow> u8 \<Rightarrow> bool" where
  "same_subnet left right prefix_len =
     (let netmask = (if prefix_len = 0 then 0 else push_bit (32 - unat prefix_len) (- 1 :: u32))
      in ipv4_bits left AND netmask = ipv4_bits right AND netmask)"

text \<open>The loop over the configured clients with its two hash sets.\<close>

fun validate_clients ::
  "base64_lib \<Rightarrow> ServerTunConfig \<Rightarrow> ipv4 set \<Rightarrow> PublicKey set \<Rightarrow> AuthorizedClientConfig list \<Rightarrow>
   ConfigError + ValidatedAuthorizedClient list" where
  "validate_clients B tun addresses keys [] = Inr []"
| "validate_clients B tun addresses keys (client # clients) =
     (if ac_address client = tun_address tun then Inl ClientAddressMatchesServer
      else if \<not> same_subnet (ac_address client) (tun_address tun) (tun_prefix_len tun)
      then Inl ClientOutsideTunnelSubnet
      else if ac_address client \<in> addresses then Inl DuplicateClientAddress
      else
        bind_r (decode_public_key B (ac_public_key client)) (\<lambda>public_key.
        if public_key \<in> keys then Inl DuplicateClientKey
        else
          bind_r (validate_clients B tun (insert (ac_address client) addresses)
                    (insert public_key keys) clients) (\<lambda>validated.
            Inr (\<lparr>vac_name = ac_name client, vac_public_key = public_key,
                  vac_address = ac_address client\<rparr> # validated))))"

definition ServerConfig_validate ::
  "base64_lib \<Rightarrow> crypto_lib \<Rightarrow> ServerConfig \<Rightarrow> ConfigError + ValidatedServerConfig" where
  "ServerConfig_validate B L config =
     (let tun = sc_tun config in
      if sc_clients config = [] then Inl EmptyClients
      else if tun_prefix_len tun > 32 then Inl (CInvalidPrefix (tun_prefix_len tun))
      else if \<not> (576 \<le> tun_mtu tun \<and> tun_mtu tun \<le> 9000) then Inl (CInvalidMtu (tun_mtu tun))
      else
        bind_r (decode_public_key B (sc_server_public_key config)) (\<lambda>server_public.
        bind_r (decode_secret_key B (sc_server_private_key config)) (\<lambda>server_private.
        if SecretKey_public_key L server_private \<noteq> server_public then Inl ServerKeyPairMismatch
        else
          bind_r (validate_clients B tun {} {} (sc_clients config)) (\<lambda>clients.
            Inr \<lparr>vsc_listen = sc_listen config,
                 vsc_public_endpoint = sc_public_endpoint config,
                 vsc_server_public_key = server_public,
                 vsc_server_private_key = server_private,
                 vsc_context = for_server L server_public,
                 vsc_tun = tun,
                 vsc_clients = clients\<rparr>))))"

section \<open>Loading a private file\<close>

text \<open>
  \<open>metadata\<close> and \<open>contents\<close> are what the file system answers for the path, \<open>toml\<close> is the parser.
\<close>

definition ensure_private_permissions :: "string \<Rightarrow> string + u32 \<Rightarrow> ConfigError + unit" where
  "ensure_private_permissions path metadata =
     bind_r (map_err CIo metadata) (\<lambda>m.
       let mode = m AND 0x1FF in
       if mode AND 0x3F \<noteq> 0 then Inl (InsecurePermissions path mode) else Inr ())"

definition load_toml ::
  "(string \<Rightarrow> string + 'a) \<Rightarrow> string \<Rightarrow> string + u32 \<Rightarrow> string + string \<Rightarrow> ConfigError + 'a" where
  "load_toml toml path metadata contents =
     bind_r (ensure_private_permissions path metadata) (\<lambda>_.
     bind_r (map_err CIo contents) (\<lambda>text.
     map_err CToml (toml text)))"

section \<open>Lemmas\<close>

lemma decode_public_key_Inr [result_simps]:
  "decode_public_key B s = Inr k \<longleftrightarrow> b64_decode B s = Some (pk_bytes k) \<and> length (pk_bytes k) = KEY_LEN"
  by (cases k) (auto simp: decode_public_key_def result_simps split: if_splits)

lemma decode_secret_key_Inr [result_simps]:
  "decode_secret_key B s = Inr k \<longleftrightarrow> b64_decode B s = Some (sk_bytes k) \<and> length (sk_bytes k) = KEY_LEN"
  by (cases k) (auto simp: decode_secret_key_def result_simps split: if_splits)

lemma same_subnet_eq: "same_subnet a b p = subnet_eq a b (unat p)"
  by (simp add: same_subnet_def subnet_eq_def prefix_mask_def unat_eq_0 Let_def)

lemma validate_clients_Inr:
  "validate_clients B tun A K cs = Inr vs \<longleftrightarrow>
     list_all2 (\<lambda>c v. vac_name v = ac_name c \<and> vac_address v = ac_address c \<and>
        decode_public_key B (ac_public_key c) = Inr (vac_public_key v)) cs vs \<and>
     distinct (map vac_address vs) \<and> distinct (map vac_public_key vs) \<and>
     list_all (\<lambda>v. vac_address v \<notin> A \<and> vac_public_key v \<notin> K \<and> vac_address v \<noteq> tun_address tun \<and>
        subnet_eq (vac_address v) (tun_address tun) (unat (tun_prefix_len tun))) vs"
proof (induction B tun A K cs arbitrary: vs rule: validate_clients.induct)
  case (1 B tun A K)
  then show ?case by auto
next
  case (2 B tun A K c cs)
  show ?case
  proof (cases vs)
    case Nil
    then show ?thesis by (auto simp: bind_r_def split: sum.splits)
  next
    case (Cons v vs')
    have "validate_clients B tun A K (c # cs) = Inr vs \<longleftrightarrow>
      ac_address c \<noteq> tun_address tun \<and> same_subnet (ac_address c) (tun_address tun) (tun_prefix_len tun) \<and>
      ac_address c \<notin> A \<and> decode_public_key B (ac_public_key c) = Inr (vac_public_key v) \<and>
      vac_public_key v \<notin> K \<and> vac_name v = ac_name c \<and> vac_address v = ac_address c \<and>
      validate_clients B tun (insert (ac_address c) A) (insert (vac_public_key v) K) cs = Inr vs'"
      unfolding Cons by (cases v) (auto simp: bind_r_def split: sum.splits)
    then show ?thesis
      using 2 [of "vac_public_key v" vs'] unfolding Cons by (fastforce simp: same_subnet_eq list_all_iff image_iff)
  qed
qed

lemma base64_key_roundtrip:
  assumes "\<And>bs. b64_decode B (b64_encode B bs) = Some bs"
  shows "length (pk_bytes pk) = KEY_LEN \<Longrightarrow> decode_public_key B (encode_public_key B pk) = Inr pk"
    and "length (sk_bytes sk) = KEY_LEN \<Longrightarrow> decode_secret_key B (encode_secret_key B sk) = Inr sk"
  using assms by (simp_all add: result_simps encode_public_key_def encode_secret_key_def)

lemma private_permissions:
  "ensure_private_permissions path (Inr m) = Inr () \<longleftrightarrow> (\<forall>i<6. \<not> bit m i)"
proof -
  have "(m AND 0x1FF) AND 0x3F = take_bit 6 m"
    by (simp add: and.assoc take_bit_eq_mask mask_eq_exp_minus_1)
  moreover have "take_bit 6 m = 0 \<longleftrightarrow> (\<forall>i<6. \<not> bit m i)"
    by (auto simp: bit_eq_iff bit_take_bit_iff)
  ultimately show ?thesis
    unfolding ensure_private_permissions_def by (simp only: Let_def map_err_simps bind_r_simps) simp
qed

section \<open>Properties\<close>

text \<open>
  Validation of a server configuration is exact. It succeeds precisely when there is a client,
  the prefix length and the MTU are in range, the server's keys decode and match, and the clients have
  decodable keys, pairwise distinct keys and addresses, addresses that share the leading prefix bits
  with the tunnel address and differ from it; the result carries these values and the context of the
  server key.
\<close>

lemma server_config_validation_exact:
  "ServerConfig_validate B L config = Inr v \<longleftrightarrow>
     sc_clients config \<noteq> [] \<and> unat (tun_prefix_len (sc_tun config)) \<le> 32 \<and>
     576 \<le> tun_mtu (sc_tun config) \<and> tun_mtu (sc_tun config) \<le> 9000 \<and>
     decode_public_key B (sc_server_public_key config) = Inr (vsc_server_public_key v) \<and>
     decode_secret_key B (sc_server_private_key config) = Inr (vsc_server_private_key v) \<and>
     SecretKey_public_key L (vsc_server_private_key v) = vsc_server_public_key v \<and>
     vsc_context v = for_server L (vsc_server_public_key v) \<and> vsc_tun v = sc_tun config \<and>
     vsc_listen v = sc_listen config \<and> vsc_public_endpoint v = sc_public_endpoint config \<and>
     list_all2 (\<lambda>c w. vac_name w = ac_name c \<and> vac_address w = ac_address c \<and>
        decode_public_key B (ac_public_key c) = Inr (vac_public_key w)) (sc_clients config) (vsc_clients v) \<and>
     distinct (map vac_address (vsc_clients v)) \<and> distinct (map vac_public_key (vsc_clients v)) \<and>
     list_all (\<lambda>w. vac_address w \<noteq> tun_address (sc_tun config) \<and>
        drop_bit (32 - unat (tun_prefix_len (sc_tun config))) (ipv4_bits (vac_address w)) =
        drop_bit (32 - unat (tun_prefix_len (sc_tun config))) (ipv4_bits (tun_address (sc_tun config))))
       (vsc_clients v)" (is "?validates \<longleftrightarrow> ?spec")
proof -
  have "?validates \<longleftrightarrow> sc_clients config \<noteq> [] \<and> unat (tun_prefix_len (sc_tun config)) \<le> 32 \<and>
     576 \<le> tun_mtu (sc_tun config) \<and> tun_mtu (sc_tun config) \<le> 9000 \<and>
     decode_public_key B (sc_server_public_key config) = Inr (vsc_server_public_key v) \<and>
     decode_secret_key B (sc_server_private_key config) = Inr (vsc_server_private_key v) \<and>
     SecretKey_public_key L (vsc_server_private_key v) = vsc_server_public_key v \<and>
     vsc_context v = for_server L (vsc_server_public_key v) \<and> vsc_tun v = sc_tun config \<and>
     vsc_listen v = sc_listen config \<and> vsc_public_endpoint v = sc_public_endpoint config \<and>
     validate_clients B (sc_tun config) {} {} (sc_clients config) = Inr (vsc_clients v)"
    by (cases v) (auto simp: ServerConfig_validate_def Let_def bind_r_def word_less_nat_alt split: sum.splits)
  also have "\<dots> \<longleftrightarrow> ?spec"
    by (auto simp: validate_clients_Inr subnet_eq_drop_bit list_all_iff)
  finally show ?thesis .
qed

end
