(* ===== verification/Speedy.thy ===== *)
theory Speedy
  imports Protocol Keys
begin

text \<open>
  The crate \<^verbatim>\<open>speedy\<close>: header masking and frame authentication around Noise datagrams, with a cache of
  the routing tags of the current ten-second epoch. HKDF, HMAC-SHA256 and keyed BLAKE3 are functions
  of a record. The cache behind the mutex is part of the codec's state, which the operations return;
  a poisoned mutex is the flag \<open>sc_poisoned\<close>.
\<close>

section \<open>Constants\<close>

definition SP_ROUTING_TAG_LEN :: nat where "SP_ROUTING_TAG_LEN = 8"
definition SP_AUTH_TAG_LEN :: nat where "SP_AUTH_TAG_LEN = 16"
definition SAMPLE_LEN :: nat where "SAMPLE_LEN = 16"
definition OVERHEAD :: nat where "OVERHEAD = SP_ROUTING_TAG_LEN + SP_AUTH_TAG_LEN"
definition SP_MAX_DATAGRAM_LEN :: nat where "SP_MAX_DATAGRAM_LEN = 1452"
definition MAX_INNER_DATAGRAM_LEN :: nat where "MAX_INNER_DATAGRAM_LEN = SP_MAX_DATAGRAM_LEN - OVERHEAD"
definition SPEEDY_SAFE_TUN_MTU :: u16 where "SPEEDY_SAFE_TUN_MTU = 1391"
definition EPOCH_SECONDS :: u64 where "EPOCH_SECONDS = 10"
definition SP_MIN_FRAME_LEN :: nat where "SP_MIN_FRAME_LEN = OVERHEAD + HEADER_LEN + SAMPLE_LEN"

lemmas speedy_consts = SP_ROUTING_TAG_LEN_def SP_AUTH_TAG_LEN_def SAMPLE_LEN_def OVERHEAD_def
  SP_MAX_DATAGRAM_LEN_def MAX_INNER_DATAGRAM_LEN_def SP_MIN_FRAME_LEN_def HEADER_LEN_def

datatype SpeedyDirection = SpClientToServer | SpServerToClient

fun SpeedyDirection_byte :: "SpeedyDirection \<Rightarrow> u8" where
  "SpeedyDirection_byte SpClientToServer = 0"
| "SpeedyDirection_byte SpServerToClient = 1"

datatype SpeedyError =
  SpInvalidLength
| SpInvalidHeader
| SpUnknownRoutingTag
| SpAuthentication
| SpClock
| SpCache

section \<open>Codec\<close>

record speedy_lib =
  hkdf_expand :: "bytes \<Rightarrow> bytes \<Rightarrow> bytes"
  sp_hmac :: "bytes \<Rightarrow> bytes \<Rightarrow> bytes"
  blake3_keyed :: "bytes \<Rightarrow> bytes \<Rightarrow> bytes"

datatype SpeedyKey = SpeedyKey (spk_bytes: bytes)

record DirectionKeys =
  dk_route :: SpeedyKey
  dk_mask :: SpeedyKey
  dk_auth :: SpeedyKey

record RouteCache =
  rc_epoch :: u64
  rc_tags :: "SpeedyDirection \<Rightarrow> bytes list"

record SpeedyCodec =
  sc_keys :: "SpeedyDirection \<Rightarrow> DirectionKeys"
  sc_routes :: "RouteCache option"
  sc_poisoned :: bool

definition SpeedyCodec_new :: "speedy_lib \<Rightarrow> SpeedyKey \<Rightarrow> SpeedyCodec" where
  "SpeedyCodec_new L key =
     (let derive = (\<lambda>direction (purpose :: u8).
            SpeedyKey (hkdf_expand L (spk_bytes key)
              [0x53, 0x50, 1, SpeedyDirection_byte direction, purpose]))
      in \<lparr>sc_keys = (\<lambda>direction. \<lparr>dk_route = derive direction 0, dk_mask = derive direction 1,
                                  dk_auth = derive direction 2\<rparr>),
          sc_routes = None, sc_poisoned = False\<rparr>)"

definition SP_ROUTE_LABEL :: bytes where
  "SP_ROUTE_LABEL = ascii ''Speedy v1 route'' @ [0]"

definition sp_routing_tag_at :: "speedy_lib \<Rightarrow> SpeedyCodec \<Rightarrow> SpeedyDirection \<Rightarrow> u64 \<Rightarrow> bytes" where
  "sp_routing_tag_at L codec direction epoch =
     take SP_ROUTING_TAG_LEN
       (sp_hmac L (spk_bytes (dk_route (sc_keys codec direction))) (SP_ROUTE_LABEL @ to_be 8 epoch))"

definition sp_accepted_epochs :: "u64 \<Rightarrow> u64 list" where
  "sp_accepted_epochs epoch = [epoch, saturating_sub epoch 1, saturating_add epoch 1]"

definition sp_current_epoch :: "u64 option \<Rightarrow> SpeedyError + u64" where
  "sp_current_epoch now = bind_r (ok_or SpClock now) (\<lambda>seconds. Inr (seconds div EPOCH_SECONDS))"

definition tags ::
  "speedy_lib \<Rightarrow> SpeedyCodec \<Rightarrow> SpeedyDirection \<Rightarrow> u64 \<Rightarrow> (SpeedyError + bytes list) \<times> SpeedyCodec" where
  "tags L codec direction epoch =
     (if sc_poisoned codec then (Inl SpCache, codec)
      else
        let stale = (case sc_routes codec of None \<Rightarrow> True | Some cached \<Rightarrow> rc_epoch cached \<noteq> epoch);
            fresh = \<lparr>rc_epoch = epoch,
                     rc_tags = (\<lambda>d. map (sp_routing_tag_at L codec d) (sp_accepted_epochs epoch))\<rparr>;
            cache = (if stale then fresh else the (sc_routes codec))
        in (Inr (rc_tags cache direction), codec\<lparr>sc_routes := Some cache\<rparr>))"

definition header_mask :: "speedy_lib \<Rightarrow> SpeedyCodec \<Rightarrow> SpeedyDirection \<Rightarrow> bytes \<Rightarrow> bytes \<Rightarrow> bytes" where
  "header_mask L codec direction route inner =
     blake3_keyed L (spk_bytes (dk_mask (sc_keys codec direction)))
       (route @ drop (length inner - SAMPLE_LEN) inner)"

text \<open>The loop over \<open>iter_mut().zip(mask)\<close>: bytes without a mask byte stay.\<close>

fun xor_zip :: "bytes \<Rightarrow> bytes \<Rightarrow> bytes" where
  "xor_zip (b # bs) (m # ms) = (b XOR m) # xor_zip bs ms"
| "xor_zip bs [] = bs"
| "xor_zip [] ms = []"

definition mask_header :: "bytes \<Rightarrow> bytes \<Rightarrow> bytes" where
  "mask_header stream inner = xor_zip (take HEADER_LEN inner) stream @ drop HEADER_LEN inner"

definition validate_inner :: "bytes \<Rightarrow> SpeedyDirection \<Rightarrow> SpeedyError + unit" where
  "validate_inner inner direction =
     (if \<not> (HEADER_LEN + SAMPLE_LEN \<le> length inner \<and> length inner \<le> MAX_INNER_DATAGRAM_LEN)
      then Inl SpInvalidLength
      else
        bind_r (map_err (\<lambda>_. SpInvalidHeader) (Datagram_decode inner)) (\<lambda>packet.
        let header = dg_header packet in
        if hdr_flags header \<noteq> 0 then Inl SpInvalidHeader
        else
          (case (hdr_kind header, direction) of
             (Data, _) \<Rightarrow> Inr ()
           | (Keepalive, _) \<Rightarrow> Inr ()
           | (HandshakeInit, SpClientToServer) \<Rightarrow>
               if hdr_sequence header = 0 then Inr () else Inl SpInvalidHeader
           | (HandshakeResponse, SpServerToClient) \<Rightarrow>
               if hdr_sequence header = 0 then Inr () else Inl SpInvalidHeader
           | _ \<Rightarrow> Inl SpInvalidHeader)))"

definition encode_at ::
  "speedy_lib \<Rightarrow> SpeedyCodec \<Rightarrow> bytes \<Rightarrow> SpeedyDirection \<Rightarrow> u64 \<Rightarrow> (SpeedyError + bytes) \<times> SpeedyCodec"
where
  "encode_at L codec inner direction epoch =
     (case validate_inner inner direction of
        Inl e \<Rightarrow> (Inl e, codec)
      | Inr _ \<Rightarrow>
          (case tags L codec direction epoch of
             (Inl e, codec') \<Rightarrow> (Inl e, codec')
           | (Inr ts, codec') \<Rightarrow>
               let route = ts ! 0;
                   mask = header_mask L codec direction route inner;
                   output = route @ mask_header mask inner;
                   mac = blake3_keyed L (spk_bytes (dk_auth (sc_keys codec direction))) output
               in (Inr (output @ take SP_AUTH_TAG_LEN mac), codec')))"

definition decode_at ::
  "speedy_lib \<Rightarrow> SpeedyCodec \<Rightarrow> bytes \<Rightarrow> SpeedyDirection \<Rightarrow> u64 \<Rightarrow> (SpeedyError + bytes) \<times> SpeedyCodec"
where
  "decode_at L codec input direction epoch =
     (if \<not> (SP_MIN_FRAME_LEN \<le> length input \<and> length input \<le> SP_MAX_DATAGRAM_LEN)
      then (Inl SpInvalidLength, codec)
      else
        let route = take SP_ROUTING_TAG_LEN input in
        (case tags L codec direction epoch of
           (Inl e, codec') \<Rightarrow> (Inl e, codec')
         | (Inr ts, codec') \<Rightarrow>
             if route \<notin> set ts then (Inl SpUnknownRoutingTag, codec')
             else
               let frame_end = length input - SP_AUTH_TAG_LEN;
                   mac = blake3_keyed L (spk_bytes (dk_auth (sc_keys codec direction)))
                           (take frame_end input)
               in
               if take SP_AUTH_TAG_LEN mac \<noteq> drop frame_end input then (Inl SpAuthentication, codec')
               else
                 let inner = drop SP_ROUTING_TAG_LEN (take frame_end input);
                     output = mask_header (header_mask L codec direction route inner) inner
                 in (bind_r (validate_inner output direction) (\<lambda>_. Inr output), codec')))"

definition SpeedyCodec_encode ::
  "speedy_lib \<Rightarrow> u64 option \<Rightarrow> SpeedyCodec \<Rightarrow> bytes \<Rightarrow> SpeedyDirection \<Rightarrow>
   (SpeedyError + bytes) \<times> SpeedyCodec" where
  "SpeedyCodec_encode L now codec inner direction =
     (case sp_current_epoch now of
        Inl e \<Rightarrow> (Inl e, codec)
      | Inr epoch \<Rightarrow> encode_at L codec inner direction epoch)"

definition SpeedyCodec_decode ::
  "speedy_lib \<Rightarrow> u64 option \<Rightarrow> SpeedyCodec \<Rightarrow> bytes \<Rightarrow> SpeedyDirection \<Rightarrow>
   (SpeedyError + bytes) \<times> SpeedyCodec" where
  "SpeedyCodec_decode L now codec input direction =
     (case sp_current_epoch now of
        Inl e \<Rightarrow> (Inl e, codec)
      | Inr epoch \<Rightarrow> decode_at L codec input direction epoch)"

section \<open>Masking\<close>

lemma length_xor_zip [simp]: "length (xor_zip bs ms) = length bs"
  by (induction bs ms rule: xor_zip.induct) simp_all

lemma xor_zip_twice [simp]: "xor_zip (xor_zip bs ms) ms = bs"
  by (induction bs ms rule: xor_zip.induct) (simp_all add: xor.assoc)

lemma length_mask_header [simp]: "length (mask_header m inner) = length inner"
  by (simp add: mask_header_def)

lemma take_mask_header: "take HEADER_LEN (mask_header m inner) = xor_zip (take HEADER_LEN inner) m"
  by (cases "length inner < HEADER_LEN") (simp_all add: mask_header_def)

lemma drop_mask_header: "HEADER_LEN \<le> k \<Longrightarrow> drop k (mask_header m inner) = drop k inner"
proof (cases "length inner < HEADER_LEN")
  case False
  assume "HEADER_LEN \<le> k"
  then have "drop k (mask_header m inner) = drop (k - HEADER_LEN) (drop HEADER_LEN inner)"
    using False by (simp add: mask_header_def)
  with \<open>HEADER_LEN \<le> k\<close> show ?thesis by simp
qed (simp add: mask_header_def)

lemma mask_header_twice [simp]: "mask_header m (mask_header m inner) = inner"
proof -
  have "mask_header m (mask_header m inner) =
      xor_zip (xor_zip (take HEADER_LEN inner) m) m @ drop HEADER_LEN inner"
    unfolding mask_header_def [of m "mask_header m inner"] take_mask_header
    by (simp add: drop_mask_header)
  then show ?thesis by simp
qed

text \<open>The sample is taken behind the header, so masking does not change the mask.\<close>

lemma header_mask_stable:
  "HEADER_LEN + SAMPLE_LEN \<le> length inner \<Longrightarrow>
   header_mask L codec d route (mask_header m inner) = header_mask L codec d route inner"
  by (simp add: header_mask_def drop_mask_header)

section \<open>The route cache\<close>

definition fresh_tags :: "speedy_lib \<Rightarrow> SpeedyCodec \<Rightarrow> SpeedyDirection \<Rightarrow> u64 \<Rightarrow> bytes list" where
  "fresh_tags L codec direction epoch = map (sp_routing_tag_at L codec direction) (sp_accepted_epochs epoch)"

definition cache_ok :: "speedy_lib \<Rightarrow> SpeedyCodec \<Rightarrow> bool" where
  "cache_ok L codec \<longleftrightarrow> \<not> sc_poisoned codec \<and>
     (\<forall>cached. sc_routes codec = Some cached \<longrightarrow>
        rc_tags cached = (\<lambda>d. fresh_tags L codec d (rc_epoch cached)))"

lemma cache_ok_new: "cache_ok L (SpeedyCodec_new L key)"
  by (simp add: cache_ok_def SpeedyCodec_new_def Let_def)

lemma routing_tag_routes [simp]:
  "sp_routing_tag_at L (codec\<lparr>sc_routes := r\<rparr>) = sp_routing_tag_at L codec"
  by (intro ext) (simp add: sp_routing_tag_at_def)

lemma tags_fresh:
  assumes "cache_ok L codec"
  shows "fst (tags L codec d epoch) = Inr (fresh_tags L codec d epoch)"
    and "cache_ok L (snd (tags L codec d epoch))"
    and "sc_keys (snd (tags L codec d epoch)) = sc_keys codec"
  using assms
  by (auto simp: tags_def cache_ok_def fresh_tags_def Let_def split: option.splits)

lemma tags_pair:
  assumes "cache_ok L codec"
  obtains codec' where "tags L codec d epoch = (Inr (fresh_tags L codec d epoch), codec')"
    "cache_ok L codec'" "sc_keys codec' = sc_keys codec"
  using tags_fresh [OF assms, of d epoch] by (cases "tags L codec d epoch") auto

text \<open>The same operations with the tags computed anew for each frame.\<close>

definition spec_encode :: "speedy_lib \<Rightarrow> SpeedyCodec \<Rightarrow> bytes \<Rightarrow> SpeedyDirection \<Rightarrow> u64 \<Rightarrow> SpeedyError + bytes" where
  "spec_encode L codec inner direction epoch =
     bind_r (validate_inner inner direction) (\<lambda>_.
       let route = sp_routing_tag_at L codec direction epoch;
           output = route @ mask_header (header_mask L codec direction route inner) inner
       in Inr (output @ take SP_AUTH_TAG_LEN
                (blake3_keyed L (spk_bytes (dk_auth (sc_keys codec direction))) output)))"

definition spec_decode :: "speedy_lib \<Rightarrow> SpeedyCodec \<Rightarrow> bytes \<Rightarrow> SpeedyDirection \<Rightarrow> u64 \<Rightarrow> SpeedyError + bytes" where
  "spec_decode L codec input direction epoch =
     (let route = take SP_ROUTING_TAG_LEN input;
          frame_end = length input - SP_AUTH_TAG_LEN;
          body = take frame_end input;
          inner = drop SP_ROUTING_TAG_LEN body;
          output = mask_header (header_mask L codec direction route inner) inner
      in
      if \<not> (SP_MIN_FRAME_LEN \<le> length input \<and> length input \<le> SP_MAX_DATAGRAM_LEN) then Inl SpInvalidLength
      else if route \<notin> sp_routing_tag_at L codec direction ` set (sp_accepted_epochs epoch)
      then Inl SpUnknownRoutingTag
      else if take SP_AUTH_TAG_LEN
                (blake3_keyed L (spk_bytes (dk_auth (sc_keys codec direction))) body) \<noteq> drop frame_end input
      then Inl SpAuthentication
      else bind_r (validate_inner output direction) (\<lambda>_. Inr output))"

lemma encode_at_spec:
  assumes "cache_ok L codec"
  shows "fst (encode_at L codec inner d epoch) = spec_encode L codec inner d epoch"
    and "cache_ok L (snd (encode_at L codec inner d epoch))"
    and "sc_keys (snd (encode_at L codec inner d epoch)) = sc_keys codec"
proof -
  obtain codec' where t: "tags L codec d epoch = (Inr (fresh_tags L codec d epoch), codec')"
    "cache_ok L codec'" "sc_keys codec' = sc_keys codec"
    using tags_pair [OF assms] .
  have "fresh_tags L codec d epoch ! 0 = sp_routing_tag_at L codec d epoch"
    by (simp add: fresh_tags_def sp_accepted_epochs_def)
  with t assms show "fst (encode_at L codec inner d epoch) = spec_encode L codec inner d epoch"
    and "cache_ok L (snd (encode_at L codec inner d epoch))"
    and "sc_keys (snd (encode_at L codec inner d epoch)) = sc_keys codec"
    by (auto simp: encode_at_def spec_encode_def Let_def split: sum.splits)
qed

lemma decode_at_spec:
  assumes "cache_ok L codec"
  shows "fst (decode_at L codec input d epoch) = spec_decode L codec input d epoch"
    and "cache_ok L (snd (decode_at L codec input d epoch))"
    and "sc_keys (snd (decode_at L codec input d epoch)) = sc_keys codec"
proof -
  obtain codec' where t: "tags L codec d epoch = (Inr (fresh_tags L codec d epoch), codec')"
    "cache_ok L codec'" "sc_keys codec' = sc_keys codec"
    using tags_pair [OF assms] .
  have "set (fresh_tags L codec d epoch) = sp_routing_tag_at L codec d ` set (sp_accepted_epochs epoch)"
    by (simp add: fresh_tags_def)
  with t assms show "fst (decode_at L codec input d epoch) = spec_decode L codec input d epoch"
    and "cache_ok L (snd (decode_at L codec input d epoch))"
    and "sc_keys (snd (decode_at L codec input d epoch)) = sc_keys codec"
    by (simp_all add: decode_at_def spec_decode_def Let_def)
qed

datatype speedy_call =
  EncodeFrame "u64 option" bytes SpeedyDirection
| DecodeFrame "u64 option" bytes SpeedyDirection

definition speedy_step :: "speedy_lib \<Rightarrow> SpeedyCodec \<Rightarrow> speedy_call \<Rightarrow> (SpeedyError + bytes) \<times> SpeedyCodec" where
  "speedy_step L codec call =
     (case call of
        EncodeFrame now inner d \<Rightarrow> SpeedyCodec_encode L now codec inner d
      | DecodeFrame now frame d \<Rightarrow> SpeedyCodec_decode L now codec frame d)"

definition uncached_step :: "speedy_lib \<Rightarrow> SpeedyCodec \<Rightarrow> speedy_call \<Rightarrow> (SpeedyError + bytes) \<times> SpeedyCodec" where
  "uncached_step L codec call =
     (case call of
        EncodeFrame now inner d \<Rightarrow> (bind_r (sp_current_epoch now) (spec_encode L codec inner d), codec)
      | DecodeFrame now frame d \<Rightarrow> (bind_r (sp_current_epoch now) (spec_decode L codec frame d), codec))"

lemma sp_routing_tag_keys:
  "sc_keys c' = sc_keys c \<Longrightarrow> sp_routing_tag_at L c' = sp_routing_tag_at L c"
  by (intro ext) (simp add: sp_routing_tag_at_def)

lemma header_mask_keys: "sc_keys c' = sc_keys c \<Longrightarrow> header_mask L c' = header_mask L c"
  by (intro ext) (simp add: header_mask_def)

lemma spec_keys:
  assumes "sc_keys c' = sc_keys c"
  shows "spec_encode L c' inner d epoch = spec_encode L c inner d epoch"
    and "spec_decode L c' frame d epoch = spec_decode L c frame d epoch"
  unfolding spec_encode_def spec_decode_def
  by (simp_all only: sp_routing_tag_keys [OF assms] header_mask_keys [OF assms] assms)

interpretation route_cache: bisimilar "speedy_step L" "uncached_step L"
  "\<lambda>c c'. cache_ok L c \<and> sc_keys c = sc_keys c'" for L
proof (unfold_locales, goal_cases)
  case (1 c c' call)
  then have ok: "cache_ok L c" and keys: "sc_keys c = sc_keys c'" by simp_all
  show ?case
    using encode_at_spec(1) [OF ok] decode_at_spec(1) [OF ok] spec_keys [OF keys]
    by (auto simp: speedy_step_def uncached_step_def SpeedyCodec_encode_def SpeedyCodec_decode_def
        split: speedy_call.splits sum.splits)
next
  case (2 c c' call)
  then show ?case
    using encode_at_spec(2,3) [of L c] decode_at_spec(2,3) [of L c]
    by (auto simp: speedy_step_def uncached_step_def SpeedyCodec_encode_def SpeedyCodec_decode_def
        split: speedy_call.splits sum.splits)
qed

section \<open>Exact acceptance\<close>

text \<open>The digests have their documented length.\<close>

definition speedy_lib_ok :: "speedy_lib \<Rightarrow> bool" where
  "speedy_lib_ok L \<longleftrightarrow> (\<forall>k m. length (sp_hmac L k m) = 32 \<and> length (blake3_keyed L k m) = 32)"

lemma length_sp_routing_tag: "speedy_lib_ok L \<Longrightarrow> length (sp_routing_tag_at L codec d e) = SP_ROUTING_TAG_LEN"
  by (simp add: sp_routing_tag_at_def speedy_lib_ok_def speedy_consts)

lemma validate_inner_length:
  "validate_inner inner d = Inr () \<Longrightarrow>
   HEADER_LEN + SAMPLE_LEN \<le> length inner \<and> length inner \<le> MAX_INNER_DATAGRAM_LEN"
  by (auto simp: validate_inner_def split: if_splits)

lemma spec_encode_Inr:
  "spec_encode L codec inner d e = Inr frame \<longleftrightarrow>
     validate_inner inner d = Inr () \<and>
     (let route = sp_routing_tag_at L codec d e;
          output = route @ mask_header (header_mask L codec d route inner) inner
      in frame = output @ take SP_AUTH_TAG_LEN
                (blake3_keyed L (spk_bytes (dk_auth (sc_keys codec d))) output))"
  by (auto simp: spec_encode_def result_simps Let_def)

lemma spec_decode_encode:
  assumes ok: "speedy_lib_ok L" and enc: "spec_encode L codec inner d e = Inr frame"
    and e: "e \<in> set (sp_accepted_epochs epoch)"
  shows "spec_decode L codec frame d epoch = Inr inner"
proof -
  define route where "route = sp_routing_tag_at L codec d e"
  define masked where "masked = mask_header (header_mask L codec d route inner) inner"
  define mac where "mac = take SP_AUTH_TAG_LEN
    (blake3_keyed L (spk_bytes (dk_auth (sc_keys codec d))) (route @ masked))"
  have valid: "validate_inner inner d = Inr ()" and frame: "frame = route @ masked @ mac"
    using enc by (simp_all add: spec_encode_Inr Let_def route_def masked_def mac_def)
  have lens: "length route = SP_ROUTING_TAG_LEN" "length mac = SP_AUTH_TAG_LEN"
    "length masked = length inner"
    using length_sp_routing_tag [OF ok] ok
    by (simp_all add: route_def mac_def masked_def speedy_lib_ok_def speedy_consts)
  note bounds = validate_inner_length [OF valid]
  have parts: "take SP_ROUTING_TAG_LEN frame = route" "take (length frame - SP_AUTH_TAG_LEN) frame = route @ masked"
    "drop (length frame - SP_AUTH_TAG_LEN) frame = mac"
    using lens by (simp_all add: frame)
  have "header_mask L codec d route masked = header_mask L codec d route inner"
    using header_mask_stable bounds by (simp add: masked_def)
  then have out: "mask_header (header_mask L codec d route masked) masked = inner"
    by (simp add: masked_def)
  have len: "SP_MIN_FRAME_LEN \<le> length frame \<and> length frame \<le> SP_MAX_DATAGRAM_LEN"
    using bounds lens by (simp add: frame speedy_consts)
  have "drop SP_ROUTING_TAG_LEN (route @ masked) = masked" using lens by simp
  moreover have "route \<in> sp_routing_tag_at L codec d ` set (sp_accepted_epochs epoch)"
    using e by (simp add: route_def)
  ultimately show ?thesis
    unfolding spec_decode_def Let_def parts
    using len valid out by (simp add: mac_def)
qed

lemma spec_encode_decode:
  assumes dec: "spec_decode L codec frame d epoch = Inr inner"
  obtains e where "e \<in> set (sp_accepted_epochs epoch)" "spec_encode L codec inner d e = Inr frame"
proof -
  define route where "route = take SP_ROUTING_TAG_LEN frame"
  define body where "body = take (length frame - SP_AUTH_TAG_LEN) frame"
  define masked where "masked = drop SP_ROUTING_TAG_LEN body"
  let ?m = "header_mask L codec d route masked"
  from dec have len: "SP_MIN_FRAME_LEN \<le> length frame"
    and tag: "route \<in> sp_routing_tag_at L codec d ` set (sp_accepted_epochs epoch)"
    and mac: "take SP_AUTH_TAG_LEN (blake3_keyed L (spk_bytes (dk_auth (sc_keys codec d))) body) =
        drop (length frame - SP_AUTH_TAG_LEN) frame"
    and inner: "inner = mask_header ?m masked" "validate_inner inner d = Inr ()"
    by (auto simp: spec_decode_def Let_def result_simps route_def body_def masked_def split: if_splits)
  from tag obtain e where e: "e \<in> set (sp_accepted_epochs epoch)" "sp_routing_tag_at L codec d e = route"
    by auto
  have "take SP_ROUTING_TAG_LEN body = route" using len by (simp add: route_def body_def speedy_consts)
  then have body: "route @ masked = body" unfolding masked_def by (metis append_take_drop_id)
  have "header_mask L codec d route inner = ?m"
    using validate_inner_length [OF inner(2)] inner(1) header_mask_stable [of masked] by simp
  then have "mask_header (header_mask L codec d route inner) inner = masked" by (simp add: inner(1))
  moreover have "body @ take SP_AUTH_TAG_LEN
      (blake3_keyed L (spk_bytes (dk_auth (sc_keys codec d))) body) = frame"
    by (simp add: mac) (simp add: body_def)
  ultimately have "spec_encode L codec inner d e = Inr frame"
    using inner(2) body by (simp add: spec_encode_Inr Let_def e(2) flip: append_assoc)
  with e(1) that show ?thesis by blast
qed

section \<open>Properties\<close>

text \<open>
  C10. The route cache is invisible. From a new codec, any sequence of encodings and decodings in
  both directions, at any clock readings (also ones that go back), is answered exactly as by a codec
  that recomputes the routing tags for every frame.
\<close>

theorem route_cache_is_transparent:
  "run_outputs (speedy_step L) (SpeedyCodec_new L key) calls =
   run_outputs (uncached_step L) (SpeedyCodec_new L key) calls"
  by (rule route_cache.same_outputs) (simp add: cache_ok_new)

text \<open>
  C11. A codec accepts exactly what a holder of its keys sends. In an epoch, a frame decodes to a
  datagram if and only if encoding that datagram in the previous, the current or the next epoch gives
  this very frame. Hence every valid datagram crosses unchanged within the epoch window, no other
  byte string is accepted, and masking never depends on the bytes it masks.
\<close>

theorem speedy_accepts_exactly_own_frames:
  assumes "speedy_lib_ok L" "cache_ok L codec"
  shows "fst (decode_at L codec frame d epoch) = Inr inner \<longleftrightarrow>
     (\<exists>e\<in>set (sp_accepted_epochs epoch). fst (encode_at L codec inner d e) = Inr frame)"
  unfolding encode_at_spec(1) [OF assms(2)] decode_at_spec(1) [OF assms(2)]
  using spec_decode_encode [OF assms(1), of codec inner d _ frame epoch]
    spec_encode_decode [of L codec frame d epoch inner] by metis

definition plain_speedy_lib :: speedy_lib where
  "plain_speedy_lib =
     \<lparr>hkdf_expand = (\<lambda>k i. replicate 32 3), sp_hmac = (\<lambda>k m. replicate 32 4),
      blake3_keyed = (\<lambda>k m. replicate 32 5)\<rparr>"

lemma plain_speedy_lib_ok: "speedy_lib_ok plain_speedy_lib"
  by (simp add: speedy_lib_ok_def plain_speedy_lib_def)

text \<open>A keepalive with an empty body and its tag, framed and recovered one epoch later.\<close>

definition sample_keepalive :: bytes where
  "sample_keepalive = [1, 4, 0, 0] @ replicate 16 0 @ replicate 17 6"

lemma sample_keepalive_valid: "validate_inner sample_keepalive d = Inr ()"
  by (simp add: validate_inner_def speedy_consts sample_keepalive_def Datagram_decode_def
      Header_decode_def VERSION_def PacketKind_try_from_def from_be_def be_value_def)

theorem speedy_accepts_exactly_own_frames_witness:
  "\<exists>frame. fst (encode_at plain_speedy_lib (SpeedyCodec_new plain_speedy_lib (SpeedyKey []))
              sample_keepalive SpClientToServer 7) = Inr frame \<and>
     fst (decode_at plain_speedy_lib (SpeedyCodec_new plain_speedy_lib (SpeedyKey []))
              frame SpClientToServer 8) = Inr sample_keepalive"
proof -
  let ?codec = "SpeedyCodec_new plain_speedy_lib (SpeedyKey [])"
  obtain frame where enc: "fst (encode_at plain_speedy_lib ?codec sample_keepalive SpClientToServer 7) = Inr frame"
    using sample_keepalive_valid encode_at_spec(1) [OF cache_ok_new] by (simp add: spec_encode_def Let_def)
  moreover have "(7 :: u64) \<in> set (sp_accepted_epochs 8)"
    by (simp add: sp_accepted_epochs_def saturating_sub_def)
  ultimately have "fst (decode_at plain_speedy_lib ?codec frame SpClientToServer 8) = Inr sample_keepalive"
    using speedy_accepts_exactly_own_frames [OF plain_speedy_lib_ok cache_ok_new] by blast
  with enc show ?thesis by blast
qed

end
