(* ===== verification/ClientWire.thy ===== *)
theory ClientWire
  imports Config Speedy
begin

text \<open>
  The crate \<^verbatim>\<open>client-wire\<close>: the client's choice between the plain protocol, MouseMorph and Speedy, and
  the encoding of outgoing and decoding of incoming datagrams. A Speedy codec carries its route cache,
  so encoding and decoding return the wire they leave behind.
\<close>

record wire_libs =
  wl_crypto :: crypto_lib
  wl_morph :: morph_lib
  wl_speedy :: speedy_lib

definition MAX_WIRE_DATAGRAM_LEN :: nat where
  "MAX_WIRE_DATAGRAM_LEN = MAX_DATAGRAM_LEN"

datatype ClientWire = WLegacy | WMorph MorphCodec | WSpeedy SpeedyCodec

datatype ClientWireError = CwCrypto CryptoError | CwMorph MorphError | CwSpeedy SpeedyError

definition from_config :: "wire_libs \<Rightarrow> ValidatedClientConfig \<Rightarrow> ClientWireError + ClientWire" where
  "from_config W config =
     (let L = wl_crypto W;
          client_public = SecretKey_public_key L (vcc_client_private_key config)
      in
      if vcc_protocol config = PSpeedy then
        bind_r (map_err CwCrypto (derive_speedy_key L (vcc_client_private_key config)
            (vcc_server_public_key config) (vcc_server_public_key config) client_public)) (\<lambda>key.
          Inr (WSpeedy (SpeedyCodec_new (wl_speedy W) (SpeedyKey key))))
      else
        (case morph_profile (vcc_protocol config) of
           None \<Rightarrow> Inr WLegacy
         | Some profile \<Rightarrow>
             bind_r (map_err CwCrypto (derive_morph_key L (vcc_client_private_key config)
                 (vcc_server_public_key config) (vcc_server_public_key config) client_public)) (\<lambda>key.
               Inr (WMorph \<lparr>mc_key = MorphKey key, mc_profile = profile\<rparr>))))"

fun ClientWire_profile :: "ClientWire \<Rightarrow> Profile option" where
  "ClientWire_profile WLegacy = None"
| "ClientWire_profile (WSpeedy codec) = None"
| "ClientWire_profile (WMorph codec) = Some (mc_profile codec)"

fun ClientWire_cover_count :: "string + bytes \<Rightarrow> ClientWire \<Rightarrow> ClientWireError + nat" where
  "ClientWire_cover_count rng WLegacy = Inr 0"
| "ClientWire_cover_count rng (WSpeedy codec) = Inr 0"
| "ClientWire_cover_count rng (WMorph codec) = map_err CwMorph (cover_count rng (mc_profile codec))"

fun ClientWire_handshake_jitter_ms :: "string + bytes \<Rightarrow> ClientWire \<Rightarrow> ClientWireError + nat" where
  "ClientWire_handshake_jitter_ms rng WLegacy = Inr 0"
| "ClientWire_handshake_jitter_ms rng (WSpeedy codec) = Inr 0"
| "ClientWire_handshake_jitter_ms rng (WMorph codec) =
     map_err CwMorph (handshake_jitter_ms rng (mc_profile codec))"

fun ClientWire_encode ::
  "wire_libs \<Rightarrow> u64 option \<Rightarrow> string + bytes \<Rightarrow> ClientWire \<Rightarrow> bytes \<Rightarrow>
   (ClientWireError + bytes) \<times> ClientWire" where
  "ClientWire_encode W now rng (WSpeedy codec) inner =
     (let (r, codec') = SpeedyCodec_encode (wl_speedy W) now codec inner SpClientToServer
      in (map_err CwSpeedy r, WSpeedy codec'))"
| "ClientWire_encode W now rng WLegacy inner = (Inr inner, WLegacy)"
| "ClientWire_encode W now rng (WMorph codec) inner =
     (map_err CwMorph (MorphCodec_encode_payload (wl_morph W) now rng codec inner ClientToServer),
      WMorph codec)"

text \<open>The flag is false for authenticated cover traffic; the bytes are those left in \<open>output\<close>.\<close>

fun ClientWire_decode ::
  "wire_libs \<Rightarrow> u64 option \<Rightarrow> ClientWire \<Rightarrow> bytes \<Rightarrow> (ClientWireError + bool \<times> bytes) \<times> ClientWire" where
  "ClientWire_decode W now (WSpeedy codec) outer =
     (let (r, codec') = SpeedyCodec_decode (wl_speedy W) now codec outer SpServerToClient
      in (bind_r (map_err CwSpeedy r) (\<lambda>out. Inr (True, out)), WSpeedy codec'))"
| "ClientWire_decode W now WLegacy outer = (Inr (True, outer), WLegacy)"
| "ClientWire_decode W now (WMorph codec) outer =
     (bind_r (map_err CwMorph (MorphCodec_decode (wl_morph W) now codec outer ServerToClient))
        (\<lambda>(decoded, out). Inr (case decoded of DecodedPayload _ \<Rightarrow> True | DecodedCover _ \<Rightarrow> False, out)),
      WMorph codec)"

fun ClientWire_encode_cover ::
  "wire_libs \<Rightarrow> u64 option \<Rightarrow> string + bytes \<Rightarrow> ClientWire \<Rightarrow> ClientWireError + bytes" where
  "ClientWire_encode_cover W now rng WLegacy = Inr []"
| "ClientWire_encode_cover W now rng (WSpeedy codec) = Inr []"
| "ClientWire_encode_cover W now rng (WMorph codec) =
     map_err CwMorph (MorphCodec_encode_cover (wl_morph W) now rng codec ClientToServer)"

section \<open>Lemmas\<close>

text \<open>HKDF returns as many bytes as asked for.\<close>

definition hkdf_length :: "crypto_lib \<Rightarrow> bool" where
  "hkdf_length L \<longleftrightarrow> (\<forall>salt ikm info n out. hkdf_sha256 L salt ikm info n = Some out \<longrightarrow> length out = n)"

lemma derive_wire_key_length:
  "hkdf_length L \<Longrightarrow> derive_wire_key L a b c d label = Inr key \<Longrightarrow> length key = 32"
  by (auto simp: derive_wire_key_def hkdf_length_def KEY_LEN_def Let_def split: if_splits option.splits)

lemma sp_epoch_skew:
  assumes "unat t1 \<le> unat t2 + 10" "unat t2 \<le> unat t1 + 10"
  shows "t1 div EPOCH_SECONDS \<in> set (sp_accepted_epochs (t2 div EPOCH_SECONDS))"
proof -
  have "set (sp_accepted_epochs e) = set (accepted_epochs e)" for e
    by (auto simp: sp_accepted_epochs_def accepted_epochs_def)
  moreover have "unat EPOCH_SECONDS = 10" by (simp add: EPOCH_SECONDS_def)
  ultimately show ?thesis
    using assms div_skew [of 10 "unat t1" "unat t2"] div_skew [of 10 "unat t2" "unat t1"]
    by (simp add: accepted_epochs_iff unat_div)
qed

text \<open>Two Speedy codecs with the same key and clocks within ten seconds understand each other.\<close>

lemma speedy_crosses:
  assumes "speedy_lib_ok L" "cache_ok L c1" "cache_ok L c2" "sc_keys c1 = sc_keys c2"
    and "validate_inner inner d = Inr ()"
    and "unat t1 \<le> unat t2 + 10" "unat t2 \<le> unat t1 + 10"
  shows "\<exists>frame. fst (SpeedyCodec_encode L (Some t1) c1 inner d) = Inr frame \<and>
           fst (SpeedyCodec_decode L (Some t2) c2 frame d) = Inr inner"
proof -
  let ?e = "t1 div EPOCH_SECONDS"
  obtain frame where enc: "spec_encode L c1 inner d ?e = Inr frame"
    using assms(5) by (simp add: spec_encode_def Let_def)
  have "spec_decode L c2 frame d (t2 div EPOCH_SECONDS) = Inr inner"
    using spec_decode_encode [OF assms(1), of c2 inner d ?e frame] sp_epoch_skew [OF assms(6,7)]
      enc spec_keys(1) [OF assms(4)] by simp
  then show ?thesis
    using enc encode_at_spec(1) [OF assms(2)] decode_at_spec(1) [OF assms(3)]
    by (simp add: SpeedyCodec_encode_def SpeedyCodec_decode_def sp_current_epoch_def)
qed

lemma from_config_Morph:
  "from_config W config = Inr (WMorph codec) \<longleftrightarrow>
     morph_profile (vcc_protocol config) = Some (mc_profile codec) \<and>
     derive_morph_key (wl_crypto W) (vcc_client_private_key config) (vcc_server_public_key config)
       (vcc_server_public_key config) (SecretKey_public_key (wl_crypto W) (vcc_client_private_key config)) =
     Inr (mk_bytes (mc_key codec))"
  by (cases codec; cases "mc_key codec")
    (auto simp: from_config_def Let_def result_simps split: option.splits if_splits)

lemma from_config_Speedy:
  "from_config W config = Inr (WSpeedy codec) \<longleftrightarrow>
     vcc_protocol config = PSpeedy \<and>
     (\<exists>key. derive_speedy_key (wl_crypto W) (vcc_client_private_key config) (vcc_server_public_key config)
         (vcc_server_public_key config) (SecretKey_public_key (wl_crypto W) (vcc_client_private_key config)) =
         Inr key \<and> codec = SpeedyCodec_new (wl_speedy W) (SpeedyKey key))"
  by (auto simp: from_config_def Let_def result_simps split: option.splits if_splits)

section \<open>Properties\<close>

text \<open>
  A MouseMorph client and its server understand each other. From a configuration pinned to the
  server's public key, the client builds the codec whose key the server derives from its own secret
  and the client's public key; with clocks within one epoch length, datagrams cross unchanged in both
  directions and the server's cover frames are recognised and dropped by the client.
\<close>

lemma morph_wire_interoperates:
  assumes libs: "dh_commutes (wl_crypto W)" "hkdf_length (wl_crypto W)" "morph_lib_ok (wl_morph W)"
    and pinned: "vcc_server_public_key config = SecretKey_public_key (wl_crypto W) server"
    and wire: "from_config W config = Inr (WMorph codec)"
    and env: "length random = FRAME_RANDOM_LEN" "MIN_FRAME_LEN + length inner \<le> MAX_DATAGRAM_LEN"
    and skew: "unat t1 \<le> unat t2 + unat (epoch_seconds (mc_profile codec))"
      "unat t2 \<le> unat t1 + unat (epoch_seconds (mc_profile codec))"
  shows "morph_profile (vcc_protocol config) = Some (mc_profile codec) \<and>
    derive_morph_key (wl_crypto W) server
      (SecretKey_public_key (wl_crypto W) (vcc_client_private_key config))
      (SecretKey_public_key (wl_crypto W) server)
      (SecretKey_public_key (wl_crypto W) (vcc_client_private_key config)) = Inr (mk_bytes (mc_key codec)) \<and>
    (\<exists>frame. fst (ClientWire_encode W (Some t1) (Inr random) (WMorph codec) inner) = Inr frame \<and>
       length frame \<le> MAX_WIRE_DATAGRAM_LEN \<and>
       MorphCodec_decode (wl_morph W) (Some t2) codec frame ClientToServer =
         Inr (DecodedPayload (mc_profile codec), inner)) \<and>
    (\<exists>frame. MorphCodec_encode_payload (wl_morph W) (Some t1) (Inr random) codec inner ServerToClient =
         Inr frame \<and>
       fst (ClientWire_decode W (Some t2) (WMorph codec) frame) = Inr (True, inner)) \<and>
    (\<exists>frame. MorphCodec_encode_cover (wl_morph W) (Some t1) (Inr random) codec ServerToClient = Inr frame \<and>
       fst (ClientWire_decode W (Some t2) (WMorph codec) frame) = Inr (False, []))"
proof -
  note built = wire [unfolded from_config_Morph]
  then have key: "length (mk_bytes (mc_key codec)) = 32"
    using derive_wire_key_length [OF libs(2)] unfolding derive_morph_key_def by blast
  have agree: "derive_morph_key (wl_crypto W) server
      (SecretKey_public_key (wl_crypto W) (vcc_client_private_key config))
      (SecretKey_public_key (wl_crypto W) server)
      (SecretKey_public_key (wl_crypto W) (vcc_client_private_key config)) = Inr (mk_bytes (mc_key codec))"
    using built pinned derive_key_agrees(1) [OF libs(1), of "vcc_client_private_key config" server] by simp
  have empty: "MIN_FRAME_LEN + length [] \<le> MAX_DATAGRAM_LEN" by (simp add: morph_consts)
  from frame_roundtrip [OF libs(3) key env skew, of Payload ClientToServer]
    frame_roundtrip [OF libs(3) key env skew, of Payload ServerToClient]
    frame_roundtrip [OF libs(3) key env(1) empty skew, of Cover ServerToClient]
  show ?thesis
    using built agree
    by (auto simp: MorphCodec_encode_payload_def MorphCodec_encode_cover_def MorphCodec_decode_def
        MAX_WIRE_DATAGRAM_LEN_def)
qed

definition plain_crypto_lib :: crypto_lib where
  "plain_crypto_lib =
     \<lparr>x25519 = (\<lambda>a b. replicate 32 1), basepoint = [], hkdf_sha256 = (\<lambda>s i f n. Some (replicate n 9)),
      sha256 = (\<lambda>m. replicate 32 2)\<rparr>"

lemma plain_crypto_lib_ok: "dh_commutes plain_crypto_lib" "hkdf_length plain_crypto_lib"
  by (simp_all add: plain_crypto_lib_def dh_commutes_def hkdf_length_def)

definition plain_wire_libs :: wire_libs where
  "plain_wire_libs = \<lparr>wl_crypto = plain_crypto_lib, wl_morph = plain_morph_lib, wl_speedy = plain_speedy_lib\<rparr>"

lemma plain_wire_libs_ok:
  "dh_commutes (wl_crypto plain_wire_libs)" "hkdf_length (wl_crypto plain_wire_libs)"
  "morph_lib_ok (wl_morph plain_wire_libs)" "speedy_lib_ok (wl_speedy plain_wire_libs)"
  using plain_crypto_lib_ok plain_morph_lib_ok plain_speedy_lib_ok by (simp_all add: plain_wire_libs_def)

definition sample_client :: "ClientProtocol \<Rightarrow> ValidatedClientConfig" where
  "sample_client protocol =
     \<lparr>vcc_server = \<lparr>sa_ip = V4 (Ipv4Addr 192 0 2 1), sa_port = 51820\<rparr>,
      vcc_server_public_key = PublicKey (replicate 32 1), vcc_client_private_key = SecretKey (replicate 32 5),
      vcc_context = ProtocolContext (replicate 32 2), vcc_tun_name = ''mousevpn0'', vcc_protocol = protocol\<rparr>"

lemma sample_client_pinned:
  "vcc_server_public_key (sample_client protocol) =
     SecretKey_public_key (wl_crypto plain_wire_libs) (SecretKey (replicate 32 8))"
  by (simp add: sample_client_def SecretKey_public_key_def plain_wire_libs_def plain_crypto_lib_def)

text \<open>
  A Speedy client and its server understand each other. The client's codec is the one the server
  builds from its own secret and the client's public key; with clocks within ten seconds and whatever
  each side's route cache holds, every datagram valid for its direction crosses unchanged.
\<close>

lemma speedy_wire_interoperates:
  assumes libs: "dh_commutes (wl_crypto W)" "speedy_lib_ok (wl_speedy W)"
    and pinned: "vcc_server_public_key config = SecretKey_public_key (wl_crypto W) server"
    and wire: "from_config W config = Inr (WSpeedy codec)"
    and server: "derive_speedy_key (wl_crypto W) server
      (SecretKey_public_key (wl_crypto W) (vcc_client_private_key config))
      (SecretKey_public_key (wl_crypto W) server)
      (SecretKey_public_key (wl_crypto W) (vcc_client_private_key config)) = Inr key"
    and caches: "cache_ok (wl_speedy W) c" "sc_keys c = sc_keys codec" "cache_ok (wl_speedy W) s"
      "sc_keys s = sc_keys (SpeedyCodec_new (wl_speedy W) (SpeedyKey key))"
    and skew: "unat t1 \<le> unat t2 + 10" "unat t2 \<le> unat t1 + 10"
  shows "(validate_inner up SpClientToServer = Inr () \<longrightarrow>
      (\<exists>frame. fst (ClientWire_encode W (Some t1) rng (WSpeedy c) up) = Inr frame \<and>
         fst (SpeedyCodec_decode (wl_speedy W) (Some t2) s frame SpClientToServer) = Inr up)) \<and>
    (validate_inner down SpServerToClient = Inr () \<longrightarrow>
      (\<exists>frame. fst (SpeedyCodec_encode (wl_speedy W) (Some t1) s down SpServerToClient) = Inr frame \<and>
         fst (ClientWire_decode W (Some t2) (WSpeedy c) frame) = Inr (True, down)))"
proof -
  have "sc_keys c = sc_keys s"
    using wire server caches pinned derive_key_agrees(2) [OF libs(1), of "vcc_client_private_key config" server]
    by (auto simp: from_config_Speedy)
  with speedy_crosses [OF libs(2) caches(1,3), of up SpClientToServer t1 t2] skew
    speedy_crosses [OF libs(2) caches(3,1), of down SpServerToClient t1 t2]
  show ?thesis by (auto simp: split_beta)
qed

end
