(* ===== verification/RateLimit.thy ===== *)
theory RateLimit
  imports Net
begin

text \<open>
  The per-source handshake limiter of the server (\<^verbatim>\<open>server/src/rate_limit.rs\<close>). The clock is an
  argument: \<open>allow_at\<close> takes the instant of the call. Lemmas describe one call from the point of view of
  one source address; the properties follow by induction over the calls.
\<close>

section \<open>Model\<close>

record Counter =
  ctr_started :: instant
  ctr_attempts :: u32

definition DEFAULT_MAX_CLIENTS :: nat where "DEFAULT_MAX_CLIENTS = 65536"
definition CLEANUP_INTERVAL :: u64 where "CLEANUP_INTERVAL = 4096"

record HandshakeLimiter =
  hl_clients :: "(IpAddr, Counter) hashmap"
  hl_maximum_attempts :: u32
  hl_window :: duration
  hl_maximum_clients :: nat
  hl_operations :: u64
  hl_last_cleanup :: "instant option"

definition HandshakeLimiter_new :: "u32 \<Rightarrow> duration \<Rightarrow> HandshakeLimiter" where
  "HandshakeLimiter_new maximum_attempts window =
     \<lparr>hl_clients = [], hl_maximum_attempts = maximum_attempts, hl_window = window,
      hl_maximum_clients = DEFAULT_MAX_CLIENTS, hl_operations = 0, hl_last_cleanup = None\<rparr>"

definition cleanup_due :: "HandshakeLimiter \<Rightarrow> instant \<Rightarrow> bool" where
  "cleanup_due l now \<longleftrightarrow>
     (case hl_last_cleanup l of None \<Rightarrow> True | Some t \<Rightarrow> now - t \<ge> hl_window l) \<or>
     hl_operations l mod CLEANUP_INTERVAL = 0"

text \<open>The first part of a call: count the operation and drop expired counters when it is time to.\<close>

definition limiter_cleanup :: "HandshakeLimiter \<Rightarrow> instant \<Rightarrow> HandshakeLimiter" where
  "limiter_cleanup l now =
     (let l' = l\<lparr>hl_operations := hl_operations l + 1\<rparr> in
      if cleanup_due l' now
      then l'\<lparr>hl_clients := hm_retain (\<lambda>_ counter. now - ctr_started counter < hl_window l) (hl_clients l),
             hl_last_cleanup := Some now\<rparr>
      else l')"

definition allow_at :: "HandshakeLimiter \<Rightarrow> IpAddr \<Rightarrow> instant \<Rightarrow> bool \<times> HandshakeLimiter" where
  "allow_at l0 address now =
     (let l = limiter_cleanup l0 now in
      if map_of (hl_clients l) address = None \<and> length (hl_clients l) \<ge> hl_maximum_clients l
      then (False, l)
      else
        let entry = (case map_of (hl_clients l) address of
                       None \<Rightarrow> \<lparr>ctr_started = now, ctr_attempts = 0\<rparr>
                     | Some counter \<Rightarrow> counter);
            counter = (if now - ctr_started entry \<ge> hl_window l
                       then \<lparr>ctr_started = now, ctr_attempts = 0\<rparr> else entry)
        in
        if ctr_attempts counter \<ge> hl_maximum_attempts l
        then (False, l\<lparr>hl_clients := hm_insert address counter (hl_clients l)\<rparr>)
        else (True, l\<lparr>hl_clients :=
                hm_insert address (counter\<lparr>ctr_attempts := ctr_attempts counter + 1\<rparr>) (hl_clients l)\<rparr>))"

section \<open>Invariant\<close>

definition limiter_inv :: "HandshakeLimiter \<Rightarrow> bool" where
  "limiter_inv l \<longleftrightarrow> hm_ok (hl_clients l) \<and> length (hl_clients l) \<le> hl_maximum_clients l \<and>
     (\<forall>a c. map_of (hl_clients l) a = Some c \<longrightarrow> ctr_attempts c \<le> hl_maximum_attempts l)"

lemma limiter_inv_new: "limiter_inv (HandshakeLimiter_new m w)"
  by (simp add: limiter_inv_def HandshakeLimiter_new_def)

lemma limiter_inv_ok [simp]: "limiter_inv l \<Longrightarrow> hm_ok (hl_clients l)"
  by (simp add: limiter_inv_def)

lemma limiter_cleanup_fields [simp]:
  "hl_window (limiter_cleanup l now) = hl_window l"
  "hl_maximum_attempts (limiter_cleanup l now) = hl_maximum_attempts l"
  "hl_maximum_clients (limiter_cleanup l now) = hl_maximum_clients l"
  by (simp_all add: limiter_cleanup_def Let_def)

lemma limiter_cleanup_get:
  assumes "hm_ok (hl_clients l)"
  shows "map_of (hl_clients (limiter_cleanup l now)) a = map_of (hl_clients l) a \<or>
    (\<exists>c. map_of (hl_clients l) a = Some c \<and> now - ctr_started c \<ge> hl_window l \<and>
         map_of (hl_clients (limiter_cleanup l now)) a = None)"
  using hm.get_retain [OF assms, of "\<lambda>_ counter. now - ctr_started counter < hl_window l" a]
  by (cases "map_of (hl_clients l) a") (auto simp: limiter_cleanup_def Let_def)

lemma limiter_cleanup_inv [inv_intros]:
  assumes "limiter_inv l"
  shows "limiter_inv (limiter_cleanup l now)"
proof -
  have "hm_ok (hl_clients (limiter_cleanup l now))"
    "length (hl_clients (limiter_cleanup l now)) \<le> length (hl_clients l)"
    using assms hm.len_retain_le [of "hl_clients l"]
    by (simp_all add: limiter_cleanup_def Let_def limiter_inv_def hm_valid)
  with assms limiter_cleanup_get [of l now] show ?thesis
    unfolding limiter_inv_def by (simp, metis le_trans option.distinct(1))
qed

lemma allow_at_fields [simp]:
  "hl_window (snd (allow_at l a now)) = hl_window l"
  "hl_maximum_attempts (snd (allow_at l a now)) = hl_maximum_attempts l"
  "hl_maximum_clients (snd (allow_at l a now)) = hl_maximum_clients l"
  by (simp_all add: allow_at_def Let_def)

lemma attempts_succ:
  "a < (m :: u32) \<Longrightarrow> a + 1 \<le> m \<and> unat (a + 1) = unat a + 1"
  using unat_bound [of m]
  by (simp add: word_less_nat_alt word_le_nat_alt unat_add_no_overflow)

lemma insert_inv:
  assumes "limiter_inv l" "ctr_attempts c \<le> hl_maximum_attempts l"
    and "map_of (hl_clients l) a \<noteq> None \<or> length (hl_clients l) < hl_maximum_clients l"
  shows "limiter_inv (l\<lparr>hl_clients := hm_insert a c (hl_clients l)\<rparr>)"
proof -
  have "length (hm_insert a c (hl_clients l)) \<le> hl_maximum_clients l"
    using assms hm.len_insert_present [of "hl_clients l" a c] hm.len_insert_le [of "hl_clients l" a c]
    by (auto simp: limiter_inv_def)
  with assms show ?thesis
    by (auto simp: limiter_inv_def hm_valid hm_get split: if_splits)
qed

lemma allow_at_inv [inv_intros]:
  assumes "limiter_inv l0"
  shows "limiter_inv (snd (allow_at l0 a now))"
proof -
  define l where "l = limiter_cleanup l0 now"
  have inv: "limiter_inv l" unfolding l_def by (rule limiter_cleanup_inv [OF assms])
  then have "ctr_attempts c \<le> hl_maximum_attempts l" if "map_of (hl_clients l) a = Some c" for c
    using that by (simp add: limiter_inv_def)
  with inv attempts_succ [of 0 "hl_maximum_attempts l"] show ?thesis
    unfolding allow_at_def Let_def l_def [symmetric]
    by (auto intro!: insert_inv attempts_succ [THEN conjunct1] simp: not_le split: option.splits)
qed

interpretation limiter: invariant_machine "\<lambda>l (a, now). snd (allow_at l a now)" limiter_inv
  by unfold_locales (auto intro: allow_at_inv)

section \<open>One call, seen from one address\<close>

abbreviation counter_of :: "HandshakeLimiter \<Rightarrow> IpAddr \<Rightarrow> Counter option" where
  "counter_of l a \<equiv> map_of (hl_clients l) a"

text \<open>A counter is live while its window lasts.\<close>

definition live :: "HandshakeLimiter \<Rightarrow> IpAddr \<Rightarrow> instant \<Rightarrow> bool" where
  "live l a now \<longleftrightarrow> (\<exists>c. counter_of l a = Some c \<and> now - ctr_started c < hl_window l)"

lemma cleanup_live:
  assumes "hm_ok (hl_clients l)" "live l a now"
  shows "counter_of (limiter_cleanup l now) a = counter_of l a"
  using limiter_cleanup_get [OF assms(1), of now a] assms(2) by (auto simp: live_def)

lemma allow_at_other:
  assumes "hm_ok (hl_clients l)" "a \<noteq> b"
  shows "counter_of (snd (allow_at l b now)) a = counter_of l a \<or>
    \<not> live l a now \<and> counter_of (snd (allow_at l b now)) a = None"
  using limiter_cleanup_get [OF assms(1), of now a] assms
  by (auto simp: allow_at_def Let_def hm_get live_def)

lemma allow_at_live:
  assumes "hm_ok (hl_clients l)" "counter_of l a = Some c" "now - ctr_started c < hl_window l"
  shows "fst (allow_at l a now) \<longleftrightarrow> ctr_attempts c < hl_maximum_attempts l"
    and "counter_of (snd (allow_at l a now)) a =
      Some (c\<lparr>ctr_attempts := (if ctr_attempts c < hl_maximum_attempts l
                               then ctr_attempts c + 1 else ctr_attempts c)\<rparr>)"
proof -
  have "counter_of (limiter_cleanup l now) a = Some c"
    using cleanup_live [of l a now] assms by (auto simp: live_def)
  with assms(3) show "fst (allow_at l a now) \<longleftrightarrow> ctr_attempts c < hl_maximum_attempts l"
    and "counter_of (snd (allow_at l a now)) a =
      Some (c\<lparr>ctr_attempts := (if ctr_attempts c < hl_maximum_attempts l
                               then ctr_attempts c + 1 else ctr_attempts c)\<rparr>)"
    by (auto simp: allow_at_def Let_def hm_get)
qed

lemma allow_at_fresh:
  assumes "hm_ok (hl_clients l)" "\<not> live l a now" "0 < hl_window l"
  shows "fst (allow_at l a now) \<and> 0 < hl_maximum_attempts l \<and>
           counter_of (snd (allow_at l a now)) a = Some \<lparr>ctr_started = now, ctr_attempts = 1\<rparr> \<or>
         \<not> fst (allow_at l a now) \<and>
           (counter_of (snd (allow_at l a now)) a = None \<or>
            hl_maximum_attempts l = 0 \<and>
            counter_of (snd (allow_at l a now)) a = Some \<lparr>ctr_started = now, ctr_attempts = 0\<rparr>)"
proof -
  have "counter_of (limiter_cleanup l now) a = None \<or>
      (\<exists>c. counter_of (limiter_cleanup l now) a = Some c \<and> hl_window l \<le> now - ctr_started c)"
    using limiter_cleanup_get [OF assms(1), of now a] assms(2)
    by (cases "counter_of l a") (auto simp: live_def)
  with assms(3) show ?thesis
    by (auto simp: allow_at_def Let_def hm_get word_gt_0)
qed

section \<open>Accepted attempts over a run\<close>

fun accepted :: "HandshakeLimiter \<Rightarrow> (IpAddr \<times> instant) list \<Rightarrow> (IpAddr \<times> instant) list" where
  "accepted l [] = []"
| "accepted l ((a, now) # calls) =
     (let (permitted, l') = allow_at l a now
      in (if permitted then [(a, now)] else []) @ accepted l' calls)"

definition attempts_in :: "HandshakeLimiter \<Rightarrow> (IpAddr \<times> instant) list \<Rightarrow> IpAddr \<Rightarrow> instant set \<Rightarrow> nat" where
  "attempts_in l calls a T = length (filter (\<lambda>(b, t). b = a \<and> t \<in> T) (accepted l calls))"

lemma attempts_in_Nil [simp]: "attempts_in l [] a T = 0"
  by (simp add: attempts_in_def)

lemma attempts_in_Cons:
  "attempts_in l ((b, now) # calls) a T =
     (if fst (allow_at l b now) \<and> b = a \<and> now \<in> T then 1 else 0)
     + attempts_in (snd (allow_at l b now)) calls a T"
  by (simp add: attempts_in_def split_beta)

lemma accepted_times: "(b, t) \<in> set (accepted l calls) \<Longrightarrow> t \<in> snd ` set calls"
proof (induction calls arbitrary: l)
  case Nil
  then show ?case by simp
next
  case (Cons call calls)
  obtain a now where "call = (a, now)" by fastforce
  with Cons show ?case by (auto simp: split_beta split: if_splits)
qed

lemma attempts_in_none: "snd ` set calls \<inter> T = {} \<Longrightarrow> attempts_in l calls a T = 0"
  unfolding attempts_in_def using accepted_times by (fastforce simp: filter_empty_conv)

lemma length_filter_mono: "(\<And>x. P x \<Longrightarrow> Q x) \<Longrightarrow> length (filter P xs) \<le> length (filter Q xs)"
  by (induction xs) (auto intro: le_SucI)

lemma length_filter_or:
  "length (filter (\<lambda>x. P x \<or> Q x) xs) \<le> length (filter P xs) + length (filter Q xs)"
  by (induction xs) auto

lemma attempts_in_mono: "T \<subseteq> U \<Longrightarrow> attempts_in l calls a T \<le> attempts_in l calls a U"
  unfolding attempts_in_def by (rule length_filter_mono) auto

lemma attempts_in_union: "attempts_in l calls a (T \<union> U) \<le> attempts_in l calls a T + attempts_in l calls a U"
  using length_filter_or [of "\<lambda>(b, t). b = a \<and> t \<in> T" "\<lambda>(b, t). b = a \<and> t \<in> U" "accepted l calls"]
  unfolding attempts_in_def by (simp add: case_prod_unfold conj_disj_distribL)

text \<open>The calls come in the order of a monotonic clock, none earlier than \<open>from\<close>.\<close>

definition clocked :: "instant \<Rightarrow> (IpAddr \<times> instant) list \<Rightarrow> bool" where
  "clocked start calls \<longleftrightarrow> sorted (map snd calls) \<and> (\<forall>t\<in>snd ` set calls. start \<le> t)"

lemma clocked_Nil [simp]: "clocked start []"
  by (simp add: clocked_def)

lemma clocked_Cons: "clocked start ((b, now) # calls) \<longleftrightarrow> start \<le> now \<and> clocked now calls"
  by (auto simp: clocked_def intro: order_trans)

lemma clocked_late: "clocked start calls \<Longrightarrow> attempts_in l calls a {..<start} = 0"
  by (rule attempts_in_none) (auto simp: clocked_def)

text \<open>Within the window of a live counter only the remaining attempts are accepted.\<close>

lemma attempts_in_window:
  assumes "limiter_inv l" "counter_of l a = Some c" "clocked (ctr_started c) calls"
  shows "attempts_in l calls a {..<ctr_started c + hl_window l} \<le>
    unat (hl_maximum_attempts l) - unat (ctr_attempts c)"
  using assms
proof (induction calls arbitrary: l c)
  case Nil
  then show ?case by simp
next
  case (Cons call calls)
  obtain b now where call: "call = (b, now)" by fastforce
  let ?l' = "snd (allow_at l b now)" and ?T = "{..<ctr_started c + hl_window l}"
  have ok: "hm_ok (hl_clients l)" and inv': "limiter_inv ?l'"
    using Cons.prems(1) by (simp_all add: allow_at_inv)
  have now: "ctr_started c \<le> now" and rest: "clocked now calls"
    using Cons.prems(3) by (simp_all add: call clocked_Cons)
  show ?case
  proof (cases "now < ctr_started c + hl_window l")
    case False
    then have "?T \<subseteq> {..<now}" by auto
    then have "attempts_in ?l' calls a ?T = 0"
      using attempts_in_mono [of ?T "{..<now}" ?l' calls a] clocked_late [OF rest] by simp
    with False show ?thesis by (simp add: call attempts_in_Cons)
  next
    case True
    then have live: "now - ctr_started c < hl_window l" using now by linarith
    have late: "clocked (ctr_started c) calls" using rest now by (force simp: clocked_def)
    show ?thesis
    proof (cases "b = a")
      case False
      then have "counter_of ?l' a = Some c"
        using allow_at_other [OF ok, of a b now] Cons.prems(2) live by (auto simp: live_def)
      from Cons.IH [OF inv' this late] False show ?thesis
        by (simp add: call attempts_in_Cons)
    next
      case same: True
      note step = allow_at_live [OF ok Cons.prems(2) live]
      from Cons.IH [OF inv', of "c\<lparr>ctr_attempts := (if ctr_attempts c < hl_maximum_attempts l
          then ctr_attempts c + 1 else ctr_attempts c)\<rparr>"] step late same
      show ?thesis
        using attempts_succ [of "ctr_attempts c" "hl_maximum_attempts l"]
        by (auto simp: call attempts_in_Cons word_less_nat_alt split: if_splits)
    qed
  qed
qed

text \<open>From an instant at which the source has no live counter, one window's worth is accepted.\<close>

definition idle :: "HandshakeLimiter \<Rightarrow> IpAddr \<Rightarrow> instant \<Rightarrow> bool" where
  "idle l a start \<longleftrightarrow> (\<forall>c. counter_of l a = Some c \<longrightarrow> ctr_started c + hl_window l \<le> start)"

lemma idle_not_live: "idle l a start \<Longrightarrow> start \<le> now \<Longrightarrow> \<not> live l a now"
  by (auto simp: idle_def live_def)

lemma attempts_in_idle:
  assumes "limiter_inv l" "idle l a start" "clocked start calls" "0 < hl_window l"
  shows "attempts_in l calls a {..<start + hl_window l} \<le> unat (hl_maximum_attempts l)"
  using assms
proof (induction calls arbitrary: l)
  case Nil
  then show ?case by simp
next
  case (Cons call calls)
  obtain b now where call: "call = (b, now)" by fastforce
  let ?l' = "snd (allow_at l b now)" and ?T = "{..<start + hl_window l}"
  have ok: "hm_ok (hl_clients l)" and inv': "limiter_inv ?l'"
    using Cons.prems(1) by (simp_all add: allow_at_inv)
  have now: "start \<le> now" and rest: "clocked now calls" "clocked start calls"
    using Cons.prems(3) by (auto simp: call clocked_Cons) (force simp: clocked_def)
  have dead: "\<not> live l a now" using idle_not_live [OF Cons.prems(2) now] .
  have later: "attempts_in ?l' calls a ?T \<le> unat (hl_maximum_attempts l)" if "idle ?l' a start"
    using Cons.IH [OF inv' that rest(2)] Cons.prems(4) by simp
  have begun: "attempts_in ?l' calls a ?T \<le> unat (hl_maximum_attempts l) - unat k"
    if "counter_of ?l' a = Some \<lparr>ctr_started = now, ctr_attempts = k\<rparr>" for k
    using attempts_in_window [OF inv' that] rest(1) now
      attempts_in_mono [of ?T "{..<now + hl_window l}" ?l' calls a] by (auto intro: order_trans)
  show ?case
  proof (cases "b = a")
    case False
    then have "idle ?l' a start"
      using allow_at_other [OF ok, of a b now] Cons.prems(2) by (auto simp: idle_def)
    with later False show ?thesis by (simp add: call attempts_in_Cons)
  next
    case True
    from allow_at_fresh [OF ok dead Cons.prems(4)] show ?thesis
      using begun [of 1] begun [of 0] later True
      by (auto simp: call attempts_in_Cons idle_def word_less_nat_alt)
  qed
qed

text \<open>The window after that of a running counter.\<close>

lemma attempts_in_next_window:
  assumes "limiter_inv l" "counter_of l a = Some c" "clocked (ctr_started c) calls" "0 < hl_window l"
  shows "attempts_in l calls a {ctr_started c + hl_window l ..< ctr_started c + 2 * hl_window l} \<le>
    unat (hl_maximum_attempts l)"
  using assms
proof (induction calls arbitrary: l c)
  case Nil
  then show ?case by simp
next
  case (Cons call calls)
  obtain b now where call: "call = (b, now)" by fastforce
  let ?l' = "snd (allow_at l b now)"
  let ?u = "ctr_started c + hl_window l"
  have ok: "hm_ok (hl_clients l)" and inv': "limiter_inv ?l'"
    using Cons.prems(1) by (simp_all add: allow_at_inv)
  have now: "ctr_started c \<le> now" and rest: "clocked now calls"
    using Cons.prems(3) by (simp_all add: call clocked_Cons)
  show ?case
  proof (cases "now < ?u")
    case False
    then have "clocked ?u (call # calls)" using rest by (simp add: call clocked_Cons)
    moreover have "idle l a ?u" using Cons.prems(2) by (simp add: idle_def)
    moreover have "{?u ..< ctr_started c + 2 * hl_window l} \<subseteq> {..< ?u + hl_window l}" by auto
    ultimately show ?thesis
      using attempts_in_idle [OF Cons.prems(1) _ _ Cons.prems(4)] attempts_in_mono order_trans by blast
  next
    case True
    then have live: "now - ctr_started c < hl_window l" using now by linarith
    have late: "clocked (ctr_started c) calls" using rest now by (force simp: clocked_def)
    have "\<exists>c'. counter_of ?l' a = Some c' \<and> ctr_started c' = ctr_started c"
      using allow_at_other [OF ok, of a b now] allow_at_live(2) [OF ok Cons.prems(2) live]
        Cons.prems(2) live by (cases "b = a") (auto simp: live_def)
    then obtain c' where c': "counter_of ?l' a = Some c'" "ctr_started c' = ctr_started c" by blast
    from Cons.IH [OF inv' c'(1)] c'(2) late Cons.prems(4) True show ?thesis
      by (simp add: call attempts_in_Cons)
  qed
qed

definition started_by :: "HandshakeLimiter \<Rightarrow> IpAddr \<Rightarrow> instant \<Rightarrow> bool" where
  "started_by l a start \<longleftrightarrow> (\<forall>c. counter_of l a = Some c \<longrightarrow> ctr_started c \<le> start)"

lemma started_by_step:
  assumes "limiter_inv l" "started_by l a start" "start \<le> now" "0 < hl_window l"
  shows "started_by (snd (allow_at l b now)) a now"
proof -
  have ok: "hm_ok (hl_clients l)" using assms(1) by simp
  show ?thesis
  proof (cases "b = a")
    case False
    then show ?thesis using allow_at_other [OF ok, of a b now] assms(2,3) by (auto simp: started_by_def)
  next
    case same: True
    show ?thesis
    proof (cases "live l a now")
      case True
      then show ?thesis
        using allow_at_live(2) [OF ok, of a _ now] assms(2,3) same by (auto simp: live_def started_by_def)
    next
      case False
      then show ?thesis using allow_at_fresh [OF ok False assms(4)] same by (auto simp: started_by_def)
    qed
  qed
qed

lemma attempts_in_any_window:
  assumes "limiter_inv l" "started_by l a start" "clocked start calls" "0 < hl_window l"
  shows "attempts_in l calls a {t ..< t + hl_window l} \<le> 2 * unat (hl_maximum_attempts l)"
  using assms
proof (induction calls arbitrary: l start)
  case Nil
  then show ?case by simp
next
  case (Cons call calls)
  obtain b now where call: "call = (b, now)" by fastforce
  have now: "start \<le> now" and rest: "clocked now calls"
    using Cons.prems(3) by (simp_all add: call clocked_Cons)
  let ?T = "{t ..< t + hl_window l}" and ?m = "unat (hl_maximum_attempts l)"
  show ?case
  proof (cases "now < t")
    case True
    from Cons.IH [OF _ started_by_step [OF Cons.prems(1,2) now Cons.prems(4)] rest] True Cons.prems
    show ?thesis by (simp add: call attempts_in_Cons allow_at_inv)
  next
    case False
    then have late: "clocked t (call # calls)" using rest by (simp add: call clocked_Cons)
    show ?thesis
    proof (cases "idle l a t")
      case True
      have "attempts_in l (call # calls) a ?T \<le> attempts_in l (call # calls) a {..<t + hl_window l}"
        by (rule attempts_in_mono) auto
      with attempts_in_idle [OF Cons.prems(1) True late Cons.prems(4)] show ?thesis by linarith
    next
      case False
      then obtain c where c: "counter_of l a = Some c" "t < ctr_started c + hl_window l"
        by (auto simp: idle_def)
      then have "ctr_started c \<le> start" using Cons.prems(2) by (simp add: started_by_def)
      then have from_c: "clocked (ctr_started c) (call # calls)"
        using Cons.prems(3) by (force simp: clocked_def)
      let ?A = "{..<ctr_started c + hl_window l}"
      let ?B = "{ctr_started c + hl_window l ..< ctr_started c + 2 * hl_window l}"
      have "?T \<subseteq> ?A \<union> ?B" using c(2) by auto
      from order_trans [OF attempts_in_mono [OF this] attempts_in_union]
      have "attempts_in l (call # calls) a ?T \<le>
          attempts_in l (call # calls) a ?A + attempts_in l (call # calls) a ?B" .
      with attempts_in_window [OF Cons.prems(1) c(1) from_c]
        attempts_in_next_window [OF Cons.prems(1) c(1) from_c Cons.prems(4)]
      show ?thesis by linarith
    qed
  qed
qed

section \<open>Properties\<close>

text \<open>
  C12. The limiter limits. For any traffic from any number of sources, under a monotonic clock, any
  interval of the window's length contains at most twice the configured number of accepted attempts
  of one source, whatever cleanups and evictions happen in between.
\<close>

theorem attempts_are_limited:
  assumes "sorted (map snd calls)" "0 < window"
  shows "length (filter (\<lambda>(b, t). b = a \<and> t \<in> {start ..< start + window})
     (accepted (HandshakeLimiter_new maximum window) calls)) \<le> 2 * unat maximum"
proof -
  let ?l = "HandshakeLimiter_new maximum window"
  have "started_by ?l a 0" by (simp add: started_by_def HandshakeLimiter_new_def)
  moreover have "clocked 0 calls" using assms(1) by (simp add: clocked_def)
  ultimately show ?thesis
    using attempts_in_any_window [OF limiter_inv_new, of maximum window a 0 calls start] assms(2)
    by (simp add: attempts_in_def HandshakeLimiter_new_def)
qed

theorem attempts_are_limited_witness:
  "length (filter (\<lambda>(b, t). b = V6 1 \<and> t \<in> {0 ..< 0 + 60})
     (accepted (HandshakeLimiter_new 2 60) [(V6 1, 5), (V6 1, 5), (V6 2, 6), (V6 1, 7)])) \<le> 4"
  using attempts_are_limited [of "[(V6 1, 5), (V6 1, 5), (V6 2, 6), (V6 1, 7)]" 60 "V6 1" 0 2]
  by (simp del: accepted.simps)

text \<open>
  Sources cannot harm each other. After any calls the table holds at most its maximal number of
  counters and no counter exceeds the limit, and one more call from another source, spoofed or not,
  leaves a live counter as it is, so the decision for its owner does not change.
\<close>

lemma limiter_isolates_sources:
  assumes "l = foldl (\<lambda>l (a, now). snd (allow_at l a now)) (HandshakeLimiter_new maximum window) calls"
  shows "length (hl_clients l) \<le> hl_maximum_clients l \<and>
    (counter_of l a = Some c \<longrightarrow> ctr_attempts c \<le> hl_maximum_attempts l \<and>
      (now - ctr_started c < hl_window l \<and> a \<noteq> b \<longrightarrow>
         counter_of (snd (allow_at l b now)) a = Some c \<and>
         fst (allow_at (snd (allow_at l b now)) a now) = fst (allow_at l a now)))"
proof -
  have inv: "limiter_inv l" unfolding assms by (rule limiter.run_inv [OF limiter_inv_new])
  then have ok: "hm_ok (hl_clients l)" "hm_ok (hl_clients (snd (allow_at l b now)))"
    by (simp_all add: allow_at_inv)
  have "counter_of (snd (allow_at l b now)) a = Some c \<and>
      fst (allow_at (snd (allow_at l b now)) a now) = fst (allow_at l a now)"
    if c: "counter_of l a = Some c" "now - ctr_started c < hl_window l" "a \<noteq> b"
  proof -
    have "counter_of (snd (allow_at l b now)) a = Some c"
      using allow_at_other [OF ok(1) c(3), of now] c by (auto simp: live_def)
    then show ?thesis using allow_at_live(1) [OF ok(1) c(1,2)] allow_at_live(1) [OF ok(2)] c(2) by simp
  qed
  with inv show ?thesis by (auto simp: limiter_inv_def)
qed

end
