(* ===== verification/RustText.thy ===== *)
theory RustText
  imports Prelude
begin

text \<open>
  Text as Rust has it: a sequence of Unicode scalar values, with the length in UTF-8 bytes that
  \<^verbatim>\<open>str::len\<close> returns and the character classes the code asks for.
\<close>

type_synonym rust_string = "nat list"

definition utf8_len :: "nat \<Rightarrow> nat" where
  "utf8_len c = (if c < 0x80 then 1 else if c < 0x800 then 2 else if c < 0x10000 then 3 else 4)"

definition str_len :: "rust_string \<Rightarrow> nat" where
  "str_len s = sum_list (map utf8_len s)"

text \<open>\<^verbatim>\<open>char::is_whitespace\<close>: the property White_Space of Unicode.\<close>

definition is_whitespace :: "nat \<Rightarrow> bool" where
  "is_whitespace c \<longleftrightarrow>
     (9 \<le> c \<and> c \<le> 13) \<or> c = 32 \<or> c = 0x85 \<or> c = 0xA0 \<or> c = 0x1680 \<or>
     (0x2000 \<le> c \<and> c \<le> 0x200A) \<or> c = 0x2028 \<or> c = 0x2029 \<or> c = 0x202F \<or> c = 0x205F \<or> c = 0x3000"

text \<open>\<^verbatim>\<open>char::is_control\<close>: the general category Cc.\<close>

definition is_control :: "nat \<Rightarrow> bool" where
  "is_control c \<longleftrightarrow> c < 32 \<or> (127 \<le> c \<and> c < 160)"

definition trim :: "rust_string \<Rightarrow> rust_string" where
  "trim s = rev (dropWhile is_whitespace (rev (dropWhile is_whitespace s)))"

lemma str_len_ge_length: "length s \<le> str_len s"
  by (induction s) (auto simp: str_len_def utf8_len_def)

lemma str_len_le: "str_len s \<le> 4 * length s"
  by (induction s) (auto simp: str_len_def utf8_len_def)

lemma str_len_ascii: "\<forall>c\<in>set s. c < 128 \<Longrightarrow> str_len s = length s"
  by (induction s) (auto simp: str_len_def utf8_len_def)

lemma trim_Nil_iff: "trim s = [] \<longleftrightarrow> (\<forall>c\<in>set s. is_whitespace c)"
proof -
  have "dropWhile is_whitespace s = [] \<longleftrightarrow> (\<forall>c\<in>set s. is_whitespace c)"
    by (simp add: dropWhile_eq_Nil_conv)
  moreover have "dropWhile is_whitespace (rev (dropWhile is_whitespace s)) = [] \<longleftrightarrow>
      dropWhile is_whitespace s = []"
    by (metis dropWhile_eq_Nil_conv dropWhile_idem list.set_sel(1) set_rev hd_dropWhile)
  ultimately show ?thesis by (simp add: trim_def)
qed

end
