(* ===== verification/ServerState.thy ===== *)
theory ServerState
  imports RustText Net Session
begin

text \<open>
  The server's library state: registered users and their device keys (\<^verbatim>\<open>server/src/users.rs\<close>), the
  session table with its limits (\<^verbatim>\<open>server/src/sessions.rs\<close>) and the state that combines them
  (\<^verbatim>\<open>server/src/state.rs\<close>). Operations that read the clock take the instant as an argument.
\<close>

section \<open>Users and devices\<close>

datatype UserId = UserId u64

record User =
  usr_id :: UserId
  usr_name :: rust_string
  usr_max_sessions :: nat

record UserRegistry =
  ur_users :: "(UserId, User) hashmap"
  ur_devices :: "(PublicKey, UserId) hashmap"

datatype RegistryError =
  BlankUserName
| DuplicateKey
| DuplicateUserId UserId
| UnknownUser UserId
| ZeroSessionLimit

definition UserRegistry_new :: UserRegistry where
  "UserRegistry_new = \<lparr>ur_users = [], ur_devices = []\<rparr>"

definition add_user :: "UserRegistry \<Rightarrow> User \<Rightarrow> (RegistryError + unit) \<times> UserRegistry" where
  "add_user r user =
     (if trim (usr_name user) = [] then (Inl BlankUserName, r)
      else if usr_max_sessions user = 0 then (Inl ZeroSessionLimit, r)
      else if map_of (ur_users r) (usr_id user) \<noteq> None then (Inl (DuplicateUserId (usr_id user)), r)
      else (Inr (), r\<lparr>ur_users := hm_insert (usr_id user) user (ur_users r)\<rparr>))"

text \<open>The insertion happens before the test: its result says whether the key was present.\<close>

definition add_device :: "UserRegistry \<Rightarrow> UserId \<Rightarrow> PublicKey \<Rightarrow> (RegistryError + unit) \<times> UserRegistry" where
  "add_device r user_id key =
     (if map_of (ur_users r) user_id = None then (Inl (UnknownUser user_id), r)
      else
        let previous = map_of (ur_devices r) key;
            r' = r\<lparr>ur_devices := hm_insert key user_id (ur_devices r)\<rparr>
        in if previous \<noteq> None then (Inl DuplicateKey, r') else (Inr (), r'))"

definition UserRegistry_authorize :: "UserRegistry \<Rightarrow> PublicKey \<Rightarrow> User option" where
  "UserRegistry_authorize r key =
     (case map_of (ur_devices r) key of
        None \<Rightarrow> None
      | Some user_id \<Rightarrow> map_of (ur_users r) user_id)"

definition UserRegistry_revoke_device :: "UserRegistry \<Rightarrow> PublicKey \<Rightarrow> UserId option \<times> UserRegistry" where
  "UserRegistry_revoke_device r key =
     (map_of (ur_devices r) key, r\<lparr>ur_devices := hm_remove key (ur_devices r)\<rparr>)"

definition UserRegistry_revoke_user :: "UserRegistry \<Rightarrow> UserId \<Rightarrow> User option \<times> UserRegistry" where
  "UserRegistry_revoke_user r user_id =
     (case map_of (ur_users r) user_id of
        None \<Rightarrow> (None, r)
      | Some removed \<Rightarrow>
          (Some removed,
           r\<lparr>ur_users := hm_remove user_id (ur_users r),
             ur_devices := hm_retain (\<lambda>_ owner. owner \<noteq> user_id) (ur_devices r)\<rparr>))"

section \<open>Sessions\<close>

record ActiveSession =
  as_user_id :: UserId
  as_peer :: SocketAddr
  as_crypto :: SecureSession
  as_last_seen :: instant

record SessionTable =
  st_sessions :: "(u64, ActiveSession) hashmap"
  st_maximum :: nat

datatype SessionInsertError = SessionIdInUse | TableFull | UserLimitReached UserId

datatype SessionAccessError = UnknownSession | PeerMismatch

definition SessionTable_new :: "nat \<Rightarrow> SessionTable" where
  "SessionTable_new maximum = \<lparr>st_sessions = [], st_maximum = maximum\<rparr>"

definition user_sessions :: "SessionTable \<Rightarrow> UserId \<Rightarrow> nat" where
  "user_sessions t user_id = length (filter (\<lambda>(_, s). as_user_id s = user_id) (st_sessions t))"

definition SessionTable_insert ::
  "SessionTable \<Rightarrow> u64 \<Rightarrow> User \<Rightarrow> SocketAddr \<Rightarrow> SecureSession \<Rightarrow> instant \<Rightarrow>
   (SessionInsertError + unit) \<times> SessionTable" where
  "SessionTable_insert t session_id user peer crypto now =
     (if map_of (st_sessions t) session_id \<noteq> None then (Inl SessionIdInUse, t)
      else if length (st_sessions t) \<ge> st_maximum t then (Inl TableFull, t)
      else if user_sessions t (usr_id user) \<ge> usr_max_sessions user
      then (Inl (UserLimitReached (usr_id user)), t)
      else
        (Inr (), t\<lparr>st_sessions := hm_insert session_id
          \<lparr>as_user_id = usr_id user, as_peer = peer, as_crypto = crypto, as_last_seen = now\<rparr>
          (st_sessions t)\<rparr>))"

text \<open>Returns the touched session; the table holds it touched as well.\<close>

definition SessionTable_get_mut ::
  "SessionTable \<Rightarrow> u64 \<Rightarrow> SocketAddr \<Rightarrow> instant \<Rightarrow> (SessionAccessError + ActiveSession) \<times> SessionTable" where
  "SessionTable_get_mut t session_id peer now =
     (case map_of (st_sessions t) session_id of
        None \<Rightarrow> (Inl UnknownSession, t)
      | Some session \<Rightarrow>
          if as_peer session \<noteq> peer then (Inl PeerMismatch, t)
          else
            let touched = session\<lparr>as_last_seen := now\<rparr>
            in (Inr touched, t\<lparr>st_sessions := hm_insert session_id touched (st_sessions t)\<rparr>))"

definition remove_where :: "(ActiveSession \<Rightarrow> bool) \<Rightarrow> SessionTable \<Rightarrow> nat \<times> SessionTable" where
  "remove_where P t =
     (let kept = hm_retain (\<lambda>_ session. \<not> P session) (st_sessions t)
      in (length (st_sessions t) - length kept, t\<lparr>st_sessions := kept\<rparr>))"

definition remove_expired :: "SessionTable \<Rightarrow> duration \<Rightarrow> instant \<Rightarrow> nat \<times> SessionTable" where
  "remove_expired t maximum_idle now = remove_where (\<lambda>s. now - as_last_seen s > maximum_idle) t"

definition remove_user :: "SessionTable \<Rightarrow> UserId \<Rightarrow> nat \<times> SessionTable" where
  "remove_user t user_id = remove_where (\<lambda>s. as_user_id s = user_id) t"

definition remove_device :: "SessionTable \<Rightarrow> PublicKey \<Rightarrow> nat \<times> SessionTable" where
  "remove_device t public_key = remove_where (\<lambda>s. ss_peer_static_key (as_crypto s) = public_key) t"

section \<open>Server state\<close>

record ProvisionedDevice =
  pd_public_key :: PublicKey
  pd_secret_key :: SecretKey

record RevokeResult =
  rr_revoked :: bool
  rr_closed_sessions :: nat

record ServerState =
  sv_next_user_id :: u64
  sv_users :: UserRegistry
  sv_sessions :: SessionTable

datatype StateError =
  SeCrypto CryptoError
| SeRegistry RegistryError
| SeSession SessionInsertError
| UserIdExhausted

definition ServerState_new :: "nat \<Rightarrow> ServerState" where
  "ServerState_new maximum_sessions =
     \<lparr>sv_next_user_id = 1, sv_users = UserRegistry_new, sv_sessions = SessionTable_new maximum_sessions\<rparr>"

definition create_user :: "ServerState \<Rightarrow> rust_string \<Rightarrow> nat \<Rightarrow> (StateError + User) \<times> ServerState" where
  "create_user s name max_sessions =
     (let user_id = UserId (sv_next_user_id s) in
      case checked_add (sv_next_user_id s) 1 of
        None \<Rightarrow> (Inl UserIdExhausted, s)
      | Some next \<Rightarrow>
          let user = \<lparr>usr_id = user_id, usr_name = name, usr_max_sessions = max_sessions\<rparr>;
              (added, users) = add_user (sv_users s) user
          in (bind_r (map_err SeRegistry added) (\<lambda>_. Inr user),
              s\<lparr>sv_next_user_id := next, sv_users := users\<rparr>))"

text \<open>\<open>generated\<close> is the answer of the key generator, as in \<^const>\<open>KeyPair_generate\<close>.\<close>

definition provision_device ::
  "ServerState \<Rightarrow> UserId \<Rightarrow> SnowError + bytes \<times> bytes \<Rightarrow> (StateError + ProvisionedDevice) \<times> ServerState" where
  "provision_device s user_id generated =
     (case KeyPair_generate generated of
        Inl e \<Rightarrow> (Inl (SeCrypto e), s)
      | Inr keys \<Rightarrow>
          let (added, users) = add_device (sv_users s) user_id (kp_public keys)
          in (bind_r (map_err SeRegistry added) (\<lambda>_.
                Inr \<lparr>pd_public_key = kp_public keys, pd_secret_key = kp_secret keys\<rparr>),
              s\<lparr>sv_users := users\<rparr>))"

definition revoke_device :: "ServerState \<Rightarrow> PublicKey \<Rightarrow> RevokeResult \<times> ServerState" where
  "revoke_device s public_key =
     (let (owner, users) = UserRegistry_revoke_device (sv_users s) public_key;
          revoked = (owner \<noteq> None);
          (closed, sessions) = (if revoked then remove_device (sv_sessions s) public_key
                                else (0, sv_sessions s))
      in (\<lparr>rr_revoked = revoked, rr_closed_sessions = closed\<rparr>,
          s\<lparr>sv_users := users, sv_sessions := sessions\<rparr>))"

definition revoke_user :: "ServerState \<Rightarrow> UserId \<Rightarrow> RevokeResult \<times> ServerState" where
  "revoke_user s user_id =
     (let (removed, users) = UserRegistry_revoke_user (sv_users s) user_id;
          revoked = (removed \<noteq> None);
          (closed, sessions) = (if revoked then remove_user (sv_sessions s) user_id
                                else (0, sv_sessions s))
      in (\<lparr>rr_revoked = revoked, rr_closed_sessions = closed\<rparr>,
          s\<lparr>sv_users := users, sv_sessions := sessions\<rparr>))"

definition ServerState_authorize :: "ServerState \<Rightarrow> PublicKey \<Rightarrow> User option" where
  "ServerState_authorize s public_key = UserRegistry_authorize (sv_users s) public_key"

definition insert_session ::
  "ServerState \<Rightarrow> u64 \<Rightarrow> User \<Rightarrow> SocketAddr \<Rightarrow> SecureSession \<Rightarrow> instant \<Rightarrow> (StateError + unit) \<times> ServerState"
where
  "insert_session s session_id user peer crypto now =
     (let (r, sessions) = SessionTable_insert (sv_sessions s) session_id user peer crypto now
      in (map_err SeSession r, s\<lparr>sv_sessions := sessions\<rparr>))"

definition session_mut ::
  "ServerState \<Rightarrow> u64 \<Rightarrow> SocketAddr \<Rightarrow> instant \<Rightarrow> (SessionAccessError + ActiveSession) \<times> ServerState" where
  "session_mut s session_id peer now =
     (let (r, sessions) = SessionTable_get_mut (sv_sessions s) session_id peer now
      in (r, s\<lparr>sv_sessions := sessions\<rparr>))"

definition user_count :: "ServerState \<Rightarrow> nat" where
  "user_count s = length (ur_users (sv_users s))"

definition device_count :: "ServerState \<Rightarrow> nat" where
  "device_count s = length (ur_devices (sv_users s))"

section \<open>Invariant\<close>

lemma hm_count:
  assumes "hm_ok m"
  shows "length (filter (\<lambda>(_, v). P v) m) = card {k. \<exists>v. map_of m k = Some v \<and> P v}"
proof -
  have "length (hm_retain (\<lambda>_ v. P v) m) = card (dom (map_of (hm_retain (\<lambda>_ v. P v) m)))"
    using hm.len_card hm.valid_retain [OF assms] by blast
  moreover have "dom (map_of (hm_retain (\<lambda>_ v. P v) m)) = {k. \<exists>v. map_of m k = Some v \<and> P v}"
    using hm.get_retain [OF assms, of "\<lambda>_ v. P v"] by (auto split: option.splits if_splits)
  ultimately show ?thesis by (simp add: hm_retain_def)
qed

lemma hm_keys_finite: "finite {k. \<exists>v. map_of m k = Some v \<and> P v}"
  by (rule finite_subset [of _ "dom (map_of m)"]) (auto simp: finite_dom_map_of)

abbreviation session_of :: "ServerState \<Rightarrow> u64 \<Rightarrow> ActiveSession option" where
  "session_of s i \<equiv> map_of (st_sessions (sv_sessions s)) i"

abbreviation owner_of :: "ServerState \<Rightarrow> PublicKey \<Rightarrow> UserId option" where
  "owner_of s k \<equiv> map_of (ur_devices (sv_users s)) k"

abbreviation user_of :: "ServerState \<Rightarrow> UserId \<Rightarrow> User option" where
  "user_of s i \<equiv> map_of (ur_users (sv_users s)) i"

text \<open>
  Users are stored under their identifiers, all already issued; every device belongs to a user; every
  session belongs to the user who owns its device key; the table and every user keep to their limits.
\<close>

definition users_ok :: "ServerState \<Rightarrow> bool" where
  "users_ok s \<longleftrightarrow> hm_ok (ur_users (sv_users s)) \<and> hm_ok (ur_devices (sv_users s)) \<and>
     (\<forall>i u. user_of s i = Some u \<longrightarrow>
        usr_id u = i \<and> 0 < usr_max_sessions u \<and> (\<exists>n. i = UserId n \<and> n < sv_next_user_id s)) \<and>
     (\<forall>k i. owner_of s k = Some i \<longrightarrow> user_of s i \<noteq> None)"

definition sessions_ok :: "ServerState \<Rightarrow> bool" where
  "sessions_ok s \<longleftrightarrow> hm_ok (st_sessions (sv_sessions s)) \<and>
     length (st_sessions (sv_sessions s)) \<le> st_maximum (sv_sessions s) \<and>
     (\<forall>i x. session_of s i = Some x \<longrightarrow>
        owner_of s (ss_peer_static_key (as_crypto x)) = Some (as_user_id x)) \<and>
     (\<forall>i u. user_of s i = Some u \<longrightarrow> user_sessions (sv_sessions s) i \<le> usr_max_sessions u)"

definition server_inv :: "ServerState \<Rightarrow> bool" where
  "server_inv s \<longleftrightarrow> users_ok s \<and> sessions_ok s"

lemma server_inv_new: "server_inv (ServerState_new n)"
  by (simp add: server_inv_def users_ok_def sessions_ok_def ServerState_new_def UserRegistry_new_def
      SessionTable_new_def user_sessions_def)

lemma user_sessions_card:
  "hm_ok (st_sessions t) \<Longrightarrow>
   user_sessions t i = card {k. \<exists>x. map_of (st_sessions t) k = Some x \<and> as_user_id x = i}"
  unfolding user_sessions_def by (rule hm_count)

lemma user_sessions_unowned:
  assumes "server_inv s" "user_of s i = None"
  shows "user_sessions (sv_sessions s) i = 0"
proof -
  have "\<not> (\<exists>x. session_of s k = Some x \<and> as_user_id x = i)" for k
    using assms unfolding server_inv_def users_ok_def sessions_ok_def by metis
  with assms(1) show ?thesis by (simp add: user_sessions_card server_inv_def sessions_ok_def)
qed

lemma create_user_inv [inv_intros]:
  assumes "server_inv s"
  shows "server_inv (snd (create_user s name limit))"
proof -
  let ?n = "sv_next_user_id s"
  have new: "user_of s (UserId ?n) = None"
    using assms unfolding server_inv_def users_ok_def by (metis UserId.inject less_irrefl not_None_eq)
  have bump: "m < ?n \<or> m = ?n \<Longrightarrow> checked_add ?n 1 = Some nxt \<Longrightarrow> m < nxt" for m nxt
    using checked_add_Some [of ?n 1 nxt] by (auto simp: word_less_nat_alt)
  have old: "\<exists>m. i = UserId m \<and> m < nxt" if "user_of s i = Some u" "checked_add ?n 1 = Some nxt" for i u nxt
    using that assms bump unfolding server_inv_def users_ok_def by metis
  note zero = user_sessions_unowned [OF assms new]
  from assms new zero show ?thesis
    by (auto simp: server_inv_def users_ok_def sessions_ok_def create_user_def add_user_def Let_def
        hm_get hm_valid split: option.splits if_splits intro: bump old)
qed

lemma provision_device_inv [inv_intros]:
  assumes "server_inv s"
    and "\<And>kp. KeyPair_generate g = Inr kp \<Longrightarrow> owner_of s (kp_public kp) = None"
  shows "server_inv (snd (provision_device s i g))"
proof (cases "KeyPair_generate g")
  case (Inl e)
  with assms(1) show ?thesis by (simp add: provision_device_def)
next
  case (Inr kp)
  have "ss_peer_static_key (as_crypto x) \<noteq> kp_public kp" if "session_of s j = Some x" for j x
    using assms that Inr unfolding server_inv_def sessions_ok_def by (metis option.distinct(1))
  with assms(1) Inr show ?thesis
    by (auto simp: server_inv_def users_ok_def sessions_ok_def provision_device_def add_device_def Let_def
        hm_get hm_valid split: if_splits)
qed

lemma remove_where_simps [simp]:
  "st_maximum (snd (remove_where P t)) = st_maximum t"
  "st_sessions (snd (remove_where P t)) = hm_retain (\<lambda>_ x. \<not> P x) (st_sessions t)"
  by (simp_all add: remove_where_def Let_def)

lemma session_of_removed:
  "hm_ok (st_sessions t) \<Longrightarrow> map_of (st_sessions (snd (remove_where P t))) i = Some x \<longleftrightarrow>
     map_of (st_sessions t) i = Some x \<and> \<not> P x"
  by (auto simp: hm_get split: option.splits)

lemma user_sessions_removed:
  assumes "hm_ok (st_sessions t)"
  shows "user_sessions (snd (remove_where P t)) i \<le> user_sessions t i"
proof -
  have "{k. \<exists>x. map_of (st_sessions (snd (remove_where P t))) k = Some x \<and> as_user_id x = i} \<subseteq>
      {k. \<exists>x. map_of (st_sessions t) k = Some x \<and> as_user_id x = i}"
    using session_of_removed [OF assms] by blast
  with assms show ?thesis by (simp add: user_sessions_card hm_valid card_mono hm_keys_finite)
qed

lemma removal_inv:
  assumes "server_inv s"
  shows "hm_ok (st_sessions (snd (remove_where P (sv_sessions s))))"
    and "length (st_sessions (snd (remove_where P (sv_sessions s)))) \<le> st_maximum (sv_sessions s)"
    and "user_of s i = Some u \<Longrightarrow> user_sessions (snd (remove_where P (sv_sessions s))) i \<le> usr_max_sessions u"
proof -
  have ok: "hm_ok (st_sessions (sv_sessions s))" using assms by (simp add: server_inv_def sessions_ok_def)
  then show "hm_ok (st_sessions (snd (remove_where P (sv_sessions s))))" by (simp add: hm_valid)
  show "length (st_sessions (snd (remove_where P (sv_sessions s)))) \<le> st_maximum (sv_sessions s)"
    using hm.len_retain_le [OF ok] assms by (fastforce simp: server_inv_def sessions_ok_def intro: order_trans)
  show "user_of s i = Some u \<Longrightarrow> user_sessions (snd (remove_where P (sv_sessions s))) i \<le> usr_max_sessions u"
    using user_sessions_removed [OF ok] assms unfolding server_inv_def sessions_ok_def
    by (meson order_trans)
qed

lemma revoke_device_state:
  "owner_of s k \<noteq> None \<Longrightarrow> snd (revoke_device s k) =
     s\<lparr>sv_users := (sv_users s)\<lparr>ur_devices := hm_remove k (ur_devices (sv_users s))\<rparr>,
       sv_sessions := snd (remove_where (\<lambda>x. ss_peer_static_key (as_crypto x) = k) (sv_sessions s))\<rparr>"
  "owner_of s k = None \<Longrightarrow> snd (revoke_device s k) =
     s\<lparr>sv_users := (sv_users s)\<lparr>ur_devices := hm_remove k (ur_devices (sv_users s))\<rparr>\<rparr>"
  by (simp_all add: revoke_device_def UserRegistry_revoke_device_def remove_device_def split_beta)

lemma revoke_user_state:
  "user_of s i \<noteq> None \<Longrightarrow> snd (revoke_user s i) =
     s\<lparr>sv_users := \<lparr>ur_users = hm_remove i (ur_users (sv_users s)),
                     ur_devices = hm_retain (\<lambda>_ owner. owner \<noteq> i) (ur_devices (sv_users s))\<rparr>,
       sv_sessions := snd (remove_where (\<lambda>x. as_user_id x = i) (sv_sessions s))\<rparr>"
  "user_of s i = None \<Longrightarrow> snd (revoke_user s i) = s"
  by (auto simp: revoke_user_def UserRegistry_revoke_user_def remove_user_def split_beta)

lemma revoke_device_inv [inv_intros]:
  assumes "server_inv s"
  shows "server_inv (snd (revoke_device s k))"
proof (cases "owner_of s k")
  case None
  then have "hm_remove k (ur_devices (sv_users s)) = ur_devices (sv_users s)"
    by (auto simp: hm_remove_def map_of_eq_None_iff AList.delete_eq filter_id_conv image_iff)
  with assms None show ?thesis by (simp add: revoke_device_state)
next
  case (Some i)
  have ok: "hm_ok (st_sessions (sv_sessions s))" using assms by (simp add: server_inv_def sessions_ok_def)
  from assms Some removal_inv [OF assms] session_of_removed [OF ok] show ?thesis
    by (auto simp: server_inv_def users_ok_def sessions_ok_def revoke_device_state hm_get hm_valid
        simp del: remove_where_simps(2))
qed

lemma revoke_user_inv [inv_intros]:
  assumes "server_inv s"
  shows "server_inv (snd (revoke_user s i))"
proof (cases "user_of s i")
  case None
  with assms show ?thesis by (simp add: revoke_user_state)
next
  case (Some u)
  have ok: "hm_ok (st_sessions (sv_sessions s))" "hm_ok (ur_devices (sv_users s))"
    using assms by (simp_all add: server_inv_def sessions_ok_def users_ok_def)
  from assms Some removal_inv [OF assms] session_of_removed [OF ok(1)] show ?thesis
    by (auto simp: server_inv_def users_ok_def sessions_ok_def revoke_user_state hm_get(1,2)
        hm.get_retain [OF ok(2)] hm_valid simp del: remove_where_simps(2) split: option.splits if_splits)
qed

lemma SessionTable_insert_Inr:
  "SessionTable_insert t i u peer c now = (Inr (), t') \<longleftrightarrow>
     map_of (st_sessions t) i = None \<and> length (st_sessions t) < st_maximum t \<and>
     user_sessions t (usr_id u) < usr_max_sessions u \<and>
     t' = t\<lparr>st_sessions := hm_insert i
       \<lparr>as_user_id = usr_id u, as_peer = peer, as_crypto = c, as_last_seen = now\<rparr> (st_sessions t)\<rparr>"
  by (auto simp: SessionTable_insert_def)

lemma SessionTable_insert_Inl: "SessionTable_insert t i u peer c now = (Inl e, t') \<Longrightarrow> t' = t"
  by (auto simp: SessionTable_insert_def split: if_splits)

lemma user_sessions_insert:
  assumes "hm_ok m" "map_of m i = None \<or> (\<exists>y. map_of m i = Some y \<and> as_user_id y = as_user_id x)"
  shows "user_sessions (t\<lparr>st_sessions := hm_insert i x m\<rparr>) j =
     user_sessions (t\<lparr>st_sessions := m\<rparr>) j + (if map_of m i = None \<and> as_user_id x = j then 1 else 0)"
proof -
  let ?S = "{k. \<exists>v. map_of m k = Some v \<and> as_user_id v = j}"
  have "{k. \<exists>v. map_of (hm_insert i x m) k = Some v \<and> as_user_id v = j} =
      (if as_user_id x = j then insert i ?S else ?S)"
    using assms(2) by (auto simp: hm_get split: if_splits)
  moreover have "i \<in> ?S \<longleftrightarrow> map_of m i \<noteq> None \<and> as_user_id x = j" using assms(2) by auto
  ultimately show ?thesis
    using assms(1) hm_keys_finite [of m "\<lambda>v. as_user_id v = j"]
    by (simp add: user_sessions_card hm_valid card_insert_if)
qed

lemma insert_session_inv [inv_intros]:
  assumes "server_inv s" "ServerState_authorize s (ss_peer_static_key crypto) = Some user"
  shows "server_inv (snd (insert_session s i user peer crypto now))"
proof (cases "SessionTable_insert (sv_sessions s) i user peer crypto now")
  case (Pair r t')
  show ?thesis
  proof (cases r)
    case (Inl e)
    with Pair assms(1) SessionTable_insert_Inl show ?thesis by (fastforce simp: insert_session_def)
  next
    case (Inr x)
    let ?new = "\<lparr>as_user_id = usr_id user, as_peer = peer, as_crypto = crypto, as_last_seen = now\<rparr>"
    have t': "session_of s i = None" "length (st_sessions (sv_sessions s)) < st_maximum (sv_sessions s)"
      "user_sessions (sv_sessions s) (usr_id user) < usr_max_sessions user"
      "t' = (sv_sessions s)\<lparr>st_sessions := hm_insert i ?new (st_sessions (sv_sessions s))\<rparr>"
      using Pair Inr by (simp_all add: SessionTable_insert_Inr)
    have ok: "hm_ok (st_sessions (sv_sessions s))"
      using assms(1) by (simp add: server_inv_def sessions_ok_def)
    obtain own where own: "owner_of s (ss_peer_static_key crypto) = Some own" "user_of s own = Some user"
      using assms(2) by (auto simp: ServerState_authorize_def UserRegistry_authorize_def split: option.splits)
    then have "usr_id user = own" using assms(1) by (simp add: server_inv_def users_ok_def)
    with own t' assms(1) user_sessions_insert [OF ok, of i ?new "sv_sessions s"] hm.len_insert_fresh [OF ok t'(1), of ?new]
    show ?thesis
      by (auto simp: server_inv_def users_ok_def sessions_ok_def insert_session_def Pair hm_get hm_valid)
  qed
qed

lemma session_mut_inv [inv_intros]:
  assumes "server_inv s"
  shows "server_inv (snd (session_mut s i peer now))"
proof (cases "session_of s i")
  case None
  with assms show ?thesis by (simp add: session_mut_def SessionTable_get_mut_def)
next
  case (Some x)
  have ok: "hm_ok (st_sessions (sv_sessions s))"
    using assms by (simp add: server_inv_def sessions_ok_def)
  with Some assms user_sessions_insert [OF ok, of i "x\<lparr>as_last_seen := now\<rparr>" "sv_sessions s"]
    hm.len_insert_present [OF ok, of i "x\<lparr>as_last_seen := now\<rparr>"]
  show ?thesis
    by (auto simp: server_inv_def users_ok_def sessions_ok_def session_mut_def SessionTable_get_mut_def
        Let_def hm_get hm_valid)
qed

section \<open>Runs of the server state\<close>

text \<open>
  The operations as the server uses them: keys come from the generator and are new, and sessions are
  inserted for the user whom the handshake's peer key authorizes.
\<close>

inductive server_step :: "ServerState \<Rightarrow> ServerState \<Rightarrow> bool" where
  create: "server_step s (snd (create_user s name limit))"
| provision: "(\<And>kp. KeyPair_generate g = Inr kp \<Longrightarrow> owner_of s (kp_public kp) = None) \<Longrightarrow>
     server_step s (snd (provision_device s i g))"
| revoke_dev: "server_step s (snd (revoke_device s k))"
| revoke_usr: "server_step s (snd (revoke_user s i))"
| insert_sess: "ServerState_authorize s (ss_peer_static_key crypto) = Some user \<Longrightarrow>
     server_step s (snd (insert_session s sid user peer crypto now))"
| access: "server_step s (snd (session_mut s sid peer now))"

inductive server_reach :: "nat \<Rightarrow> ServerState \<Rightarrow> bool" for n where
  start: "server_reach n (ServerState_new n)"
| step: "server_reach n s \<Longrightarrow> server_step s s' \<Longrightarrow> server_reach n s'"

lemma server_step_inv: "server_step s s' \<Longrightarrow> server_inv s \<Longrightarrow> server_inv s'"
  by (induction rule: server_step.induct) (auto intro: inv_intros)

lemma server_reach_inv: "server_reach n s \<Longrightarrow> server_inv s"
  by (induction rule: server_reach.induct) (auto intro: server_inv_new server_step_inv)

lemma server_step_maximum: "server_step s s' \<Longrightarrow> st_maximum (sv_sessions s') = st_maximum (sv_sessions s)"
  by (induction rule: server_step.induct)
    (auto simp: create_user_def provision_device_def revoke_device_def revoke_user_def insert_session_def
      session_mut_def SessionTable_insert_def SessionTable_get_mut_def remove_device_def remove_user_def
      Let_def split_beta split: option.splits sum.splits)

lemma server_reach_maximum: "server_reach n s \<Longrightarrow> st_maximum (sv_sessions s) = n"
  by (induction rule: server_reach.induct)
    (auto simp: server_step_maximum, simp add: ServerState_new_def SessionTable_new_def)

section \<open>Properties\<close>

text \<open>
  The server keeps its limits. In every state reached by creating users, provisioning devices
  with new keys, revoking and inserting authenticated sessions, there are at most as many sessions as
  configured and at most as many of each user as that user may have, and every session belongs to the
  registered user whom its device key authorizes.
\<close>

lemma server_keeps_limits:
  assumes "server_reach n s"
  shows "length (st_sessions (sv_sessions s)) \<le> n \<and>
    (session_of s i = Some x \<longrightarrow>
      (\<exists>u. ServerState_authorize s (ss_peer_static_key (as_crypto x)) = Some u \<and> usr_id u = as_user_id x \<and>
           user_sessions (sv_sessions s) (as_user_id x) \<le> usr_max_sessions u))"
proof -
  have inv: "server_inv s" by (rule server_reach_inv [OF assms])
  then have "length (st_sessions (sv_sessions s)) \<le> n"
    using server_reach_maximum [OF assms] by (simp add: server_inv_def sessions_ok_def)
  moreover have "\<exists>u. ServerState_authorize s (ss_peer_static_key (as_crypto x)) = Some u \<and>
      usr_id u = as_user_id x \<and> user_sessions (sv_sessions s) (as_user_id x) \<le> usr_max_sessions u"
    if x: "session_of s i = Some x"
  proof -
    have own: "owner_of s (ss_peer_static_key (as_crypto x)) = Some (as_user_id x)"
      using inv x by (simp add: server_inv_def sessions_ok_def)
    then obtain u where "user_of s (as_user_id x) = Some u"
      using inv unfolding server_inv_def users_ok_def by blast
    with own inv show ?thesis
      by (auto simp: server_inv_def users_ok_def sessions_ok_def ServerState_authorize_def
          UserRegistry_authorize_def)
  qed
  ultimately show ?thesis by blast
qed

text \<open>A user with one provisioned device and one session of it.\<close>

definition sample_key :: PublicKey where
  "sample_key = PublicKey (replicate 32 1)"

definition sample_session :: SecureSession where
  "sample_session = SecureSession_new plain_transport sample_key"

definition sample_server :: ServerState where
  "sample_server =
     (let s1 = snd (create_user (ServerState_new 8) [0x61] 1);
          s2 = snd (provision_device s1 (UserId 1) (Inr (replicate 32 2, replicate 32 1)))
      in snd (insert_session s2 7 \<lparr>usr_id = UserId 1, usr_name = [0x61], usr_max_sessions = 1\<rparr>
               \<lparr>sa_ip = V6 1, sa_port = 9\<rparr> sample_session 0))"

lemmas sample_server_eval = create_user_def add_user_def ServerState_new_def UserRegistry_new_def
  SessionTable_new_def checked_add_def trim_def is_whitespace_def hm_insert_def provision_device_def
  KeyPair_generate_def SecretKey_from_vec_def PublicKey_from_slice_def KEY_LEN_def add_device_def
  insert_session_def SessionTable_insert_def user_sessions_def Let_def

lemma sample_server_value:
  "sample_server =
     \<lparr>sv_next_user_id = 2,
      sv_users = \<lparr>ur_users = [(UserId 1, \<lparr>usr_id = UserId 1, usr_name = [0x61], usr_max_sessions = 1\<rparr>)],
                  ur_devices = [(sample_key, UserId 1)]\<rparr>,
      sv_sessions = \<lparr>st_sessions = [(7, \<lparr>as_user_id = UserId 1, as_peer = \<lparr>sa_ip = V6 1, sa_port = 9\<rparr>,
                       as_crypto = sample_session, as_last_seen = 0\<rparr>)], st_maximum = 8\<rparr>\<rparr>"
  by (simp add: sample_server_def sample_server_eval sample_key_def)

lemma sample_server_reach: "server_reach 8 sample_server"
proof -
  let ?u = "\<lparr>usr_id = UserId 1, usr_name = [0x61], usr_max_sessions = 1\<rparr>"
  let ?s1 = "snd (create_user (ServerState_new 8) [0x61] 1)"
  let ?s2 = "snd (provision_device ?s1 (UserId 1) (Inr (replicate 32 2, replicate 32 1)))"
  have "server_reach 8 ?s1" by (rule step [OF start create])
  moreover have "server_step ?s1 ?s2" by (rule provision) (simp add: sample_server_eval)
  ultimately have "server_reach 8 ?s2" by (rule step)
  moreover have "ServerState_authorize ?s2 (ss_peer_static_key sample_session) = Some ?u"
    by (simp add: sample_server_eval ServerState_authorize_def UserRegistry_authorize_def
        sample_session_def SecureSession_new_def sample_key_def)
  ultimately show ?thesis
    unfolding sample_server_def Let_def by (blast intro: step insert_sess)
qed

text \<open>
  C13. Revocation is complete and precise. Revoking a device of a reachable state ends its
  authorization and closes exactly its sessions; revoking a user ends the authorization of all the
  user's devices and closes exactly the user's sessions; the reported number is the number of sessions
  closed, and afterwards no session with the device's key, or of the user, is left.
\<close>

theorem revocation_is_complete:
  assumes "server_reach n s"
  shows "(owner_of s k \<noteq> None \<longrightarrow>
      ServerState_authorize (snd (revoke_device s k)) k = None \<and>
      rr_closed_sessions (fst (revoke_device s k)) =
        card {i. \<exists>x. session_of s i = Some x \<and> ss_peer_static_key (as_crypto x) = k} \<and>
      (\<forall>i x. session_of (snd (revoke_device s k)) i = Some x \<longleftrightarrow>
         session_of s i = Some x \<and> ss_peer_static_key (as_crypto x) \<noteq> k)) \<and>
    (owner_of s k = Some u \<longrightarrow>
      ServerState_authorize (snd (revoke_user s u)) k = None \<and>
      rr_closed_sessions (fst (revoke_user s u)) =
        card {i. \<exists>x. session_of s i = Some x \<and> as_user_id x = u} \<and>
      (\<forall>i x. session_of (snd (revoke_user s u)) i = Some x \<longleftrightarrow> session_of s i = Some x \<and> as_user_id x \<noteq> u))"
proof -
  have inv: "server_inv s" by (rule server_reach_inv [OF assms])
  then have ok: "hm_ok (st_sessions (sv_sessions s))" "hm_ok (ur_devices (sv_users s))"
    and owned: "owner_of s k = Some u \<Longrightarrow> user_of s u \<noteq> None"
    by (auto simp: server_inv_def sessions_ok_def users_ok_def)
  have closed: "fst (remove_where P (sv_sessions s)) = card {i. \<exists>x. session_of s i = Some x \<and> P x}" for P
    using sum_length_filter_compl [of "\<lambda>(_, x). P x" "st_sessions (sv_sessions s)"] hm_count [OF ok(1), of P]
    by (simp add: remove_where_def Let_def hm_retain_def case_prod_unfold)
  note rest = session_of_removed [OF ok(1)]
  show ?thesis
    using owned closed
    by (auto simp: revoke_device_state revoke_user_state rest ServerState_authorize_def hm_get(1,2)
        hm.get_retain [OF ok(2)] UserRegistry_authorize_def revoke_device_def revoke_user_def
        UserRegistry_revoke_device_def UserRegistry_revoke_user_def remove_device_def remove_user_def
        split_beta simp del: remove_where_simps(2) split: option.splits)
qed

theorem revocation_is_complete_witness:
  "ServerState_authorize (snd (revoke_device sample_server sample_key)) sample_key = None \<and>
   ServerState_authorize (snd (revoke_user sample_server (UserId 1))) sample_key = None"
  using revocation_is_complete [OF sample_server_reach, of sample_key "UserId 1"]
  by (simp add: sample_server_value)

text \<open>
  A refused device key is transferred all the same. Adding a key that is already registered to a
  user reports a duplicate, but leaves the key assigned to the new user: the error path has changed
  who the device authorizes as.
\<close>

lemma duplicate_key_changes_owner:
  assumes "map_of (ur_users r) new = Some u" "map_of (ur_devices r) key = Some old"
  shows "fst (add_device r new key) = Inl DuplicateKey \<and>
    UserRegistry_authorize (snd (add_device r new key)) key = Some u"
  using assms by (simp add: add_device_def UserRegistry_authorize_def hm_get)

lemma duplicate_key_changes_owner_witness:
  "let alice = \<lparr>usr_id = UserId 1, usr_name = [0x61], usr_max_sessions = 1\<rparr>;
       bob = \<lparr>usr_id = UserId 2, usr_name = [0x62], usr_max_sessions = 1\<rparr>;
       r = \<lparr>ur_users = [(UserId 1, alice), (UserId 2, bob)], ur_devices = [(sample_key, UserId 1)]\<rparr>
   in UserRegistry_authorize r sample_key = Some alice \<and>
      fst (add_device r (UserId 2) sample_key) = Inl DuplicateKey \<and>
      UserRegistry_authorize (snd (add_device r (UserId 2) sample_key)) sample_key = Some bob"
  using duplicate_key_changes_owner
    [of "\<lparr>ur_users = [(UserId 1, \<lparr>usr_id = UserId 1, usr_name = [0x61], usr_max_sessions = 1\<rparr>),
                      (UserId 2, \<lparr>usr_id = UserId 2, usr_name = [0x62], usr_max_sessions = 1\<rparr>)],
         ur_devices = [(sample_key, UserId 1)]\<rparr>" "UserId 2"
      "\<lparr>usr_id = UserId 2, usr_name = [0x62], usr_max_sessions = 1\<rparr>" sample_key "UserId 1"]
  by (simp add: Let_def UserRegistry_authorize_def)

end
