(* ===== verification/Registry.thy ===== *)
theory Registry
  imports RustText Config
begin

text \<open>
  The device registry of the administration service (\<^verbatim>\<open>admin-api/src/registry_store.rs\<close> and
  \<^verbatim>\<open>admin-api/src/registry.rs\<close>): validation and persistence of device records, address allocation,
  provisioning and revocation. An authorization flag (\<^verbatim>\<open>Arc<AtomicBool>\<close>) is shared between the
  registry and every lease handed out, so flags live in a store and leases hold their handles. The file
  is part of the state; what the file system answers to an attempt to replace it is an argument.
\<close>

section \<open>Records and validation\<close>

datatype DevicePlatform = Android | Linux

record DeviceRecord =
  rec_name :: rust_string
  rec_platform :: DevicePlatform
  rec_public_key :: string
  rec_address :: ipv4

datatype RegistryStoreError = RegistryStoreError string

definition REGISTRY_VERSION :: u8 where "REGISTRY_VERSION = 1"
definition MAX_DEVICE_NAME_LEN :: nat where "MAX_DEVICE_NAME_LEN = 80"

definition validate_name :: "rust_string \<Rightarrow> RegistryStoreError + unit" where
  "validate_name name =
     (if name = [] \<or> str_len name > MAX_DEVICE_NAME_LEN \<or> list_ex is_control name
      then Inl (RegistryStoreError ''device name must contain 1 to 80 printable characters'')
      else Inr ())"

definition registry_prefix_mask :: "u8 \<Rightarrow> RegistryStoreError + u32" where
  "registry_prefix_mask prefix_len =
     (if prefix_len = 0 \<or> prefix_len > 30
      then Inl (RegistryStoreError ''admin address allocation requires a /1 to /30 subnet'')
      else Inr (push_bit (32 - unat prefix_len) (- 1)))"

text \<open>Texts of foreign errors are not modelled: \<open>to_string\<close> of a configuration error is a parameter.\<close>

fun validate_loop ::
  "base64_lib \<Rightarrow> (ConfigError \<Rightarrow> string) \<Rightarrow> ipv4 \<Rightarrow> u32 \<Rightarrow> u32 \<Rightarrow> PublicKey set \<Rightarrow> ipv4 set \<Rightarrow>
   DeviceRecord list \<Rightarrow> RegistryStoreError + unit" where
  "validate_loop B show_e tun netmask network keys addresses [] = Inr ()"
| "validate_loop B show_e tun netmask network keys addresses (device # devices) =
     bind_r (validate_name (rec_name device)) (\<lambda>_.
     bind_r (map_err (\<lambda>e. RegistryStoreError (show_e e)) (decode_public_key B (rec_public_key device))) (\<lambda>key.
     if key \<in> keys then Inl (RegistryStoreError ''duplicate device public key'')
     else if rec_address device = tun \<or> ipv4_bits (rec_address device) AND netmask \<noteq> network
     then Inl (RegistryStoreError ''device address is outside the tunnel subnet'')
     else if rec_address device \<in> addresses then Inl (RegistryStoreError ''duplicate device address'')
     else validate_loop B show_e tun netmask network (insert key keys)
            (insert (rec_address device) addresses) devices))"

definition validate_devices ::
  "base64_lib \<Rightarrow> (ConfigError \<Rightarrow> string) \<Rightarrow> DeviceRecord list \<Rightarrow> ipv4 \<Rightarrow> u8 \<Rightarrow> RegistryStoreError + unit" where
  "validate_devices B show_e devices tunnel_address prefix_len =
     (if devices = [] then Inl (RegistryStoreError ''device registry must not be empty'')
      else
        bind_r (registry_prefix_mask prefix_len) (\<lambda>netmask.
        let network = ipv4_bits tunnel_address AND netmask
        in validate_loop B show_e tunnel_address netmask network {} {} devices))"

definition next_address :: "DeviceRecord list \<Rightarrow> ipv4 \<Rightarrow> u8 \<Rightarrow> RegistryStoreError + ipv4" where
  "next_address devices tunnel_address prefix_len =
     bind_r (registry_prefix_mask prefix_len) (\<lambda>netmask.
     let network = ipv4_bits tunnel_address AND netmask;
         broadcast = network OR NOT netmask;
         used = rec_address ` set devices;
         upper = min broadcast (saturating_add network 65535)
     in
     ok_or (RegistryStoreError ''tunnel address pool is exhausted'')
       (List.find (\<lambda>candidate. candidate \<noteq> tunnel_address \<and> candidate \<notin> used)
         (map (\<lambda>n. ipv4_of_bits (of_nat n)) [unat (network + 1) ..< unat upper])))"

section \<open>The file\<close>

record RegistryDocument =
  doc_version :: u8
  doc_devices :: "DeviceRecord list"

definition registry_ensure_private_permissions :: "(u32 \<Rightarrow> string) \<Rightarrow> string + u32 \<Rightarrow> RegistryStoreError + unit" where
  "registry_ensure_private_permissions show_mode metadata =
     bind_r (map_err RegistryStoreError metadata) (\<lambda>m.
       let mode = m AND 0x1FF in
       if mode AND 0x3F \<noteq> 0
       then Inl (RegistryStoreError (''device registry permissions are insecure: '' @ show_mode mode))
       else Inr ())"

definition load_devices ::
  "(u32 \<Rightarrow> string) \<Rightarrow> string + u32 \<Rightarrow> string + RegistryDocument \<Rightarrow> RegistryStoreError + DeviceRecord list" where
  "load_devices show_mode metadata document =
     bind_r (registry_ensure_private_permissions show_mode metadata) (\<lambda>_.
     bind_r (map_err RegistryStoreError document) (\<lambda>doc.
     if doc_version doc \<noteq> REGISTRY_VERSION
     then Inl (RegistryStoreError ''unsupported device registry version'')
     else Inr (doc_devices doc)))"

text \<open>
  The new document is written to a temporary file that replaces the old one in one step, so a failure
  anywhere leaves the file as it was.
\<close>

definition persist_devices ::
  "string + unit \<Rightarrow> DeviceRecord list \<Rightarrow> RegistryDocument option \<Rightarrow>
   (RegistryStoreError + unit) \<times> RegistryDocument option" where
  "persist_devices io devices file =
     (case io of
        Inl e \<Rightarrow> (Inl (RegistryStoreError e), file)
      | Inr _ \<Rightarrow> (Inr (), Some \<lparr>doc_version = REGISTRY_VERSION, doc_devices = devices\<rparr>))"

section \<open>The registry\<close>

type_synonym flag = nat

record DeviceLease =
  dl_name :: rust_string
  dl_address :: ipv4
  dl_public_key :: PublicKey
  dl_authorization :: flag

record SeedDevice =
  sd_name :: rust_string
  sd_public_key :: PublicKey
  sd_address :: ipv4

record AdminProvisionedDevice =
  apd_record :: DeviceRecord
  apd_private_key :: SecretKey

record DeviceRegistry =
  dr_file :: "RegistryDocument option"
  dr_tunnel_address :: ipv4
  dr_prefix_len :: u8
  dr_devices :: "DeviceRecord list"
  dr_leases :: "PublicKey \<rightharpoonup> DeviceLease"
  dr_flags :: "flag \<Rightarrow> bool"
  dr_next_flag :: flag

definition is_active :: "DeviceRegistry \<Rightarrow> flag \<Rightarrow> bool" where
  "is_active R f = dr_flags R f"

text \<open>Each lease gets the next unused flag, set.\<close>

fun build_leases ::
  "base64_lib \<Rightarrow> (ConfigError \<Rightarrow> string) \<Rightarrow> flag \<Rightarrow> DeviceRecord list \<Rightarrow>
   RegistryStoreError + (PublicKey \<rightharpoonup> DeviceLease)" where
  "build_leases B show_e f [] = Inr Map.empty"
| "build_leases B show_e f (device # devices) =
     bind_r (map_err (\<lambda>e. RegistryStoreError (show_e e)) (decode_public_key B (rec_public_key device))) (\<lambda>key.
     bind_r (build_leases B show_e (Suc f) devices) (\<lambda>rest.
       Inr ([key \<mapsto> \<lparr>dl_name = rec_name device, dl_address = rec_address device, dl_public_key = key,
                     dl_authorization = f\<rparr>] ++ rest)))"

text \<open>
  \<open>existing\<close> is what \<^verbatim>\<open>path.exists()\<close> and \<^verbatim>\<open>load_devices\<close> found: \<^const>\<open>None\<close> when there is no file yet.
\<close>

definition registry_open ::
  "base64_lib \<Rightarrow> (ConfigError \<Rightarrow> string) \<Rightarrow> (RegistryStoreError + DeviceRecord list) option \<Rightarrow> string + unit \<Rightarrow>
   SeedDevice list \<Rightarrow> ipv4 \<Rightarrow> u8 \<Rightarrow> RegistryStoreError + DeviceRegistry" where
  "registry_open B show_e existing io seeds tunnel_address prefix_len =
     bind_r (case existing of
               Some loaded \<Rightarrow> loaded
             | None \<Rightarrow> Inr (map (\<lambda>seed. \<lparr>rec_name = sd_name seed, rec_platform = Linux,
                                  rec_public_key = encode_public_key B (sd_public_key seed),
                                  rec_address = sd_address seed\<rparr>) seeds)) (\<lambda>devices.
     bind_r (validate_devices B show_e devices tunnel_address prefix_len) (\<lambda>_.
     bind_r (build_leases B show_e 0 devices) (\<lambda>leases.
     let document = \<lparr>doc_version = REGISTRY_VERSION, doc_devices = devices\<rparr>;
         (persisted, file) =
           (if existing = None then persist_devices io devices None else (Inr (), Some document))
     in
     bind_r persisted (\<lambda>_.
       Inr \<lparr>dr_file = file, dr_tunnel_address = tunnel_address, dr_prefix_len = prefix_len,
            dr_devices = devices, dr_leases = leases,
            dr_flags = (\<lambda>f. f < length devices), dr_next_flag = length devices\<rparr>))))"

definition registry_authorize :: "DeviceRegistry \<Rightarrow> PublicKey \<Rightarrow> DeviceLease option" where
  "registry_authorize R public_key = dr_leases R public_key"

definition provision ::
  "base64_lib \<Rightarrow> (CryptoError \<Rightarrow> string) \<Rightarrow> string + unit \<Rightarrow> SnowError + bytes \<times> bytes \<Rightarrow>
   DeviceRegistry \<Rightarrow> rust_string \<Rightarrow> DevicePlatform \<Rightarrow>
   (RegistryStoreError + AdminProvisionedDevice) \<times> DeviceRegistry" where
  "provision B show_c io generated R raw_name platform =
     (let name = trim raw_name in
      case bind_r (validate_name name) (\<lambda>_.
           bind_r (map_err (\<lambda>e. RegistryStoreError (show_c e)) (KeyPair_generate generated)) (\<lambda>keys.
           bind_r (next_address (dr_devices R) (dr_tunnel_address R) (dr_prefix_len R)) (\<lambda>address.
           Inr (keys, address)))) of
        Inl e \<Rightarrow> (Inl e, R)
      | Inr (keys, address) \<Rightarrow>
          let new_record = \<lparr>rec_name = name, rec_platform = platform,
                            rec_public_key = encode_public_key B (kp_public keys), rec_address = address\<rparr>;
              devices = dr_devices R @ [new_record]
          in
          (case persist_devices io devices (dr_file R) of
             (Inl e, file) \<Rightarrow> (Inl e, R\<lparr>dr_file := file\<rparr>)
           | (Inr _, file) \<Rightarrow>
               (Inr \<lparr>apd_record = new_record, apd_private_key = kp_secret keys\<rparr>,
                R\<lparr>dr_file := file,
                  dr_devices := devices,
                  dr_leases := (dr_leases R)(kp_public keys \<mapsto>
                     \<lparr>dl_name = name, dl_address = address, dl_public_key = kp_public keys,
                      dl_authorization = dr_next_flag R\<rparr>),
                  dr_flags := (dr_flags R)(dr_next_flag R := True),
                  dr_next_flag := Suc (dr_next_flag R)\<rparr>)))"

definition revoke ::
  "base64_lib \<Rightarrow> (ConfigError \<Rightarrow> string) \<Rightarrow> string + unit \<Rightarrow> DeviceRegistry \<Rightarrow> string \<Rightarrow>
   (RegistryStoreError + bool) \<times> DeviceRegistry" where
  "revoke B show_e io R public_key =
     (case map_err (\<lambda>e. RegistryStoreError (show_e e)) (decode_public_key B public_key) of
        Inl e \<Rightarrow> (Inl e, R)
      | Inr decoded \<Rightarrow>
          let devices = filter (\<lambda>device. rec_public_key device \<noteq> public_key) (dr_devices R) in
          if length devices = length (dr_devices R) then (Inr False, R)
          else if devices = []
          then (Inl (RegistryStoreError ''at least one device must remain authorized''), R)
          else
            (case persist_devices io devices (dr_file R) of
               (Inl e, file) \<Rightarrow> (Inl e, R\<lparr>dr_file := file\<rparr>)
             | (Inr _, file) \<Rightarrow>
                 (Inr True,
                  R\<lparr>dr_file := file,
                    dr_devices := devices,
                    dr_leases := (dr_leases R)(decoded := None),
                    dr_flags := (case dr_leases R decoded of
                                   None \<Rightarrow> dr_flags R
                                 | Some lease \<Rightarrow> (dr_flags R)(dl_authorization lease := False))\<rparr>)))"

section \<open>Validation and allocation\<close>

definition key_of :: "base64_lib \<Rightarrow> DeviceRecord \<Rightarrow> PublicKey option" where
  "key_of B d = ok (decode_public_key B (rec_public_key d))"

lemma registry_prefix_mask_Inr:
  "registry_prefix_mask p = Inr m \<longleftrightarrow> 1 \<le> unat p \<and> unat p \<le> 30 \<and> m = prefix_mask (unat p)"
proof -
  have "p = 0 \<longleftrightarrow> unat p = 0" by (simp add: unat_eq_0)
  moreover have "p > 30 \<longleftrightarrow> unat p > 30" by (simp add: word_less_nat_alt)
  ultimately show ?thesis
    by (auto simp: registry_prefix_mask_def prefix_mask_def simp del: push_bit_minus_one)
qed

lemma validate_loop_Inr:
  "validate_loop B show_e tun (prefix_mask p) (ipv4_bits tun AND prefix_mask p) K A ds = Inr () \<longleftrightarrow>
     list_all (\<lambda>d. validate_name (rec_name d) = Inr () \<and> (\<exists>k. key_of B d = Some k \<and> k \<notin> K) \<and>
        rec_address d \<noteq> tun \<and> subnet_eq (rec_address d) tun p \<and> rec_address d \<notin> A) ds \<and>
     distinct (map (key_of B) ds) \<and> distinct (map rec_address ds)"
proof (induction ds arbitrary: K A)
  case Nil
  then show ?case by simp
next
  case (Cons d ds)
  have step: "validate_loop B show_e tun (prefix_mask p) (ipv4_bits tun AND prefix_mask p) K A (d # ds) = Inr () \<longleftrightarrow>
      validate_name (rec_name d) = Inr () \<and> (\<exists>k. key_of B d = Some k \<and> k \<notin> K \<and> rec_address d \<noteq> tun \<and>
      subnet_eq (rec_address d) tun p \<and> rec_address d \<notin> A \<and>
      validate_loop B show_e tun (prefix_mask p) (ipv4_bits tun AND prefix_mask p) (insert k K)
        (insert (rec_address d) A) ds = Inr ())"
    by (auto simp: result_simps key_of_def subnet_eq_def simp del: decode_public_key_Inr)
  show ?case unfolding step Cons.IH by (auto simp: list_all_iff image_iff) (metis option.inject)+
qed

lemma validate_devices_Inr:
  "validate_devices B show_e ds tun p = Inr () \<longleftrightarrow>
     ds \<noteq> [] \<and> 1 \<le> unat p \<and> unat p \<le> 30 \<and>
     list_all (\<lambda>d. validate_name (rec_name d) = Inr () \<and> key_of B d \<noteq> None \<and>
        rec_address d \<noteq> tun \<and> subnet_eq (rec_address d) tun (unat p)) ds \<and>
     distinct (map (key_of B) ds) \<and> distinct (map rec_address ds)"
  by (auto simp: validate_devices_def Let_def bind_r_eq_Inr registry_prefix_mask_Inr validate_loop_Inr
      list_all_iff)

text \<open>The addresses the allocator considers: strictly between network and \<open>upper\<close>.\<close>

lemma prefix_mask_low: "1 \<le> p \<Longrightarrow> p \<le> 30 \<Longrightarrow> (t AND prefix_mask p) \<noteq> - 1"
proof
  assume p: "1 \<le> p" "p \<le> 30" and "t AND prefix_mask p = - 1"
  then have "bit (t AND prefix_mask p) 0" by simp
  with p show False by (simp add: bit_and_iff bit_prefix_mask)
qed

lemma find_SomeD: "List.find P xs = Some x \<Longrightarrow> x \<in> set xs \<and> P x"
  by (auto simp: find_Some_iff)

lemma candidates_in_subnet:
  assumes p: "1 \<le> p" "p \<le> 30" and n: "n = t AND prefix_mask p"
    and u: "u = min (n OR NOT (prefix_mask p)) (saturating_add n 65535)"
    and x: "x \<in> set [unat (n + 1) ..< unat u]"
  shows "n < of_nat x \<and> of_nat x < u \<and> of_nat x AND prefix_mask p = n"
proof -
  have "unat (n + 1) = unat n + 1" using prefix_mask_low [OF p] unat_succ n by blast
  then have "unat n < x" and hi: "x < unat u" using x by auto
  then have lt: "n < of_nat x" "of_nat x < u"
    using unat_bound [of u] by (simp_all add: word_less_nat_alt unat_of_nat)
  then have "of_nat x \<le> n OR NOT (prefix_mask p)" using u by (simp add: order_less_imp_le)
  with lt show ?thesis
    using between_network_and_broadcast [of p t "of_nat x"] p n by auto
qed

lemma next_address_Inr:
  assumes "next_address ds tun p = Inr a"
  shows "a \<notin> rec_address ` set ds \<and> a \<noteq> tun \<and> subnet_eq a tun (unat p) \<and>
    ipv4_bits tun AND prefix_mask (unat p) < ipv4_bits a \<and>
    ipv4_bits a < (ipv4_bits tun AND prefix_mask (unat p)) OR NOT (prefix_mask (unat p))"
proof -
  let ?n = "ipv4_bits tun AND prefix_mask (unat p)"
  let ?u = "min (?n OR NOT (prefix_mask (unat p))) (saturating_add ?n 65535)"
  from assms have p: "1 \<le> unat p" "unat p \<le> 30"
    and f: "List.find (\<lambda>c. c \<noteq> tun \<and> c \<notin> rec_address ` set ds)
      (map (\<lambda>n. ipv4_of_bits (of_nat n)) [unat (?n + 1) ..< unat ?u]) = Some a"
    by (auto simp: next_address_def Let_def bind_r_eq_Inr ok_or_eq_Inr registry_prefix_mask_Inr)
  from find_SomeD [OF f] obtain x where x: "x \<in> set [unat (?n + 1) ..< unat ?u]" "a = ipv4_of_bits (of_nat x)"
    and fresh: "a \<noteq> tun" "a \<notin> rec_address ` set ds"
    by auto
  from candidates_in_subnet [OF p refl refl x(1)] x(2) fresh show ?thesis by (auto simp: subnet_eq_def)
qed

lemma next_address_Inl:
  assumes "next_address ds tun p = Inl e" "1 \<le> unat p" "unat p \<le> 30"
    and "ipv4_bits tun AND prefix_mask (unat p) < ipv4_bits a"
      "ipv4_bits a < (ipv4_bits tun AND prefix_mask (unat p)) OR NOT (prefix_mask (unat p))"
      "unat (ipv4_bits a) < unat (ipv4_bits tun AND prefix_mask (unat p)) + 65535"
  shows "a = tun \<or> a \<in> rec_address ` set ds"
proof -
  let ?n = "ipv4_bits tun AND prefix_mask (unat p)"
  let ?u = "min (?n OR NOT (prefix_mask (unat p))) (saturating_add ?n 65535)"
  have "registry_prefix_mask p = Inr (prefix_mask (unat p))"
    using assms(2,3) by (simp add: registry_prefix_mask_Inr)
  with assms(1) have none: "List.find (\<lambda>c. c \<noteq> tun \<and> c \<notin> rec_address ` set ds)
      (map (\<lambda>n. ipv4_of_bits (of_nat n)) [unat (?n + 1) ..< unat ?u]) = None"
    by (auto simp: next_address_def Let_def ok_or_def split: option.splits)
  have "unat (?n + 1) = unat ?n + 1" using prefix_mask_low [OF assms(2,3)] unat_succ by blast
  then have lo: "unat (?n + 1) \<le> unat (ipv4_bits a)" using assms(4) by (simp add: word_less_nat_alt)
  have "unat (ipv4_bits a) < 2 ^ 32 - 1"
    using assms(5) unat_bound [of "?n OR NOT (prefix_mask (unat p))"] unfolding word_less_nat_alt by simp
  then have "ipv4_bits a < saturating_add ?n 65535"
    using assms(6) by (simp add: word_less_nat_alt unat_saturating_add)
  then have "ipv4_bits a < ?u" using assms(5) by simp
  with lo have "unat (ipv4_bits a) \<in> set [unat (?n + 1) ..< unat ?u]" by (simp add: word_less_nat_alt)
  then have "a \<in> set (map (\<lambda>n. ipv4_of_bits (of_nat n)) [unat (?n + 1) ..< unat ?u])"
    by (force simp del: set_upt)
  with none show ?thesis unfolding find_None_iff by blast
qed

section \<open>Invariant\<close>

text \<open>URL-safe Base64 without padding is canonical: texts and byte strings correspond one to one.\<close>

definition base64_ok :: "base64_lib \<Rightarrow> bool" where
  "base64_ok B \<longleftrightarrow> (\<forall>bs. b64_decode B (b64_encode B bs) = Some bs) \<and>
     (\<forall>s bs. b64_decode B s = Some bs \<longrightarrow> b64_encode B bs = s)"

lemma key_of_encoded:
  "base64_ok B \<Longrightarrow> length (pk_bytes k) = KEY_LEN \<Longrightarrow> rec_public_key d = encode_public_key B k \<Longrightarrow> key_of B d = Some k"
  by (simp add: key_of_def base64_ok_def ok_eq_Some result_simps encode_public_key_def)

lemma key_of_text:
  assumes "base64_ok B" "decode_public_key B text = Inr k"
  shows "key_of B d = Some k \<longleftrightarrow> rec_public_key d = text"
  using assms unfolding key_of_def base64_ok_def ok_eq_Some decode_public_key_Inr by metis

text \<open>The leases are those of the records, with pairwise different flags from a range.\<close>

definition leases_match :: "base64_lib \<Rightarrow> DeviceRecord list \<Rightarrow> (PublicKey \<rightharpoonup> DeviceLease) \<Rightarrow> flag \<Rightarrow> flag \<Rightarrow> bool" where
  "leases_match B ds m lo hi \<longleftrightarrow>
     (\<forall>k l. m k = Some l \<longrightarrow> lo \<le> dl_authorization l \<and> dl_authorization l < hi \<and> dl_public_key l = k \<and>
        (\<exists>d\<in>set ds. key_of B d = Some k \<and> rec_name d = dl_name l \<and> rec_address d = dl_address l)) \<and>
     (\<forall>d\<in>set ds. \<forall>k. key_of B d = Some k \<longrightarrow> m k \<noteq> None) \<and>
     (\<forall>k k' l l'. m k = Some l \<and> m k' = Some l' \<and> dl_authorization l = dl_authorization l' \<longrightarrow> k = k')"

lemma build_leases_match:
  "build_leases B show_e f ds = Inr m \<Longrightarrow> distinct (map (key_of B) ds) \<Longrightarrow>
   leases_match B ds m f (f + length ds)"
proof (induction ds arbitrary: f m)
  case Nil
  then show ?case by (auto simp: leases_match_def)
next
  case (Cons d ds)
  let ?l = "\<lambda>k. \<lparr>dl_name = rec_name d, dl_address = rec_address d, dl_public_key = k, dl_authorization = f\<rparr>"
  obtain k rest where k: "key_of B d = Some k" and rest: "build_leases B show_e (Suc f) ds = Inr rest"
    and m: "m = [k \<mapsto> ?l k] ++ rest"
    using Cons.prems(1) by (auto simp: bind_r_eq_Inr map_err_eq_Inr key_of_def ok_eq_Some)
  have match: "leases_match B ds rest (Suc f) (Suc f + length ds)"
    using Cons.IH [OF rest] Cons.prems(2) by simp
  have "rest k = None"
  proof (rule ccontr)
    assume "rest k \<noteq> None"
    then obtain l where "rest k = Some l" by blast
    then obtain d' where "d' \<in> set ds" "key_of B d' = Some k"
      using match unfolding leases_match_def by blast
    with k Cons.prems(2) show False by force
  qed
  then have get: "m k' = (if k' = k then Some (?l k) else rest k')" for k'
    unfolding m by (cases "rest k'") (auto simp: map_add_def)
  have old: "Suc f \<le> dl_authorization l" "dl_authorization l < Suc f + length ds" "dl_public_key l = k'"
    "\<exists>d\<in>set ds. key_of B d = Some k' \<and> rec_name d = dl_name l \<and> rec_address d = dl_address l"
    if "rest k' = Some l" for k' l
    using match that unfolding leases_match_def by blast+
  have present: "rest k' \<noteq> None" if "d' \<in> set ds" "key_of B d' = Some k'" for d' k'
    using match that unfolding leases_match_def by blast
  have apart: "k1 = k2" if "rest k1 = Some l1" "rest k2 = Some l2" "dl_authorization l1 = dl_authorization l2"
    for k1 k2 l1 l2
    using match that unfolding leases_match_def by blast
  show ?case
    unfolding leases_match_def
  proof (intro conjI allI ballI impI)
    fix k' l
    assume m_k': "m k' = Some l"
    have "f \<le> dl_authorization l \<and> dl_authorization l < f + length (d # ds) \<and> dl_public_key l = k' \<and>
      (\<exists>d\<in>set (d # ds). key_of B d = Some k' \<and> rec_name d = dl_name l \<and> rec_address d = dl_address l)"
    proof (cases "k' = k")
      case True
      then have "l = ?l k" using m_k' unfolding get by simp
      with True k show ?thesis by simp
    next
      case False
      then have "rest k' = Some l" using m_k' unfolding get by simp
      from old [OF this] show ?thesis by auto
    qed
    then show "f \<le> dl_authorization l" "dl_authorization l < f + length (d # ds)" "dl_public_key l = k'"
      "\<exists>d\<in>set (d # ds). key_of B d = Some k' \<and> rec_name d = dl_name l \<and> rec_address d = dl_address l"
      by blast+
  next
    fix d' k'
    assume "d' \<in> set (d # ds)" "key_of B d' = Some k'"
    then show "m k' \<noteq> None" using k present [of d' k'] by (auto simp: get)
  next
    fix k1 k2 l1 l2
    assume "m k1 = Some l1 \<and> m k2 = Some l2 \<and> dl_authorization l1 = dl_authorization l2"
    then show "k1 = k2"
      using apart [of k1 l1 k2 l2] old(1) [of k1 l1] old(1) [of k2 l2] by (auto simp: get split: if_splits)
  qed
qed

definition registry_inv :: "base64_lib \<Rightarrow> (ConfigError \<Rightarrow> string) \<Rightarrow> DeviceRegistry \<Rightarrow> bool" where
  "registry_inv B show_e R \<longleftrightarrow>
     validate_devices B show_e (dr_devices R) (dr_tunnel_address R) (dr_prefix_len R) = Inr () \<and>
     dr_file R = Some \<lparr>doc_version = REGISTRY_VERSION, doc_devices = dr_devices R\<rparr> \<and>
     leases_match B (dr_devices R) (dr_leases R) 0 (dr_next_flag R) \<and>
     (\<forall>k l. dr_leases R k = Some l \<longrightarrow> dr_flags R (dl_authorization l))"

lemma registry_open_inv:
  assumes "registry_open B show_e existing io seeds tun p = Inr R"
  shows "registry_inv B show_e R"
proof -
  from assms obtain ds m where ds: "validate_devices B show_e ds tun p = Inr ()"
    and m: "build_leases B show_e 0 ds = Inr m"
    and R: "dr_devices R = ds" "dr_leases R = m" "dr_next_flag R = length ds" "dr_tunnel_address R = tun"
      "dr_prefix_len R = p" "dr_flags R = (\<lambda>f. f < length ds)"
      "dr_file R = Some \<lparr>doc_version = REGISTRY_VERSION, doc_devices = ds\<rparr>"
    by (auto simp: registry_open_def Let_def bind_r_eq_Inr persist_devices_def split: sum.splits if_splits)
  then have "leases_match B ds m 0 (length ds)"
    using build_leases_match [OF m] by (simp add: validate_devices_Inr)
  with ds R show ?thesis by (auto simp: registry_inv_def leases_match_def)
qed

text \<open>A successful provisioning, step by step.\<close>

lemma provision_Inr:
  assumes "fst (provision B show_c io g R name platform) = Inr d"
  obtains keys address where "validate_name (trim name) = Inr ()" "KeyPair_generate g = Inr keys"
    "next_address (dr_devices R) (dr_tunnel_address R) (dr_prefix_len R) = Inr address"
    "d = \<lparr>apd_record = \<lparr>rec_name = trim name, rec_platform = platform,
            rec_public_key = encode_public_key B (kp_public keys), rec_address = address\<rparr>,
          apd_private_key = kp_secret keys\<rparr>"
    "snd (provision B show_c io g R name platform) =
      R\<lparr>dr_file := Some \<lparr>doc_version = REGISTRY_VERSION, doc_devices = dr_devices R @ [apd_record d]\<rparr>,
        dr_devices := dr_devices R @ [apd_record d],
        dr_leases := (dr_leases R)(kp_public keys \<mapsto>
          \<lparr>dl_name = trim name, dl_address = address, dl_public_key = kp_public keys,
           dl_authorization = dr_next_flag R\<rparr>),
        dr_flags := (dr_flags R)(dr_next_flag R := True),
        dr_next_flag := Suc (dr_next_flag R)\<rparr>"
proof -
  obtain keys address where "validate_name (trim name) = Inr ()" "KeyPair_generate g = Inr keys"
    "next_address (dr_devices R) (dr_tunnel_address R) (dr_prefix_len R) = Inr address" "io = Inr ()"
    using assms by (auto simp: provision_def Let_def persist_devices_def bind_r_eq_Inr map_err_eq_Inr
        split: sum.splits)
  with that [of keys address] assms show ?thesis
    by (auto simp: provision_def Let_def persist_devices_def)
qed

lemma provision_Inl: "fst (provision B show_c io g R name platform) = Inl e \<Longrightarrow>
   snd (provision B show_c io g R name platform) = R"
  by (auto simp: provision_def Let_def persist_devices_def split: sum.splits)

lemma provision_inv:
  assumes B: "base64_ok B" and inv: "registry_inv B show_e R"
    and fresh: "\<And>kp. KeyPair_generate g = Inr kp \<Longrightarrow> dr_leases R (kp_public kp) = None"
  shows "registry_inv B show_e (snd (provision B show_c io g R name platform))"
proof (cases "fst (provision B show_c io g R name platform)")
  case (Inl e)
  with inv show ?thesis by (simp add: provision_Inl)
next
  case (Inr d)
  from provision_Inr [OF Inr] obtain keys a where name: "validate_name (trim name) = Inr ()"
    and keys: "KeyPair_generate g = Inr keys"
    and a: "next_address (dr_devices R) (dr_tunnel_address R) (dr_prefix_len R) = Inr a"
    and d: "d = \<lparr>apd_record = \<lparr>rec_name = trim name, rec_platform = platform,
            rec_public_key = encode_public_key B (kp_public keys), rec_address = a\<rparr>,
          apd_private_key = kp_secret keys\<rparr>"
    and R': "snd (provision B show_c io g R name platform) =
      R\<lparr>dr_file := Some \<lparr>doc_version = REGISTRY_VERSION, doc_devices = dr_devices R @ [apd_record d]\<rparr>,
        dr_devices := dr_devices R @ [apd_record d],
        dr_leases := (dr_leases R)(kp_public keys \<mapsto>
          \<lparr>dl_name = trim name, dl_address = a, dl_public_key = kp_public keys,
           dl_authorization = dr_next_flag R\<rparr>),
        dr_flags := (dr_flags R)(dr_next_flag R := True),
        dr_next_flag := Suc (dr_next_flag R)\<rparr>" .
  have key: "key_of B (apd_record d) = Some (kp_public keys)"
    using key_of_encoded [OF B] KeyPair_generate_length [OF keys] by (simp add: d)
  have new: "dr_leases R (kp_public keys) = None" by (rule fresh [OF keys])
  then have "Some (kp_public keys) \<notin> key_of B ` set (dr_devices R)"
    using inv unfolding registry_inv_def leases_match_def by (metis imageE)
  then have "validate_devices B show_e (dr_devices R @ [apd_record d]) (dr_tunnel_address R) (dr_prefix_len R) = Inr ()"
    using inv next_address_Inr [OF a] name key
    by (auto simp: registry_inv_def validate_devices_Inr d)
  moreover have "leases_match B (dr_devices R @ [apd_record d]) ((dr_leases R)(kp_public keys \<mapsto>
          \<lparr>dl_name = trim name, dl_address = a, dl_public_key = kp_public keys,
           dl_authorization = dr_next_flag R\<rparr>)) 0 (Suc (dr_next_flag R))"
    using inv key new unfolding registry_inv_def leases_match_def
    by (auto simp: d less_Suc_eq split: if_splits) (metis less_irrefl)+
  moreover have "dl_authorization l \<noteq> dr_next_flag R" if "dr_leases R k = Some l" for k l
    using inv that unfolding registry_inv_def leases_match_def by fastforce
  ultimately show ?thesis using inv by (auto simp: registry_inv_def R')
qed

abbreviation revoked_state :: "DeviceRegistry \<Rightarrow> string \<Rightarrow> PublicKey \<Rightarrow> DeviceRegistry" where
  "revoked_state R key_text k \<equiv>
     R\<lparr>dr_file := Some \<lparr>doc_version = REGISTRY_VERSION,
                        doc_devices = filter (\<lambda>d. rec_public_key d \<noteq> key_text) (dr_devices R)\<rparr>,
       dr_devices := filter (\<lambda>d. rec_public_key d \<noteq> key_text) (dr_devices R),
       dr_leases := (dr_leases R)(k := None),
       dr_flags := (case dr_leases R k of None \<Rightarrow> dr_flags R
                    | Some lease \<Rightarrow> (dr_flags R)(dl_authorization lease := False))\<rparr>"

lemma revoke_True:
  assumes "fst (revoke B show_e io R text) = Inr True"
  obtains k where "decode_public_key B text = Inr k"
    "text \<in> rec_public_key ` set (dr_devices R)"
    "filter (\<lambda>d. rec_public_key d \<noteq> text) (dr_devices R) \<noteq> []"
    "snd (revoke B show_e io R text) =
      revoked_state R text k"
proof -
  have "length (filter (\<lambda>d. rec_public_key d \<noteq> text) ds) = length ds \<longleftrightarrow> text \<notin> rec_public_key ` set ds" for ds
    by (metis (mono_tags, lifting) filter_True image_iff length_filter_less less_irrefl)
  with assms that show ?thesis
    by (auto simp: revoke_def Let_def persist_devices_def map_err_eq_Inr split: sum.splits if_splits)
qed

lemma revoke_not_True: "fst (revoke B show_e io R text) \<noteq> Inr True \<Longrightarrow> snd (revoke B show_e io R text) = R"
  by (auto simp: revoke_def Let_def persist_devices_def split: sum.splits if_splits)

lemma revoke_inv:
  assumes B: "base64_ok B" and inv: "registry_inv B show_e R"
  shows "registry_inv B show_e (snd (revoke B show_e io R text))"
proof (cases "fst (revoke B show_e io R text) = Inr True")
  case False
  with inv show ?thesis by (simp add: revoke_not_True)
next
  case True
  let ?ds = "filter (\<lambda>d. rec_public_key d \<noteq> text) (dr_devices R)"
  from revoke_True [OF True] obtain k where k: "decode_public_key B text = Inr k" and ne: "?ds \<noteq> []"
    and R': "snd (revoke B show_e io R text) = revoked_state R text k" .
  note same = key_of_text [OF B k]
  have "validate_devices B show_e ?ds (dr_tunnel_address R) (dr_prefix_len R) = Inr ()"
    using inv ne by (auto simp: registry_inv_def validate_devices_Inr list_all_iff distinct_map_filter)
  moreover have "leases_match B ?ds ((dr_leases R)(k := None)) 0 (dr_next_flag R)"
  proof -
    have "set ?ds = {d \<in> set (dr_devices R). key_of B d \<noteq> Some k}" using same by auto
    moreover have "leases_match B (dr_devices R) (dr_leases R) 0 (dr_next_flag R)"
      using inv by (simp add: registry_inv_def)
    ultimately show ?thesis unfolding leases_match_def
      by (intro conjI) (auto split: if_splits, fastforce+)
  qed
  moreover have "dl_authorization l \<noteq> dl_authorization l'"
    if "dr_leases R k = Some l" "dr_leases R k' = Some l'" "k' \<noteq> k" for l l' k'
    using inv that unfolding registry_inv_def leases_match_def by metis
  ultimately show ?thesis
    using inv by (auto simp: registry_inv_def R' split: option.splits) metis
qed

section \<open>Runs of the registry\<close>

text \<open>The key generator returns keys that are not registered.\<close>

inductive registry_step :: "base64_lib \<Rightarrow> (ConfigError \<Rightarrow> string) \<Rightarrow> DeviceRegistry \<Rightarrow> DeviceRegistry \<Rightarrow> bool"
  for B show_e where
  provisioning: "(\<And>kp. KeyPair_generate g = Inr kp \<Longrightarrow> dr_leases R (kp_public kp) = None) \<Longrightarrow>
     registry_step B show_e R (snd (provision B show_c io g R name platform))"
| revoking: "registry_step B show_e R (snd (revoke B show_e io R key_text))"

inductive registry_reach :: "base64_lib \<Rightarrow> (ConfigError \<Rightarrow> string) \<Rightarrow> DeviceRegistry \<Rightarrow> bool"
  for B show_e where
  opened: "registry_open B show_e existing io seeds tun p = Inr R \<Longrightarrow> registry_reach B show_e R"
| stepped: "registry_reach B show_e R \<Longrightarrow> registry_step B show_e R R' \<Longrightarrow> registry_reach B show_e R'"

lemma registry_step_inv:
  "registry_step B show_e R R' \<Longrightarrow> base64_ok B \<Longrightarrow> registry_inv B show_e R \<Longrightarrow> registry_inv B show_e R'"
  by (induction rule: registry_step.induct) (auto intro: provision_inv revoke_inv)

lemma registry_reach_inv: "registry_reach B show_e R \<Longrightarrow> base64_ok B \<Longrightarrow> registry_inv B show_e R"
  by (induction rule: registry_reach.induct) (auto intro: registry_open_inv registry_step_inv)

text \<open>Flags are set once, when they are allocated, and only ever cleared.\<close>

lemma registry_step_flags:
  assumes "registry_step B show_e R R'"
  shows "dr_next_flag R \<le> dr_next_flag R' \<and> (f < dr_next_flag R \<longrightarrow> dr_flags R' f \<longrightarrow> dr_flags R f)"
  using assms
proof cases
  case (provisioning g show_c io name platform)
  show ?thesis
  proof (cases "fst (provision B show_c io g R name platform)")
    case (Inl e)
    with provisioning provision_Inl show ?thesis by simp
  next
    case (Inr d)
    show ?thesis unfolding provisioning by (rule provision_Inr [OF Inr]) simp
  qed
next
  case (revoking io key_text)
  show ?thesis
  proof (cases "fst (revoke B show_e io R key_text) = Inr True")
    case True
    show ?thesis unfolding revoking by (rule revoke_True [OF True]) (simp split: option.splits)
  next
    case False
    with revoking revoke_not_True show ?thesis by simp
  qed
qed

lemma registry_steps_flags:
  assumes "(registry_step B show_e)\<^sup>*\<^sup>* R R'" "f < dr_next_flag R" "\<not> dr_flags R f"
  shows "f < dr_next_flag R' \<and> \<not> dr_flags R' f"
  using assms
proof (induction rule: rtranclp_induct)
  case base
  then show ?case by simp
next
  case (step R1 R2)
  then show ?case using registry_step_flags [OF step(2), of f] by auto
qed

section \<open>Properties\<close>

text \<open>
  Address allocation is sound and complete. An allocated address lies strictly between the network
  and the broadcast address of the tunnel's subnet, is not the tunnel's own and not in use; and when
  allocation fails, every such address among the first 65534 of the subnet is the tunnel's or in use.
\<close>

lemma next_address_exact:
  assumes "1 \<le> unat p" "unat p \<le> 30"
  shows "case next_address ds tun p of
      Inr a \<Rightarrow> a \<notin> rec_address ` set ds \<and> a \<noteq> tun \<and> subnet_eq a tun (unat p) \<and>
        ipv4_bits tun AND prefix_mask (unat p) < ipv4_bits a \<and>
        ipv4_bits a < (ipv4_bits tun AND prefix_mask (unat p)) OR NOT (prefix_mask (unat p))
    | Inl _ \<Rightarrow> (\<forall>a. ipv4_bits tun AND prefix_mask (unat p) < ipv4_bits a \<and>
        ipv4_bits a < (ipv4_bits tun AND prefix_mask (unat p)) OR NOT (prefix_mask (unat p)) \<and>
        unat (ipv4_bits a) < unat (ipv4_bits tun AND prefix_mask (unat p)) + 65535 \<longrightarrow>
        a = tun \<or> a \<in> rec_address ` set ds)"
  using next_address_Inr [of ds tun p] next_address_Inl [OF _ assms]
  by (cases "next_address ds tun p") auto

text \<open>
  C14. The registry, its file and its leases agree. In every state reached by opening, provisioning with
  new keys and revoking, whatever the file system answers, the file holds the registered devices, these
  have distinct keys and distinct addresses inside the tunnel's subnet, and a key is authorized exactly
  when a record carries it, with an active flag and the record's name and address.
\<close>

theorem registry_is_consistent:
  assumes "base64_ok B" "registry_reach B show_e R"
  shows "dr_file R = Some \<lparr>doc_version = REGISTRY_VERSION, doc_devices = dr_devices R\<rparr> \<and>
    dr_devices R \<noteq> [] \<and> distinct (map (key_of B) (dr_devices R)) \<and> distinct (map rec_address (dr_devices R)) \<and>
    list_all (\<lambda>d. rec_address d \<noteq> dr_tunnel_address R \<and>
       subnet_eq (rec_address d) (dr_tunnel_address R) (unat (dr_prefix_len R))) (dr_devices R) \<and>
    (registry_authorize R k = None \<longleftrightarrow> \<not> list_ex (\<lambda>d. key_of B d = Some k) (dr_devices R)) \<and>
    (registry_authorize R k = Some l \<longrightarrow> is_active R (dl_authorization l) \<and> dl_public_key l = k \<and>
       (\<exists>d\<in>set (dr_devices R). key_of B d = Some k \<and> rec_name d = dl_name l \<and> rec_address d = dl_address l))"
proof -
  have inv: "registry_inv B show_e R" using registry_reach_inv assms by blast
  then have m: "leases_match B (dr_devices R) (dr_leases R) 0 (dr_next_flag R)"
    and v: "validate_devices B show_e (dr_devices R) (dr_tunnel_address R) (dr_prefix_len R) = Inr ()"
    by (simp_all add: registry_inv_def)
  have "registry_authorize R k = None \<longleftrightarrow> \<not> list_ex (\<lambda>d. key_of B d = Some k) (dr_devices R)"
    using m unfolding leases_match_def registry_authorize_def list_ex_iff
    by (metis not_None_eq)
  moreover have "is_active R (dl_authorization l) \<and> dl_public_key l = k \<and>
      (\<exists>d\<in>set (dr_devices R). key_of B d = Some k \<and> rec_name d = dl_name l \<and> rec_address d = dl_address l)"
    if "registry_authorize R k = Some l"
  proof -
    from that have l: "dr_leases R k = Some l" by (simp add: registry_authorize_def)
    then have "is_active R (dl_authorization l)" using inv by (simp add: registry_inv_def is_active_def)
    with l m show ?thesis unfolding leases_match_def by blast
  qed
  ultimately show ?thesis using inv v by (auto simp: registry_inv_def validate_devices_Inr list_all_iff)
qed

text \<open>A text form for bytes, and a registry seeded with two devices.\<close>

definition char_base64 :: base64_lib where
  "char_base64 = \<lparr>b64_decode = (\<lambda>s. Some (map (\<lambda>c. of_nat (of_char c)) s)),
                  b64_encode = map (\<lambda>b. char_of (unat b))\<rparr>"

lemma char_base64_ok: "base64_ok char_base64"
proof -
  have "of_nat (of_char (char_of (unat b) :: char) :: nat) = b" for b :: u8
    using unat_byte_lt [of b] by (simp add: unat_byte_lt)
  moreover have "(char_of (unat (of_nat (of_char c :: nat) :: u8)) :: char) = c" for c
    by (simp add: unat_of_nat)
  ultimately show ?thesis by (auto simp: base64_ok_def char_base64_def comp_def)
qed

definition seed_record :: "u8 \<Rightarrow> DeviceRecord" where
  "seed_record n = \<lparr>rec_name = [0x61], rec_platform = Linux,
     rec_public_key = encode_public_key char_base64 (PublicKey (replicate 32 n)),
     rec_address = Ipv4Addr 10 0 0 n\<rparr>"

definition seed_lease :: "u8 \<Rightarrow> flag \<Rightarrow> DeviceLease" where
  "seed_lease n f = \<lparr>dl_name = [0x61], dl_address = Ipv4Addr 10 0 0 n,
     dl_public_key = PublicKey (replicate 32 n), dl_authorization = f\<rparr>"

definition sample_registry :: DeviceRegistry where
  "sample_registry =
     \<lparr>dr_file = Some \<lparr>doc_version = REGISTRY_VERSION, doc_devices = [seed_record 2, seed_record 3]\<rparr>,
      dr_tunnel_address = Ipv4Addr 10 0 0 1, dr_prefix_len = 24,
      dr_devices = [seed_record 2, seed_record 3],
      dr_leases = [PublicKey (replicate 32 2) \<mapsto> seed_lease 2 0] ++ ([PublicKey (replicate 32 3) \<mapsto> seed_lease 3 1] ++ Map.empty),
      dr_flags = (\<lambda>f. f < 2), dr_next_flag = 2\<rparr>"

lemma seed_record_key: "decode_public_key char_base64 (rec_public_key (seed_record n)) = Inr (PublicKey (replicate 32 n))"
  using char_base64_ok
  by (simp add: seed_record_def decode_public_key_Inr encode_public_key_def base64_ok_def KEY_LEN_def)

lemma seed_record_fields: "rec_name (seed_record n) = [0x61]" "rec_address (seed_record n) = Ipv4Addr 10 0 0 n"
  by (simp_all add: seed_record_def)

lemma sample_registry_reach: "registry_reach char_base64 show_e sample_registry"
proof (rule opened)
  let ?seed = "\<lambda>n. \<lparr>sd_name = [0x61], sd_public_key = PublicKey (replicate 32 n), sd_address = Ipv4Addr 10 0 0 n\<rparr>"
  have key: "key_of char_base64 (seed_record n) = Some (PublicKey (replicate 32 n))" for n
    by (simp add: key_of_def seed_record_key)
  have v: "validate_devices char_base64 show_e [seed_record 2, seed_record 3] (Ipv4Addr 10 0 0 1) 24 = Inr ()"
    by (simp add: validate_devices_Inr key replicate_eq_replicate)
      (simp add: seed_record_def validate_name_def str_len_def utf8_len_def MAX_DEVICE_NAME_LEN_def is_control_def
        subnet_eq_def ipv4_bits_def from_be_def be_value_def prefix_mask_def mask_eq_exp_minus_1)
  have "map (\<lambda>seed. \<lparr>rec_name = sd_name seed, rec_platform = Linux,
        rec_public_key = encode_public_key char_base64 (sd_public_key seed), rec_address = sd_address seed\<rparr>)
      [?seed 2, ?seed 3] = [seed_record 2, seed_record 3]"
    by (simp add: seed_record_def)
  moreover have "build_leases char_base64 show_e 0 [seed_record 2, seed_record 3] = Inr (dr_leases sample_registry)"
    by (simp add: seed_record_key seed_record_fields sample_registry_def seed_lease_def)
  ultimately show "registry_open char_base64 show_e None (Inr ()) [?seed 2, ?seed 3] (Ipv4Addr 10 0 0 1) 24 =
      Inr sample_registry"
    using v unfolding registry_open_def
    by (simp only: option.case bind_r_simps persist_devices_def sum.case Let_def split_beta fst_conv snd_conv
        refl if_True) (simp add: sample_registry_def numeral_2_eq_2)
qed

theorem registry_is_consistent_witness:
  "distinct (map (key_of char_base64) (dr_devices sample_registry)) \<and>
   registry_authorize sample_registry (PublicKey (replicate 32 4)) = None"
proof -
  have "registry_authorize sample_registry (PublicKey (replicate 32 4)) = None \<longleftrightarrow>
      \<not> list_ex (\<lambda>d. key_of char_base64 d = Some (PublicKey (replicate 32 4))) (dr_devices sample_registry)"
    "distinct (map (key_of char_base64) (dr_devices sample_registry))"
    using registry_is_consistent [OF char_base64_ok sample_registry_reach] by blast+
  then show ?thesis
    by (simp add: sample_registry_def key_of_def seed_record_key replicate_eq_replicate)
qed

text \<open>
  C15. Revocation is final. When revoking a key text succeeds, the key had a lease; it is no longer
  authorized; the flag of that lease, which every session of the device holds, is inactive from then on
  in every later state, whatever is provisioned or revoked; and the leases of other keys stay as they
  were.
\<close>

theorem revocation_is_final:
  assumes "base64_ok B" "registry_reach B show_e R"
    and "revoke B show_e io R key_text = (Inr True, R')" "decode_public_key B key_text = Inr k"
    and "(registry_step B show_e)\<^sup>*\<^sup>* R' R''"
  shows "(\<exists>l. registry_authorize R k = Some l \<and> \<not> is_active R'' (dl_authorization l)) \<and>
    registry_authorize R' k = None \<and>
    (k' \<noteq> k \<longrightarrow> registry_authorize R' k' = registry_authorize R k')"
proof -
  have inv: "registry_inv B show_e R" using registry_reach_inv assms by blast
  have "fst (revoke B show_e io R key_text) = Inr True" using assms(3) by simp
  from revoke_True [OF this] obtain k0 where "decode_public_key B key_text = Inr k0"
    and listed: "key_text \<in> rec_public_key ` set (dr_devices R)"
    and "snd (revoke B show_e io R key_text) = revoked_state R key_text k0" .
  with assms(3,4) have R': "R' = revoked_state R key_text k" by simp
  from listed obtain l where l: "dr_leases R k = Some l" "dl_authorization l < dr_next_flag R"
    using inv key_of_text [OF assms(1,4)] unfolding registry_inv_def leases_match_def by (metis imageE not_None_eq)
  then have "\<not> dr_flags R' (dl_authorization l)" "dl_authorization l < dr_next_flag R'" by (simp_all add: R')
  from registry_steps_flags [OF assms(5) this(2,1)] l show ?thesis
    by (auto simp: registry_authorize_def is_active_def R')
qed

theorem revocation_is_final_witness:
  "\<exists>R'. revoke char_base64 (\<lambda>_. []) (Inr ()) sample_registry (rec_public_key (seed_record 3)) = (Inr True, R') \<and>
     registry_authorize R' (PublicKey (replicate 32 3)) = None \<and>
     (\<exists>l. registry_authorize sample_registry (PublicKey (replicate 32 3)) = Some l \<and>
          \<not> is_active R' (dl_authorization l))"
proof -
  let ?text = "rec_public_key (seed_record 3)"
  have "rec_public_key (seed_record 2) \<noteq> ?text"
    using seed_record_key [of 2] seed_record_key [of 3] by (auto simp: replicate_eq_replicate)
  then have "fst (revoke char_base64 (\<lambda>_. []) (Inr ()) sample_registry ?text) = Inr True"
    by (simp add: revoke_def seed_record_key persist_devices_def sample_registry_def Let_def)
  then obtain R' where R': "revoke char_base64 (\<lambda>_. []) (Inr ()) sample_registry ?text = (Inr True, R')"
    by (metis prod.collapse)
  from revocation_is_final [OF char_base64_ok sample_registry_reach R' seed_record_key rtranclp.rtrancl_refl]
  show ?thesis using R' by blast
qed

end
