(* ===== verification/Traffic.thy ===== *)
theory Traffic
  imports RustText "HOL-Library.Multiset"
begin

text \<open>
  Traffic accounting of the crate \<^verbatim>\<open>admin-api\<close> (\<^verbatim>\<open>traffic.rs\<close>): atomic per-device counters, their
  periodic move into the hourly table, the import of the legacy file and the report. The counters are
  shared by handle (an \<^verbatim>\<open>Arc\<close>), so the store holds them in cells. The table holds SQL integers: a sum
  that leaves the range of \<^verbatim>\<open>i64\<close> stays in the table and makes the next read of its row fail. Each
  transaction takes its outcome as an argument: it either fails and leaves the table as it was, or
  has the effect of its statements. Poisoned locks are not modelled.
\<close>

section \<open>Counters\<close>

definition TRAFFIC_VERSION :: u8 where "TRAFFIC_VERSION = 1"
definition SECONDS_PER_HOUR :: u64 where "SECONDS_PER_HOUR = 3600"
definition RETENTION_HOURS :: u64 where "RETENTION_HOURS = 24 * 400"
definition MAX_QUERY_HOURS :: u64 where "MAX_QUERY_HOURS = 24 * 31"

record DeviceTrafficCounter =
  tc_upload_bytes :: u64
  tc_download_bytes :: u64

definition DeviceTrafficCounter_default :: DeviceTrafficCounter where
  "DeviceTrafficCounter_default = \<lparr>tc_upload_bytes = 0, tc_download_bytes = 0\<rparr>"

type_synonym counter_handle = nat

record RegisteredCounter =
  rg_name :: rust_string
  rg_counter :: counter_handle

record PendingTraffic =
  pt_public_key :: string
  pt_name :: rust_string
  pt_upload_bytes :: u64
  pt_download_bytes :: u64

record traffic_row =
  row_hour :: int
  row_public_key :: string
  row_name :: rust_string
  row_upload_bytes :: int
  row_download_bytes :: int

record TrafficStore =
  tst_table :: "traffic_row list"
  tst_migrated :: bool
  tst_counters :: "(string, RegisteredCounter) hashmap"
  tst_cells :: "counter_handle \<Rightarrow> DeviceTrafficCounter"
  tst_next_cell :: counter_handle

datatype TrafficError = TrafficError string

definition add_upload :: "TrafficStore \<Rightarrow> counter_handle \<Rightarrow> u64 \<Rightarrow> TrafficStore" where
  "add_upload store h n =
     store\<lparr>tst_cells := (tst_cells store)(h :=
        (tst_cells store h)\<lparr>tc_upload_bytes := tc_upload_bytes (tst_cells store h) + n\<rparr>)\<rparr>"

definition add_download :: "TrafficStore \<Rightarrow> counter_handle \<Rightarrow> u64 \<Rightarrow> TrafficStore" where
  "add_download store h n =
     store\<lparr>tst_cells := (tst_cells store)(h :=
        (tst_cells store h)\<lparr>tc_download_bytes := tc_download_bytes (tst_cells store h) + n\<rparr>)\<rparr>"

definition traffic_counter :: "TrafficStore \<Rightarrow> string \<Rightarrow> rust_string \<Rightarrow> counter_handle \<times> TrafficStore" where
  "traffic_counter store public_key name =
     (case map_of (tst_counters store) public_key of
        Some registered \<Rightarrow>
          (rg_counter registered,
           store\<lparr>tst_counters := hm_insert public_key (registered\<lparr>rg_name := name\<rparr>) (tst_counters store)\<rparr>)
      | None \<Rightarrow>
          let h = tst_next_cell store in
          (h, store\<lparr>tst_counters := hm_insert public_key \<lparr>rg_name = name, rg_counter = h\<rparr> (tst_counters store),
                    tst_cells := (tst_cells store)(h := DeviceTrafficCounter_default),
                    tst_next_cell := Suc h\<rparr>))"

section \<open>The hourly table\<close>

definition to_sql_integer :: "u64 \<Rightarrow> int" where
  "to_sql_integer v = (if uint v < 2 ^ 63 then uint v else 2 ^ 63 - 1)"

definition from_sql_integer :: "int \<Rightarrow> u64" where
  "from_sql_integer v = (if 0 \<le> v then word_of_int v else 0)"

text \<open>\<^verbatim>\<open>INSERT ... ON CONFLICT(hour, public_key) DO UPDATE\<close>: add to the row of that key, or a new row.\<close>

fun upsert :: "traffic_row \<Rightarrow> traffic_row list \<Rightarrow> traffic_row list" where
  "upsert new [] = [new]"
| "upsert new (r # rs) =
     (if row_hour r = row_hour new \<and> row_public_key r = row_public_key new
      then r\<lparr>row_name := row_name new,
             row_upload_bytes := row_upload_bytes r + row_upload_bytes new,
             row_download_bytes := row_download_bytes r + row_download_bytes new\<rparr> # rs
      else r # upsert new rs)"

definition pending_row :: "u64 \<Rightarrow> PendingTraffic \<Rightarrow> traffic_row" where
  "pending_row hour item =
     \<lparr>row_hour = to_sql_integer hour, row_public_key = pt_public_key item, row_name = pt_name item,
      row_upload_bytes = to_sql_integer (pt_upload_bytes item),
      row_download_bytes = to_sql_integer (pt_download_bytes item)\<rparr>"

definition persist_pending ::
  "string + unit \<Rightarrow> TrafficStore \<Rightarrow> u64 \<Rightarrow> u64 \<Rightarrow> PendingTraffic list \<Rightarrow>
   (TrafficError + unit) \<times> TrafficStore" where
  "persist_pending io store current_hour oldest pending =
     (case io of
        Inl e \<Rightarrow> (Inl (TrafficError e), store)
      | Inr _ \<Rightarrow>
          let rows = fold upsert (map (pending_row current_hour) pending) (tst_table store) in
          (Inr (), store\<lparr>tst_table := filter (\<lambda>r. \<not> row_hour r < to_sql_integer oldest) rows\<rparr>))"

definition peek_pending :: "TrafficStore \<Rightarrow> PendingTraffic list" where
  "peek_pending store =
     filter (\<lambda>p. \<not> (pt_upload_bytes p = 0 \<and> pt_download_bytes p = 0))
       (map (\<lambda>(public_key, registered).
               let c = tst_cells store (rg_counter registered) in
               \<lparr>pt_public_key = public_key, pt_name = rg_name registered,
                pt_upload_bytes = tc_upload_bytes c, pt_download_bytes = tc_download_bytes c\<rparr>)
         (tst_counters store))"

definition take_pending :: "TrafficStore \<Rightarrow> PendingTraffic list \<times> TrafficStore" where
  "take_pending store =
     (peek_pending store,
      store\<lparr>tst_cells := (\<lambda>h. if h \<in> set (map (\<lambda>(_, registered). rg_counter registered) (tst_counters store))
                              then DeviceTrafficCounter_default else tst_cells store h)\<rparr>)"

definition restore_item :: "PendingTraffic \<Rightarrow> TrafficStore \<Rightarrow> TrafficStore" where
  "restore_item item store =
     (let (h, store1) = traffic_counter store (pt_public_key item) (pt_name item)
      in add_download (add_upload store1 h (pt_upload_bytes item)) h (pt_download_bytes item))"

definition restore_pending :: "TrafficStore \<Rightarrow> PendingTraffic list \<Rightarrow> TrafficStore" where
  "restore_pending store pending = fold restore_item pending store"

text \<open>The second half of a flush, once the counters are taken.\<close>

definition finish_flush ::
  "string + unit \<Rightarrow> u64 \<Rightarrow> TrafficStore \<Rightarrow> PendingTraffic list \<Rightarrow> (TrafficError + unit) \<times> TrafficStore" where
  "finish_flush io now store pending =
     (if pending = [] then (Inr (), store)
      else
        let current_hour = now div SECONDS_PER_HOUR;
            oldest = saturating_sub current_hour RETENTION_HOURS;
            (result, store') = persist_pending io store current_hour oldest pending
        in (result, case result of Inl _ \<Rightarrow> restore_pending store' pending | Inr _ \<Rightarrow> store'))"

definition flush_at :: "string + unit \<Rightarrow> u64 \<Rightarrow> TrafficStore \<Rightarrow> (TrafficError + unit) \<times> TrafficStore" where
  "flush_at io now store =
     (let (pending, store') = take_pending store in finish_flush io now store' pending)"

section \<open>Opening and the legacy import\<close>

record LegacyTrafficBucket =
  lb_hour :: u64
  lb_public_key :: string
  lb_name :: rust_string
  lb_upload_bytes :: u64
  lb_download_bytes :: u64

record LegacyTrafficDocument =
  ld_version :: u8
  ld_buckets :: "LegacyTrafficBucket list"

definition legacy_row :: "LegacyTrafficBucket \<Rightarrow> traffic_row" where
  "legacy_row bucket =
     \<lparr>row_hour = to_sql_integer (lb_hour bucket), row_public_key = lb_public_key bucket,
      row_name = lb_name bucket,
      row_upload_bytes = to_sql_integer (lb_upload_bytes bucket),
      row_download_bytes = to_sql_integer (lb_download_bytes bucket)\<rparr>"

text \<open>\<open>legacy\<close> is \<^const>\<open>None\<close> when there is no legacy file, otherwise what reading it gave.\<close>

definition migrate_legacy_toml ::
  "string + unit \<Rightarrow> (TrafficError + LegacyTrafficDocument) option \<Rightarrow> traffic_row list \<times> bool \<Rightarrow>
   (TrafficError + unit) \<times> traffic_row list \<times> bool" where
  "migrate_legacy_toml io legacy db =
     (let (table, migrated) = db in
      if migrated then (Inr (), db)
      else
        (case legacy of
           Some (Inl e) \<Rightarrow> (Inl e, db)
         | Some (Inr document) \<Rightarrow>
             if ld_version document \<noteq> TRAFFIC_VERSION
             then (Inl (TrafficError ''unsupported legacy traffic store version''), db)
             else
               (case io of
                  Inl e \<Rightarrow> (Inl (TrafficError e), db)
                | Inr _ \<Rightarrow> (Inr (), fold upsert (map legacy_row (ld_buckets document)) table, True))
         | None \<Rightarrow>
             (case io of
                Inl e \<Rightarrow> (Inl (TrafficError e), db)
              | Inr _ \<Rightarrow> (Inr (), table, True))))"

definition TrafficStore_open ::
  "string + unit \<Rightarrow> (TrafficError + LegacyTrafficDocument) option \<Rightarrow> TrafficError + traffic_row list \<times> bool \<Rightarrow>
   TrafficError + TrafficStore" where
  "TrafficStore_open io legacy database =
     bind_r database (\<lambda>db.
       let (result, table, migrated) = migrate_legacy_toml io legacy db in
       bind_r result (\<lambda>_.
         Inr \<lparr>tst_table = table, tst_migrated = migrated, tst_counters = [],
              tst_cells = (\<lambda>_. DeviceTrafficCounter_default), tst_next_cell = 0\<rparr>))"

section \<open>Reports\<close>

record TrafficTotals =
  tt_upload_bytes :: u64
  tt_download_bytes :: u64

definition TrafficTotals_default :: TrafficTotals where
  "TrafficTotals_default = \<lparr>tt_upload_bytes = 0, tt_download_bytes = 0\<rparr>"

definition TrafficTotals_add :: "TrafficTotals \<Rightarrow> TrafficTotals \<Rightarrow> TrafficTotals" where
  "TrafficTotals_add t other =
     \<lparr>tt_upload_bytes = saturating_add (tt_upload_bytes t) (tt_upload_bytes other),
      tt_download_bytes = saturating_add (tt_download_bytes t) (tt_download_bytes other)\<rparr>"

record TrafficPeriodTotals =
  period_hour :: TrafficTotals
  period_day :: TrafficTotals
  period_week :: TrafficTotals

record TrafficPoint =
  tp_hour :: u64
  tp_upload_bytes :: u64
  tp_download_bytes :: u64

definition TrafficPoint_add :: "TrafficPoint \<Rightarrow> TrafficTotals \<Rightarrow> TrafficPoint" where
  "TrafficPoint_add point totals =
     point\<lparr>tp_upload_bytes := saturating_add (tp_upload_bytes point) (tt_upload_bytes totals),
           tp_download_bytes := saturating_add (tp_download_bytes point) (tt_download_bytes totals)\<rparr>"

record DeviceTrafficSummary =
  ds_public_key :: string
  ds_name :: rust_string
  ds_upload_bytes :: u64
  ds_download_bytes :: u64

definition total_bytes :: "DeviceTrafficSummary \<Rightarrow> u64" where
  "total_bytes device = saturating_add (ds_upload_bytes device) (ds_download_bytes device)"

record TrafficBucket =
  tb_hour :: u64
  tb_public_key :: string
  tb_name :: rust_string
  tb_upload_bytes :: u64
  tb_download_bytes :: u64

record TrafficReport =
  rep_generated_at :: u64
  rep_selected_hours :: u64
  rep_totals :: TrafficPeriodTotals
  rep_hourly :: "TrafficPoint list"
  rep_devices :: "DeviceTrafficSummary list"

fun merge_item :: "u64 \<Rightarrow> PendingTraffic \<Rightarrow> TrafficBucket list \<Rightarrow> TrafficBucket list" where
  "merge_item hour item [] =
     [\<lparr>tb_hour = hour, tb_public_key = pt_public_key item, tb_name = pt_name item,
       tb_upload_bytes = pt_upload_bytes item, tb_download_bytes = pt_download_bytes item\<rparr>]"
| "merge_item hour item (bucket # rest) =
     (if tb_hour bucket = hour \<and> tb_public_key bucket = pt_public_key item
      then bucket\<lparr>tb_name := pt_name item,
                  tb_upload_bytes := saturating_add (tb_upload_bytes bucket) (pt_upload_bytes item),
                  tb_download_bytes := saturating_add (tb_download_bytes bucket) (pt_download_bytes item)\<rparr> # rest
      else bucket # merge_item hour item rest)"

definition merge_pending :: "TrafficBucket list \<Rightarrow> u64 \<Rightarrow> PendingTraffic list \<Rightarrow> TrafficBucket list" where
  "merge_pending buckets hour pending = fold (merge_item hour) pending buckets"

text \<open>
  The rows between two hours, in the order of their hour. Reading a value outside the range of
  \<^verbatim>\<open>i64\<close> is an error of the row.
\<close>

definition i64_ok :: "int \<Rightarrow> bool" where
  "i64_ok v \<longleftrightarrow> - (2 ^ 63) \<le> v \<and> v < 2 ^ 63"

definition read_row :: "traffic_row \<Rightarrow> TrafficError + TrafficBucket" where
  "read_row r =
     (if i64_ok (row_hour r) \<and> i64_ok (row_upload_bytes r) \<and> i64_ok (row_download_bytes r)
      then Inr \<lparr>tb_hour = from_sql_integer (row_hour r), tb_public_key = row_public_key r,
                tb_name = row_name r,
                tb_upload_bytes = from_sql_integer (row_upload_bytes r),
                tb_download_bytes = from_sql_integer (row_download_bytes r)\<rparr>
      else Inl (TrafficError ''invalid column type''))"

fun collect_rows :: "traffic_row list \<Rightarrow> TrafficError + TrafficBucket list" where
  "collect_rows [] = Inr []"
| "collect_rows (r # rs) = bind_r (read_row r) (\<lambda>b. bind_r (collect_rows rs) (\<lambda>bs. Inr (b # bs)))"

definition load_buckets ::
  "string + unit \<Rightarrow> TrafficStore \<Rightarrow> u64 \<Rightarrow> u64 \<Rightarrow> TrafficError + TrafficBucket list" where
  "load_buckets io store start stop =
     bind_r (map_err TrafficError io) (\<lambda>_.
       collect_rows (sort_key row_hour
         (filter (\<lambda>r. to_sql_integer start \<le> row_hour r \<and> row_hour r \<le> to_sql_integer stop)
           (tst_table store))))"

definition device_add :: "TrafficBucket \<Rightarrow> (string, DeviceTrafficSummary) hashmap \<Rightarrow> (string, DeviceTrafficSummary) hashmap" where
  "device_add bucket devices =
     (let device = (case map_of devices (tb_public_key bucket) of
              Some device \<Rightarrow> device
            | None \<Rightarrow> \<lparr>ds_public_key = tb_public_key bucket, ds_name = tb_name bucket,
                       ds_upload_bytes = 0, ds_download_bytes = 0\<rparr>)
      in hm_insert (tb_public_key bucket)
           (device\<lparr>ds_name := tb_name bucket,
                   ds_upload_bytes := saturating_add (ds_upload_bytes device) (tb_upload_bytes bucket),
                   ds_download_bytes := saturating_add (ds_download_bytes device) (tb_download_bytes bucket)\<rparr>)
           devices)"

record report_acc =
  ra_hourly :: "TrafficPoint list"
  ra_devices :: "(string, DeviceTrafficSummary) hashmap"
  ra_hour :: TrafficTotals
  ra_day :: TrafficTotals
  ra_week :: TrafficTotals

definition report_bucket :: "u64 \<Rightarrow> u64 \<Rightarrow> TrafficBucket \<Rightarrow> report_acc \<Rightarrow> report_acc" where
  "report_bucket current_hour series_start bucket acc =
     (let age = saturating_sub current_hour (tb_hour bucket) in
      if tb_hour bucket > current_hour then acc
      else
        let totals = \<lparr>tt_upload_bytes = tb_upload_bytes bucket, tt_download_bytes = tb_download_bytes bucket\<rparr>;
            acc1 = (if age < 168 then acc\<lparr>ra_week := TrafficTotals_add (ra_week acc) totals\<rparr> else acc);
            acc2 = (if age < 24 then acc1\<lparr>ra_day := TrafficTotals_add (ra_day acc1) totals\<rparr> else acc1);
            acc3 = (if age = 0 then acc2\<lparr>ra_hour := TrafficTotals_add (ra_hour acc2) totals\<rparr> else acc2)
        in
        if tb_hour bucket \<ge> series_start
        then
          let index = unat (tb_hour bucket - series_start) in
          acc3\<lparr>ra_hourly := (if index < length (ra_hourly acc3)
                             then (ra_hourly acc3)[index := TrafficPoint_add (ra_hourly acc3 ! index) totals]
                             else ra_hourly acc3),
               ra_devices := device_add bucket (ra_devices acc3)\<rparr>
        else acc3)"

text \<open>The order of the devices: larger totals first, then by name; a stable sort.\<close>

fun name_less :: "rust_string \<Rightarrow> rust_string \<Rightarrow> bool" where
  "name_less [] [] = False"
| "name_less [] (_ # _) = True"
| "name_less (_ # _) [] = False"
| "name_less (a # as) (b # bs) = (a < b \<or> a = b \<and> name_less as bs)"

definition device_before :: "DeviceTrafficSummary \<Rightarrow> DeviceTrafficSummary \<Rightarrow> bool" where
  "device_before left right \<longleftrightarrow>
     total_bytes right < total_bytes left \<or>
     total_bytes left = total_bytes right \<and> name_less (ds_name left) (ds_name right)"

fun insert_device :: "DeviceTrafficSummary \<Rightarrow> DeviceTrafficSummary list \<Rightarrow> DeviceTrafficSummary list" where
  "insert_device d [] = [d]"
| "insert_device d (e # rest) = (if device_before e d then e # insert_device d rest else d # e # rest)"

definition sort_devices :: "DeviceTrafficSummary list \<Rightarrow> DeviceTrafficSummary list" where
  "sort_devices devices = foldr insert_device devices []"

definition empty_points :: "u64 \<Rightarrow> u64 \<Rightarrow> TrafficPoint list" where
  "empty_points series_start current_hour =
     map (\<lambda>i. \<lparr>tp_hour = (series_start + of_nat i) * SECONDS_PER_HOUR, tp_upload_bytes = 0,
               tp_download_bytes = 0\<rparr>)
       [0..<Suc (unat current_hour) - unat series_start]"

definition build_report :: "u64 \<Rightarrow> u64 \<Rightarrow> u64 \<Rightarrow> u64 \<Rightarrow> TrafficBucket list \<Rightarrow> TrafficReport" where
  "build_report hours now current_hour series_start buckets =
     (let acc = fold (report_bucket current_hour series_start) buckets
            \<lparr>ra_hourly = empty_points series_start current_hour, ra_devices = [],
             ra_hour = TrafficTotals_default, ra_day = TrafficTotals_default, ra_week = TrafficTotals_default\<rparr>
      in \<lparr>rep_generated_at = now, rep_selected_hours = hours,
          rep_totals = \<lparr>period_hour = ra_hour acc, period_day = ra_day acc, period_week = ra_week acc\<rparr>,
          rep_hourly = ra_hourly acc,
          rep_devices = sort_devices (map snd (ra_devices acc))\<rparr>)"

definition report_at ::
  "string + unit \<Rightarrow> TrafficStore \<Rightarrow> u64 \<Rightarrow> u64 \<Rightarrow> TrafficError + TrafficReport" where
  "report_at io store hours now =
     (let hours' = max 1 (min hours MAX_QUERY_HOURS);
          current_hour = now div SECONDS_PER_HOUR;
          series_start = saturating_sub current_hour (hours' - 1);
          week_start = saturating_sub current_hour 167;
          query_start = min series_start week_start
      in bind_r (load_buckets io store query_start current_hour) (\<lambda>buckets.
           Inr (build_report hours' now current_hour series_start
                 (merge_pending buckets current_hour (peek_pending store)))))"

section \<open>Conservation of traffic\<close>

text \<open>
  What is known of the bytes of one device in one direction (\<open>up\<close>): the bytes of its rows, of the
  items a flush has taken, and of its counter.
\<close>

definition row_bytes :: "bool \<Rightarrow> traffic_row \<Rightarrow> int" where
  "row_bytes up r = (if up then row_upload_bytes r else row_download_bytes r)"

definition pending_bytes :: "bool \<Rightarrow> PendingTraffic \<Rightarrow> u64" where
  "pending_bytes up p = (if up then pt_upload_bytes p else pt_download_bytes p)"

definition cell_bytes :: "bool \<Rightarrow> DeviceTrafficCounter \<Rightarrow> u64" where
  "cell_bytes up c = (if up then tc_upload_bytes c else tc_download_bytes c)"

definition durable :: "bool \<Rightarrow> string \<Rightarrow> traffic_row list \<Rightarrow> int" where
  "durable up k rows = sum_list (map (row_bytes up) (filter (\<lambda>r. row_public_key r = k) rows))"

definition in_flight :: "bool \<Rightarrow> string \<Rightarrow> PendingTraffic list \<Rightarrow> int" where
  "in_flight up k items = sum_list (map (\<lambda>p. uint (pending_bytes up p)) (filter (\<lambda>p. pt_public_key p = k) items))"

definition counted :: "bool \<Rightarrow> string \<Rightarrow> TrafficStore \<Rightarrow> int" where
  "counted up k store =
     (case map_of (tst_counters store) k of
        None \<Rightarrow> 0
      | Some registered \<Rightarrow> uint (cell_bytes up (tst_cells store (rg_counter registered))))"

lemma durable_Nil [simp]: "durable up k [] = 0"
  by (simp add: durable_def)

lemma durable_Cons [simp]:
  "durable up k (r # rs) = (if row_public_key r = k then row_bytes up r else 0) + durable up k rs"
  by (simp add: durable_def)

lemma in_flight_Nil [simp]: "in_flight up k [] = 0"
  by (simp add: in_flight_def)

lemma in_flight_Cons [simp]:
  "in_flight up k (p # ps) = (if pt_public_key p = k then uint (pending_bytes up p) else 0) + in_flight up k ps"
  by (simp add: in_flight_def)

lemma in_flight_nonneg [simp]: "0 \<le> in_flight up k items"
  by (induction items) auto

lemma counted_nonneg [simp]: "0 \<le> counted up k store"
  by (simp add: counted_def split: option.splits)

lemma durable_upsert:
  "durable up k (upsert new rows) = durable up k rows + (if row_public_key new = k then row_bytes up new else 0)"
  by (induction new rows rule: upsert.induct) (auto simp: row_bytes_def)

lemma durable_fold_upsert: "durable up k (fold upsert news rows) = durable up k rows + durable up k news"
  by (induction news arbitrary: rows) (auto simp: durable_upsert)

lemma durable_filter: "durable up k (filter P rows) + durable up k (filter (\<lambda>r. \<not> P r) rows) = durable up k rows"
  by (induction rows) auto

lemma durable_pending_rows:
  "in_flight up k items < 2 ^ 63 \<Longrightarrow> durable up k (map (pending_row hour) items) = in_flight up k items"
proof (induction items)
  case Nil
  then show ?case by simp
next
  case (Cons p items)
  have rest: "in_flight up k items < 2 ^ 63"
    using Cons.prems by (auto split: if_splits simp: add.commute [of "uint _"] intro: order.strict_trans1 [rotated])
  have item: "row_bytes up (pending_row hour p) = uint (pending_bytes up p)" if "pt_public_key p = k"
  proof -
    have "uint (pending_bytes up p) < 2 ^ 63"
      using that Cons.prems in_flight_nonneg [of up k items] unfolding in_flight_Cons
      by (simp del: in_flight_nonneg)
    then show ?thesis
      by (cases up) (simp_all add: row_bytes_def pending_row_def to_sql_integer_def pending_bytes_def)
  qed
  show ?case using Cons.IH [OF rest] item by (simp add: pending_row_def)
qed

text \<open>Cells are handed out once: no two devices share a counter, and every cell in use is allocated.\<close>

definition cells_ok :: "TrafficStore \<Rightarrow> bool" where
  "cells_ok store \<longleftrightarrow> hm_ok (tst_counters store) \<and>
     (\<forall>k r. map_of (tst_counters store) k = Some r \<longrightarrow> rg_counter r < tst_next_cell store) \<and>
     (\<forall>k l r s. map_of (tst_counters store) k = Some r \<longrightarrow> map_of (tst_counters store) l = Some s \<longrightarrow>
        rg_counter r = rg_counter s \<longrightarrow> k = l)"

lemma cells_ok_counter: "cells_ok store \<Longrightarrow> cells_ok (snd (traffic_counter store k name))"
proof (cases "map_of (tst_counters store) k")
  case None
  assume ok: "cells_ok store"
  then have "\<forall>l s. map_of (tst_counters store) l = Some s \<longrightarrow> rg_counter s \<noteq> tst_next_cell store"
    unfolding cells_ok_def by (metis less_irrefl)
  with ok None show ?thesis
    by (auto simp: cells_ok_def traffic_counter_def hm_get hm_valid Let_def less_Suc_eq split: if_splits)
      (metis)+
next
  case (Some r)
  assume ok: "cells_ok store"
  then have "rg_counter r < tst_next_cell store" using Some unfolding cells_ok_def by blast
  with ok Some show ?thesis
    unfolding cells_ok_def traffic_counter_def
    by (auto simp: hm_get hm_valid split: if_splits)
qed

lemma cells_ok_add [simp]:
  "cells_ok (add_upload store h n) = cells_ok store" "cells_ok (add_download store h n) = cells_ok store"
  by (simp_all add: cells_ok_def add_upload_def add_download_def)

lemma counted_counter [simp]:
  "cells_ok store \<Longrightarrow> counted up l (snd (traffic_counter store k name)) = counted up l store"
proof (cases "map_of (tst_counters store) l")
  case (Some r)
  assume "cells_ok store"
  then have "rg_counter r \<noteq> tst_next_cell store" using Some unfolding cells_ok_def by (metis less_irrefl)
  then show ?thesis using Some
    by (auto simp: counted_def traffic_counter_def hm_get Let_def split: option.splits)
qed (auto simp: counted_def traffic_counter_def hm_get Let_def cell_bytes_def
      DeviceTrafficCounter_default_def split: option.splits)

lemma counter_registered:
  "\<exists>r. map_of (tst_counters (snd (traffic_counter store k name))) k = Some r \<and>
       rg_counter r = fst (traffic_counter store k name)"
  by (auto simp: traffic_counter_def hm_get Let_def split: option.splits)

lemma uint_add_small: "uint (a :: u64) + uint b < 2 ^ 64 \<Longrightarrow> uint (a + b) = uint a + uint b"
  by (simp add: uint_word_ariths)

lemma counted_add_upload:
  assumes "cells_ok store" "map_of (tst_counters store) k = Some r" "counted True k store + uint n < 2 ^ 64"
  shows "counted up l (add_upload store (rg_counter r) n) =
    counted up l store + (if up \<and> l = k then uint n else 0)"
proof (cases "map_of (tst_counters store) l")
  case None
  then show ?thesis using assms(2) by (auto simp: counted_def add_upload_def)
next
  case (Some s)
  show ?thesis
  proof (cases "l = k")
    case True
    then show ?thesis using assms Some
      by (auto simp: counted_def add_upload_def cell_bytes_def uint_add_small)
  next
    case False
    then have "rg_counter s \<noteq> rg_counter r" using assms(1,2) Some unfolding cells_ok_def by blast
    then show ?thesis using Some False by (simp add: counted_def add_upload_def)
  qed
qed

lemma counted_add_download:
  assumes "cells_ok store" "map_of (tst_counters store) k = Some r" "counted False k store + uint n < 2 ^ 64"
  shows "counted up l (add_download store (rg_counter r) n) =
    counted up l store + (if \<not> up \<and> l = k then uint n else 0)"
proof (cases "map_of (tst_counters store) l")
  case None
  then show ?thesis using assms(2) by (auto simp: counted_def add_download_def)
next
  case (Some s)
  show ?thesis
  proof (cases "l = k")
    case True
    then show ?thesis using assms Some
      by (auto simp: counted_def add_download_def cell_bytes_def uint_add_small)
  next
    case False
    then have "rg_counter s \<noteq> rg_counter r" using assms(1,2) Some unfolding cells_ok_def by blast
    then show ?thesis using Some False by (simp add: counted_def add_download_def)
  qed
qed

lemma in_flight_filter:
  "in_flight up k (filter (\<lambda>p. \<not> (pt_upload_bytes p = 0 \<and> pt_download_bytes p = 0)) items) = in_flight up k items"
  by (induction items) (auto simp: pending_bytes_def)

lemma in_flight_readings:
  assumes "distinct (map fst counters)"
  shows "in_flight up k (map (\<lambda>(key, r). let c = cells (rg_counter r) in
      \<lparr>pt_public_key = key, pt_name = rg_name r, pt_upload_bytes = tc_upload_bytes c,
       pt_download_bytes = tc_download_bytes c\<rparr>) counters) =
    (case map_of counters k of None \<Rightarrow> 0 | Some r \<Rightarrow> uint (cell_bytes up (cells (rg_counter r))))"
  using assms
proof (induction counters)
  case Nil
  then show ?case by simp
next
  case (Cons entry counters)
  obtain key r where entry: "entry = (key, r)" by fastforce
  have "map_of counters key = None" using Cons.prems by (simp add: entry map_of_eq_None_iff)
  with Cons show ?case by (auto simp: entry Let_def pending_bytes_def cell_bytes_def)
qed

lemma in_flight_peek: "cells_ok store \<Longrightarrow> in_flight up k (peek_pending store) = counted up k store"
  unfolding peek_pending_def in_flight_filter
  by (simp add: in_flight_readings counted_def cells_ok_def hm_ok_def)

lemma take_pending_facts:
  assumes "cells_ok store"
  shows "cells_ok (snd (take_pending store))" "counted up k (snd (take_pending store)) = 0"
    "tst_table (snd (take_pending store)) = tst_table store"
proof -
  show "cells_ok (snd (take_pending store))" using assms by (simp add: take_pending_def cells_ok_def)
  show "counted up k (snd (take_pending store)) = 0"
    by (force simp: take_pending_def counted_def cell_bytes_def DeviceTrafficCounter_default_def
        dest: map_of_SomeD split: option.splits)
qed (simp add: take_pending_def)

lemma restore_item_facts:
  assumes ok: "cells_ok store"
    and small: "\<And>up. counted up (pt_public_key p) store + uint (pending_bytes up p) < 2 ^ 64"
  shows "cells_ok (restore_item p store)" "tst_table (restore_item p store) = tst_table store"
    "counted up k (restore_item p store) = counted up k store + in_flight up k [p]"
proof -
  define st where "st = snd (traffic_counter store (pt_public_key p) (pt_name p))"
  obtain r where r: "map_of (tst_counters st) (pt_public_key p) = Some r"
      "rg_counter r = fst (traffic_counter store (pt_public_key p) (pt_name p))"
    using counter_registered [of store "pt_public_key p" "pt_name p"] unfolding st_def by blast
  have form: "restore_item p store =
      add_download (add_upload st (rg_counter r) (pt_upload_bytes p)) (rg_counter r) (pt_download_bytes p)"
    by (simp add: restore_item_def r(2) st_def split_beta)
  have st: "cells_ok st" unfolding st_def by (rule cells_ok_counter [OF ok])
  have same: "counted d l st = counted d l store" for d l
    unfolding st_def by (rule counted_counter [OF ok])
  show "cells_ok (restore_item p store)" using st by (simp add: form)
  show "tst_table (restore_item p store) = tst_table store"
    by (auto simp: form st_def add_upload_def add_download_def traffic_counter_def Let_def split: option.splits)
  let ?mid = "add_upload st (rg_counter r) (pt_upload_bytes p)"
  have mid: "counted d l ?mid = counted d l store + (if d \<and> l = pt_public_key p then uint (pt_upload_bytes p) else 0)" for d l
    using counted_add_upload [OF st r(1), of "pt_upload_bytes p" d l] small [of True]
    by (simp add: same pending_bytes_def)
  have reg: "map_of (tst_counters ?mid) (pt_public_key p) = Some r" using r(1) by (simp add: add_upload_def)
  show "counted up k (restore_item p store) = counted up k store + in_flight up k [p]"
    using counted_add_download [of ?mid "pt_public_key p" r "pt_download_bytes p" up k] st reg small [of False]
    by (simp add: form mid pending_bytes_def)
qed

lemma restore_pending_facts:
  assumes "cells_ok store" "\<And>up k. counted up k store + in_flight up k items < 2 ^ 64"
  shows "cells_ok (restore_pending store items) \<and> tst_table (restore_pending store items) = tst_table store \<and>
    counted up k (restore_pending store items) = counted up k store + in_flight up k items"
  using assms
proof (induction items arbitrary: store)
  case Nil
  then show ?case by (simp add: restore_pending_def)
next
  case (Cons p items)
  have small: "counted d (pt_public_key p) store + uint (pending_bytes d p) < 2 ^ 64" for d
    using Cons.prems(2) [of d "pt_public_key p"] in_flight_nonneg [of d "pt_public_key p" items]
    by (simp del: in_flight_nonneg)
  note item = restore_item_facts [OF Cons.prems(1) small]
  have bound: "counted d l (restore_item p store) + in_flight d l items < 2 ^ 64" for d l
    using Cons.prems(2) [of d l] item(3) [of d l] by simp
  have "restore_pending store (p # items) = restore_pending (restore_item p store) items"
    by (simp add: restore_pending_def)
  with Cons.IH [OF item(1) bound] show ?case by (simp add: item(2,3))
qed

subsection \<open>Accounting as a machine\<close>

text \<open>
  The sessions and the flusher run concurrently: a flush takes the counters, and until its transaction
  has ended sessions go on counting. \<open>Attach\<close> is a handshake asking for the device's counter, \<open>Count\<close> a
  session adding to it, \<open>Take\<close> and \<open>Finish\<close> the two halves of a flush. The rows that retention deletes
  are collected in \<open>acc_expired\<close>.
\<close>

record accounting =
  acc_store :: TrafficStore
  acc_taken :: "PendingTraffic list"
  acc_expired :: "traffic_row list"

datatype accounting_event =
  Attach string rust_string
| Count bool string u64
| Take
| Finish "string + unit" u64

definition count_bytes :: "bool \<Rightarrow> TrafficStore \<Rightarrow> counter_handle \<Rightarrow> u64 \<Rightarrow> TrafficStore" where
  "count_bytes up store h n = (if up then add_upload store h n else add_download store h n)"

definition expired_rows :: "string + unit \<Rightarrow> u64 \<Rightarrow> TrafficStore \<Rightarrow> PendingTraffic list \<Rightarrow> traffic_row list" where
  "expired_rows io now store pending =
     (if pending = [] then []
      else case io of
        Inl _ \<Rightarrow> []
      | Inr _ \<Rightarrow>
          let current_hour = now div SECONDS_PER_HOUR in
          filter (\<lambda>r. row_hour r < to_sql_integer (saturating_sub current_hour RETENTION_HOURS))
            (fold upsert (map (pending_row current_hour) pending) (tst_table store)))"

fun accounting_step :: "accounting \<Rightarrow> accounting_event \<Rightarrow> accounting" where
  "accounting_step s (Attach k name) = s\<lparr>acc_store := snd (traffic_counter (acc_store s) k name)\<rparr>"
| "accounting_step s (Count up k n) =
     (case map_of (tst_counters (acc_store s)) k of
        None \<Rightarrow> s
      | Some r \<Rightarrow> s\<lparr>acc_store := count_bytes up (acc_store s) (rg_counter r) n\<rparr>)"
| "accounting_step s Take =
     (if acc_taken s = []
      then let (pending, store) = take_pending (acc_store s) in s\<lparr>acc_store := store, acc_taken := pending\<rparr>
      else s)"
| "accounting_step s (Finish io now) =
     s\<lparr>acc_store := snd (finish_flush io now (acc_store s) (acc_taken s)), acc_taken := [],
       acc_expired := expired_rows io now (acc_store s) (acc_taken s) @ acc_expired s\<rparr>"

lemma flush_is_take_finish:
  "acc_taken s = [] \<Longrightarrow>
   acc_store (accounting_step (accounting_step s Take) (Finish io now)) = snd (flush_at io now (acc_store s))"
  by (simp add: flush_at_def take_pending_def)

definition credit :: "bool \<Rightarrow> string \<Rightarrow> accounting \<Rightarrow> accounting_event \<Rightarrow> int" where
  "credit up k s e =
     (case e of
        Count d l n \<Rightarrow> if d = up \<and> l = k \<and> map_of (tst_counters (acc_store s)) l \<noteq> None then uint n else 0
      | _ \<Rightarrow> 0)"

fun credited :: "bool \<Rightarrow> string \<Rightarrow> accounting \<Rightarrow> accounting_event list \<Rightarrow> int" where
  "credited up k s [] = 0"
| "credited up k s (e # es) = credit up k s e + credited up k (accounting_step s e) es"

definition known :: "bool \<Rightarrow> string \<Rightarrow> accounting \<Rightarrow> int" where
  "known up k s =
     durable up k (tst_table (acc_store s)) + durable up k (acc_expired s) +
     in_flight up k (acc_taken s) + counted up k (acc_store s)"

lemma credit_nonneg [simp]: "0 \<le> credit up k s e"
  by (simp add: credit_def split: accounting_event.splits)

lemma credited_nonneg [simp]: "0 \<le> credited up k s es"
  by (induction es arbitrary: s) simp_all

lemma durable_append [simp]: "durable up k (xs @ ys) = durable up k xs + durable up k ys"
  by (simp add: durable_def)

lemma cells_ok_table [simp]: "cells_ok (store\<lparr>tst_table := t\<rparr>) = cells_ok store"
  by (simp add: cells_ok_def)

lemma counted_table [simp]: "counted up k (store\<lparr>tst_table := t\<rparr>) = counted up k store"
  by (simp add: counted_def split: option.splits)

lemma finish_ok:
  assumes "pending \<noteq> []" "io = Inr u" "in_flight up k pending < 2 ^ 63"
  shows "durable up k (tst_table (snd (finish_flush io now store pending))) +
    durable up k (expired_rows io now store pending) = durable up k (tst_table store) + in_flight up k pending"
proof -
  define hour where "hour = now div SECONDS_PER_HOUR"
  define rows where "rows = fold upsert (map (pending_row hour) pending) (tst_table store)"
  have "durable up k rows = durable up k (tst_table store) + in_flight up k pending"
    by (simp add: rows_def durable_fold_upsert durable_pending_rows [OF assms(3)])
  then show ?thesis
    using assms(1,2) durable_filter [of up k "\<lambda>r. \<not> row_hour r < to_sql_integer (saturating_sub hour RETENTION_HOURS)" rows]
    by (simp add: finish_flush_def expired_rows_def persist_pending_def Let_def hour_def rows_def)
qed

lemma finish_failed:
  assumes "pending \<noteq> []" "io = Inl e"
  shows "snd (finish_flush io now store pending) = restore_pending store pending"
    "expired_rows io now store pending = []"
  using assms by (simp_all add: finish_flush_def expired_rows_def persist_pending_def Let_def)

lemma finish_ok_counters:
  assumes "pending \<noteq> []" "io = Inr u" "cells_ok store"
  shows "counted up k (snd (finish_flush io now store pending)) = counted up k store"
    "cells_ok (snd (finish_flush io now store pending))"
  using assms by (simp_all add: finish_flush_def persist_pending_def Let_def)

lemma finish_step:
  assumes ok: "cells_ok (acc_store s)"
    and small: "\<And>up k. in_flight up k (acc_taken s) + counted up k (acc_store s) < 2 ^ 63"
  shows "cells_ok (acc_store (accounting_step s (Finish io now)))"
    "known up k (accounting_step s (Finish io now)) = known up k s"
proof -
  let ?st = "acc_store s" and ?p = "acc_taken s"
  have flight: "in_flight d l ?p < 2 ^ 63" for d l
    using small [of d l] counted_nonneg [of d l ?st] by linarith
  have restored: "counted d l ?st + in_flight d l ?p < 2 ^ 64" for d l
    using small [of d l] by simp
  have "cells_ok (acc_store (accounting_step s (Finish io now))) \<and>
      known up k (accounting_step s (Finish io now)) = known up k s"
  proof (cases "?p = []")
    case True
    then show ?thesis using ok by (simp add: finish_flush_def expired_rows_def known_def)
  next
    case False
    show ?thesis
    proof (cases io)
      case (Inl e)
      show ?thesis
        using restore_pending_facts [OF ok restored, of up k]
        by (simp add: finish_failed [OF False Inl] known_def)
    next
      case (Inr u)
      show ?thesis
        using finish_ok [OF False Inr flight [of up k], of now ?st] finish_ok_counters [OF False Inr ok]
        by (simp add: known_def)
    qed
  qed
  then show "cells_ok (acc_store (accounting_step s (Finish io now)))"
    "known up k (accounting_step s (Finish io now)) = known up k s" by simp_all
qed

lemma count_step:
  assumes ok: "cells_ok (acc_store s)" and small: "counted d l (acc_store s) + uint n < 2 ^ 64"
  shows "cells_ok (acc_store (accounting_step s (Count d l n)))"
    "known up k (accounting_step s (Count d l n)) = known up k s + credit up k s (Count d l n)"
proof -
  have table: "tst_table (count_bytes d' st h n) = tst_table st" for d' st h
    by (simp add: count_bytes_def add_upload_def add_download_def)
  have count: "counted up k (count_bytes d (acc_store s) (rg_counter r) n) =
      counted up k (acc_store s) + (if d = up \<and> l = k then uint n else 0)"
    if "map_of (tst_counters (acc_store s)) l = Some r" for r
    using small counted_add_upload [OF ok that, of n up k] counted_add_download [OF ok that, of n up k]
    by (cases d) (auto simp: count_bytes_def)
  show "cells_ok (acc_store (accounting_step s (Count d l n)))"
    using ok by (simp add: count_bytes_def split: option.splits)
  show "known up k (accounting_step s (Count d l n)) = known up k s + credit up k s (Count d l n)"
    using count by (auto simp: known_def credit_def table split: option.splits)
qed

lemma durable_known_split:
  "known up k s = durable up k (tst_table (acc_store s)) + durable up k (acc_expired s) +
     (in_flight up k (acc_taken s) + counted up k (acc_store s))"
  by (simp add: known_def)

definition rows_nonneg :: "traffic_row list \<Rightarrow> bool" where
  "rows_nonneg rows \<longleftrightarrow> (\<forall>r\<in>set rows. 0 \<le> row_upload_bytes r \<and> 0 \<le> row_download_bytes r)"

lemma rows_nonneg_Cons [simp]:
  "rows_nonneg (r # rs) \<longleftrightarrow> 0 \<le> row_upload_bytes r \<and> 0 \<le> row_download_bytes r \<and> rows_nonneg rs"
  by (simp add: rows_nonneg_def)

lemma rows_nonneg_append [simp]: "rows_nonneg (xs @ ys) \<longleftrightarrow> rows_nonneg xs \<and> rows_nonneg ys"
  by (auto simp: rows_nonneg_def)

lemma durable_nonneg: "rows_nonneg rows \<Longrightarrow> 0 \<le> durable up k rows"
  by (induction rows) (auto simp: rows_nonneg_def row_bytes_def)

lemma rows_nonneg_upsert:
  "rows_nonneg rows \<Longrightarrow> 0 \<le> row_upload_bytes new \<Longrightarrow> 0 \<le> row_download_bytes new \<Longrightarrow> rows_nonneg (upsert new rows)"
  by (induction new rows rule: upsert.induct) (auto simp: rows_nonneg_def)

lemma rows_nonneg_fold:
  "rows_nonneg rows \<Longrightarrow> rows_nonneg news \<Longrightarrow> rows_nonneg (fold upsert news rows)"
  by (induction news arbitrary: rows) (auto simp: rows_nonneg_upsert)

lemma rows_nonneg_pending: "rows_nonneg (map (pending_row hour) items)"
  by (auto simp: rows_nonneg_def pending_row_def to_sql_integer_def)

definition accounting_inv :: "accounting \<Rightarrow> bool" where
  "accounting_inv s \<longleftrightarrow>
     cells_ok (acc_store s) \<and> rows_nonneg (tst_table (acc_store s)) \<and> rows_nonneg (acc_expired s)"

lemma restore_table: "tst_table (restore_pending store items) = tst_table store"
  by (induction items arbitrary: store)
    (auto simp: restore_pending_def restore_item_def add_upload_def add_download_def traffic_counter_def
      Let_def split_beta split: option.splits)

lemma finish_rows:
  assumes "rows_nonneg (tst_table store)"
  shows "rows_nonneg (tst_table (snd (finish_flush io now store pending)))"
    "rows_nonneg (expired_rows io now store pending)"
proof -
  have f: "rows_nonneg (filter P (fold upsert (map (pending_row hour) pending) (tst_table store)))" for P hour
    using rows_nonneg_fold [OF assms rows_nonneg_pending, of hour pending]
    unfolding rows_nonneg_def by simp
  show "rows_nonneg (tst_table (snd (finish_flush io now store pending)))"
    using assms f by (simp add: finish_flush_def persist_pending_def Let_def restore_table split: sum.splits)
  show "rows_nonneg (expired_rows io now store pending)"
    using f by (simp add: expired_rows_def Let_def rows_nonneg_def [of "[]"] split: sum.splits)
qed

lemma accounting_step_facts:
  assumes inv: "accounting_inv s"
    and small: "\<And>up k. known up k s + credit up k s e < 2 ^ 63"
  shows "accounting_inv (accounting_step s e)"
    "known up k (accounting_step s e) = known up k s + credit up k s e"
proof -
  have ok: "cells_ok (acc_store s)" and t: "rows_nonneg (tst_table (acc_store s))"
    and x: "rows_nonneg (acc_expired s)" using inv by (simp_all add: accounting_inv_def)
  have pend: "in_flight d l (acc_taken s) + counted d l (acc_store s) + credit d l s e < 2 ^ 63" for d l
    using small [of d l] durable_nonneg [OF t, of d l] durable_nonneg [OF x, of d l]
    unfolding durable_known_split by linarith
  have "accounting_inv (accounting_step s e) \<and>
      known up k (accounting_step s e) = known up k s + credit up k s e"
  proof (cases e)
    case (Attach key name)
    have "tst_table (snd (traffic_counter st key name)) = tst_table st" for st
      by (simp add: traffic_counter_def Let_def split: option.splits)
    then show ?thesis using ok t x Attach
      by (simp add: accounting_inv_def known_def credit_def cells_ok_counter)
  next
    case (Count d l n)
    have "counted d l (acc_store s) + uint n < 2 ^ 64 \<or> map_of (tst_counters (acc_store s)) l = None"
      using pend [of d l] in_flight_nonneg [of d l "acc_taken s"] unfolding Count credit_def
      by (auto simp del: in_flight_nonneg split: if_splits)
    moreover have "tst_table (acc_store (accounting_step s e)) = tst_table (acc_store s)"
      "acc_expired (accounting_step s e) = acc_expired s"
      by (simp_all add: Count count_bytes_def add_upload_def add_download_def split: option.splits)
    ultimately show ?thesis
      using count_step(1) [OF ok, of d l n] count_step(2) [OF ok, of d l n up k] ok t x
      by (auto simp: Count accounting_inv_def credit_def)
  next
    case Take
    show ?thesis using take_pending_facts [OF ok] in_flight_peek [OF ok, of up k] t x ok
      by (auto simp: Take accounting_inv_def known_def credit_def split_beta Let_def)
        (simp add: take_pending_def)
  next
    case (Finish io now)
    have "in_flight d l (acc_taken s) + counted d l (acc_store s) < 2 ^ 63" for d l
      using pend [of d l] by (simp add: Finish credit_def)
    from finish_step(1) [OF ok this] finish_step(2) [OF ok this, of up k] show ?thesis
      using finish_rows [OF t] x
      by (simp add: Finish accounting_inv_def credit_def)
  qed
  then show "accounting_inv (accounting_step s e)"
    "known up k (accounting_step s e) = known up k s + credit up k s e" by simp_all
qed

lemma accounting_run:
  assumes "accounting_inv s" "\<And>up k. known up k s + credited up k s es < 2 ^ 63"
  shows "known up k (foldl accounting_step s es) = known up k s + credited up k s es"
  using assms
proof (induction es arbitrary: s)
  case Nil
  then show ?case by simp
next
  case (Cons e es)
  have small: "known d l s + credit d l s e < 2 ^ 63" for d l
    using Cons.prems(2) [of d l] credited_nonneg [of d l "accounting_step s e" es]
    by (simp del: credited_nonneg)
  note step = accounting_step_facts [OF Cons.prems(1) small]
  have "known d l (accounting_step s e) + credited d l (accounting_step s e) es < 2 ^ 63" for d l
    using Cons.prems(2) [of d l] by (simp add: step(2))
  from Cons.IH [OF step(1) this] show ?case by (simp add: step(2))
qed

section \<open>Totals of a report\<close>

abbreviation u64_max :: nat where
  "u64_max \<equiv> 2 ^ 64 - 1"

definition totals_bytes :: "bool \<Rightarrow> TrafficTotals \<Rightarrow> nat" where
  "totals_bytes up t = unat (if up then tt_upload_bytes t else tt_download_bytes t)"

definition bucket_bytes :: "bool \<Rightarrow> TrafficBucket \<Rightarrow> nat" where
  "bucket_bytes up b = unat (if up then tb_upload_bytes b else tb_download_bytes b)"

definition within :: "u64 \<Rightarrow> nat \<Rightarrow> u64 \<Rightarrow> bool" where
  "within current n hour \<longleftrightarrow> unat hour \<le> unat current \<and> unat current - unat hour < n"

definition bucket_sum :: "bool \<Rightarrow> u64 \<Rightarrow> nat \<Rightarrow> TrafficBucket list \<Rightarrow> nat" where
  "bucket_sum up current n bs = sum_list (map (bucket_bytes up) (filter (\<lambda>b. within current n (tb_hour b)) bs))"

lemma bucket_sum_Nil [simp]: "bucket_sum up current n [] = 0"
  by (simp add: bucket_sum_def)

lemma bucket_sum_Cons [simp]:
  "bucket_sum up current n (b # bs) =
     (if within current n (tb_hour b) then bucket_bytes up b else 0) + bucket_sum up current n bs"
  by (simp add: bucket_sum_def)

lemma totals_bytes_add:
  "totals_bytes up (TrafficTotals_add t \<lparr>tt_upload_bytes = tb_upload_bytes b, tt_download_bytes = tb_download_bytes b\<rparr>) =
     min (totals_bytes up t + bucket_bytes up b) u64_max"
  by (simp add: totals_bytes_def TrafficTotals_add_def bucket_bytes_def unat_saturating_add)

lemma age_less:
  "tb_hour b \<le> current \<Longrightarrow> n < 2 ^ 64 \<Longrightarrow>
   saturating_sub current (tb_hour b) < of_nat n \<longleftrightarrow> within current n (tb_hour b)"
  by (simp add: word_less_nat_alt within_def unat_saturating_sub word_le_nat_alt unat_of_nat)

lemma report_bucket_totals:
  shows "totals_bytes up (ra_week (report_bucket current start b acc)) =
      (if within current 168 (tb_hour b) then min (totals_bytes up (ra_week acc) + bucket_bytes up b) u64_max
       else totals_bytes up (ra_week acc))"
    "totals_bytes up (ra_day (report_bucket current start b acc)) =
      (if within current 24 (tb_hour b) then min (totals_bytes up (ra_day acc) + bucket_bytes up b) u64_max
       else totals_bytes up (ra_day acc))"
    "totals_bytes up (ra_hour (report_bucket current start b acc)) =
      (if within current 1 (tb_hour b) then min (totals_bytes up (ra_hour acc) + bucket_bytes up b) u64_max
       else totals_bytes up (ra_hour acc))"
proof -
  have out: "\<not> within current n (tb_hour b)" if "\<not> tb_hour b \<le> current" for n
    using that by (simp add: within_def word_le_nat_alt)
  have zero: "saturating_sub current (tb_hour b) = 0 \<longleftrightarrow> within current 1 (tb_hour b)" if "tb_hour b \<le> current"
    using age_less [OF that, of 1] by (simp add: word_less_nat_alt unat_eq_0)
  show "totals_bytes up (ra_week (report_bucket current start b acc)) =
      (if within current 168 (tb_hour b) then min (totals_bytes up (ra_week acc) + bucket_bytes up b) u64_max
       else totals_bytes up (ra_week acc))"
    using age_less [of b current 168] out [of 168]
    by (cases "tb_hour b \<le> current") (auto simp: report_bucket_def Let_def totals_bytes_add not_le dest: leD)
  show "totals_bytes up (ra_day (report_bucket current start b acc)) =
      (if within current 24 (tb_hour b) then min (totals_bytes up (ra_day acc) + bucket_bytes up b) u64_max
       else totals_bytes up (ra_day acc))"
    using age_less [of b current 24] out [of 24]
    by (cases "tb_hour b \<le> current") (auto simp: report_bucket_def Let_def totals_bytes_add not_le dest: leD)
  show "totals_bytes up (ra_hour (report_bucket current start b acc)) =
      (if within current 1 (tb_hour b) then min (totals_bytes up (ra_hour acc) + bucket_bytes up b) u64_max
       else totals_bytes up (ra_hour acc))"
    using zero out [of 1]
    by (cases "tb_hour b \<le> current") (auto simp: report_bucket_def Let_def totals_bytes_add not_le dest: leD)
qed

lemma totals_bytes_max: "totals_bytes up t \<le> u64_max"
  using unat_bound [of "tt_upload_bytes t"] unat_bound [of "tt_download_bytes t"]
  by (simp add: totals_bytes_def)

lemma saturating_fold:
  assumes "\<And>b acc. T (f b acc) = (if P b then min (T acc + v b) u64_max else T acc)"
    and "\<And>acc. T acc \<le> u64_max"
  shows "T (fold f bs acc) = min (T acc + sum_list (map v (filter P bs))) u64_max"
proof (induction bs arbitrary: acc)
  case Nil
  then show ?case using assms(2) [of acc] by (simp add: min_absorb1)
next
  case (Cons b bs)
  then show ?case by (simp add: assms(1) min_def)
qed

lemma fold_report_totals:
  "totals_bytes up (ra_week (fold (report_bucket current start) bs acc)) =
     min (totals_bytes up (ra_week acc) + bucket_sum up current 168 bs) u64_max"
  "totals_bytes up (ra_day (fold (report_bucket current start) bs acc)) =
     min (totals_bytes up (ra_day acc) + bucket_sum up current 24 bs) u64_max"
  "totals_bytes up (ra_hour (fold (report_bucket current start) bs acc)) =
     min (totals_bytes up (ra_hour acc) + bucket_sum up current 1 bs) u64_max"
  unfolding bucket_sum_def
  by (rule saturating_fold, rule report_bucket_totals, rule totals_bytes_max)+

lemma build_report_totals:
  "totals_bytes up (period_week (rep_totals (build_report hours now current start bs))) =
     min (bucket_sum up current 168 bs) u64_max"
  "totals_bytes up (period_day (rep_totals (build_report hours now current start bs))) =
     min (bucket_sum up current 24 bs) u64_max"
  "totals_bytes up (period_hour (rep_totals (build_report hours now current start bs))) =
     min (bucket_sum up current 1 bs) u64_max"
  by (simp_all add: build_report_def Let_def fold_report_totals)
    (simp_all add: totals_bytes_def TrafficTotals_default_def)

lemma merge_item_sum:
  assumes "0 < n"
  shows "min (x + bucket_sum up current n (merge_item current p bs)) u64_max =
    min (x + (bucket_sum up current n bs + unat (pending_bytes up p))) u64_max"
proof (induction current p bs arbitrary: x rule: merge_item.induct)
  case (1 hour item)
  then show ?case using assms by (simp add: within_def bucket_bytes_def pending_bytes_def)
next
  case (2 hour item bucket rest)
  show ?case
  proof (cases "tb_hour bucket = hour \<and> tb_public_key bucket = pt_public_key item")
    case True
    then have "within hour n (tb_hour bucket)" using assms by (simp add: within_def)
    with True show ?thesis
      by (cases up) (auto simp: bucket_bytes_def pending_bytes_def unat_saturating_add min_def)
  next
    case False
    then have "merge_item hour item (bucket # rest) = bucket # merge_item hour item rest" by auto
    then show ?thesis
      using 2 [OF False, of "x + (if within hour n (tb_hour bucket) then bucket_bytes up bucket else 0)"]
      by (simp add: add.assoc del: merge_item.simps)
  qed
qed

lemma merge_pending_sum:
  assumes "0 < n"
  shows "min (bucket_sum up current n (merge_pending bs current ps)) u64_max =
    min (bucket_sum up current n bs + sum_list (map (\<lambda>p. unat (pending_bytes up p)) ps)) u64_max"
proof (induction ps arbitrary: bs)
  case Nil
  then show ?case by (simp add: merge_pending_def)
next
  case (Cons p ps)
  show ?case
    using Cons [of "merge_item current p bs"]
      merge_item_sum [OF assms, of "sum_list (map (\<lambda>p. unat (pending_bytes up p)) ps)" up current p bs]
    by (simp add: merge_pending_def add.commute add.left_commute)
qed

text \<open>The bytes of the rows of the last \<open>n\<close> hours, up to the hour \<open>current\<close>.\<close>

definition recent :: "bool \<Rightarrow> u64 \<Rightarrow> nat \<Rightarrow> traffic_row list \<Rightarrow> nat" where
  "recent up current n rows =
     sum_list (map (\<lambda>r. nat (row_bytes up r))
       (filter (\<lambda>r. 0 \<le> row_hour r \<and> uint current - int n < row_hour r \<and> row_hour r \<le> uint current) rows))"

lemma recent_Nil [simp]: "recent up current n [] = 0"
  by (simp add: recent_def)

lemma unat_from_sql: "i64_ok v \<Longrightarrow> unat (from_sql_integer v) = nat v"
proof -
  assume "i64_ok v"
  then have "v < 2 ^ 64" by (simp add: i64_ok_def)
  then have "uint (from_sql_integer v) = max 0 v"
    by (simp add: from_sql_integer_def uint_word_of_int_eq take_bit_int_eq_self)
  then show ?thesis unfolding unat_eq_nat_uint by simp
qed

lemma read_row_Inr:
  assumes "read_row r = Inr b" "0 \<le> row_hour r"
  shows "bucket_bytes up b = nat (row_bytes up r)"
    "within current n (tb_hour b) \<longleftrightarrow> uint current - int n < row_hour r \<and> row_hour r \<le> uint current"
proof -
  have h: "i64_ok (row_hour r)" and bytes: "i64_ok (row_upload_bytes r)" "i64_ok (row_download_bytes r)"
    and b: "tb_hour b = from_sql_integer (row_hour r)" "tb_upload_bytes b = from_sql_integer (row_upload_bytes r)"
      "tb_download_bytes b = from_sql_integer (row_download_bytes r)"
    using assms(1) by (auto simp: read_row_def split: if_splits)
  show "bucket_bytes up b = nat (row_bytes up r)"
    using bytes by (simp add: bucket_bytes_def row_bytes_def b unat_from_sql)
  have "int (unat (tb_hour b)) = row_hour r" using h assms(2) by (simp add: b unat_from_sql)
  then show "within current n (tb_hour b) \<longleftrightarrow> uint current - int n < row_hour r \<and> row_hour r \<le> uint current"
    unfolding within_def uint_nat [of current] by linarith
qed

lemma collect_rows_sum:
  assumes "collect_rows rows = Inr bs" "\<forall>r\<in>set rows. 0 \<le> row_hour r"
  shows "bucket_sum up current n bs = recent up current n rows"
  using assms
proof (induction rows arbitrary: bs)
  case Nil
  then show ?case by simp
next
  case (Cons r rows)
  then obtain b bs' where b: "read_row r = Inr b" "collect_rows rows = Inr bs'" "bs = b # bs'"
    by (auto simp: result_simps)
  have "bucket_sum up current n bs' = recent up current n rows" using Cons b(2) by simp
  moreover have "0 \<le> row_hour r" using Cons.prems by simp
  ultimately show ?case using read_row_Inr [OF b(1)] by (simp add: b(3) recent_def)
qed

lemma recent_mset: "mset xs = mset ys \<Longrightarrow> recent up current n xs = recent up current n ys"
  unfolding recent_def
  by (simp only: mset_map mset_filter flip: sum_mset_sum_list)

lemma uint_saturating_sub: "uint (saturating_sub a (b :: u64)) = max 0 (uint a - uint b)"
  unfolding uint_nat [of "saturating_sub a b"] uint_nat [of a] uint_nat [of b] unat_saturating_sub
  by linarith

lemma hour_small: "uint (now div SECONDS_PER_HOUR) < 2 ^ 63"
proof -
  have "uint (now div SECONDS_PER_HOUR) = uint now div 3600" by (simp add: SECONDS_PER_HOUR_def uint_div)
  moreover have "uint now < 2 ^ 64" using uint_bounded [of now] by simp
  ultimately show ?thesis by simp
qed

lemma load_buckets_sum:
  assumes "load_buckets io store start current = Inr bs" "uint current < 2 ^ 63"
    and "uint start \<le> max 0 (uint current - 167)" "n \<le> 168"
  shows "bucket_sum up current n bs = recent up current n (tst_table store)"
proof -
  have "uint start < 2 ^ 63" using assms(2,3) by simp
  then have sql: "to_sql_integer start = uint start" "to_sql_integer current = uint current"
    using assms(2) by (simp_all add: to_sql_integer_def)
  let ?rows = "filter (\<lambda>r. uint start \<le> row_hour r \<and> row_hour r \<le> uint current) (tst_table store)"
  have rows: "collect_rows (sort_key row_hour ?rows) = Inr bs"
    using assms(1) by (simp add: load_buckets_def sql result_simps)
  have "\<forall>r\<in>set (sort_key row_hour ?rows). 0 \<le> row_hour r"
    by (auto intro: order_trans [OF uint_ge_0])
  from collect_rows_sum [OF rows this] have "bucket_sum up current n bs = recent up current n ?rows"
    by (simp add: recent_mset [of "sort_key row_hour ?rows" ?rows])
  also have "\<dots> = recent up current n (tst_table store)"
  proof -
    have "filter (\<lambda>r. 0 \<le> row_hour r \<and> uint current - int n < row_hour r \<and> row_hour r \<le> uint current) ?rows =
        filter (\<lambda>r. 0 \<le> row_hour r \<and> uint current - int n < row_hour r \<and> row_hour r \<le> uint current) (tst_table store)"
      unfolding filter_filter using assms(3,4)
      by (intro filter_cong refl) auto
    then show ?thesis by (simp only: recent_def)
  qed
  finally show ?thesis .
qed

section \<open>Properties\<close>

lemma rows_nonneg_legacy: "rows_nonneg (map legacy_row bs)"
  by (auto simp: rows_nonneg_def legacy_row_def to_sql_integer_def)

lemma opened_store:
  assumes "TrafficStore_open io legacy (Inr (table, migrated)) = Inr store" "rows_nonneg table"
  shows "accounting_inv \<lparr>acc_store = store, acc_taken = [], acc_expired = []\<rparr>"
    "known up k \<lparr>acc_store = store, acc_taken = [], acc_expired = []\<rparr> = durable up k (tst_table store)"
proof -
  have "rows_nonneg (tst_table store) \<and> tst_counters store = []"
    using assms rows_nonneg_fold [OF assms(2) rows_nonneg_legacy]
    by (auto simp: TrafficStore_open_def migrate_legacy_toml_def Let_def
        split: if_splits option.splits sum.splits)
  then show "accounting_inv \<lparr>acc_store = store, acc_taken = [], acc_expired = []\<rparr>"
    "known up k \<lparr>acc_store = store, acc_taken = [], acc_expired = []\<rparr> = durable up k (tst_table store)"
    by (simp_all add: accounting_inv_def cells_ok_def known_def counted_def rows_nonneg_def)
qed

text \<open>
  C17. Start from an opened store whose rows are not negative, and run any interleaving of handshakes
  attaching counters, sessions counting bytes, and flushes that take the counters and then commit or
  fail. As long as no device's bytes reach 2 to the power 63, for every device and both directions the bytes in the
  table, in rows that retention deleted, in an unfinished flush and in the counter add up to the bytes
  the table started with and all the bytes counted since: none is lost and none is counted twice.
\<close>
theorem traffic_is_conserved:
  assumes "TrafficStore_open io legacy (Inr (table, migrated)) = Inr store" "rows_nonneg table"
    and "\<And>up k. durable up k (tst_table store) +
           credited up k \<lparr>acc_store = store, acc_taken = [], acc_expired = []\<rparr> es < 2 ^ 63"
    and "s = foldl accounting_step \<lparr>acc_store = store, acc_taken = [], acc_expired = []\<rparr> es"
  shows "durable up k (tst_table (acc_store s)) + durable up k (acc_expired s) +
      in_flight up k (acc_taken s) + counted up k (acc_store s) =
    durable up k (tst_table store) + credited up k \<lparr>acc_store = store, acc_taken = [], acc_expired = []\<rparr> es"
proof -
  note start = opened_store [OF assms(1,2)]
  have "known up k s = durable up k (tst_table store) +
      credited up k \<lparr>acc_store = store, acc_taken = [], acc_expired = []\<rparr> es"
    unfolding assms(4) using accounting_run [OF start(1), of es up k] assms(3) by (simp add: start(2))
  then show ?thesis by (simp add: known_def)
qed

fun requested :: "bool \<Rightarrow> string \<Rightarrow> accounting_event list \<Rightarrow> int" where
  "requested up k [] = 0"
| "requested up k (Count d l n # es) = (if d = up \<and> l = k then uint n else 0) + requested up k es"
| "requested up k (_ # es) = requested up k es"

lemma credited_le: "credited up k s es \<le> requested up k es"
proof (induction es arbitrary: s)
  case Nil
  then show ?case by simp
next
  case (Cons e es)
  have "credit up k s e \<le> requested up k [e]" by (cases e) (simp_all add: credit_def)
  moreover have "requested up k (e # es) = requested up k [e] + requested up k es" by (cases e) simp_all
  ultimately show ?case using Cons.IH [of "accounting_step s e"] by simp
qed

lemma restore_counters: "map_of (tst_counters store) k \<noteq> None \<Longrightarrow> map_of (tst_counters (restore_pending store items)) k \<noteq> None"
  by (induction items arbitrary: store)
    (auto simp: restore_pending_def restore_item_def add_upload_def add_download_def traffic_counter_def hm_get
      Let_def split_beta split: option.splits)

lemma accounting_step_counters:
  "map_of (tst_counters (acc_store s)) k \<noteq> None \<Longrightarrow> map_of (tst_counters (acc_store (accounting_step s e))) k \<noteq> None"
  using restore_counters [of "acc_store s" k "acc_taken s"]
  by (cases e) (auto simp: traffic_counter_def hm_get Let_def count_bytes_def add_upload_def add_download_def
      take_pending_def finish_flush_def persist_pending_def split: option.splits sum.splits)

lemma credited_attached:
  "map_of (tst_counters (acc_store s)) k \<noteq> None \<Longrightarrow> credited up k s es = requested up k es"
proof (induction es arbitrary: s)
  case Nil
  then show ?case by simp
next
  case (Cons e es)
  then show ?case using accounting_step_counters [OF Cons.prems, of e]
    by (cases e) (auto simp: credit_def simp del: accounting_step.simps)
qed

definition sample_events :: "accounting_event list" where
  "sample_events =
     [Attach ''k'' [0x61], Count True ''k'' 5, Take, Count True ''k'' 7, Finish (Inl ''database is locked'') 7200,
      Take, Count False ''k'' 9, Finish (Inr ()) 7200]"

definition sample_store :: TrafficStore where
  "sample_store = \<lparr>tst_table = [], tst_migrated = True, tst_counters = [],
     tst_cells = (\<lambda>_. DeviceTrafficCounter_default), tst_next_cell = 0\<rparr>"

lemma sample_credited:
  "credited up ''k'' \<lparr>acc_store = sample_store, acc_taken = [], acc_expired = []\<rparr> sample_events =
    (if up then 12 else 9)"
proof -
  let ?s = "\<lparr>acc_store = sample_store, acc_taken = [], acc_expired = []\<rparr>"
  have "map_of (tst_counters (acc_store (accounting_step ?s (Attach ''k'' [0x61])))) ''k'' \<noteq> None"
    by (simp add: traffic_counter_def sample_store_def hm_get Let_def)
  note attached = credited_attached [OF this]
  show ?thesis
    unfolding sample_events_def
    by (subst credited.simps(2), subst attached, simp add: credit_def)
qed

theorem traffic_is_conserved_witness:
  "\<exists>store s. TrafficStore_open (Inr ()) None (Inr ([], False)) = Inr store \<and>
     s = foldl accounting_step \<lparr>acc_store = store, acc_taken = [], acc_expired = []\<rparr> sample_events \<and>
     durable True ''k'' (tst_table (acc_store s)) + durable True ''k'' (acc_expired s) +
       in_flight True ''k'' (acc_taken s) + counted True ''k'' (acc_store s) = 12"
proof -
  have opened: "TrafficStore_open (Inr ()) None (Inr ([], False)) = Inr sample_store"
    by (simp add: TrafficStore_open_def migrate_legacy_toml_def sample_store_def)
  have empty: "rows_nonneg []" by (simp add: rows_nonneg_def)
  have small: "durable up k (tst_table sample_store) +
      credited up k \<lparr>acc_store = sample_store, acc_taken = [], acc_expired = []\<rparr> sample_events < 2 ^ 63" for up k
  proof -
    have "requested up k sample_events \<le> 21" by (simp add: sample_events_def)
    moreover have "durable up k (tst_table sample_store) = 0" by (simp add: sample_store_def)
    ultimately have "durable up k (tst_table sample_store) +
        credited up k \<lparr>acc_store = sample_store, acc_taken = [], acc_expired = []\<rparr> sample_events \<le> 21"
      using credited_le [of up k "\<lparr>acc_store = sample_store, acc_taken = [], acc_expired = []\<rparr>" sample_events]
      by linarith
    then show ?thesis by (rule order.strict_trans1) simp
  qed
  have "durable True ''k'' (tst_table sample_store) +
      credited True ''k'' \<lparr>acc_store = sample_store, acc_taken = [], acc_expired = []\<rparr> sample_events = 12"
    by (simp add: sample_credited) (simp add: sample_store_def)
  with traffic_is_conserved [OF opened empty small refl, of True "''k''"] opened show ?thesis by auto
qed

text \<open>
  The totals of a report are exact: for the last hour, day and week and both directions they are the
  bytes of the table's rows in that period plus the bytes still in the counters, capped at the largest
  64-bit value.
\<close>
lemma report_totals_exact:
  assumes "report_at io store hours now = Inr report"
    and "current = now div SECONDS_PER_HOUR"
    and "unflushed = sum_list (map (\<lambda>p. unat (pending_bytes up p)) (peek_pending store))"
  shows "totals_bytes up (period_hour (rep_totals report)) =
      min (recent up current 1 (tst_table store) + unflushed) u64_max \<and>
    totals_bytes up (period_day (rep_totals report)) =
      min (recent up current 24 (tst_table store) + unflushed) u64_max \<and>
    totals_bytes up (period_week (rep_totals report)) =
      min (recent up current 168 (tst_table store) + unflushed) u64_max"
proof -
  define hours' where "hours' = max 1 (min hours MAX_QUERY_HOURS)"
  define start where "start = saturating_sub current (hours' - 1)"
  obtain bs where bs: "load_buckets io store (min start (saturating_sub current 167)) current = Inr bs"
    and report: "report = build_report hours' now current start (merge_pending bs current (peek_pending store))"
    using assms(1) by (auto simp: report_at_def Let_def result_simps hours'_def start_def assms(2))
  have small: "uint current < 2 ^ 63" unfolding assms(2) by (rule hour_small)
  have week: "uint (min start (saturating_sub current 167)) \<le> max 0 (uint current - 167)"
    using uint_saturating_sub [of current 167] by (simp add: min_def word_le_def)
  note sums = load_buckets_sum [OF bs small week]
  show ?thesis
    unfolding report assms(3) by (simp only: build_report_totals merge_pending_sum sums)
qed

end
