(* ===== verification/ServerWire.thy ===== *)
theory ServerWire
  imports ClientWire Registry
begin

text \<open>
  The server's wire layer (\<^verbatim>\<open>server/daemon.rs\<close>): the wire mode of a session, the router that finds the
  device of a masked datagram by its routing tag, and the decoding of a received datagram. The router
  reads the clock several times while it rebuilds its tables; each reading is a separate argument, so
  nothing is assumed of how far the clock moves in between. The devices are visited in the iteration
  order of a hash set, also an argument. Clones of a Speedy codec share their route cache in the source
  and carry a copy of it here; the answers of a codec do not depend on its cache.
\<close>

section \<open>Wire modes\<close>

datatype WireMode =
  SLegacy
| SSpeedy (sw_client_public_key: PublicKey) (sw_speedy: SpeedyCodec)
| SMorph (sw_client_public_key: PublicKey) (sw_morph: MorphCodec)

fun encode_server ::
  "wire_libs \<Rightarrow> u64 option \<Rightarrow> string + bytes \<Rightarrow> WireMode \<Rightarrow> bytes \<Rightarrow> (unit + bytes) \<times> WireMode" where
  "encode_server W now rng SLegacy inner = (Inr inner, SLegacy)"
| "encode_server W now rng (SMorph key codec) inner =
     (map_err (\<lambda>_. ()) (MorphCodec_encode_payload (wl_morph W) now rng codec inner ServerToClient),
      SMorph key codec)"
| "encode_server W now rng (SSpeedy key codec) inner =
     (let (r, codec') = SpeedyCodec_encode (wl_speedy W) now codec inner SpServerToClient
      in (map_err (\<lambda>_. ()) r, SSpeedy key codec'))"

fun allows_client :: "WireMode \<Rightarrow> PublicKey \<Rightarrow> bool" where
  "allows_client SLegacy public_key = True"
| "allows_client (SMorph client_public_key codec) public_key = (client_public_key = public_key)"
| "allows_client (SSpeedy client_public_key codec) public_key = (client_public_key = public_key)"

fun wire_matches :: "WireMode \<Rightarrow> WireMode \<Rightarrow> bool" where
  "wire_matches SLegacy SLegacy = True"
| "wire_matches (SSpeedy expected c) (SSpeedy actual d) = (expected = actual)"
| "wire_matches (SMorph expected c) (SMorph actual d) = (expected = actual \<and> mc_profile c = mc_profile d)"
| "wire_matches _ _ = False"

fun session_mtu :: "WireMode \<Rightarrow> u16 \<Rightarrow> u16" where
  "session_mtu SLegacy configured = configured"
| "session_mtu (SSpeedy key codec) configured = min configured SPEEDY_SAFE_TUN_MTU"
| "session_mtu (SMorph key codec) configured = min configured MORPH_SAFE_TUN_MTU"

section \<open>Routing\<close>

record MorphRoute =
  mr_public_key :: PublicKey
  mr_key :: MorphKey
  mr_profile :: Profile

record MorphRouter =
  ro_epoch :: "u64 option"
  ro_keys :: "PublicKey \<rightharpoonup> MorphKey"
  ro_speedy_codecs :: "PublicKey \<rightharpoonup> SpeedyCodec"
  ro_speedy_routes :: "bytes \<rightharpoonup> PublicKey \<times> SpeedyCodec"
  ro_routes :: "bytes \<rightharpoonup> MorphRoute"
  ro_ambiguous :: "bytes set"

definition MorphRouter_default :: MorphRouter where
  "MorphRouter_default = \<lparr>ro_epoch = None, ro_keys = Map.empty, ro_speedy_codecs = Map.empty,
     ro_speedy_routes = Map.empty, ro_routes = Map.empty, ro_ambiguous = {}\<rparr>"

datatype clock_read = AtResolve | AtProfile PublicKey Profile | AtSpeedy PublicKey | AtDecode

type_synonym clock = "clock_read \<Rightarrow> u64 option"

definition add_morph_tag :: "MorphRoute \<Rightarrow> bytes \<Rightarrow> MorphRouter \<Rightarrow> MorphRouter" where
  "add_morph_tag route tag router =
     (if tag \<in> ro_ambiguous router then router
      else if ro_speedy_routes router tag \<noteq> None
      then router\<lparr>ro_speedy_routes := (ro_speedy_routes router)(tag := None),
                  ro_ambiguous := insert tag (ro_ambiguous router)\<rparr>
      else
        (case ro_routes router tag of
           None \<Rightarrow> router\<lparr>ro_routes := (ro_routes router)(tag \<mapsto> route)\<rparr>
         | Some _ \<Rightarrow> router\<lparr>ro_routes := (ro_routes router)(tag := None),
                           ro_ambiguous := insert tag (ro_ambiguous router)\<rparr>))"

definition add_speedy_tag :: "PublicKey \<Rightarrow> SpeedyCodec \<Rightarrow> bytes \<Rightarrow> MorphRouter \<Rightarrow> MorphRouter" where
  "add_speedy_tag public_key codec tag router =
     (if tag \<in> ro_ambiguous router then router
      else
        (case ro_routes router tag of
           Some _ \<Rightarrow> router\<lparr>ro_routes := (ro_routes router)(tag := None),
                           ro_ambiguous := insert tag (ro_ambiguous router)\<rparr>
         | None \<Rightarrow>
             (case ro_speedy_routes router tag of
                Some _ \<Rightarrow> router\<lparr>ro_speedy_routes := (ro_speedy_routes router)(tag := None),
                                ro_ambiguous := insert tag (ro_ambiguous router)\<rparr>
              | None \<Rightarrow> router\<lparr>ro_speedy_routes := (ro_speedy_routes router)(tag \<mapsto> (public_key, codec))\<rparr>)))"

definition add_profile_routes ::
  "wire_libs \<Rightarrow> clock \<Rightarrow> PublicKey \<Rightarrow> MorphKey \<Rightarrow> Profile \<Rightarrow> MorphRouter \<Rightarrow> MorphRouter" where
  "add_profile_routes W clk public_key key profile router =
     (case current_epoch (clk (AtProfile public_key profile)) profile of
        Inl _ \<Rightarrow> router
      | Inr profile_epoch \<Rightarrow>
          fold (\<lambda>accepted. add_morph_tag \<lparr>mr_public_key = public_key, mr_key = key, mr_profile = profile\<rparr>
                  (routing_tag_at (wl_morph W) key profile ClientToServer accepted))
            (accepted_epochs profile_epoch) router)"

definition add_speedy_routes ::
  "wire_libs \<Rightarrow> clock \<Rightarrow> ValidatedServerConfig \<Rightarrow> PublicKey \<Rightarrow> MorphRouter \<Rightarrow> (unit + unit) \<times> MorphRouter" where
  "add_speedy_routes W clk config public_key router =
     (case (case ro_speedy_codecs router public_key of
              Some codec \<Rightarrow> Inr (codec, router)
            | None \<Rightarrow>
                bind_r (map_err (\<lambda>_. ()) (derive_speedy_key (wl_crypto W) (vsc_server_private_key config)
                    public_key (vsc_server_public_key config) public_key)) (\<lambda>key.
                  let codec = SpeedyCodec_new (wl_speedy W) (SpeedyKey key) in
                  Inr (codec, router\<lparr>ro_speedy_codecs := (ro_speedy_codecs router)(public_key \<mapsto> codec)\<rparr>))) of
        Inl _ \<Rightarrow> (Inl (), router)
      | Inr (codec, router') \<Rightarrow>
          (case sp_current_epoch (clk (AtSpeedy public_key)) of
             Inl _ \<Rightarrow> (Inl (), router')
           | Inr epoch \<Rightarrow>
               (Inr (), fold (\<lambda>accepted. add_speedy_tag public_key codec
                                (sp_routing_tag_at (wl_speedy W) codec SpClientToServer accepted))
                          (sp_accepted_epochs epoch) router')))"

definition refresh_device ::
  "wire_libs \<Rightarrow> clock \<Rightarrow> ValidatedServerConfig \<Rightarrow> PublicKey \<Rightarrow> MorphRouter \<Rightarrow> (unit + unit) \<times> MorphRouter" where
  "refresh_device W clk config public_key router =
     (case (case ro_keys router public_key of
              Some key \<Rightarrow> Inr (key, router)
            | None \<Rightarrow>
                bind_r (derive_morph_key (wl_crypto W) (vsc_server_private_key config) public_key
                    (vsc_server_public_key config) public_key) (\<lambda>key.
                  Inr (MorphKey key, router\<lparr>ro_keys := (ro_keys router)(public_key \<mapsto> MorphKey key)\<rparr>))) of
        Inl _ \<Rightarrow> (Inr (), router)
      | Inr (key, router') \<Rightarrow>
          add_speedy_routes W clk config public_key
            (fold (add_profile_routes W clk public_key key) [Quiet, Balanced, Paranoid] router'))"

fun refresh_devices ::
  "wire_libs \<Rightarrow> clock \<Rightarrow> ValidatedServerConfig \<Rightarrow> PublicKey list \<Rightarrow> MorphRouter \<Rightarrow> (unit + unit) \<times> MorphRouter" where
  "refresh_devices W clk config [] router = (Inr (), router)"
| "refresh_devices W clk config (public_key # rest) router =
     (case refresh_device W clk config public_key router of
        (Inl e, router') \<Rightarrow> (Inl e, router')
      | (Inr _, router') \<Rightarrow> refresh_devices W clk config rest router')"

definition registered_keys :: "base64_lib \<Rightarrow> DeviceRegistry \<Rightarrow> PublicKey list" where
  "registered_keys B R =
     remdups (List.map_filter (\<lambda>device. ok (decode_public_key B (rec_public_key device))) (dr_devices R))"

definition refresh ::
  "wire_libs \<Rightarrow> base64_lib \<Rightarrow> (PublicKey list \<Rightarrow> PublicKey list) \<Rightarrow> clock \<Rightarrow> u64 \<Rightarrow> ValidatedServerConfig \<Rightarrow>
   DeviceRegistry \<Rightarrow> MorphRouter \<Rightarrow> (unit + unit) \<times> MorphRouter" where
  "refresh W B hash_order clk epoch config authorized router =
     (let devices = registered_keys B authorized;
          retained = router\<lparr>ro_keys := (\<lambda>k. if k \<in> set devices then ro_keys router k else None),
                            ro_speedy_codecs := (\<lambda>k. if k \<in> set devices then ro_speedy_codecs router k else None),
                            ro_speedy_routes := Map.empty, ro_routes := Map.empty, ro_ambiguous := {}\<rparr>
      in
      case refresh_devices W clk config (hash_order devices) retained of
        (Inl e, router') \<Rightarrow> (Inl e, router')
      | (Inr _, router') \<Rightarrow> (Inr (), router'\<lparr>ro_epoch := Some epoch\<rparr>))"

definition resolve ::
  "wire_libs \<Rightarrow> base64_lib \<Rightarrow> (PublicKey list \<Rightarrow> PublicKey list) \<Rightarrow> clock \<Rightarrow> bytes \<Rightarrow> ValidatedServerConfig \<Rightarrow>
   DeviceRegistry \<Rightarrow> MorphRouter \<Rightarrow> MorphRoute option \<times> MorphRouter" where
  "resolve W B hash_order clk input config authorized router =
     (if length input < 8 then (None, router)
      else
        (case current_epoch (clk AtResolve) Paranoid of
           Inl _ \<Rightarrow> (None, router)
         | Inr epoch \<Rightarrow>
             (case (if ro_epoch router \<noteq> Some epoch then refresh W B hash_order clk epoch config authorized router
                    else (Inr (), router)) of
                (Inl _, router') \<Rightarrow> (None, router')
              | (Inr _, router') \<Rightarrow> (ro_routes router' (take 8 input), router'))))"

definition decode_wire_into ::
  "wire_libs \<Rightarrow> base64_lib \<Rightarrow> (PublicKey list \<Rightarrow> PublicKey list) \<Rightarrow> clock \<Rightarrow> bytes \<Rightarrow> ValidatedServerConfig \<Rightarrow>
   DeviceRegistry \<Rightarrow> MorphRouter \<Rightarrow> (WireMode \<times> bytes) option \<times> MorphRouter" where
  "decode_wire_into W B hash_order clk input config authorized router =
     (case resolve W B hash_order clk input config authorized router of
        (None, router') \<Rightarrow>
          if length input < 8 then (Some (SLegacy, input), router')
          else if take 8 input \<in> ro_ambiguous router' then (None, router')
          else
            (case ro_speedy_routes router' (take 8 input) of
               None \<Rightarrow> (Some (SLegacy, input), router')
             | Some (public_key, codec) \<Rightarrow>
                 (case SpeedyCodec_decode (wl_speedy W) (clk AtDecode) codec input SpClientToServer of
                    (Inl _, codec') \<Rightarrow>
                      (None, router'\<lparr>ro_speedy_routes :=
                          (ro_speedy_routes router')(take 8 input \<mapsto> (public_key, codec'))\<rparr>)
                  | (Inr output, codec') \<Rightarrow>
                      (Some (SSpeedy public_key codec', output),
                       router'\<lparr>ro_speedy_routes :=
                          (ro_speedy_routes router')(take 8 input \<mapsto> (public_key, codec'))\<rparr>)))
      | (Some route, router') \<Rightarrow>
          (case MorphCodec_decode (wl_morph W) (clk AtDecode)
                  \<lparr>mc_key = mr_key route, mc_profile = mr_profile route\<rparr> input ClientToServer of
             Inr (DecodedPayload profile, output) \<Rightarrow>
               (Some (SMorph (mr_public_key route) \<lparr>mc_key = mr_key route, mc_profile = profile\<rparr>, output), router')
           | _ \<Rightarrow> (None, router')))"

section \<open>Tables in which a contested key has no owner\<close>

text \<open>
  What a table of routing tags shows of a tag: nothing, its only owner, or that several claimed it. A
  sequence of claims leaves a tag with the owner it had alone, whatever the order of the claims.
\<close>

datatype 'v slot = Unclaimed | Owned 'v | Contested

fun tally :: "'v list \<Rightarrow> 'v slot" where
  "tally [] = Unclaimed"
| "tally [v] = Owned v"
| "tally (_ # _ # _) = Contested"

definition claim_slot :: "'v slot \<Rightarrow> 'v \<Rightarrow> 'v slot" where
  "claim_slot s v = (if s = Unclaimed then Owned v else Contested)"

lemma tally_snoc: "tally (vs @ [v]) = claim_slot (tally vs) v"
  by (cases vs rule: tally.cases) (simp_all add: claim_slot_def)

lemma tally_Owned: "tally vs = Owned v \<longleftrightarrow> vs = [v]"
  by (cases vs rule: tally.cases) auto

lemma tally_Contested: "tally vs = Contested \<longleftrightarrow> 2 \<le> length vs"
  by (cases vs rule: tally.cases) auto

locale claim_table =
  fixes add :: "'e \<Rightarrow> 'r \<Rightarrow> 'r"
    and key :: "'e \<Rightarrow> 'k"
    and owner :: "'e \<Rightarrow> 'v"
    and shown :: "'r \<Rightarrow> 'k \<Rightarrow> 'v slot"
  assumes shown_add: "shown (add e r) k = (if key e = k then claim_slot (shown r k) (owner e) else shown r k)"
begin

lemma shown_fold:
  assumes "shown r k = tally (vs k)"
  shows "shown (fold add es r) k = tally (vs k @ map owner (filter (\<lambda>e. key e = k) es))"
  using assms
proof (induction es arbitrary: r vs)
  case Nil
  then show ?case by simp
next
  case (Cons e es)
  let ?vs = "\<lambda>l. vs l @ (if key e = l then [owner e] else [])"
  have "shown (add e r) k = tally (?vs k)" using Cons.prems by (simp add: shown_add tally_snoc)
  from Cons.IH [of "add e r" ?vs, OF this] show ?case by simp
qed

end

definition shown_route :: "MorphRouter \<Rightarrow> bytes \<Rightarrow> (PublicKey \<times> Profile option) slot" where
  "shown_route router tag =
     (if tag \<in> ro_ambiguous router then Contested
      else case ro_routes router tag of
        Some route \<Rightarrow> Owned (mr_public_key route, Some (mr_profile route))
      | None \<Rightarrow> (case ro_speedy_routes router tag of
                  Some (public_key, _) \<Rightarrow> Owned (public_key, None)
                | None \<Rightarrow> Unclaimed))"

lemma shown_add_morph_tag:
  "shown_route (add_morph_tag route tag router) k =
     (if tag = k then claim_slot (shown_route router k) (mr_public_key route, Some (mr_profile route))
      else shown_route router k)"
proof (cases "tag = k")
  case True
  then show ?thesis
    by (cases "k \<in> ro_ambiguous router"; cases "ro_speedy_routes router k"; cases "ro_routes router k")
      (simp_all add: add_morph_tag_def shown_route_def claim_slot_def split_beta)
next
  case False
  then show ?thesis by (simp add: add_morph_tag_def shown_route_def split: option.split)
qed

lemma shown_add_speedy_tag:
  "shown_route (add_speedy_tag pk codec tag router) k =
     (if tag = k then claim_slot (shown_route router k) (pk, None) else shown_route router k)"
proof (cases "tag = k")
  case True
  then show ?thesis
    by (cases "k \<in> ro_ambiguous router"; cases "ro_speedy_routes router k"; cases "ro_routes router k")
      (simp_all add: add_speedy_tag_def shown_route_def claim_slot_def split_beta)
next
  case False
  then show ?thesis by (simp add: add_speedy_tag_def shown_route_def split: option.split)
qed

interpretation morph_claims: claim_table
  "\<lambda>(route, tag). add_morph_tag route tag" snd "\<lambda>(route, tag). (mr_public_key route, Some (mr_profile route))"
  shown_route
  by unfold_locales (simp add: shown_add_morph_tag split_beta)

interpretation speedy_claims: claim_table
  "\<lambda>(public_key, codec, tag). add_speedy_tag public_key codec tag" "\<lambda>(public_key, codec, tag). tag"
  "\<lambda>(public_key, codec, tag). (public_key, None)" shown_route
  by unfold_locales (simp add: shown_add_speedy_tag split_beta)

section \<open>Soundness of the tables\<close>

text \<open>The keys the server derives for a client.\<close>

definition server_morph_key :: "wire_libs \<Rightarrow> ValidatedServerConfig \<Rightarrow> PublicKey \<Rightarrow> CryptoError + bytes" where
  "server_morph_key W config pk =
     derive_morph_key (wl_crypto W) (vsc_server_private_key config) pk (vsc_server_public_key config) pk"

definition server_speedy_key :: "wire_libs \<Rightarrow> ValidatedServerConfig \<Rightarrow> PublicKey \<Rightarrow> CryptoError + bytes" where
  "server_speedy_key W config pk =
     derive_speedy_key (wl_crypto W) (vsc_server_private_key config) pk (vsc_server_public_key config) pk"

definition own_codec :: "wire_libs \<Rightarrow> ValidatedServerConfig \<Rightarrow> PublicKey \<Rightarrow> SpeedyCodec \<Rightarrow> bool" where
  "own_codec W config pk codec \<longleftrightarrow> cache_ok (wl_speedy W) codec \<and>
     (\<exists>key. server_speedy_key W config pk = Inr key \<and>
        sc_keys codec = sc_keys (SpeedyCodec_new (wl_speedy W) (SpeedyKey key)))"

text \<open>
  Every key and codec in the tables is the one derived for its client; a tag with two claims has no
  route, and no tag has a route of both kinds.
\<close>

definition router_sound :: "wire_libs \<Rightarrow> ValidatedServerConfig \<Rightarrow> MorphRouter \<Rightarrow> bool" where
  "router_sound W config router \<longleftrightarrow>
     (\<forall>pk key. ro_keys router pk = Some key \<longrightarrow> server_morph_key W config pk = Inr (mk_bytes key)) \<and>
     (\<forall>pk codec. ro_speedy_codecs router pk = Some codec \<longrightarrow> own_codec W config pk codec) \<and>
     (\<forall>tag route. ro_routes router tag = Some route \<longrightarrow>
        server_morph_key W config (mr_public_key route) = Inr (mk_bytes (mr_key route))) \<and>
     (\<forall>tag pk codec. ro_speedy_routes router tag = Some (pk, codec) \<longrightarrow> own_codec W config pk codec) \<and>
     (\<forall>tag. tag \<in> ro_ambiguous router \<longrightarrow> ro_routes router tag = None \<and> ro_speedy_routes router tag = None) \<and>
     (\<forall>tag. ro_routes router tag = None \<or> ro_speedy_routes router tag = None)"

lemma router_sound_default: "router_sound W config MorphRouter_default"
  by (simp add: router_sound_def MorphRouter_default_def)

lemma router_soundD:
  assumes "router_sound W config router"
  shows "ro_keys router pk = Some key \<Longrightarrow> server_morph_key W config pk = Inr (mk_bytes key)"
    "ro_speedy_codecs router pk = Some codec \<Longrightarrow> own_codec W config pk codec"
    "ro_routes router tag = Some route \<Longrightarrow>
       server_morph_key W config (mr_public_key route) = Inr (mk_bytes (mr_key route))"
    "ro_speedy_routes router tag = Some (pk, codec) \<Longrightarrow> own_codec W config pk codec"
    "tag \<in> ro_ambiguous router \<Longrightarrow> ro_routes router tag = None"
    "tag \<in> ro_ambiguous router \<Longrightarrow> ro_speedy_routes router tag = None"
    "ro_routes router tag \<noteq> None \<Longrightarrow> ro_speedy_routes router tag = None"
proof -
  show "ro_routes router tag \<noteq> None \<Longrightarrow> ro_speedy_routes router tag = None"
    using assms unfolding router_sound_def by (elim conjE) metis
qed (use assms in \<open>simp_all add: router_sound_def\<close>)

lemma router_sound_contest:
  assumes "router_sound W config router"
  shows "ro_routes router tag = None \<Longrightarrow> router_sound W config
      (router\<lparr>ro_speedy_routes := (ro_speedy_routes router)(tag := None), ro_ambiguous := insert tag (ro_ambiguous router)\<rparr>)"
    "ro_speedy_routes router tag = None \<Longrightarrow> router_sound W config
      (router\<lparr>ro_routes := (ro_routes router)(tag := None), ro_ambiguous := insert tag (ro_ambiguous router)\<rparr>)"
  using assms by (simp_all add: router_sound_def)

lemma router_sound_claim:
  assumes "router_sound W config router" "tag \<notin> ro_ambiguous router"
    and "ro_routes router tag = None" "ro_speedy_routes router tag = None"
  shows "server_morph_key W config (mr_public_key route) = Inr (mk_bytes (mr_key route)) \<Longrightarrow>
      router_sound W config (router\<lparr>ro_routes := (ro_routes router)(tag \<mapsto> route)\<rparr>)"
    "own_codec W config pk codec \<Longrightarrow>
      router_sound W config (router\<lparr>ro_speedy_routes := (ro_speedy_routes router)(tag \<mapsto> (pk, codec))\<rparr>)"
  using assms by (simp_all add: router_sound_def)

lemma add_morph_tag_sound [inv_intros]:
  assumes sound: "router_sound W config router"
    and key: "server_morph_key W config (mr_public_key route) = Inr (mk_bytes (mr_key route))"
  shows "router_sound W config (add_morph_tag route tag router)"
proof (cases "tag \<in> ro_ambiguous router")
  case True
  then show ?thesis using sound by (simp add: add_morph_tag_def)
next
  case False
  show ?thesis
  proof (cases "ro_routes router tag")
    case None
    then show ?thesis
      using router_sound_contest(1) [OF sound None] router_sound_claim(1) [OF sound False None _ key] False
      by (cases "ro_speedy_routes router tag") (simp_all add: add_morph_tag_def)
  next
    case (Some other)
    then have "ro_speedy_routes router tag = None" using router_soundD(7) [OF sound] by simp
    with Some show ?thesis using router_sound_contest(2) [OF sound] False by (simp add: add_morph_tag_def)
  qed
qed

lemma add_speedy_tag_sound [inv_intros]:
  assumes sound: "router_sound W config router" and codec: "own_codec W config pk codec"
  shows "router_sound W config (add_speedy_tag pk codec tag router)"
proof (cases "tag \<in> ro_ambiguous router")
  case True
  then show ?thesis using sound by (simp add: add_speedy_tag_def)
next
  case False
  show ?thesis
  proof (cases "ro_routes router tag")
    case None
    then show ?thesis
      using router_sound_contest(1) [OF sound None] router_sound_claim(2) [OF sound False None _ codec] False
      by (simp add: add_speedy_tag_def split: option.splits)
  next
    case (Some other)
    then have "ro_speedy_routes router tag = None" using router_soundD(7) [OF sound] by simp
    with Some show ?thesis using router_sound_contest(2) [OF sound] False by (simp add: add_speedy_tag_def)
  qed
qed

lemma add_profile_routes_sound [inv_intros]:
  assumes "router_sound W config router" "server_morph_key W config pk = Inr (mk_bytes key)"
  shows "router_sound W config (add_profile_routes W clk pk key profile router)"
proof -
  have "router_sound W config (fold (\<lambda>e. add_morph_tag \<lparr>mr_public_key = pk, mr_key = key, mr_profile = profile\<rparr> (f e)) es r)"
    if "router_sound W config r" for es r and f :: "u64 \<Rightarrow> bytes"
    using that by (induction es arbitrary: r) (simp_all add: add_morph_tag_sound assms(2))
  then show ?thesis using assms(1) by (simp add: add_profile_routes_def split: sum.splits)
qed

lemma fold_profiles_sound [inv_intros]:
  "router_sound W config router \<Longrightarrow> server_morph_key W config pk = Inr (mk_bytes key) \<Longrightarrow>
   router_sound W config (fold (add_profile_routes W clk pk key) profiles router)"
  by (induction profiles arbitrary: router) (simp_all add: add_profile_routes_sound)

lemma shown_route_other [simp]:
  "shown_route (router\<lparr>ro_keys := keys\<rparr>) = shown_route router"
  "shown_route (router\<lparr>ro_speedy_codecs := codecs\<rparr>) = shown_route router"
  "shown_route (router\<lparr>ro_epoch := epoch\<rparr>) = shown_route router"
  by (intro ext, simp add: shown_route_def cong: option.case_cong)+

lemma own_codec_new:
  "server_speedy_key W config pk = Inr key \<Longrightarrow>
   own_codec W config pk (SpeedyCodec_new (wl_speedy W) (SpeedyKey key))"
  by (auto simp: own_codec_def cache_ok_new)

text \<open>The codec \<open>add_speedy_routes\<close> works with, and the router it leaves for the tags.\<close>

lemma speedy_codec_entry:
  assumes sound: "router_sound W config router"
  obtains (failed) e where "server_speedy_key W config pk = Inl e"
      "add_speedy_routes W clk config pk router = (Inl (), router)"
  | (entry) codec router' where "own_codec W config pk codec" "router_sound W config router'"
      "shown_route router' = shown_route router" "ro_keys router' = ro_keys router"
      "add_speedy_routes W clk config pk router =
        (case sp_current_epoch (clk (AtSpeedy pk)) of
           Inl _ \<Rightarrow> (Inl (), router')
         | Inr epoch \<Rightarrow> (Inr (), fold (\<lambda>accepted. add_speedy_tag pk codec
              (sp_routing_tag_at (wl_speedy W) codec SpClientToServer accepted)) (sp_accepted_epochs epoch) router'))"
proof (cases "ro_speedy_codecs router pk")
  case (Some codec)
  then show ?thesis
    using entry [of codec router] router_soundD(2) [OF sound] sound by (simp add: add_speedy_routes_def)
next
  case None
  show ?thesis
  proof (cases "server_speedy_key W config pk")
    case (Inl e)
    then show ?thesis using failed [of e] None by (simp add: add_speedy_routes_def server_speedy_key_def)
  next
    case (Inr key)
    let ?codec = "SpeedyCodec_new (wl_speedy W) (SpeedyKey key)"
    let ?router = "router\<lparr>ro_speedy_codecs := (ro_speedy_codecs router)(pk \<mapsto> ?codec)\<rparr>"
    have "router_sound W config ?router"
      using sound own_codec_new [OF Inr] by (simp add: router_sound_def)
    then show ?thesis
      using entry [OF own_codec_new [OF Inr], of ?router] None Inr
      by (simp add: add_speedy_routes_def server_speedy_key_def Let_def)
  qed
qed

lemma fold_speedy_tags_sound:
  "router_sound W config router \<Longrightarrow> own_codec W config pk codec \<Longrightarrow>
   router_sound W config (fold (\<lambda>a. add_speedy_tag pk codec (f a)) es router)"
  by (induction es arbitrary: router) (simp_all add: add_speedy_tag_sound)

lemma add_speedy_routes_sound [inv_intros]:
  assumes "router_sound W config router"
  shows "router_sound W config (snd (add_speedy_routes W clk config pk router))"
  by (cases rule: speedy_codec_entry [OF assms, where pk = pk and clk = clk])
    (simp_all add: assms fold_speedy_tags_sound split: sum.splits)

lemma morph_key_entry:
  assumes sound: "router_sound W config router"
  obtains (failed) e where "server_morph_key W config pk = Inl e"
      "refresh_device W clk config pk router = (Inr (), router)"
  | (entry) key router' where "server_morph_key W config pk = Inr (mk_bytes key)" "router_sound W config router'"
      "shown_route router' = shown_route router"
      "refresh_device W clk config pk router = add_speedy_routes W clk config pk
        (fold (add_profile_routes W clk pk key) [Quiet, Balanced, Paranoid] router')"
proof (cases "ro_keys router pk")
  case (Some key)
  then show ?thesis
    using entry [of key router] router_soundD(1) [OF sound] sound by (simp add: refresh_device_def)
next
  case None
  show ?thesis
  proof (cases "server_morph_key W config pk")
    case (Inl e)
    then show ?thesis using failed [of e] None by (simp add: refresh_device_def server_morph_key_def)
  next
    case (Inr key)
    let ?router = "router\<lparr>ro_keys := (ro_keys router)(pk \<mapsto> MorphKey key)\<rparr>"
    have "router_sound W config ?router" using sound Inr by (simp add: router_sound_def)
    then show ?thesis
      using entry [of "MorphKey key" ?router] None Inr
      by (simp add: refresh_device_def server_morph_key_def)
  qed
qed

lemma refresh_device_sound [inv_intros]:
  assumes "router_sound W config router"
  shows "router_sound W config (snd (refresh_device W clk config pk router))"
  by (cases rule: morph_key_entry [OF assms, where pk = pk and clk = clk])
    (simp_all add: assms add_speedy_routes_sound add_profile_routes_sound)

lemma refresh_devices_sound [inv_intros]:
  "router_sound W config router \<Longrightarrow> router_sound W config (snd (refresh_devices W clk config pks router))"
proof (induction pks arbitrary: router)
  case Nil
  then show ?case by simp
next
  case (Cons pk pks)
  obtain res router' where step: "refresh_device W clk config pk router = (res, router')" by fastforce
  have "router_sound W config router'" using refresh_device_sound [OF Cons.prems, of clk pk] step by simp
  with Cons.IH step show ?case by (cases res) simp_all
qed

abbreviation retained :: "PublicKey list \<Rightarrow> MorphRouter \<Rightarrow> MorphRouter" where
  "retained devices router \<equiv>
     router\<lparr>ro_keys := (\<lambda>k. if k \<in> set devices then ro_keys router k else None),
            ro_speedy_codecs := (\<lambda>k. if k \<in> set devices then ro_speedy_codecs router k else None),
            ro_speedy_routes := Map.empty, ro_routes := Map.empty, ro_ambiguous := {}\<rparr>"

lemma retained_sound: "router_sound W config router \<Longrightarrow> router_sound W config (retained devices router)"
  by (simp add: router_sound_def)

lemma router_sound_epoch [simp]: "router_sound W config (router\<lparr>ro_epoch := e\<rparr>) = router_sound W config router"
  by (simp add: router_sound_def)

lemma refresh_sound [inv_intros]:
  assumes "router_sound W config router"
  shows "router_sound W config (snd (refresh W B hash_order clk epoch config R router))"
proof -
  obtain res router' where
    step: "refresh_devices W clk config (hash_order (registered_keys B R)) (retained (registered_keys B R) router) = (res, router')"
    by fastforce
  have "router_sound W config router'"
    using refresh_devices_sound [OF retained_sound [OF assms, of "registered_keys B R"],
      of clk "hash_order (registered_keys B R)"] unfolding step by simp
  with step show ?thesis by (cases res) (simp_all add: refresh_def Let_def)
qed

lemma resolve_sound [inv_intros]:
  assumes "router_sound W config router"
  shows "router_sound W config (snd (resolve W B hash_order clk input config R router))"
proof (cases "length input < 8 \<or> (\<exists>e. current_epoch (clk AtResolve) Paranoid = Inl e)")
  case True
  then show ?thesis using assms by (auto simp: resolve_def)
next
  case False
  then obtain epoch where epoch: "current_epoch (clk AtResolve) Paranoid = Inr epoch" "\<not> length input < 8"
    by (metis sum.exhaust)
  obtain res router' where
    step: "(if ro_epoch router \<noteq> Some epoch then refresh W B hash_order clk epoch config R router else (Inr (), router)) = (res, router')"
    by fastforce
  have "router_sound W config router'"
    using refresh_sound [OF assms, of B hash_order clk epoch R] assms step by (auto split: if_splits)
  with step epoch show ?thesis by (cases res) (simp_all add: resolve_def)
qed

section \<open>Which tags are routed\<close>

text \<open>
  All tags of a device, with their owner: three epochs of each MouseMorph profile and three of Speedy,
  each with the clock reading the router takes for it. A device without a MouseMorph key has none.
\<close>

definition profile_tags :: "wire_libs \<Rightarrow> clock \<Rightarrow> PublicKey \<Rightarrow> MorphKey \<Rightarrow> Profile \<Rightarrow> (bytes \<times> PublicKey \<times> Profile option) list" where
  "profile_tags W clk pk key profile =
     (case current_epoch (clk (AtProfile pk profile)) profile of
        Inl _ \<Rightarrow> []
      | Inr epoch \<Rightarrow> map (\<lambda>a. (routing_tag_at (wl_morph W) key profile ClientToServer a, pk, Some profile))
                      (accepted_epochs epoch))"

definition speedy_tags :: "wire_libs \<Rightarrow> clock \<Rightarrow> PublicKey \<Rightarrow> SpeedyCodec \<Rightarrow> (bytes \<times> PublicKey \<times> Profile option) list" where
  "speedy_tags W clk pk codec =
     (case sp_current_epoch (clk (AtSpeedy pk)) of
        Inl _ \<Rightarrow> []
      | Inr epoch \<Rightarrow> map (\<lambda>a. (sp_routing_tag_at (wl_speedy W) codec SpClientToServer a, pk, None))
                      (sp_accepted_epochs epoch))"

definition device_tags :: "wire_libs \<Rightarrow> clock \<Rightarrow> ValidatedServerConfig \<Rightarrow> PublicKey \<Rightarrow> (bytes \<times> PublicKey \<times> Profile option) list" where
  "device_tags W clk config pk =
     (case server_morph_key W config pk of
        Inl _ \<Rightarrow> []
      | Inr key \<Rightarrow>
          concat (map (profile_tags W clk pk (MorphKey key)) [Quiet, Balanced, Paranoid]) @
          (case server_speedy_key W config pk of
             Inl _ \<Rightarrow> []
           | Inr skey \<Rightarrow> speedy_tags W clk pk (SpeedyCodec_new (wl_speedy W) (SpeedyKey skey))))"

definition owners :: "bytes \<Rightarrow> (bytes \<times> PublicKey \<times> Profile option) list \<Rightarrow> (PublicKey \<times> Profile option) list" where
  "owners tag claims = map snd (filter (\<lambda>x. fst x = tag) claims)"

lemma owners_append [simp]: "owners tag (xs @ ys) = owners tag xs @ owners tag ys"
  by (simp add: owners_def)

lemma owners_Nil [simp]: "owners tag [] = []"
  by (simp add: owners_def)

lemma add_profile_routes_shown:
  assumes "\<And>tag. shown_route router tag = tally (vs tag)"
  shows "shown_route (add_profile_routes W clk pk key profile router) tag =
    tally (vs tag @ owners tag (profile_tags W clk pk key profile))"
proof (cases "current_epoch (clk (AtProfile pk profile)) profile")
  case (Inl e)
  then show ?thesis using assms by (simp add: add_profile_routes_def profile_tags_def)
next
  case (Inr epoch)
  let ?route = "\<lparr>mr_public_key = pk, mr_key = key, mr_profile = profile\<rparr>"
  let ?tag = "routing_tag_at (wl_morph W) key profile ClientToServer"
  have "add_profile_routes W clk pk key profile router =
      fold (\<lambda>(route, tag). add_morph_tag route tag) (map (\<lambda>a. (?route, ?tag a)) (accepted_epochs epoch)) router"
    by (simp add: add_profile_routes_def Inr fold_map comp_def)
  then show ?thesis
    using morph_claims.shown_fold [of router tag vs, OF assms]
    by (simp add: profile_tags_def Inr owners_def filter_map comp_def)
qed

lemma fold_profiles_shown:
  assumes "\<And>tag. shown_route router tag = tally (vs tag)"
  shows "shown_route (fold (add_profile_routes W clk pk key) profiles router) tag =
    tally (vs tag @ owners tag (concat (map (profile_tags W clk pk key) profiles)))"
  using assms
proof (induction profiles arbitrary: router vs)
  case Nil
  then show ?case by simp
next
  case (Cons profile profiles)
  show ?case
    using Cons.IH [of _ "\<lambda>tag. vs tag @ owners tag (profile_tags W clk pk key profile)",
        OF add_profile_routes_shown [OF Cons.prems]]
    by simp
qed

lemma fold_speedy_shown:
  assumes "\<And>tag. shown_route router tag = tally (vs tag)"
  shows "shown_route (fold (\<lambda>a. add_speedy_tag pk codec (f a)) es router) tag =
    tally (vs tag @ owners tag (map (\<lambda>a. (f a, pk, None)) es))"
proof -
  have "fold (\<lambda>a. add_speedy_tag pk codec (f a)) es router =
      fold (\<lambda>(pk, codec, tag). add_speedy_tag pk codec tag) (map (\<lambda>a. (pk, codec, f a)) es) router"
    by (simp add: fold_map comp_def)
  then show ?thesis
    using speedy_claims.shown_fold [of router tag vs, OF assms]
    by (simp add: owners_def filter_map comp_def)
qed

lemma refresh_device_shown:
  assumes sound: "router_sound W config router"
    and shown: "\<And>tag. shown_route router tag = tally (vs tag)"
    and step: "refresh_device W clk config pk router = (Inr u, router')"
  shows "shown_route router' tag = tally (vs tag @ owners tag (device_tags W clk config pk))"
proof (cases rule: morph_key_entry [OF sound, where pk = pk and clk = clk, case_names failed entry])
  case (failed e)
  then show ?thesis using step shown by (simp add: device_tags_def)
next
  case (entry key r1)
  let ?r2 = "fold (add_profile_routes W clk pk key) [Quiet, Balanced, Paranoid] r1"
  let ?vs = "\<lambda>tag. vs tag @ owners tag (concat (map (profile_tags W clk pk key) [Quiet, Balanced, Paranoid]))"
  have shown2: "shown_route ?r2 tag = tally (?vs tag)" for tag
    by (rule fold_profiles_shown) (simp add: entry(3) shown)
  have sound2: "router_sound W config ?r2" by (rule fold_profiles_sound [OF entry(2,1)])
  show ?thesis
  proof (cases rule: speedy_codec_entry [OF sound2, where pk = pk and clk = clk, case_names failed entry])
    case (failed e)
    then show ?thesis using entry(4) step by simp
  next
    case codec: (entry codec r3)
    obtain epoch where epoch: "sp_current_epoch (clk (AtSpeedy pk)) = Inr epoch"
      and r': "router' = fold (\<lambda>a. add_speedy_tag pk codec (sp_routing_tag_at (wl_speedy W) codec SpClientToServer a))
          (sp_accepted_epochs epoch) r3"
      using codec(5) entry(4) step by (auto split: sum.splits)
    obtain skey where skey: "server_speedy_key W config pk = Inr skey"
      and keys: "sc_keys codec = sc_keys (SpeedyCodec_new (wl_speedy W) (SpeedyKey skey))"
      using codec(1) by (auto simp: own_codec_def)
    have "device_tags W clk config pk =
        concat (map (profile_tags W clk pk key) [Quiet, Balanced, Paranoid]) @
        map (\<lambda>a. (sp_routing_tag_at (wl_speedy W) codec SpClientToServer a, pk, None)) (sp_accepted_epochs epoch)"
      using entry(1) skey epoch sp_routing_tag_keys [OF keys]
      by (simp add: device_tags_def speedy_tags_def)
    moreover have "shown_route r3 tag = tally (?vs tag)" for tag
      using shown2 codec(3) by simp
    ultimately show ?thesis unfolding r' by (simp add: fold_speedy_shown [of r3 ?vs])
  qed
qed

lemma refresh_devices_shown:
  assumes "router_sound W config router" "\<And>tag. shown_route router tag = tally (vs tag)"
    and "refresh_devices W clk config pks router = (Inr u, router')"
  shows "shown_route router' tag = tally (vs tag @ owners tag (concat (map (device_tags W clk config) pks)))"
  using assms
proof (induction pks arbitrary: router vs)
  case Nil
  then show ?case by simp
next
  case (Cons pk pks)
  obtain u1 r1 where step: "refresh_device W clk config pk router = (Inr u1, r1)"
    and rest: "refresh_devices W clk config pks r1 = (Inr u, router')"
    using Cons.prems(3) by (auto split: prod.splits sum.splits)
  have sound: "router_sound W config r1"
    using refresh_device_sound [OF Cons.prems(1), of clk pk] step by simp
  show ?case
    using Cons.IH [OF sound refresh_device_shown [OF Cons.prems(1,2) step] rest] by simp
qed

lemma shown_retained: "shown_route (retained devices router) tag = tally []"
  by (simp add: shown_route_def)

lemma refresh_shown:
  assumes "router_sound W config router" "refresh W B hash_order clk epoch config R router = (Inr u, router')"
  shows "shown_route router' tag =
    tally (owners tag (concat (map (device_tags W clk config) (hash_order (registered_keys B R)))))"
    and "ro_epoch router' = Some epoch"
proof -
  let ?pks = "hash_order (registered_keys B R)"
  obtain u1 r1 where step: "refresh_devices W clk config ?pks (retained (registered_keys B R) router) = (Inr u1, r1)"
    and r': "router' = r1\<lparr>ro_epoch := Some epoch\<rparr>"
    using assms(2) by (auto simp: refresh_def Let_def split: prod.splits sum.splits)
  show "ro_epoch router' = Some epoch" by (simp add: r')
  show "shown_route router' tag = tally (owners tag (concat (map (device_tags W clk config) ?pks)))"
    using refresh_devices_shown [OF retained_sound [OF assms(1)] shown_retained step, of tag] by (simp add: r')
qed

lemma shown_route_cases:
  assumes "router_sound W config router"
  shows "shown_route router tag = Contested \<longleftrightarrow> tag \<in> ro_ambiguous router"
    "shown_route router tag = Owned (pk, Some profile) \<longleftrightarrow>
       (\<exists>route. ro_routes router tag = Some route \<and> mr_public_key route = pk \<and> mr_profile route = profile)"
    "shown_route router tag = Owned (pk, None) \<longleftrightarrow> (\<exists>codec. ro_speedy_routes router tag = Some (pk, codec))"
  using router_soundD(5-7) [OF assms, of tag]
  by (auto simp: shown_route_def split: option.splits)

lemma refresh_device_succeeds:
  assumes sound: "router_sound W config router"
    and "server_speedy_key W config pk = Inr skey" "clk (AtSpeedy pk) = Some seconds"
  shows "fst (refresh_device W clk config pk router) = Inr ()"
proof (cases rule: morph_key_entry [OF sound, where pk = pk and clk = clk, case_names failed entry])
  case (entry key r1)
  let ?r2 = "fold (add_profile_routes W clk pk key) [Quiet, Balanced, Paranoid] r1"
  have sound2: "router_sound W config ?r2" by (rule fold_profiles_sound [OF entry(2,1)])
  show ?thesis
    using assms(2,3) entry(4)
    by (cases rule: speedy_codec_entry [OF sound2, where pk = pk and clk = clk])
      (simp_all add: sp_current_epoch_def)
qed simp

lemma refresh_devices_succeed:
  assumes "router_sound W config router"
    and "\<forall>pk\<in>set pks. (\<exists>skey. server_speedy_key W config pk = Inr skey) \<and> (\<exists>seconds. clk (AtSpeedy pk) = Some seconds)"
  shows "fst (refresh_devices W clk config pks router) = Inr ()"
  using assms
proof (induction pks arbitrary: router)
  case Nil
  then show ?case by simp
next
  case (Cons pk pks)
  obtain res r1 where step: "refresh_device W clk config pk router = (res, r1)" by fastforce
  obtain skey seconds where "server_speedy_key W config pk = Inr skey" "clk (AtSpeedy pk) = Some seconds"
    using Cons.prems(2) by auto
  from refresh_device_succeeds [where clk = clk, OF Cons.prems(1) this] have "res = Inr ()" using step by simp
  moreover have "router_sound W config r1" using refresh_device_sound [OF Cons.prems(1), of clk pk] step by simp
  ultimately show ?case using Cons.IH [of r1] Cons.prems(2) step by simp
qed

section \<open>Properties\<close>

text \<open>
  After a successful rebuild the router knows exactly the uncontested tags. In whatever order the
  registered devices are visited and whatever the clock shows on each reading, a tag is ambiguous
  exactly when at least two of the claims for it were made, it leads to a MouseMorph route of a device
  and profile exactly when that was its only claim, and to a Speedy route of a device exactly when
  that was its only claim; the route carries the key the server derives for that device.
\<close>

lemma router_routes_unique_tags:
  assumes "router_sound W config router" "refresh W B hash_order clk epoch config R router = (Inr u, router')"
    and "claims = concat (map (device_tags W clk config) (hash_order (registered_keys B R)))"
  shows "(tag \<in> ro_ambiguous router' \<longleftrightarrow> 2 \<le> length (owners tag claims)) \<and>
    ((\<exists>route. ro_routes router' tag = Some route \<and> mr_public_key route = pk \<and> mr_profile route = profile \<and>
        server_morph_key W config pk = Inr (mk_bytes (mr_key route))) \<longleftrightarrow> owners tag claims = [(pk, Some profile)]) \<and>
    ((\<exists>codec. ro_speedy_routes router' tag = Some (pk, codec) \<and> own_codec W config pk codec) \<longleftrightarrow>
       owners tag claims = [(pk, None)])"
proof -
  have sound: "router_sound W config router'"
    using refresh_sound [OF assms(1), of B hash_order clk epoch R] assms(2) by simp
  note shown = refresh_shown(1) [OF assms(1,2), of tag, folded assms(3)]
  note look = shown_route_cases [OF sound, of tag, unfolded shown tally_Owned tally_Contested]
  show ?thesis
    using look(1) look(2) [of pk profile] look(3) [of pk] router_soundD(3,4) [OF sound, of tag] by blast
qed

text \<open>
  A library whose tags tell epochs apart, a server with one registered device, and its router rebuilt
  at second 3000, in the Quiet epoch 100.
\<close>

definition tagging_morph_lib :: morph_lib where
  "tagging_morph_lib = plain_morph_lib\<lparr>hmac_sha256 := (\<lambda>k m. take 32 (rev m @ replicate 32 0))\<rparr>"

definition routing_libs :: wire_libs where
  "routing_libs = plain_wire_libs\<lparr>wl_morph := tagging_morph_lib\<rparr>"

definition sample_server_config :: ValidatedServerConfig where
  "sample_server_config =
     \<lparr>vsc_listen = \<lparr>sa_ip = V4 (Ipv4Addr 0 0 0 0), sa_port = 51820\<rparr>, vsc_public_endpoint = None,
      vsc_server_public_key = PublicKey (replicate 32 1), vsc_server_private_key = SecretKey (replicate 32 8),
      vsc_context = ProtocolContext (replicate 32 2),
      vsc_tun = \<lparr>tun_name = ''mousevpn0'', tun_address = Ipv4Addr 10 0 0 1, tun_prefix_len = 24,
                 tun_mtu = 1420, tun_dns = Ipv4Addr 1 1 1 1\<rparr>,
      vsc_clients = []\<rparr>"

definition one_device_registry :: DeviceRegistry where
  "one_device_registry = sample_registry\<lparr>dr_devices := [seed_record 1]\<rparr>"

abbreviation sample_clock :: clock where
  "sample_clock \<equiv> (\<lambda>_. Some 3000)"

definition sample_tag :: bytes where
  "sample_tag = rev (to_be 8 (100 :: u64))"

definition sample_refresh :: "(unit + unit) \<times> MorphRouter" where
  "sample_refresh = refresh routing_libs char_base64 id sample_clock 3000 sample_server_config
     one_device_registry MorphRouter_default"

lemma tagging_morph_lib_ok: "morph_lib_ok tagging_morph_lib"
  by (auto simp: morph_lib_ok_def tagging_morph_lib_def plain_morph_lib_def min_def)

lemma tagging_tag: "routing_tag_at tagging_morph_lib key profile d epoch = rev (to_be 8 epoch)"
  by (simp add: routing_tag_at_def tagging_morph_lib_def ROUTING_TAG_LEN_def)

lemma to_be_8_inj: "to_be 8 (a :: u64) = to_be 8 b \<longleftrightarrow> a = b"
  by (metis from_to_be_64)

lemma sample_registered: "registered_keys char_base64 one_device_registry = [PublicKey (replicate 32 1)]"
  by (simp add: registered_keys_def one_device_registry_def seed_record_key)

lemma sample_keys:
  "server_morph_key routing_libs sample_server_config pk = Inr (replicate 32 9)"
  "server_speedy_key routing_libs sample_server_config pk = Inr (replicate 32 9)"
  by (simp_all add: server_morph_key_def server_speedy_key_def derive_morph_key_def derive_speedy_key_def
      derive_wire_key_def routing_libs_def plain_wire_libs_def plain_crypto_lib_def KEY_LEN_def)

lemma sample_tags:
  "owners sample_tag (device_tags routing_libs sample_clock sample_server_config pk) = [(pk, Some Quiet)]"
proof -
  have ne: "replicate 8 4 \<noteq> sample_tag" by code_simp
  have sp: "sp_routing_tag_at (wl_speedy routing_libs) codec d e = replicate 8 4" for codec d e
    by (simp add: sp_routing_tag_at_def routing_libs_def plain_wire_libs_def plain_speedy_lib_def SP_ROUTING_TAG_LEN_def)
  have mt: "routing_tag_at (wl_morph routing_libs) key profile d e = rev (to_be 8 e)" for key profile d e
    by (simp add: routing_libs_def tagging_tag)
  have eq: "rev (to_be 8 e) = sample_tag \<longleftrightarrow> e = 100" for e :: u64
    by (simp add: sample_tag_def to_be_8_inj)
  have epochs: "accepted_epochs (3000 div 30) = [99, 100, 101]" "accepted_epochs (3000 div 5) = [599, 600, 601]"
      "accepted_epochs (3000 div 1) = [2999, 3000, 3001]" "sp_accepted_epochs (3000 div 10) = [300, 299, 301]"
    by (simp_all add: accepted_epochs_def sp_accepted_epochs_def saturating_sub_def saturating_add_def)
  have "owners sample_tag (profile_tags routing_libs sample_clock pk key Quiet) = [(pk, Some Quiet)]"
    "owners sample_tag (profile_tags routing_libs sample_clock pk key Balanced) = []"
    "owners sample_tag (profile_tags routing_libs sample_clock pk key Paranoid) = []" for key
    unfolding profile_tags_def owners_def current_epoch_def epoch_seconds.simps ok_or_simps bind_r_simps sum.case epochs mt
    by (simp_all add: eq)
  moreover have "owners sample_tag (speedy_tags routing_libs sample_clock pk codec) = []" for codec
    unfolding speedy_tags_def owners_def sp_current_epoch_def EPOCH_SECONDS_def ok_or_simps bind_r_simps sum.case epochs sp
    using ne by simp
  ultimately show ?thesis by (simp add: device_tags_def sample_keys)
qed

lemma sample_owners:
  "owners sample_tag (concat (map (device_tags routing_libs sample_clock sample_server_config)
     (registered_keys char_base64 one_device_registry))) = [(PublicKey (replicate 32 1), Some Quiet)]"
  by (simp add: sample_registered sample_tags)

lemma sample_refresh_succeeds: "\<exists>router'. sample_refresh = (Inr (), router')"
proof -
  let ?pks = "id (registered_keys char_base64 one_device_registry)"
  have "fst (refresh_devices routing_libs sample_clock sample_server_config ?pks
      (retained (registered_keys char_base64 one_device_registry) MorphRouter_default)) = Inr ()"
    by (rule refresh_devices_succeed [OF retained_sound [OF router_sound_default]]) (simp add: sample_keys)
  then show ?thesis
    unfolding sample_refresh_def refresh_def Let_def by (auto split: prod.splits sum.splits)
qed

lemma encode_frame_tag:
  assumes "morph_lib_ok L" "encode_frame L (Some t) rng key profile kind inner direction = Inr frame"
  shows "take 8 frame = routing_tag_at L key profile direction (t div epoch_seconds profile)" "8 \<le> length frame"
proof -
  obtain rest where "frame = routing_tag_at L key profile direction (t div epoch_seconds profile) @ rest"
    using assms(2) by (auto simp: encode_frame_def Let_def result_simps current_epoch_def split: if_splits prod.splits)
  then show "take 8 frame = routing_tag_at L key profile direction (t div epoch_seconds profile)" "8 \<le> length frame"
    using length_routing_tag [OF assms(1)] by simp_all
qed

lemma decode_frame_profile:
  "decode_frame L now key profile input direction = Inr (DecodedPayload p, output) \<Longrightarrow> p = profile"
  by (auto simp: decode_frame_def Let_def result_simps split: if_splits)

lemma speedy_decode_own:
  assumes "own_codec W config pk codec" "server_speedy_key W config pk = Inr key"
  shows "fst (SpeedyCodec_decode (wl_speedy W) now codec input d) =
      fst (SpeedyCodec_decode (wl_speedy W) now (SpeedyCodec_new (wl_speedy W) (SpeedyKey key)) input d)"
    "own_codec W config pk (snd (SpeedyCodec_decode (wl_speedy W) now codec input d))"
proof -
  have ok: "cache_ok (wl_speedy W) codec"
    and keys: "sc_keys codec = sc_keys (SpeedyCodec_new (wl_speedy W) (SpeedyKey key))"
    using assms by (auto simp: own_codec_def)
  show "fst (SpeedyCodec_decode (wl_speedy W) now codec input d) =
      fst (SpeedyCodec_decode (wl_speedy W) now (SpeedyCodec_new (wl_speedy W) (SpeedyKey key)) input d)"
    by (simp add: SpeedyCodec_decode_def decode_at_spec(1) [OF ok] decode_at_spec(1) [OF cache_ok_new]
        spec_keys(2) [OF keys] split: sum.splits)
  show "own_codec W config pk (snd (SpeedyCodec_decode (wl_speedy W) now codec input d))"
    using assms(1) decode_at_spec(2,3) [OF ok]
    by (simp add: SpeedyCodec_decode_def own_codec_def split: sum.splits)
qed

lemma router_sound_speedy_update:
  "router_sound W config router \<Longrightarrow> ro_speedy_routes router tag \<noteq> None \<Longrightarrow> own_codec W config pk codec \<Longrightarrow>
   router_sound W config (router\<lparr>ro_speedy_routes := (ro_speedy_routes router)(tag \<mapsto> (pk, codec))\<rparr>)"
  using router_soundD(6,7) [of W config router tag] by (auto simp: router_sound_def)

text \<open>The three ways a datagram gets past the wire layer.\<close>

lemma decode_wire_cases:
  assumes sound: "router_sound W config router"
    and step: "decode_wire_into W B hash_order clk input config R router = (Some (wire, output), router')"
  obtains (legacy) "wire = SLegacy" "output = input"
  | (morph) pk key profile where "wire = SMorph pk \<lparr>mc_key = MorphKey key, mc_profile = profile\<rparr>"
      "server_morph_key W config pk = Inr key"
      "MorphCodec_decode (wl_morph W) (clk AtDecode) \<lparr>mc_key = MorphKey key, mc_profile = profile\<rparr> input ClientToServer =
         Inr (DecodedPayload profile, output)"
  | (speedy) pk key codec where "wire = SSpeedy pk codec" "own_codec W config pk codec"
      "server_speedy_key W config pk = Inr key"
      "fst (SpeedyCodec_decode (wl_speedy W) (clk AtDecode) (SpeedyCodec_new (wl_speedy W) (SpeedyKey key))
         input SpClientToServer) = Inr output"
proof -
  obtain found r1 where res: "resolve W B hash_order clk input config R router = (found, r1)" by fastforce
  have sound1: "router_sound W config r1"
    using resolve_sound [OF sound, of B hash_order clk input R] res by simp
  show ?thesis
  proof (cases found)
    case (Some route)
    have routed: "ro_routes r1 (take 8 input) = Some route"
      using res Some by (auto simp: resolve_def split: if_splits sum.splits prod.splits)
    obtain key where key: "mr_key route = MorphKey key" by (cases "mr_key route")
    then have derived: "server_morph_key W config (mr_public_key route) = Inr key"
      using router_soundD(3) [OF sound1 routed] by simp
    have "MorphCodec_decode (wl_morph W) (clk AtDecode)
          \<lparr>mc_key = MorphKey key, mc_profile = mr_profile route\<rparr> input ClientToServer =
        Inr (DecodedPayload (mr_profile route), output) \<and>
        wire = SMorph (mr_public_key route) \<lparr>mc_key = MorphKey key, mc_profile = mr_profile route\<rparr>"
      using step res Some key
      by (auto simp: decode_wire_into_def MorphCodec_decode_def split: sum.splits prod.splits DecodedFrame.splits
          dest: decode_frame_profile)
    with morph [OF _ derived] show ?thesis by blast
  next
    case None
    show ?thesis
    proof (cases "length input < 8 \<or> ro_speedy_routes r1 (take 8 input) = None")
      case True
      then show ?thesis using legacy step res None
        by (auto simp: decode_wire_into_def split: if_splits)
    next
      case False
      then obtain pk codec where entry: "ro_speedy_routes r1 (take 8 input) = Some (pk, codec)" by auto
      have own: "own_codec W config pk codec" using router_soundD(4) [OF sound1 entry] .
      then obtain key where key: "server_speedy_key W config pk = Inr key" by (auto simp: own_codec_def)
      obtain r codec' where dec: "SpeedyCodec_decode (wl_speedy W) (clk AtDecode) codec input SpClientToServer = (r, codec')"
        by fastforce
      have "r = Inr output" "wire = SSpeedy pk codec'"
        using step res None False entry dec by (auto simp: decode_wire_into_def split: if_splits sum.splits)
      with speedy [OF _ _ key, of codec'] speedy_decode_own [OF own key, of "clk AtDecode" input SpClientToServer] dec
      show ?thesis by simp
    qed
  qed
qed

lemma decode_wire_sound [inv_intros]:
  assumes "router_sound W config router"
  shows "router_sound W config (snd (decode_wire_into W B hash_order clk input config R router))"
proof -
  obtain found r1 where res: "resolve W B hash_order clk input config R router = (found, r1)" by fastforce
  have sound1: "router_sound W config r1"
    using resolve_sound [OF assms, of B hash_order clk input R] res by simp
  show ?thesis
  proof (cases "found = None \<and> \<not> length input < 8 \<and> take 8 input \<notin> ro_ambiguous r1 \<and>
      ro_speedy_routes r1 (take 8 input) \<noteq> None")
    case True
    then obtain pk codec where entry: "ro_speedy_routes r1 (take 8 input) = Some (pk, codec)" by auto
    have own: "own_codec W config pk codec" using router_soundD(4) [OF sound1 entry] .
    then obtain key where key: "server_speedy_key W config pk = Inr key" by (auto simp: own_codec_def)
    obtain r codec' where dec: "SpeedyCodec_decode (wl_speedy W) (clk AtDecode) codec input SpClientToServer = (r, codec')"
      by fastforce
    have "own_codec W config pk codec'"
      using speedy_decode_own(2) [OF own key, of "clk AtDecode" input SpClientToServer] dec by simp
    then show ?thesis
      using True res entry dec router_sound_speedy_update [OF sound1, of "take 8 input" pk codec']
      by (simp add: decode_wire_into_def split: sum.splits)
  next
    case False
    then show ?thesis using res sound1
      by (auto simp: decode_wire_into_def split: option.splits sum.splits prod.splits DecodedFrame.splits)
  qed
qed

text \<open>
  The wire mode a datagram is given is authenticated. From the initial router, after any number of
  datagrams and registry changes, a datagram that is handed on is either taken as it is in legacy mode,
  or opened under the MouseMorph key the server derives for the client named in the mode and that mode's
  profile, or accepted by the Speedy codec of the client named in the mode; what is handed on is exactly
  what the codec returned.
\<close>

lemma wire_mode_is_authenticated:
  assumes "decode_wire_into W B hash_order clk input config R
      (foldl (\<lambda>router (B, hash_order, clk, input, R). snd (decode_wire_into W B hash_order clk input config R router))
         MorphRouter_default history) = (Some (wire, output), router')"
  shows "case wire of
      SLegacy \<Rightarrow> output = input
    | SMorph pk codec \<Rightarrow>
        server_morph_key W config pk = Inr (mk_bytes (mc_key codec)) \<and>
        MorphCodec_decode (wl_morph W) (clk AtDecode) codec input ClientToServer =
          Inr (DecodedPayload (mc_profile codec), output)
    | SSpeedy pk codec \<Rightarrow>
        (\<exists>key. server_speedy_key W config pk = Inr key \<and>
           fst (SpeedyCodec_decode (wl_speedy W) (clk AtDecode) (SpeedyCodec_new (wl_speedy W) (SpeedyKey key))
             input SpClientToServer) = Inr output)"
proof -
  have "router_sound W config
      (foldl (\<lambda>router (B, hash_order, clk, input, R). snd (decode_wire_into W B hash_order clk input config R router))
         router history)" if "router_sound W config router" for router
    using that by (induction history arbitrary: router) (auto simp: decode_wire_sound split: prod.splits)
  from decode_wire_cases [OF this [OF router_sound_default] assms] show ?thesis
    by cases auto
qed

text \<open>
  A registered client's datagram reaches the server. A MouseMorph client built from a configuration
  pinned to the server encodes a datagram; when the server rebuilds its tables, the client's key is
  registered, every clock reading involved is within one epoch of the client's clock and no other claim
  was made for the frame's tag, then the server names the client, recovers the datagram unchanged and
  keeps the client's own codec for the answers.
\<close>
lemma morph_client_is_routed:
  assumes libs: "dh_commutes (wl_crypto W)" "hkdf_length (wl_crypto W)" "morph_lib_ok (wl_morph W)"
    and server: "vsc_server_public_key config = SecretKey_public_key (wl_crypto W) (vsc_server_private_key config)"
    and client: "vcc_server_public_key cc = vsc_server_public_key config"
      "from_config W cc = Inr (WMorph codec)"
      "pk = SecretKey_public_key (wl_crypto W) (vcc_client_private_key cc)"
    and frame: "fst (ClientWire_encode W (Some t) (Inr random) (WMorph codec) inner) = Inr frame"
      "length random = FRAME_RANDOM_LEN" "MIN_FRAME_LEN + length inner \<le> MAX_DATAGRAM_LEN"
    and clocks: "clk AtDecode = Some t1" "clk (AtProfile pk (mc_profile codec)) = Some t2"
      "unat t \<le> unat t1 + unat (epoch_seconds (mc_profile codec))"
      "unat t1 \<le> unat t + unat (epoch_seconds (mc_profile codec))"
      "unat t \<le> unat t2 + unat (epoch_seconds (mc_profile codec))"
      "unat t2 \<le> unat t + unat (epoch_seconds (mc_profile codec))"
    and rebuild: "router_sound W config router" "current_epoch (clk AtResolve) Paranoid = Inr epoch"
      "ro_epoch router \<noteq> Some epoch" "refresh W B hash_order clk epoch config R router = (Inr u, router')"
    and registered: "pk \<in> set (hash_order (registered_keys B R))"
    and uncontested: "take 8 frame \<notin> ro_ambiguous router'"
  shows "decode_wire_into W B hash_order clk frame config R router = (Some (SMorph pk codec, inner), router')"
proof -
  let ?p = "mc_profile codec" and ?L = "wl_morph W"
  note built = client(2) [unfolded from_config_Morph]
  have key: "length (mk_bytes (mc_key codec)) = 32"
    using built derive_wire_key_length [OF libs(2)] unfolding derive_morph_key_def by blast
  have derived: "server_morph_key W config pk = Inr (mk_bytes (mc_key codec))"
    using built client(1,3) server derive_key_agrees(1) [OF libs(1), of "vcc_client_private_key cc" "vsc_server_private_key config"]
    by (simp add: server_morph_key_def)
  have enc: "encode_frame ?L (Some t) (Inr random) (mc_key codec) ?p Payload inner ClientToServer = Inr frame"
    using frame(1) by (simp add: MorphCodec_encode_payload_def result_simps)
  have opened: "MorphCodec_decode ?L (Some t1) codec frame ClientToServer = Inr (DecodedPayload ?p, inner)"
    using frame_roundtrip [OF libs(3) key frame(2,3) clocks(3,4), of Payload ClientToServer] enc
    by (simp add: MorphCodec_decode_def)
  have "(take 8 frame, pk, Some ?p) \<in> set (profile_tags W clk pk (mc_key codec) ?p)"
    using encode_frame_tag(1) [OF libs(3) enc] epoch_skew [OF clocks(5,6)] clocks(2)
    by (simp add: profile_tags_def current_epoch_def)
  then have "(take 8 frame, pk, Some ?p) \<in> set (device_tags W clk config pk)"
    using derived by (cases ?p) (auto simp: device_tags_def)
  then have claimed: "(pk, Some ?p) \<in> set (owners (take 8 frame)
      (concat (map (device_tags W clk config) (hash_order (registered_keys B R)))))" (is "_ \<in> set ?owners")
    using registered by (force simp: owners_def)
  have sound: "router_sound W config router'"
    using refresh_sound [OF rebuild(1), of B hash_order clk epoch R] rebuild(4) by simp
  note shown = refresh_shown(1) [OF rebuild(1,4), of "take 8 frame"]
  have "\<not> 2 \<le> length ?owners"
    using uncontested shown_route_cases(1) [OF sound, of "take 8 frame"] shown by (simp add: tally_Contested)
  with claimed have "?owners = [(pk, Some ?p)]" by (cases ?owners rule: tally.cases) auto
  then obtain route where route: "ro_routes router' (take 8 frame) = Some route"
      "mr_public_key route = pk" "mr_profile route = ?p"
    using shown_route_cases(2) [OF sound] shown by (auto simp: tally_Owned)
  have "\<lparr>mc_key = mr_key route, mc_profile = ?p\<rparr> = codec"
    using router_soundD(3) [OF sound route(1)] derived route(2) by (cases codec) (auto intro: MorphKey.expand)
  moreover have "resolve W B hash_order clk frame config R router = (Some route, router')"
    using rebuild(2-4) route(1) encode_frame_tag(2) [OF libs(3) enc] by (simp add: resolve_def)
  ultimately show ?thesis
    using opened clocks(1) route(2,3) by (simp add: decode_wire_into_def)
qed

end
