(* ===== verification/RustIo.thy ===== *)
theory RustIo
  imports Prelude
begin

text \<open>
  Input and output errors as \<^verbatim>\<open>std::io::Error\<close> shows them: a kind, and the code of the operating system
  if the error came from there. Only the kinds the program tells apart have a constructor of their own.
\<close>

datatype error_kind =
  Interrupted | WouldBlock | TimedOut | ConnectionRefused | ConnectionReset | ConnectionAborted | NotConnected |
  HostUnreachable | NetworkUnreachable | NetworkDown | BrokenPipe | UnexpectedEof | InvalidData | InvalidInput |
  PermissionDenied | Unsupported | NotFound | AddrNotAvailable | AlreadyExists | WriteZero | OtherKind

record io_error =
  ioe_kind :: error_kind
  ioe_raw_os :: "int option"

definition ENOBUFS :: int where "ENOBUFS = 105"
definition ENOMEM :: int where "ENOMEM = 12"

text \<open>\<^verbatim>\<open>io::Error::new\<close>: an error of the program's own, without a system code; its text is not kept.\<close>

definition io_error_new :: "error_kind \<Rightarrow> io_error" where
  "io_error_new kind = \<lparr>ioe_kind = kind, ioe_raw_os = None\<rparr>"

text \<open>The question mark operator where a failed call also leaves a changed state behind.\<close>

definition and_then :: "('e + 'a) \<times> 's \<Rightarrow> ('a \<Rightarrow> 's \<Rightarrow> ('e + 'b) \<times> 's) \<Rightarrow> ('e + 'b) \<times> 's" where
  "and_then m f = (case m of (Inl e, s) \<Rightarrow> (Inl e, s) | (Inr x, s) \<Rightarrow> f x s)"

lemma and_then_cases:
  assumes "and_then m f = (r, s')"
  obtains e where "m = (Inl e, s')" "r = Inl e"
  | x s where "m = (Inr x, s)" "f x s = (r, s')"
  using assms by (auto simp: and_then_def split: prod.splits sum.splits)

end
