(* ===== verification/Daemon.thy ===== *)
theory Daemon
  imports ServerWire Traffic RateLimit Handshake DataPlane RustIo
begin

text \<open>
  The server daemon (\<^verbatim>\<open>server/daemon.rs\<close>): sessions, the handling of received datagrams and of packets
  read from the TUN device. Sessions are shared by reference (\<^verbatim>\<open>Arc\<close>) between the two indexes and the
  two threads, so they live in a heap and the indexes hold handles. A step is the handling of one
  datagram, one packet or one batch, or a registry operation of the administration interface; the
  threads interleave between steps. What the sockets and the TUN device are asked to send is the output
  of a step. Poisoned locks and log lines are not modelled.
\<close>

section \<open>Errors and counters of the loops\<close>

definition UDP_BATCH_SIZE :: nat where "UDP_BATCH_SIZE = 32"
definition UDP_DROP_LOG_INTERVAL :: duration where "UDP_DROP_LOG_INTERVAL = secs 30"

definition is_recoverable :: "io_error \<Rightarrow> bool" where
  "is_recoverable e \<longleftrightarrow>
     ioe_kind e \<in> {Interrupted, WouldBlock, TimedOut, ConnectionRefused, ConnectionReset} \<or>
     ioe_raw_os e \<in> {Some ENOBUFS, Some ENOMEM}"

definition record_rx_overflow :: "u32 option \<Rightarrow> u32 \<Rightarrow> u32 option \<times> u32" where
  "record_rx_overflow observed previous =
     (case observed of
        Some n \<Rightarrow> if n > previous then (Some (n - previous), n) else (None, previous)
      | None \<Rightarrow> (None, previous))"


definition note_server_drops :: "instant \<Rightarrow> u64 \<Rightarrow> instant option \<Rightarrow> nat \<Rightarrow> u64 \<times> instant option" where
  "note_server_drops now so_far last_report dropped =
     (if dropped = 0 then (so_far, last_report)
      else
        (saturating_add so_far (of_nat dropped),
         if (case last_report of None \<Rightarrow> True | Some at \<Rightarrow> now - at \<ge> UDP_DROP_LOG_INTERVAL)
         then Some now else last_report))"

datatype ServerDaemonError = Io io_error | Configuration string | WorkerStopped

datatype worker_poll = WorkerFailed io_error | WorkerSilent | WorkerGone

fun check_tun_worker :: "worker_poll \<Rightarrow> ServerDaemonError + unit" where
  "check_tun_worker (WorkerFailed e) = Inl (Io e)"
| "check_tun_worker WorkerSilent = Inr ()"
| "check_tun_worker WorkerGone = Inl WorkerStopped"

fun send_server_batch :: "io_error + nat \<Rightarrow> io_error + nat" where
  "send_server_batch (Inr results) = Inr results"
| "send_server_batch (Inl e) = (if is_recoverable e then Inr 0 else Inl e)"

section \<open>State\<close>

definition PEER_LOG_INTERVAL :: duration where "PEER_LOG_INTERVAL = secs 10"

type_synonym session_handle = nat

record RuntimeSession =
  rs_client_address :: ipv4
  rs_authorization :: flag
  rs_traffic :: counter_handle
  rs_peer :: SocketAddr
  rs_inbound :: TunnelReceiver
  rs_outbound :: TunnelSender
  rs_wire :: WireMode
  rs_last_peer_log :: "instant option"

definition adopt_peer :: "instant \<Rightarrow> SocketAddr \<Rightarrow> RuntimeSession \<Rightarrow> RuntimeSession" where
  "adopt_peer now peer session =
     (if rs_peer session = peer then session
      else
        let quiet = (case rs_last_peer_log session of
                       None \<Rightarrow> False
                     | Some at \<Rightarrow> now - at < PEER_LOG_INTERVAL)
        in session\<lparr>rs_peer := peer,
                   rs_last_peer_log := (if quiet then rs_last_peer_log session else Some now)\<rparr>)"

text \<open>The session objects, and the two indexes that refer to them.\<close>

record Sessions =
  ss_heap :: "RuntimeSession list"
  ss_by_id :: "u64 \<rightharpoonup> session_handle"
  ss_by_address :: "ipv4 \<rightharpoonup> session_handle"

definition Sessions_default :: Sessions where
  "Sessions_default = \<lparr>ss_heap = [], ss_by_id = Map.empty, ss_by_address = Map.empty\<rparr>"

definition put_session :: "session_handle \<Rightarrow> RuntimeSession \<Rightarrow> Sessions \<Rightarrow> Sessions" where
  "put_session h session ss = ss\<lparr>ss_heap := (ss_heap ss)[h := session]\<rparr>"

record CachedHandshake =
  ch_request :: bytes
  ch_response :: bytes

record Daemon =
  dm_sessions :: Sessions
  dm_registry :: DeviceRegistry
  dm_traffic :: TrafficStore
  dm_router :: MorphRouter
  dm_limiter :: HandshakeLimiter
  dm_cache :: "PublicKey \<rightharpoonup> CachedHandshake"

datatype daemon_output = SendTo SocketAddr bytes | WriteTun bytes

text \<open>
  What the world contributes to one step: the system clock as the router and the decoder read it and
  as the encoder of the answer reads it, random bytes, the monotonic clock, the iteration order of a
  hash set, whether the TUN device takes a packet, and the handshake library with its own randomness.
\<close>

record 'h world =
  wo_clock :: clock
  wo_send_clock :: "u64 option"
  wo_random :: "string + bytes"
  wo_now :: instant
  wo_hash_order :: "PublicKey list \<Rightarrow> PublicKey list"
  wo_tun_accepts :: bool
  wo_snow :: "'h Snow"

record daemon_libs =
  da_wire :: wire_libs
  da_base64 :: base64_lib

abbreviation session_at :: "Daemon \<Rightarrow> session_handle \<Rightarrow> RuntimeSession" where
  "session_at d h \<equiv> ss_heap (dm_sessions d) ! h"

abbreviation set_session :: "session_handle \<Rightarrow> RuntimeSession \<Rightarrow> Daemon \<Rightarrow> Daemon" where
  "set_session h session d \<equiv> d\<lparr>dm_sessions := put_session h session (dm_sessions d)\<rparr>"

section \<open>Lookup and replacement\<close>

definition find_session_by_id :: "Sessions \<Rightarrow> u64 \<Rightarrow> session_handle option" where
  "find_session_by_id ss session_id = ss_by_id ss session_id"

definition find_session_by_address :: "Sessions \<Rightarrow> ipv4 \<Rightarrow> session_handle option" where
  "find_session_by_address ss address = ss_by_address ss address"

text \<open>The new session is allocated on the heap whether or not it is then installed.\<close>

definition replace_client :: "u64 \<Rightarrow> RuntimeSession \<Rightarrow> Sessions \<Rightarrow> bool \<times> Sessions" where
  "replace_client session_id session ss =
     (let address = rs_client_address session;
          h = length (ss_heap ss);
          ss' = ss\<lparr>ss_heap := ss_heap ss @ [session]\<rparr>
      in
      if (case ss_by_id ss session_id of
            None \<Rightarrow> False
          | Some existing \<Rightarrow> rs_client_address (ss_heap ss ! existing) \<noteq> address)
      then (False, ss')
      else
        let by_id = (case ss_by_address ss address of
                       None \<Rightarrow> ss_by_id ss
                     | Some previous \<Rightarrow> (\<lambda>i. if ss_by_id ss i = Some previous then None else ss_by_id ss i))
        in (True, ss'\<lparr>ss_by_address := (ss_by_address ss)(address \<mapsto> h), ss_by_id := by_id(session_id \<mapsto> h)\<rparr>))"

section \<open>Received datagrams\<close>

definition handle_keepalive ::
  "daemon_libs \<Rightarrow> 'h world \<Rightarrow> SocketAddr \<Rightarrow> Datagram \<Rightarrow> WireMode \<Rightarrow> Daemon \<Rightarrow> daemon_output list \<times> Daemon" where
  "handle_keepalive L w peer datagram wire d =
     (case find_session_by_id (dm_sessions d) (hdr_session_id (dg_header datagram)) of
        None \<Rightarrow> ([], d)
      | Some h \<Rightarrow>
          let session = session_at d h in
          if \<not> is_active (dm_registry d) (rs_authorization session) then ([], d)
          else if \<not> wire_matches (rs_wire session) wire then ([], d)
          else
            (case TunnelReceiver_decode_into (rs_inbound session) datagram of
               (Inr DecodedKeepalive, inbound) \<Rightarrow>
                 let session1 = adopt_peer (wo_now w) peer (session\<lparr>rs_inbound := inbound\<rparr>) in
                 (case TunnelSender_encode_keepalive_into (rs_outbound session1) of
                    (Inl _, outbound) \<Rightarrow> ([], set_session h (session1\<lparr>rs_outbound := outbound\<rparr>) d)
                  | (Inr response, outbound) \<Rightarrow>
                      let session2 = session1\<lparr>rs_outbound := outbound\<rparr> in
                      (case encode_server (da_wire L) (wo_send_clock w) (wo_random w) (rs_wire session2) response of
                         (Inl _, wire') \<Rightarrow> ([], set_session h (session2\<lparr>rs_wire := wire'\<rparr>) d)
                       | (Inr wire_response, wire') \<Rightarrow>
                           ([SendTo peer wire_response], set_session h (session2\<lparr>rs_wire := wire'\<rparr>) d)))
             | (_, inbound) \<Rightarrow> ([], set_session h (session\<lparr>rs_inbound := inbound\<rparr>) d)))"

definition handle_client_data ::
  "'h world \<Rightarrow> SocketAddr \<Rightarrow> Datagram \<Rightarrow> WireMode \<Rightarrow> Daemon \<Rightarrow> daemon_output list \<times> Daemon" where
  "handle_client_data w peer datagram wire d =
     (case find_session_by_id (dm_sessions d) (hdr_session_id (dg_header datagram)) of
        None \<Rightarrow> ([], d)
      | Some h \<Rightarrow>
          let session = session_at d h in
          if \<not> is_active (dm_registry d) (rs_authorization session) then ([], d)
          else if \<not> wire_matches (rs_wire session) wire then ([], d)
          else
            (case TunnelReceiver_decode_into (rs_inbound session) datagram of
               (Inr (DecodedIp packet), inbound) \<Rightarrow>
                 let session1 = session\<lparr>rs_inbound := inbound\<rparr>;
                     d1 = set_session h session1 d
                 in
                 (case Ipv4Packet_parse packet of
                    Inl _ \<Rightarrow> ([], d1)
                  | Inr ip \<Rightarrow>
                      if ip_source ip \<noteq> rs_client_address session then ([], d1)
                      else if wo_tun_accepts w
                      then ([WriteTun packet],
                            (set_session h (adopt_peer (wo_now w) peer session1) d)
                              \<lparr>dm_traffic := add_upload (dm_traffic d) (rs_traffic session) (of_nat (length packet))\<rparr>)
                      else ([], d1))
             | (_, inbound) \<Rightarrow> ([], set_session h (session\<lparr>rs_inbound := inbound\<rparr>) d)))"

text \<open>The handshake up to the authorization of the client: who asks, and with which handshake state.\<close>

definition authenticate_handshake ::
  "daemon_libs \<Rightarrow> 'h Snow \<Rightarrow> ValidatedServerConfig \<Rightarrow> WireMode \<Rightarrow> bytes \<Rightarrow> DeviceRegistry \<Rightarrow>
   ('h \<times> PublicKey \<times> DeviceLease) option" where
  "authenticate_handshake L S config wire payload registry =
     (let context = (case wire of
            SSpeedy _ _ \<Rightarrow> for_speedy_server (wl_crypto (da_wire L)) (vsc_server_public_key config)
          | _ \<Rightarrow> vsc_context config)
      in
      case ServerHandshake_new S (vsc_server_private_key config) context of
        Inl _ \<Rightarrow> None
      | Inr hs \<Rightarrow>
          (case ServerHandshake_read_initial S hs payload of
             Inl _ \<Rightarrow> None
           | Inr (hs', _) \<Rightarrow>
               (case ServerHandshake_peer_static_key S hs' of
                  None \<Rightarrow> None
                | Some public_key \<Rightarrow>
                    if \<not> allows_client wire public_key then None
                    else
                      (case registry_authorize registry public_key of
                         None \<Rightarrow> None
                       | Some client \<Rightarrow> Some (hs', public_key, client)))))"

definition handle_handshake ::
  "daemon_libs \<Rightarrow> 'h world \<Rightarrow> ValidatedServerConfig \<Rightarrow> SocketAddr \<Rightarrow> Datagram \<Rightarrow> WireMode \<Rightarrow> Daemon \<Rightarrow>
   daemon_output list \<times> Daemon" where
  "handle_handshake L w config peer datagram wire d =
     (let S = wo_snow w; payload = dg_payload datagram; session_id = hdr_session_id (dg_header datagram) in
      case authenticate_handshake L S config wire payload (dm_registry d) of
        None \<Rightarrow> ([], d)
      | Some (hs, public_key, client) \<Rightarrow>
          (case (case dm_cache d public_key of
                   Some cached \<Rightarrow> if ch_request cached = payload then Some (ch_response cached) else None
                 | None \<Rightarrow> None) of
             Some response \<Rightarrow>
               (case encode_server (da_wire L) (wo_send_clock w) (wo_random w) wire response of
                  (Inl _, _) \<Rightarrow> ([], d)
                | (Inr wire_response, _) \<Rightarrow> ([SendTo peer wire_response], d))
           | None \<Rightarrow>
               let mtu = session_mtu wire (tun_mtu (vsc_tun config));
                   parameters = \<lparr>sp_client_address = dl_address client, sp_prefix_len = tun_prefix_len (vsc_tun config),
                                 sp_mtu = mtu, sp_dns = tun_dns (vsc_tun config)\<rparr>
               in
               (case ServerHandshake_finish S hs (SessionParameters_encode parameters) of
                  Inl _ \<Rightarrow> ([], d)
                | Inr (crypto, response) \<Rightarrow>
                    let (sender, receiver) = TunnelDataPlane_split (TunnelDataPlane_new session_id (unat mtu) crypto);
                        (counter, traffic) = traffic_counter (dm_traffic d)
                           (encode_public_key (da_base64 L) (dl_public_key client)) (dl_name client);
                        session = \<lparr>rs_client_address = dl_address client, rs_authorization = dl_authorization client,
                                   rs_traffic = counter, rs_peer = peer, rs_inbound = receiver,
                                   rs_outbound = sender, rs_wire = wire, rs_last_peer_log = None\<rparr>;
                        (installed, sessions) = replace_client session_id session (dm_sessions d);
                        d1 = d\<lparr>dm_traffic := traffic, dm_sessions := sessions\<rparr>
                    in
                    if \<not> installed then ([], d1)
                    else
                      let encoded = Datagram_encode
                            \<lparr>dg_header = \<lparr>hdr_kind = HandshakeResponse, hdr_flags = 0,
                                          hdr_session_id = session_id, hdr_sequence = 0\<rparr>,
                             dg_payload = response\<rparr>
                      in
                      (case encode_server (da_wire L) (wo_send_clock w) (wo_random w) wire encoded of
                         (Inl _, _) \<Rightarrow> ([], d1)
                       | (Inr wire_encoded, _) \<Rightarrow>
                           ([SendTo peer wire_encoded],
                            d1\<lparr>dm_cache := (dm_cache d1)(public_key \<mapsto>
                                \<lparr>ch_request = payload, ch_response = encoded\<rparr>)\<rparr>)))))"

text \<open>The body of the receive loop for one datagram.\<close>

definition receive_datagram ::
  "daemon_libs \<Rightarrow> 'h world \<Rightarrow> ValidatedServerConfig \<Rightarrow> SocketAddr \<Rightarrow> bytes \<Rightarrow> Daemon \<Rightarrow>
   daemon_output list \<times> Daemon" where
  "receive_datagram L w config peer buffer d =
     (let (decoded, router) = decode_wire_into (da_wire L) (da_base64 L) (wo_hash_order w) (wo_clock w) buffer
            config (dm_registry d) (dm_router d);
          d1 = d\<lparr>dm_router := router\<rparr>
      in
      case decoded of
        None \<Rightarrow> ([], d1)
      | Some (wire, payload) \<Rightarrow>
          if \<not> looks_like_protocol_datagram payload then ([], d1)
          else
            (case Datagram_decode payload of
               Inl _ \<Rightarrow> ([], d1)
             | Inr datagram \<Rightarrow>
                 (case hdr_kind (dg_header datagram) of
                    HandshakeInit \<Rightarrow>
                      let (allowed, limiter) = allow_at (dm_limiter d1) (sa_ip peer) (wo_now w);
                          d2 = d1\<lparr>dm_limiter := limiter\<rparr>
                      in if allowed then handle_handshake L w config peer datagram wire d2 else ([], d2)
                  | Data \<Rightarrow> handle_client_data w peer datagram wire d1
                  | Keepalive \<Rightarrow> handle_keepalive L w peer datagram wire d1
                  | _ \<Rightarrow> ([], d1))))"

section \<open>Packets from the TUN device\<close>

record tun_item =
  ti_peer :: SocketAddr
  ti_datagram :: bytes
  ti_traffic :: counter_handle
  ti_length :: u64

definition encode_tun_packet ::
  "daemon_libs \<Rightarrow> 'h world \<Rightarrow> bytes \<Rightarrow> Daemon \<Rightarrow> tun_item option \<times> Daemon" where
  "encode_tun_packet L w packet d =
     (case Ipv4Packet_parse packet of
        Inl _ \<Rightarrow> (None, d)
      | Inr ip \<Rightarrow>
          (case find_session_by_address (dm_sessions d) (ip_destination ip) of
             None \<Rightarrow> (None, d)
           | Some h \<Rightarrow>
               let session = session_at d h in
               if \<not> is_active (dm_registry d) (rs_authorization session) then (None, d)
               else
                 (case TunnelSender_encode_ip_into (rs_outbound session) (ip_bytes ip) of
                    (Inl _, outbound) \<Rightarrow> (None, set_session h (session\<lparr>rs_outbound := outbound\<rparr>) d)
                  | (Inr datagram, outbound) \<Rightarrow>
                      let session1 = session\<lparr>rs_outbound := outbound\<rparr> in
                      (case encode_server (da_wire L) (wo_send_clock w) (wo_random w) (rs_wire session1) datagram of
                         (Inl _, wire) \<Rightarrow> (None, set_session h (session1\<lparr>rs_wire := wire\<rparr>) d)
                       | (Inr wire_datagram, wire) \<Rightarrow>
                           (Some \<lparr>ti_peer = rs_peer session, ti_datagram = wire_datagram,
                                  ti_traffic = rs_traffic session, ti_length = of_nat (length (ip_bytes ip))\<rparr>,
                            set_session h (session1\<lparr>rs_wire := wire\<rparr>) d)))))"

fun encode_tun_batch ::
  "daemon_libs \<Rightarrow> ('h world \<times> bytes) list \<Rightarrow> Daemon \<Rightarrow> tun_item list \<times> Daemon" where
  "encode_tun_batch L [] d = ([], d)"
| "encode_tun_batch L ((w, packet) # rest) d =
     (let (item, d1) = encode_tun_packet L w packet d;
          (items, d2) = encode_tun_batch L rest d1
      in ((case item of None \<Rightarrow> items | Some i \<Rightarrow> i # items), d2))"

fun record_downloads :: "nat \<Rightarrow> tun_item list \<Rightarrow> TrafficStore \<Rightarrow> TrafficStore" where
  "record_downloads (Suc sent) (item # items) traffic =
     record_downloads sent items (add_download traffic (ti_traffic item) (ti_length item))"
| "record_downloads _ _ traffic = traffic"

text \<open>
  Reading ends with the first recoverable error, with a full batch, or with another error, which stops
  the worker. The list of results stands for what the device answers from now on; an exhausted list is
  a device with nothing to read.
\<close>

fun read_tun_batch :: "nat \<Rightarrow> (io_error + 'p) list \<Rightarrow> io_error + 'p list" where
  "read_tun_batch 0 _ = Inr []"
| "read_tun_batch _ [] = Inr []"
| "read_tun_batch (Suc room) (Inr packet # rest) = bind_r (read_tun_batch room rest) (\<lambda>packets. Inr (packet # packets))"
| "read_tun_batch (Suc room) (Inl e # rest) = (if is_recoverable e then Inr [] else Inl e)"

record TunWorker =
  tw_dropped_datagrams :: u64
  tw_last_drop_report :: "instant option"

text \<open>
  One round of the worker. The kernel takes a prefix of the batch: the count that \<^verbatim>\<open>sendmmsg\<close> reports
  never exceeds the number of datagrams it was given.
\<close>

definition tun_worker_round ::
  "daemon_libs \<Rightarrow> instant \<Rightarrow> io_error + unit \<Rightarrow> (io_error + ('h world \<times> bytes)) list \<Rightarrow> io_error + nat \<Rightarrow>
   TunWorker \<Rightarrow> Daemon \<Rightarrow> (io_error + daemon_output list \<times> TunWorker) \<times> Daemon" where
  "tun_worker_round L now poll reads sendmmsg worker d =
     (case poll of
        Inl e \<Rightarrow> (if ioe_kind e = Interrupted then Inr ([], worker) else Inl e, d)
      | Inr _ \<Rightarrow>
          (case read_tun_batch UDP_BATCH_SIZE reads of
             Inl e \<Rightarrow> (Inl e, d)
           | Inr packets \<Rightarrow>
               let (items, d1) = encode_tun_batch L packets d in
               if items = [] then (Inr ([], worker), d1)
               else
                 (case send_server_batch (bind_r sendmmsg (\<lambda>n. Inr (min n (length items)))) of
                    Inl e \<Rightarrow> (Inl e, d1)
                  | Inr sent \<Rightarrow>
                      let (dropped, report) = note_server_drops now (tw_dropped_datagrams worker)
                            (tw_last_drop_report worker) (length items - sent)
                      in
                      (Inr (map (\<lambda>item. SendTo (ti_peer item) (ti_datagram item)) (take sent items),
                            \<lparr>tw_dropped_datagrams = dropped, tw_last_drop_report = report\<rparr>),
                       d1\<lparr>dm_traffic := record_downloads sent items (dm_traffic d1)\<rparr>))))"

section \<open>The receive loop\<close>

datatype SockaddrStorage = SockaddrIn SocketAddr | SockaddrIn6 SocketAddr | SockaddrOther

datatype ControlMessage = RxqOvfl u32 | OtherControl

fun socket_address :: "SockaddrStorage \<Rightarrow> SocketAddr option" where
  "socket_address (SockaddrIn a) = Some a"
| "socket_address (SockaddrIn6 a) = Some a"
| "socket_address SockaddrOther = None"

record message =
  ms_address :: "SockaddrStorage option"
  ms_bytes :: bytes
  ms_cmsgs :: "unit + ControlMessage list"

record ReceivedDatagram =
  rd_buffer :: bytes
  rd_peer :: SocketAddr
  rd_rx_overflow :: "u32 option"

fun find_overflow :: "ControlMessage list \<Rightarrow> u32 option" where
  "find_overflow [] = None"
| "find_overflow (RxqOvfl value # rest) = Some value"
| "find_overflow (OtherControl # rest) = find_overflow rest"

definition receive_message :: "message \<Rightarrow> ReceivedDatagram option" where
  "receive_message m =
     (case Option.bind (ms_address m) socket_address of
        None \<Rightarrow> None
      | Some address \<Rightarrow>
          Some \<lparr>rd_buffer = ms_bytes m, rd_peer = address,
                rd_rx_overflow = (case ms_cmsgs m of Inl _ \<Rightarrow> None | Inr ms \<Rightarrow> find_overflow ms)\<rparr>)"

text \<open>Each message comes with the world in which its datagram is handled.\<close>

definition receive_batch :: "('h world \<times> message) list \<Rightarrow> ('h world \<times> ReceivedDatagram) list" where
  "receive_batch messages = List.map_filter (\<lambda>(w, m). map_option (Pair w) (receive_message m)) messages"

fun serve_batch ::
  "daemon_libs \<Rightarrow> ValidatedServerConfig \<Rightarrow> ('h world \<times> ReceivedDatagram) list \<Rightarrow> u32 \<times> Daemon \<Rightarrow>
   daemon_output list \<times> u32 \<times> Daemon" where
  "serve_batch L config [] (overflow, d) = ([], overflow, d)"
| "serve_batch L config ((w, received) # rest) (overflow, d) =
     (let overflow' = snd (record_rx_overflow (rd_rx_overflow received) overflow);
          (outs, d') = receive_datagram L w config (rd_peer received) (rd_buffer received) d;
          (outs', result) = serve_batch L config rest (overflow', d')
      in (outs @ outs', result))"

text \<open>One turn of the loop: the worker's report before the receive, and after a recoverable error.\<close>

record 'h turn =
  tn_poll_before :: worker_poll
  tn_poll_after :: worker_poll
  tn_received :: "io_error + ('h world \<times> message) list"

definition run_round ::
  "daemon_libs \<Rightarrow> ValidatedServerConfig \<Rightarrow> 'h turn \<Rightarrow> u32 \<times> Daemon \<Rightarrow>
   (ServerDaemonError + daemon_output list) \<times> u32 \<times> Daemon" where
  "run_round L config turn s =
     (case check_tun_worker (tn_poll_before turn) of
        Inl e \<Rightarrow> (Inl e, s)
      | Inr _ \<Rightarrow>
          (case tn_received turn of
             Inl e \<Rightarrow>
               if is_recoverable e
               then (case check_tun_worker (tn_poll_after turn) of Inl e' \<Rightarrow> (Inl e', s) | Inr _ \<Rightarrow> (Inr [], s))
               else (Inl (Io e), s)
           | Inr messages \<Rightarrow>
               let (outs, s') = serve_batch L config (receive_batch messages) s in (Inr outs, s')))"

text \<open>The first turns of the loop of \<^verbatim>\<open>run\<close>, until the turns considered are over or the loop returns an error.\<close>

fun run_turns ::
  "daemon_libs \<Rightarrow> ValidatedServerConfig \<Rightarrow> 'h turn list \<Rightarrow> u32 \<times> Daemon \<Rightarrow>
   (ServerDaemonError + daemon_output list) \<times> u32 \<times> Daemon" where
  "run_turns L config [] s = (Inr [], s)"
| "run_turns L config (turn # turns) s =
     (case run_round L config turn s of
        (Inl e, s') \<Rightarrow> (Inl e, s')
      | (Inr outs, s') \<Rightarrow>
          (case run_turns L config turns s' of
             (Inl e, s'') \<Rightarrow> (Inl e, s'')
           | (Inr outs', s'') \<Rightarrow> (Inr (outs @ outs'), s'')))"

lemma serve_batch_append:
  "serve_batch L config (xs @ ys) s =
     (let (outs, s') = serve_batch L config xs s; (outs', s'') = serve_batch L config ys s' in (outs @ outs', s''))"
proof (induction xs arbitrary: s)
  case Nil
  then show ?case by (cases s) (simp add: split_beta)
next
  case (Cons x xs)
  then show ?case by (cases x; cases s) (simp add: split_beta Let_def)
qed

end
