(* ===== verification/DaemonRun.thy ===== *)
theory DaemonRun
  imports Daemon
begin

text \<open>
  Runs of the server daemon: datagrams received, rounds of the TUN worker, operations of the
  administration interface and flushes of the traffic counters, in any order. What a handler does to the
  sessions is one of two moves: it advances one active session without changing who it belongs to, or it
  installs a new session for the holder of a lease. The properties of runs follow from these moves.
\<close>

section \<open>Moves\<close>

definition same_session :: "RuntimeSession \<Rightarrow> RuntimeSession \<Rightarrow> bool" where
  "same_session s s' \<longleftrightarrow>
     rs_client_address s' = rs_client_address s \<and> rs_authorization s' = rs_authorization s \<and>
     rs_traffic s' = rs_traffic s \<and> tr_session_id (rs_inbound s') = tr_session_id (rs_inbound s) \<and>
     ts_session_id (rs_outbound s') = ts_session_id (rs_outbound s) \<and>
     ts_mtu (rs_outbound s') = ts_mtu (rs_outbound s)"

lemma same_session_refl [simp]: "same_session s s"
  by (simp add: same_session_def)

lemma same_session_trans: "same_session s t \<Longrightarrow> same_session t u \<Longrightarrow> same_session s u"
  by (simp add: same_session_def)

inductive session_move :: "DeviceRegistry \<Rightarrow> Sessions \<Rightarrow> Sessions \<Rightarrow> bool" for R where
  idle: "session_move R ss ss"
| advance: "ss_by_id ss i = Some h \<or> ss_by_address ss a = Some h \<Longrightarrow>
     is_active R (rs_authorization (ss_heap ss ! h)) \<Longrightarrow> same_session (ss_heap ss ! h) s \<Longrightarrow>
     session_move R ss (put_session h s ss)"
| install: "registry_authorize R key = Some lease \<Longrightarrow>
     rs_client_address s = dl_address lease \<Longrightarrow> rs_authorization s = dl_authorization lease \<Longrightarrow>
     tr_session_id (rs_inbound s) = i \<Longrightarrow> ts_session_id (rs_outbound s) = i \<Longrightarrow>
     session_move R ss (snd (replace_client i s ss))"

lemma same_session_adopt [simp]: "same_session s (adopt_peer now peer s)"
  by (simp add: same_session_def adopt_peer_def Let_def)

lemma same_session_receive:
  "TunnelReceiver_decode_into (rs_inbound s) datagram = (r, inbound) \<Longrightarrow> same_session s (s\<lparr>rs_inbound := inbound\<rparr>)"
  by (auto simp: TunnelReceiver_decode_into_def same_session_def Let_def split_beta split: if_splits)

lemma sender_identity:
  "TunnelSender_encode_into t kind ikind payload = (r, t') \<Longrightarrow> ts_session_id t' = ts_session_id t \<and> ts_mtu t' = ts_mtu t"
  by (auto simp: TunnelSender_encode_into_def Let_def split: option.splits sum.splits)

lemma same_session_keepalive:
  "TunnelSender_encode_keepalive_into (rs_outbound s) = (r, outbound) \<Longrightarrow> same_session s (s\<lparr>rs_outbound := outbound\<rparr>)"
  using sender_identity by (fastforce simp: TunnelSender_encode_keepalive_into_def same_session_def)

lemma same_session_send:
  "TunnelSender_encode_ip_into (rs_outbound s) p = (r, outbound) \<Longrightarrow> same_session s (s\<lparr>rs_outbound := outbound\<rparr>)"
  using sender_identity
  by (fastforce simp: TunnelSender_encode_ip_into_def same_session_def split: sum.splits if_splits)

lemma same_session_wire [simp]: "same_session s (s\<lparr>rs_wire := wire\<rparr>)"
  by (simp add: same_session_def)

text \<open>What a step does besides the sessions, and the packets it writes.\<close>

definition tun_packets :: "daemon_output list \<Rightarrow> bytes list" where
  "tun_packets outs = List.map_filter (\<lambda>out. case out of WriteTun p \<Rightarrow> Some p | SendTo _ _ \<Rightarrow> None) outs"

lemma tun_packets_simps [simp]:
  "tun_packets [] = []" "tun_packets (WriteTun p # outs) = p # tun_packets outs"
  "tun_packets (SendTo a b # outs) = tun_packets outs" "tun_packets (outs @ outs') = tun_packets outs @ tun_packets outs'"
  by (simp_all add: tun_packets_def List.map_filter_def)

definition move :: "Daemon \<Rightarrow> Daemon \<Rightarrow> bool" where
  "move d d' \<longleftrightarrow> session_move (dm_registry d) (dm_sessions d) (dm_sessions d') \<and> dm_registry d' = dm_registry d"

lemma move_refl [simp]: "move d d"
  by (simp add: move_def session_move.idle)

lemma move_advance:
  "ss_by_id (dm_sessions d) i = Some h \<or> ss_by_address (dm_sessions d) a = Some h \<Longrightarrow>
   is_active (dm_registry d) (rs_authorization (session_at d h)) \<Longrightarrow> same_session (session_at d h) s \<Longrightarrow>
   move d (set_session h s d)"
  by (simp add: move_def session_move.advance)

lemma move_frame [simp]:
  "move d (d'\<lparr>dm_traffic := t\<rparr>) = move d d'" "move d (d'\<lparr>dm_cache := c\<rparr>) = move d d'"
  "move (d\<lparr>dm_router := r\<rparr>) d' = move d d'" "move (d\<lparr>dm_limiter := l\<rparr>) d' = move d d'"
  "move d (d'\<lparr>dm_router := r\<rparr>) = move d d'" "move d (d'\<lparr>dm_limiter := l\<rparr>) = move d d'"
  by (simp_all add: move_def)

text \<open>The packet of an accepted datagram: authenticated by an active session, from the session's address.\<close>

definition admitted :: "Daemon \<Rightarrow> bytes \<Rightarrow> bool" where
  "admitted d p \<longleftrightarrow> (\<exists>i h datagram inbound ip.
     ss_by_id (dm_sessions d) i = Some h \<and> is_active (dm_registry d) (rs_authorization (session_at d h)) \<and>
     TunnelReceiver_decode_into (rs_inbound (session_at d h)) datagram = (Inr (DecodedIp p), inbound) \<and>
     Ipv4Packet_parse p = Inr ip \<and> ip_source ip = rs_client_address (session_at d h))"

lemma handle_client_data_move:
  assumes "handle_client_data w peer datagram wire d = (outs, d')"
  shows "move d d' \<and> (\<forall>p\<in>set (tun_packets outs). admitted d p)"
proof (cases "ss_by_id (dm_sessions d) (hdr_session_id (dg_header datagram))")
  case None
  with assms show ?thesis by (simp add: handle_client_data_def find_session_by_id_def)
next
  case (Some h)
  let ?s = "session_at d h"
  note body = assms [unfolded handle_client_data_def find_session_by_id_def Some option.case Let_def]
  show ?thesis
  proof (cases "is_active (dm_registry d) (rs_authorization ?s) \<and> wire_matches (rs_wire ?s) wire")
    case False
    with body show ?thesis by (auto split: if_splits)
  next
    case True
    obtain r inbound where dec: "TunnelReceiver_decode_into (rs_inbound ?s) datagram = (r, inbound)"
      by (cases "TunnelReceiver_decode_into (rs_inbound ?s) datagram")
    note same = same_session_receive [OF dec]
    have adv: "move d (set_session h s d)" if "same_session ?s s" for s
      using move_advance Some True that by blast
    show ?thesis
    proof (cases "\<exists>p ip. r = Inr (DecodedIp p) \<and> Ipv4Packet_parse p = Inr ip \<and>
        ip_source ip = rs_client_address ?s \<and> wo_tun_accepts w")
      case True
      then obtain p ip where r: "r = Inr (DecodedIp p)" and ip: "Ipv4Packet_parse p = Inr ip"
        "ip_source ip = rs_client_address ?s" "wo_tun_accepts w" by blast
      have "outs = [WriteTun p]" "move d d'"
        using body \<open>_ \<and> wire_matches _ _\<close> dec r ip adv [OF same_session_trans [OF same same_session_adopt]]
        by auto
      moreover have "admitted d p"
        unfolding admitted_def using Some \<open>_ \<and> wire_matches _ _\<close> dec r ip(1,2) by blast
      ultimately show ?thesis by simp
    next
      case no: False
      have "outs = [] \<and> d' = set_session h (?s\<lparr>rs_inbound := inbound\<rparr>) d"
        using body \<open>_ \<and> wire_matches _ _\<close> dec no
        by (auto simp: Let_def split: sum.splits DecodedPacket.splits if_splits)
      with adv [OF same] show ?thesis by simp
    qed
  qed
qed

lemma handle_keepalive_move:
  assumes "handle_keepalive L w peer datagram wire d = (outs, d')"
  shows "move d d' \<and> tun_packets outs = []"
proof (cases "ss_by_id (dm_sessions d) (hdr_session_id (dg_header datagram))")
  case None
  with assms show ?thesis by (simp add: handle_keepalive_def find_session_by_id_def)
next
  case (Some h)
  let ?s = "session_at d h"
  note body = assms [unfolded handle_keepalive_def find_session_by_id_def Some option.case Let_def]
  show ?thesis
  proof (cases "is_active (dm_registry d) (rs_authorization ?s) \<and> wire_matches (rs_wire ?s) wire")
    case False
    with body show ?thesis by (auto split: if_splits)
  next
    case True
    obtain r inbound where dec: "TunnelReceiver_decode_into (rs_inbound ?s) datagram = (r, inbound)"
      by (cases "TunnelReceiver_decode_into (rs_inbound ?s) datagram")
    have adv: "move d (set_session h s d)" if "same_session ?s s" for s
      using move_advance Some True that by blast
    let ?s1 = "adopt_peer (wo_now w) peer (?s\<lparr>rs_inbound := inbound\<rparr>)"
    obtain r2 outbound where enc: "TunnelSender_encode_keepalive_into (rs_outbound ?s1) = (r2, outbound)"
      by (cases "TunnelSender_encode_keepalive_into (rs_outbound ?s1)")
    let ?s2 = "?s1\<lparr>rs_outbound := outbound\<rparr>"
    have s1: "same_session ?s ?s1" using same_session_receive [OF dec] same_session_adopt same_session_trans by blast
    have s2: "same_session ?s ?s2" using same_session_trans [OF s1 same_session_keepalive [OF enc]] .
    have s3: "same_session ?s (?s2\<lparr>rs_wire := v\<rparr>)" for v using same_session_trans [OF s2 same_session_wire] .
    show ?thesis
      using body True dec enc adv [OF same_session_receive [OF dec]] adv [OF s2] adv [OF s3]
      by (auto simp: Let_def split: sum.splits DecodedPacket.splits prod.splits)
  qed
qed

text \<open>The sessions and the registry are what a handshake finds; the lease is that of the authenticated key.\<close>

lemma authenticate_handshake_Some:
  assumes "authenticate_handshake L S config wire payload R = Some (hs, key, lease)"
  shows "registry_authorize R key = Some lease \<and> allows_client wire key \<and> ServerHandshake_peer_static_key S hs = Some key"
  using assms by (auto simp: authenticate_handshake_def Let_def split: sum.splits option.splits if_splits prod.splits)

lemma split_ids [simp]:
  "ts_session_id (fst (TunnelDataPlane_split (TunnelDataPlane_new i mtu crypto))) = i"
  "tr_session_id (snd (TunnelDataPlane_split (TunnelDataPlane_new i mtu crypto))) = i"
  "ts_mtu (fst (TunnelDataPlane_split (TunnelDataPlane_new i mtu crypto))) = mtu"
  by (simp_all add: TunnelDataPlane_split_def TunnelDataPlane_new_def split_beta)

definition new_session :: "daemon_libs \<Rightarrow> SocketAddr \<Rightarrow> WireMode \<Rightarrow> Daemon \<Rightarrow> DeviceLease \<Rightarrow> u64 \<Rightarrow> u16 \<Rightarrow>
    SecureSession \<Rightarrow> RuntimeSession" where
  "new_session L peer wire d lease i mtu crypto =
     (let (sender, receiver) = TunnelDataPlane_split (TunnelDataPlane_new i (unat mtu) crypto) in
      \<lparr>rs_client_address = dl_address lease, rs_authorization = dl_authorization lease,
       rs_traffic = fst (traffic_counter (dm_traffic d) (encode_public_key (da_base64 L) (dl_public_key lease)) (dl_name lease)),
       rs_peer = peer, rs_inbound = receiver, rs_outbound = sender, rs_wire = wire, rs_last_peer_log = None\<rparr>)"

definition offered :: "ValidatedServerConfig \<Rightarrow> WireMode \<Rightarrow> DeviceLease \<Rightarrow> SessionParameters" where
  "offered config wire lease =
     \<lparr>sp_client_address = dl_address lease, sp_prefix_len = tun_prefix_len (vsc_tun config),
      sp_mtu = session_mtu wire (tun_mtu (vsc_tun config)), sp_dns = tun_dns (vsc_tun config)\<rparr>"

definition handshake_answer :: "Datagram \<Rightarrow> bytes \<Rightarrow> bytes" where
  "handshake_answer datagram response = Datagram_encode
     \<lparr>dg_header = \<lparr>hdr_kind = HandshakeResponse, hdr_flags = 0,
                   hdr_session_id = hdr_session_id (dg_header datagram), hdr_sequence = 0\<rparr>,
      dg_payload = response\<rparr>"

lemma handle_handshake_cases:
  assumes "handle_handshake L w config peer datagram wire d = (outs, d')"
  obtains (ignored) "d' = d" "outs = []"
  | (repeated) hs key lease cached out wire' where
      "authenticate_handshake L (wo_snow w) config wire (dg_payload datagram) (dm_registry d) = Some (hs, key, lease)"
      "dm_cache d key = Some cached" "ch_request cached = dg_payload datagram" "d' = d"
      "encode_server (da_wire L) (wo_send_clock w) (wo_random w) wire (ch_response cached) = (Inr out, wire')"
      "outs = [SendTo peer out]"
  | (answered) hs key lease crypto response where
      "authenticate_handshake L (wo_snow w) config wire (dg_payload datagram) (dm_registry d) = Some (hs, key, lease)"
      "\<And>cached. dm_cache d key = Some cached \<Longrightarrow> ch_request cached \<noteq> dg_payload datagram"
      "ServerHandshake_finish (wo_snow w) hs (SessionParameters_encode (offered config wire lease)) = Inr (crypto, response)"
      "dm_registry d' = dm_registry d"
      "(outs = [] \<and> dm_cache d' = dm_cache d) \<or>
       (\<exists>out. outs = [SendTo peer out] \<and>
          fst (replace_client (hdr_session_id (dg_header datagram))
            (new_session L peer wire d lease (hdr_session_id (dg_header datagram))
              (session_mtu wire (tun_mtu (vsc_tun config))) crypto) (dm_sessions d)) \<and>
          fst (encode_server (da_wire L) (wo_send_clock w) (wo_random w) wire (handshake_answer datagram response)) = Inr out \<and>
          dm_cache d' = (dm_cache d)(key \<mapsto> \<lparr>ch_request = dg_payload datagram, ch_response = handshake_answer datagram response\<rparr>))"
      "dm_sessions d' = snd (replace_client (hdr_session_id (dg_header datagram))
         (new_session L peer wire d lease (hdr_session_id (dg_header datagram))
            (session_mtu wire (tun_mtu (vsc_tun config))) crypto) (dm_sessions d))"
proof -
  let ?auth = "authenticate_handshake L (wo_snow w) config wire (dg_payload datagram) (dm_registry d)"
  note body = assms [unfolded handle_handshake_def Let_def]
  show ?thesis
  proof (cases ?auth)
    case None
    with body show ?thesis by (auto intro: ignored)
  next
    case (Some a)
    then obtain hs key lease where auth: "?auth = Some (hs, key, lease)" by (cases a) auto
    note body = body [unfolded auth option.case prod.case]
    show ?thesis
    proof (cases "\<exists>cached. dm_cache d key = Some cached \<and> ch_request cached = dg_payload datagram")
      case True
      then obtain cached where "dm_cache d key = Some cached" "ch_request cached = dg_payload datagram" by blast
      with body auth show ?thesis
        by (auto intro: ignored repeated split: prod.splits sum.splits)
    next
      case False
      then have fresh: "(case dm_cache d key of
          Some cached \<Rightarrow> if ch_request cached = dg_payload datagram then Some (ch_response cached) else None
        | None \<Rightarrow> None) = None" by (auto split: option.split)
      note body = body [unfolded fresh option.case]
      note body = body [folded offered_def]
      show ?thesis
      proof (cases "ServerHandshake_finish (wo_snow w) hs (SessionParameters_encode (offered config wire lease))")
        case (Inl e)
        with body show ?thesis by (intro ignored) (auto simp: offered_def)
      next
        case (Inr x)
        then obtain crypto response where fin:
          "ServerHandshake_finish (wo_snow w) hs (SessionParameters_encode (offered config wire lease)) = Inr (crypto, response)"
          by (cases x) auto
        note body = body [unfolded offered_def [symmetric] fin sum.case prod.case]
        show ?thesis
        proof (rule answered [OF auth _ fin])
          show "ch_request cached \<noteq> dg_payload datagram" if "dm_cache d key = Some cached" for cached
            using False that by blast
        qed (use body in \<open>auto simp: new_session_def handshake_answer_def split_beta split: sum.splits prod.splits if_splits\<close>)
      qed
    qed
  qed
qed

lemma handle_handshake_move:
  assumes "handle_handshake L w config peer datagram wire d = (outs, d')"
  shows "move d d' \<and> tun_packets outs = []"
  using assms
proof (cases rule: handle_handshake_cases)
  case (answered hs key lease crypto response)
  have "session_move (dm_registry d) (dm_sessions d) (dm_sessions d')"
    unfolding answered(6) using authenticate_handshake_Some [OF answered(1)]
    by (auto simp: new_session_def split_beta intro!: session_move.install)
  then show ?thesis using answered(4,5) by (auto simp: move_def)
qed simp_all

lemma admitted_frame [simp]:
  "admitted (d\<lparr>dm_router := r\<rparr>) p = admitted d p" "admitted (d\<lparr>dm_limiter := l\<rparr>) p = admitted d p"
  by (simp_all add: admitted_def)

lemma receive_datagram_cases:
  assumes "receive_datagram L w config peer buffer d = (outs, d')"
  obtains (quiet) router limiter where "outs = []" "d' = d\<lparr>dm_router := router, dm_limiter := limiter\<rparr>"
  | (data) wire datagram router where "handle_client_data w peer datagram wire (d\<lparr>dm_router := router\<rparr>) = (outs, d')"
  | (keepalive) wire datagram router where "handle_keepalive L w peer datagram wire (d\<lparr>dm_router := router\<rparr>) = (outs, d')"
  | (handshake) wire payload datagram router limiter where
      "decode_wire_into (da_wire L) (da_base64 L) (wo_hash_order w) (wo_clock w) buffer config (dm_registry d) (dm_router d) =
        (Some (wire, payload), router)"
      "Datagram_decode payload = Inr datagram" "hdr_kind (dg_header datagram) = HandshakeInit"
      "handle_handshake L w config peer datagram wire (d\<lparr>dm_router := router, dm_limiter := limiter\<rparr>) = (outs, d')"
proof -
  obtain decoded router where dec: "decode_wire_into (da_wire L) (da_base64 L) (wo_hash_order w) (wo_clock w) buffer
      config (dm_registry d) (dm_router d) = (decoded, router)" by fastforce
  note body = assms [unfolded receive_datagram_def Let_def dec prod.case]
  have stay: "thesis" if "outs = []" "d' = d\<lparr>dm_router := router\<rparr>"
    by (rule quiet [where router = router and limiter = "dm_limiter d"]) (use that in auto)
  show ?thesis
  proof (cases "\<exists>wire payload datagram. decoded = Some (wire, payload) \<and> looks_like_protocol_datagram payload \<and>
      Datagram_decode payload = Inr datagram")
    case False
    with body stay show ?thesis by (auto split: option.splits if_splits sum.splits)
  next
    case True
    then obtain wire payload datagram where ok: "decoded = Some (wire, payload)"
      "looks_like_protocol_datagram payload" "Datagram_decode payload = Inr datagram" by blast
    note body = body [unfolded ok(1) option.case prod.case ok(3) sum.case]
    show ?thesis
      using body ok(2) stay quiet data keepalive handshake [OF dec [unfolded ok(1)] ok(3)]
      by (cases "hdr_kind (dg_header datagram)") (auto split: prod.splits if_splits)
  qed
qed

lemma receive_datagram_move:
  assumes "receive_datagram L w config peer buffer d = (outs, d')"
  shows "move d d' \<and> (\<forall>p\<in>set (tun_packets outs). admitted d p)"
  using assms
  by (cases rule: receive_datagram_cases)
    (auto dest!: handle_handshake_move handle_client_data_move handle_keepalive_move)

lemma encode_tun_packet_move:
  assumes "encode_tun_packet L w packet d = (item, d')"
  shows "move d d'"
proof (cases "Ipv4Packet_parse packet")
  case (Inl e)
  with assms show ?thesis by (simp add: encode_tun_packet_def)
next
  case (Inr ip)
  note body = assms [unfolded encode_tun_packet_def find_session_by_address_def Inr sum.case Let_def]
  show ?thesis
  proof (cases "ss_by_address (dm_sessions d) (ip_destination ip)")
    case None
    with body show ?thesis by simp
  next
    case (Some h)
    let ?s = "session_at d h"
    note body = body [unfolded Some option.case]
    obtain r outbound where enc: "TunnelSender_encode_ip_into (rs_outbound ?s) (ip_bytes ip) = (r, outbound)"
      by (cases "TunnelSender_encode_ip_into (rs_outbound ?s) (ip_bytes ip)")
    note same = same_session_send [OF enc]
    have adv: "move d (set_session h s d)" if "same_session ?s s" "is_active (dm_registry d) (rs_authorization ?s)" for s
      using move_advance Some that by blast
    show ?thesis
      using body enc adv [OF same] adv [OF same_session_trans [OF same same_session_wire]]
      by (auto split: if_splits sum.splits prod.splits)
  qed
qed

lemma encode_tun_batch_move:
  "encode_tun_batch L packets d = (items, d') \<Longrightarrow> move\<^sup>*\<^sup>* d d'"
proof (induction L packets d arbitrary: items d' rule: encode_tun_batch.induct)
  case (2 L w packet rest d)
  obtain item d1 items1 d2 where steps: "encode_tun_packet L w packet d = (item, d1)"
      "encode_tun_batch L rest d1 = (items1, d2)" by fastforce
  have "move\<^sup>*\<^sup>* d1 d2" using "2.IH" [OF steps(1) [symmetric] refl steps(2)] .
  with encode_tun_packet_move [OF steps(1)] have "move\<^sup>*\<^sup>* d d2" by (rule converse_rtranclp_into_rtranclp)
  with "2.prems" steps show ?case by simp
qed simp

lemma moves_traffic: "move\<^sup>*\<^sup>* d d' \<Longrightarrow> move\<^sup>*\<^sup>* d (d'\<lparr>dm_traffic := t\<rparr>)"
  by (erule rtranclp.rtrancl_into_rtrancl) simp

lemma tun_packets_sent [simp]: "tun_packets (map (\<lambda>item. SendTo (ti_peer item) (ti_datagram item)) items) = []"
  by (induction items) simp_all

lemma tun_worker_round_move:
  assumes "tun_worker_round L now poll reads sendmmsg worker d = (r, d')"
  shows "move\<^sup>*\<^sup>* d d' \<and> (\<forall>outs worker'. r = Inr (outs, worker') \<longrightarrow> tun_packets outs = [])"
proof (cases "\<exists>packets. poll = Inr () \<and> read_tun_batch UDP_BATCH_SIZE reads = Inr packets")
  case False
  with assms show ?thesis
    by (auto simp: tun_worker_round_def split: sum.splits if_splits)
next
  case True
  then obtain packets where r: "poll = Inr ()" "read_tun_batch UDP_BATCH_SIZE reads = Inr packets" by blast
  obtain items d1 where enc: "encode_tun_batch L packets d = (items, d1)" by fastforce
  note m = encode_tun_batch_move [OF enc]
  show ?thesis
    using assms [unfolded tun_worker_round_def r sum.case enc Let_def prod.case] m moves_traffic [OF m]
    by (auto split: sum.splits if_splits prod.splits)
qed

section \<open>The two indexes\<close>

text \<open>
  The indexes describe the same sessions: each indexed session is reached by its own identifier and its
  own address, and by no other.
\<close>

definition indexes_ok :: "Sessions \<Rightarrow> bool" where
  "indexes_ok ss \<longleftrightarrow>
     (\<forall>i h. ss_by_id ss i = Some h \<longrightarrow> h < length (ss_heap ss) \<and> tr_session_id (rs_inbound (ss_heap ss ! h)) = i \<and>
        ts_session_id (rs_outbound (ss_heap ss ! h)) = i \<and>
        ss_by_address ss (rs_client_address (ss_heap ss ! h)) = Some h) \<and>
     (\<forall>a h. ss_by_address ss a = Some h \<longrightarrow> h < length (ss_heap ss) \<and> rs_client_address (ss_heap ss ! h) = a \<and>
        ss_by_id ss (tr_session_id (rs_inbound (ss_heap ss ! h))) = Some h)"

lemma indexes_ok_idD:
  assumes "indexes_ok ss" "ss_by_id ss i = Some h"
  shows "h < length (ss_heap ss)" "tr_session_id (rs_inbound (ss_heap ss ! h)) = i"
    "ts_session_id (rs_outbound (ss_heap ss ! h)) = i" "ss_by_address ss (rs_client_address (ss_heap ss ! h)) = Some h"
  using assms unfolding indexes_ok_def by blast+

lemma indexes_ok_addressD:
  assumes "indexes_ok ss" "ss_by_address ss a = Some h"
  shows "h < length (ss_heap ss)" "rs_client_address (ss_heap ss ! h) = a"
    "ss_by_id ss (tr_session_id (rs_inbound (ss_heap ss ! h))) = Some h"
  using assms unfolding indexes_ok_def by blast+

lemma put_session_simps [simp]:
  "ss_by_id (put_session h s ss) = ss_by_id ss" "ss_by_address (put_session h s ss) = ss_by_address ss"
  "length (ss_heap (put_session h s ss)) = length (ss_heap ss)"
  "ss_heap (put_session h s ss) = (ss_heap ss)[h := s]"
  by (simp_all add: put_session_def)

lemma indexes_ok_put:
  assumes "indexes_ok ss" "same_session (ss_heap ss ! h) s"
  shows "indexes_ok (put_session h s ss)"
proof -
  have same: "rs_client_address ((ss_heap ss)[h := s] ! j) = rs_client_address (ss_heap ss ! j)"
      "tr_session_id (rs_inbound ((ss_heap ss)[h := s] ! j)) = tr_session_id (rs_inbound (ss_heap ss ! j))"
      "ts_session_id (rs_outbound ((ss_heap ss)[h := s] ! j)) = ts_session_id (rs_outbound (ss_heap ss ! j))"
    if "j < length (ss_heap ss)" for j
    using assms(2) that by (cases "j = h"; simp add: same_session_def)+
  have "j < length (ss_heap ss) \<and> tr_session_id (rs_inbound ((ss_heap ss)[h := s] ! j)) = i \<and>
      ts_session_id (rs_outbound ((ss_heap ss)[h := s] ! j)) = i \<and>
      ss_by_address ss (rs_client_address ((ss_heap ss)[h := s] ! j)) = Some j" if "ss_by_id ss i = Some j" for i j
    using indexes_ok_idD [OF assms(1) that] by (simp add: same)
  moreover have "j < length (ss_heap ss) \<and> rs_client_address ((ss_heap ss)[h := s] ! j) = a \<and>
      ss_by_id ss (tr_session_id (rs_inbound ((ss_heap ss)[h := s] ! j))) = Some j" if "ss_by_address ss a = Some j" for a j
    using indexes_ok_addressD [OF assms(1) that] by (simp add: same)
  ultimately show ?thesis unfolding indexes_ok_def put_session_simps length_list_update by blast
qed

text \<open>What an installation changes, and when it is refused.\<close>

lemma replace_client_refused:
  assumes "ss_by_id ss i = Some h" "rs_client_address (ss_heap ss ! h) \<noteq> rs_client_address s"
  shows "replace_client i s ss = (False, ss\<lparr>ss_heap := ss_heap ss @ [s]\<rparr>)"
  using assms by (simp add: replace_client_def Let_def)

lemma replace_client_installed:
  assumes "\<And>h. ss_by_id ss i = Some h \<Longrightarrow> rs_client_address (ss_heap ss ! h) = rs_client_address s"
  shows "fst (replace_client i s ss)" "ss_heap (snd (replace_client i s ss)) = ss_heap ss @ [s]"
    "ss_by_address (snd (replace_client i s ss)) = (ss_by_address ss)(rs_client_address s \<mapsto> length (ss_heap ss))"
    "ss_by_id (snd (replace_client i s ss)) j =
      (if j = i then Some (length (ss_heap ss))
       else if ss_by_id ss j \<noteq> None \<and> ss_by_id ss j = ss_by_address ss (rs_client_address s) then None
       else ss_by_id ss j)"
  using assms by (auto simp: replace_client_def Let_def split: option.splits)

lemma indexes_ok_allocate: "indexes_ok ss \<Longrightarrow> indexes_ok (ss\<lparr>ss_heap := ss_heap ss @ [s]\<rparr>)"
  by (auto simp: indexes_ok_def nth_append less_SucI)

lemma indexes_ok_replace:
  assumes ok: "indexes_ok ss"
    and ids: "tr_session_id (rs_inbound s) = i" "ts_session_id (rs_outbound s) = i"
  shows "indexes_ok (snd (replace_client i s ss))"
proof (cases "\<exists>h. ss_by_id ss i = Some h \<and> rs_client_address (ss_heap ss ! h) \<noteq> rs_client_address s")
  case True
  with indexes_ok_allocate [OF ok] show ?thesis using replace_client_refused by fastforce
next
  case False
  then have inst: "\<And>h. ss_by_id ss i = Some h \<Longrightarrow> rs_client_address (ss_heap ss ! h) = rs_client_address s" by blast
  note new = replace_client_installed [of ss i s, OF inst]
  let ?ss = "snd (replace_client i s ss)" and ?n = "length (ss_heap ss)" and ?a = "rs_client_address s"
  have old: "ss_heap ?ss ! h = ss_heap ss ! h" if "h < ?n" for h using that by (simp add: new(2) nth_append)
  have self: "ss_heap ?ss ! ?n = s" by (simp add: new(2))
  show ?thesis unfolding indexes_ok_def
  proof (intro conjI allI impI; (elim conjE)?)
    fix j h assume j: "ss_by_id ?ss j = Some h"
    have "h = ?n \<and> j = i \<or> j \<noteq> i \<and> ss_by_id ss j = Some h \<and> ss_by_address ss ?a \<noteq> Some h"
      using j new(4) [of j] by (auto split: if_splits)
    then have "h < Suc ?n \<and> tr_session_id (rs_inbound (ss_heap ?ss ! h)) = j \<and>
        ts_session_id (rs_outbound (ss_heap ?ss ! h)) = j \<and> ss_by_address ?ss (rs_client_address (ss_heap ?ss ! h)) = Some h"
      using indexes_ok_idD [OF ok, of j h] old [of h] self ids new(3) by auto
    then show "h < length (ss_heap ?ss)" "tr_session_id (rs_inbound (ss_heap ?ss ! h)) = j"
      "ts_session_id (rs_outbound (ss_heap ?ss ! h)) = j" "ss_by_address ?ss (rs_client_address (ss_heap ?ss ! h)) = Some h"
      by (simp_all add: new(2))
  next
    fix a h assume a: "ss_by_address ?ss a = Some h"
    have "h = ?n \<and> a = ?a \<or> a \<noteq> ?a \<and> ss_by_address ss a = Some h"
      using a new(3) by (auto split: if_splits)
    then have "h < Suc ?n \<and> rs_client_address (ss_heap ?ss ! h) = a \<and>
        ss_by_id ?ss (tr_session_id (rs_inbound (ss_heap ?ss ! h))) = Some h"
    proof (elim disjE conjE)
      assume h: "a \<noteq> ?a" "ss_by_address ss a = Some h"
      note was = indexes_ok_addressD [OF ok h(2)]
      have "tr_session_id (rs_inbound (ss_heap ss ! h)) \<noteq> i" using inst was h(1) by auto
      moreover have "ss_by_address ss ?a \<noteq> Some h" using indexes_ok_addressD(2) [OF ok, of ?a h] was h(1) by auto
      ultimately show ?thesis using was old new(4) by auto
    qed (use self ids new(4) in auto)
    then show "h < length (ss_heap ?ss)" "rs_client_address (ss_heap ?ss ! h) = a"
      "ss_by_id ?ss (tr_session_id (rs_inbound (ss_heap ?ss ! h))) = Some h"
      by (simp_all add: new(2))
  qed
qed

lemma session_move_indexes: "session_move R ss ss' \<Longrightarrow> indexes_ok ss \<Longrightarrow> indexes_ok ss'"
  by (induction rule: session_move.induct) (auto intro: indexes_ok_put indexes_ok_replace)

section \<open>Sessions and leases\<close>

text \<open>Every session has a flag the registry allocated, and while it is set, a lease with the session's address.\<close>

definition leased :: "DeviceRegistry \<Rightarrow> RuntimeSession \<Rightarrow> bool" where
  "leased R s \<longleftrightarrow> rs_authorization s < dr_next_flag R \<and>
     (dr_flags R (rs_authorization s) \<longrightarrow>
       (\<exists>k l. dr_leases R k = Some l \<and> dl_authorization l = rs_authorization s \<and> dl_address l = rs_client_address s))"

definition daemon_inv :: "base64_lib \<Rightarrow> (ConfigError \<Rightarrow> string) \<Rightarrow> Daemon \<Rightarrow> bool" where
  "daemon_inv B show_e d \<longleftrightarrow> registry_inv B show_e (dm_registry d) \<and> indexes_ok (dm_sessions d) \<and>
     (\<forall>s\<in>set (ss_heap (dm_sessions d)). leased (dm_registry d) s)"

lemma leased_same: "same_session s s' \<Longrightarrow> leased R s \<Longrightarrow> leased R s'"
  by (simp add: leased_def same_session_def)

lemma replace_client_heap: "ss_heap (snd (replace_client i s ss)) = ss_heap ss @ [s]"
  by (simp add: replace_client_def Let_def)

lemma session_move_leased:
  assumes "session_move R ss ss'" "registry_inv B show_e R" "indexes_ok ss" "\<forall>s\<in>set (ss_heap ss). leased R s"
  shows "\<forall>s\<in>set (ss_heap ss'). leased R s"
  using assms
proof (induction rule: session_move.induct)
  case (advance ss i h a s)
  then have "h < length (ss_heap ss)" using indexes_ok_idD(1) indexes_ok_addressD(1) by blast
  then have "leased R s" using advance leased_same by (meson nth_mem)
  then show ?case using advance.prems set_update_subset_insert [of "ss_heap ss" h s] by auto
next
  case (install key lease s i ss)
  then have "leased R s" unfolding leased_def registry_inv_def leases_match_def registry_authorize_def by metis
  then show ?case using install.prems by (simp add: replace_client_heap)
qed simp

lemma move_inv: "move d d' \<Longrightarrow> daemon_inv B show_e d \<Longrightarrow> daemon_inv B show_e d'"
  unfolding daemon_inv_def move_def using session_move_indexes session_move_leased by metis

lemma moves_inv: "move\<^sup>*\<^sup>* d d' \<Longrightarrow> daemon_inv B show_e d \<Longrightarrow> daemon_inv B show_e d'"
  by (induction rule: rtranclp_induct) (auto intro: move_inv)

text \<open>The registry's steps keep the leases of the flags that stay set.\<close>

lemma registry_step_leases:
  assumes "registry_step B show_e R R'" "registry_inv B show_e R" "dr_leases R k = Some l" "dr_flags R' (dl_authorization l)"
  shows "dr_leases R' k = Some l"
  using assms(1)
proof cases
  case (provisioning g show_c io name platform)
  show ?thesis
  proof (cases "fst (provision B show_c io g R name platform)")
    case (Inl e)
    with provisioning provision_Inl assms show ?thesis by simp
  next
    case (Inr d)
    then show ?thesis
      by (rule provision_Inr) (use assms(3) provisioning in auto)
  qed
next
  case (revoking io key_text)
  show ?thesis
  proof (cases "fst (revoke B show_e io R key_text) = Inr True")
    case True
    then show ?thesis by (rule revoke_True) (use assms(3,4) revoking in auto)
  next
    case False
    with revoking revoke_not_True assms show ?thesis by simp
  qed
qed

lemma registry_step_leased:
  assumes "registry_step B show_e R R'" "registry_inv B show_e R" "leased R s"
  shows "leased R' s"
proof -
  note flags = registry_step_flags [OF assms(1), of "rs_authorization s"]
  have "\<exists>k l. dr_leases R' k = Some l \<and> dl_authorization l = rs_authorization s \<and> dl_address l = rs_client_address s"
    if "dr_flags R' (rs_authorization s)"
    using registry_step_leases [OF assms(1,2)] flags that assms(3) unfolding leased_def by metis
  with flags assms(3) show ?thesis by (simp add: leased_def)
qed

section \<open>Runs\<close>

datatype 'h daemon_event =
  Arrived "'h world" SocketAddr bytes
| TunReady instant "io_error + unit" "(io_error + ('h world \<times> bytes)) list" "io_error + nat" TunWorker
| Administered DeviceRegistry
| Flushed "string + unit" u64

inductive daemon_step ::
  "daemon_libs \<Rightarrow> (ConfigError \<Rightarrow> string) \<Rightarrow> ValidatedServerConfig \<Rightarrow> Daemon \<Rightarrow> 'h daemon_event \<Rightarrow>
   daemon_output list \<Rightarrow> Daemon \<Rightarrow> bool"
  for L show_e config where
  receiving: "receive_datagram L w config peer buffer d = (outs, d') \<Longrightarrow>
     daemon_step L show_e config d (Arrived w peer buffer) outs d'"
| tunnelling: "tun_worker_round L now poll reads sendmmsg worker d = (Inr (outs, worker'), d') \<Longrightarrow>
     daemon_step L show_e config d (TunReady now poll reads sendmmsg worker) outs d'"
| administering: "registry_step (da_base64 L) show_e (dm_registry d) R \<Longrightarrow>
     daemon_step L show_e config d (Administered R) [] (d\<lparr>dm_registry := R\<rparr>)"
| flushing: "flush_at io now (dm_traffic d) = (r, traffic) \<Longrightarrow>
     daemon_step L show_e config d (Flushed io now) [] (d\<lparr>dm_traffic := traffic\<rparr>)"

inductive daemon_run ::
  "daemon_libs \<Rightarrow> (ConfigError \<Rightarrow> string) \<Rightarrow> ValidatedServerConfig \<Rightarrow> Daemon \<Rightarrow> 'h daemon_event list \<Rightarrow>
   daemon_output list \<Rightarrow> Daemon \<Rightarrow> bool"
  for L show_e config where
  halt: "daemon_run L show_e config d [] [] d"
| turn: "daemon_step L show_e config d e outs d1 \<Longrightarrow> daemon_run L show_e config d1 es outs' d' \<Longrightarrow>
     daemon_run L show_e config d (e # es) (outs @ outs') d'"

definition daemon_start :: "DeviceRegistry \<Rightarrow> TrafficStore \<Rightarrow> Daemon" where
  "daemon_start registry traffic =
     \<lparr>dm_sessions = Sessions_default, dm_registry = registry, dm_traffic = traffic,
      dm_router = MorphRouter_default, dm_limiter = HandshakeLimiter_new 50 (secs 60), dm_cache = Map.empty\<rparr>"

lemma daemon_start_inv:
  "base64_ok B \<Longrightarrow> registry_reach B show_e R \<Longrightarrow> daemon_inv B show_e (daemon_start R traffic)"
  by (simp add: daemon_inv_def daemon_start_def registry_reach_inv Sessions_default_def indexes_ok_def)

lemma daemon_inv_traffic [simp]: "daemon_inv B show_e (d\<lparr>dm_traffic := t\<rparr>) = daemon_inv B show_e d"
  by (simp add: daemon_inv_def)

lemma daemon_step_inv:
  assumes "daemon_step L show_e config d e outs d'" "base64_ok (da_base64 L)" "daemon_inv (da_base64 L) show_e d"
  shows "daemon_inv (da_base64 L) show_e d' \<and> (\<forall>p\<in>set (tun_packets outs). admitted d p)"
  using assms
proof (induction rule: daemon_step.induct)
  case (receiving w peer buffer d outs d')
  then show ?case using receive_datagram_move move_inv by metis
next
  case (tunnelling now poll reads sendmmsg worker d outs worker' d')
  note m = tun_worker_round_move [OF tunnelling(1)]
  then have "tun_packets outs = []" by blast
  then show ?case using m moves_inv tunnelling(3) by force
next
  case (administering d R)
  then show ?case
    using registry_step_inv [OF administering(1)] registry_step_leased [OF administering(1)]
    by (auto simp: daemon_inv_def)
qed simp

lemma daemon_run_inv:
  assumes "daemon_run L show_e config d es outs d'" "base64_ok (da_base64 L)" "daemon_inv (da_base64 L) show_e d"
  shows "daemon_inv (da_base64 L) show_e d'"
  using assms by (induction rule: daemon_run.induct) (auto dest: daemon_step_inv)

section \<open>Revoked sessions\<close>

text \<open>A session whose flag is cleared is never touched again.\<close>

lemma session_move_frozen:
  assumes "session_move R ss ss'" "h < length (ss_heap ss)" "\<not> dr_flags R (rs_authorization (ss_heap ss ! h))"
  shows "h < length (ss_heap ss') \<and> ss_heap ss' ! h = ss_heap ss ! h"
  using assms
proof (induction rule: session_move.induct)
  case (advance ss i j a s)
  then have "j \<noteq> h" by (auto simp: is_active_def)
  with advance.prems show ?case by simp
qed (auto simp: replace_client_heap nth_append)

definition frozen :: "Daemon \<Rightarrow> session_handle \<Rightarrow> RuntimeSession \<Rightarrow> bool" where
  "frozen d h s \<longleftrightarrow> h < length (ss_heap (dm_sessions d)) \<and> session_at d h = s \<and>
     rs_authorization s < dr_next_flag (dm_registry d) \<and> \<not> dr_flags (dm_registry d) (rs_authorization s)"

lemma move_frozen: "move d d' \<Longrightarrow> frozen d h s \<Longrightarrow> frozen d' h s"
  unfolding move_def frozen_def using session_move_frozen by metis

lemma moves_frozen: "move\<^sup>*\<^sup>* d d' \<Longrightarrow> frozen d h s \<Longrightarrow> frozen d' h s"
  by (induction rule: rtranclp_induct) (auto intro: move_frozen)

lemma daemon_step_frozen:
  assumes "daemon_step L show_e config d e outs d'" "frozen d h s"
  shows "frozen d' h s"
  using assms
proof (induction rule: daemon_step.induct)
  case (receiving w peer buffer d outs d')
  then show ?case using receive_datagram_move move_frozen by metis
next
  case (tunnelling now poll reads sendmmsg worker d outs worker' d')
  then show ?case using tun_worker_round_move moves_frozen by metis
next
  case (administering d R)
  then show ?case using registry_step_flags [OF administering(1), of "rs_authorization s"] by (auto simp: frozen_def)
qed (simp add: frozen_def)

lemma daemon_run_frozen: "daemon_run L show_e config d es outs d' \<Longrightarrow> frozen d h s \<Longrightarrow> frozen d' h s"
  by (induction rule: daemon_run.induct) (auto dest: daemon_step_frozen)

section \<open>Whose session a datagram replaces\<close>

lemma handle_client_data_index:
  "handle_client_data w peer datagram wire d = (outs, d') \<Longrightarrow> ss_by_id (dm_sessions d') = ss_by_id (dm_sessions d)"
  by (auto simp: handle_client_data_def Let_def split: option.splits prod.splits sum.splits if_splits DecodedPacket.splits)

lemma handle_keepalive_index:
  "handle_keepalive L w peer datagram wire d = (outs, d') \<Longrightarrow> ss_by_id (dm_sessions d') = ss_by_id (dm_sessions d)"
  by (auto simp: handle_keepalive_def Let_def split: option.splits prod.splits sum.splits if_splits DecodedPacket.splits)

lemma replaced_session:
  assumes "indexes_ok ss" "ss_by_id ss i = Some h" "ss_by_id (snd (replace_client j s ss)) i \<noteq> Some h"
  shows "rs_client_address (ss_heap ss ! h) = rs_client_address s"
proof (cases "\<exists>k. ss_by_id ss j = Some k \<and> rs_client_address (ss_heap ss ! k) \<noteq> rs_client_address s")
  case True
  with assms show ?thesis using replace_client_refused by fastforce
next
  case False
  then have inst: "\<And>k. ss_by_id ss j = Some k \<Longrightarrow> rs_client_address (ss_heap ss ! k) = rs_client_address s" by blast
  from replace_client_installed(4) [of ss j s i, OF inst] assms(2,3)
  have "i = j \<or> ss_by_address ss (rs_client_address s) = Some h" by (auto split: if_splits)
  then show ?thesis using inst assms(2) indexes_ok_addressD(2) [OF assms(1)] by blast
qed

end
