(* ===== verification/DaemonProps.thy ===== *)
theory DaemonProps
  imports DaemonRun
begin

text \<open>
  The properties of the server daemon, and the small concrete run in which their hypotheses hold: a
  server with two registered devices, a first message of one of them, and a packet it then sends.
\<close>

section \<open>A concrete run\<close>

definition sample_libs :: daemon_libs where
  "sample_libs = \<lparr>da_wire = routing_libs, da_base64 = char_base64\<rparr>"

text \<open>The clock of this world cannot be read, so no masked datagram is recognised.\<close>

definition sample_world :: "(bytes \<times> bytes option) world" where
  "sample_world = \<lparr>wo_clock = (\<lambda>_. None), wo_send_clock = None, wo_random = Inr [], wo_now = 0,
     wo_hash_order = (\<lambda>ks. ks), wo_tun_accepts = True, wo_snow = plain_snow\<rparr>"

definition sample_peer :: SocketAddr where
  "sample_peer = \<lparr>sa_ip = V4 (Ipv4Addr 192 0 2 7), sa_port = 4000\<rparr>"

definition hello :: Datagram where
  "hello = \<lparr>dg_header = \<lparr>hdr_kind = HandshakeInit, hdr_flags = 0, hdr_session_id = 9, hdr_sequence = 0\<rparr>,
     dg_payload = replicate 32 2\<rparr>"

definition parcel :: Datagram where
  "parcel = \<lparr>dg_header = \<lparr>hdr_kind = Data, hdr_flags = 0, hdr_session_id = 9, hdr_sequence = 5\<rparr>,
     dg_payload = (1 # sample_packet) @ replicate 16 0\<rparr>"

lemma Datagram_decode_encode [simp]: "Datagram_decode (Datagram_encode datagram) = Inr datagram"
proof -
  have "length (Header_encode (dg_header datagram)) = HEADER_LEN" by (simp add: Header_encode_def HEADER_LEN_def)
  then show ?thesis by (simp add: Datagram_decode_def Datagram_encode_def Header_decode_encode_append)
qed

lemma unmasked_datagram:
  assumes "wo_clock w AtResolve = None" "8 \<le> length buffer" "dm_router d = MorphRouter_default"
  shows "decode_wire_into W B (wo_hash_order w) (wo_clock w) buffer config (dm_registry d) (dm_router d) =
    (Some (SLegacy, buffer), MorphRouter_default)"
  using assms by (simp add: decode_wire_into_def resolve_def current_epoch_def MorphRouter_default_def)

lemma encoded_length: "8 \<le> length (Datagram_encode datagram)"
  by (simp add: Datagram_encode_def Header_encode_def)

definition sample_start :: Daemon where
  "sample_start = daemon_start sample_registry sample_store"

definition first_session :: RuntimeSession where
  "first_session = new_session sample_libs sample_peer SLegacy sample_start (seed_lease 2 0) 9 1420
     (SecureSession_new plain_transport (PublicKey (replicate 32 2)))"

definition sample_daemon :: Daemon where
  "sample_daemon = snd (receive_datagram sample_libs sample_world sample_server_config sample_peer
     (Datagram_encode hello) sample_start)"

lemma sample_authentication:
  assumes "length rest \<le> 100"
  shows "authenticate_handshake sample_libs plain_snow sample_server_config SLegacy (replicate 32 2 @ rest) sample_registry =
     Some ((replicate 32 8, Some (replicate 32 2)), PublicKey (replicate 32 2), seed_lease 2 0)"
  using assms
  by (simp add: authenticate_handshake_def ServerHandshake_new_def plain_snow_def sample_server_config_def
      ServerHandshake_read_initial_def read_handshake_message_def MAX_NOISE_MESSAGE_LEN_def
      ServerHandshake_peer_static_key_def PublicKey_from_slice_def KEY_LEN_def registry_authorize_def
      sample_registry_def map_add_def replicate_eq_replicate)

lemma sample_finish:
  "ServerHandshake_finish plain_snow (replicate 32 8, Some (replicate 32 2)) (SessionParameters_encode parameters) =
     Inr (SecureSession_new plain_transport (PublicKey (replicate 32 2)),
          replicate 32 8 @ SessionParameters_encode parameters)"
  by (simp add: ServerHandshake_finish_def peer_static_key_def plain_snow_def PublicKey_from_slice_def KEY_LEN_def
      write_handshake_message_def MAX_NOISE_MESSAGE_LEN_def SessionParameters_encode_def ok_or_def)

lemma sample_allowed: "0 < window \<Longrightarrow> fst (allow_at (HandshakeLimiter_new 50 window) address now)"
  by (simp add: allow_at_def HandshakeLimiter_new_def limiter_cleanup_def cleanup_due_def DEFAULT_MAX_CLIENTS_def
      CLEANUP_INTERVAL_def Let_def hm_retain_def)

lemma unmasked_handshake:
  assumes "wo_clock w AtResolve = None" "dm_router d = MorphRouter_default"
    and "hdr_kind (dg_header datagram) = HandshakeInit" "fst (allow_at (dm_limiter d) (sa_ip peer) (wo_now w))"
  shows "receive_datagram L w config peer (Datagram_encode datagram) d =
   handle_handshake L w config peer datagram SLegacy
     (d\<lparr>dm_router := MorphRouter_default, dm_limiter := snd (allow_at (dm_limiter d) (sa_ip peer) (wo_now w))\<rparr>)"
  using assms unmasked_datagram [OF assms(1) encoded_length assms(2)]
  by (simp add: receive_datagram_def split_beta)

abbreviation sample_session :: "SocketAddr \<Rightarrow> Daemon \<Rightarrow> u64 \<Rightarrow> RuntimeSession" where
  "sample_session peer d i \<equiv> new_session sample_libs peer SLegacy d (seed_lease 2 0) i 1420
     (SecureSession_new plain_transport (PublicKey (replicate 32 2)))"

lemma sample_handshake:
  assumes "dm_registry d = sample_registry" "dg_payload datagram = replicate 32 2 @ rest" "length rest \<le> 100"
    and "\<And>c. dm_cache d (PublicKey (replicate 32 2)) = Some c \<Longrightarrow> ch_request c \<noteq> dg_payload datagram"
  shows "dm_sessions (snd (handle_handshake sample_libs sample_world sample_server_config peer datagram SLegacy d)) =
      snd (replace_client (hdr_session_id (dg_header datagram))
        (sample_session peer d (hdr_session_id (dg_header datagram))) (dm_sessions d))" (is ?sessions)
    and "dm_registry (snd (handle_handshake sample_libs sample_world sample_server_config peer datagram SLegacy d)) =
      sample_registry" (is ?registry)
    and "dm_router (snd (handle_handshake sample_libs sample_world sample_server_config peer datagram SLegacy d)) =
      dm_router d" (is ?router)
    and "dm_limiter (snd (handle_handshake sample_libs sample_world sample_server_config peer datagram SLegacy d)) =
      dm_limiter d" (is ?limiter)
    and "fst (replace_client (hdr_session_id (dg_header datagram))
        (sample_session peer d (hdr_session_id (dg_header datagram))) (dm_sessions d)) \<Longrightarrow>
      \<exists>response. dm_cache (snd (handle_handshake sample_libs sample_world sample_server_config peer datagram SLegacy d)) =
      (dm_cache d)(PublicKey (replicate 32 2) \<mapsto> \<lparr>ch_request = dg_payload datagram, ch_response = response\<rparr>)"
    and "fst (replace_client (hdr_session_id (dg_header datagram))
        (sample_session peer d (hdr_session_id (dg_header datagram))) (dm_sessions d)) \<Longrightarrow>
      \<exists>out. fst (handle_handshake sample_libs sample_world sample_server_config peer datagram SLegacy d) = [SendTo peer out]"
proof -
  have w: "wo_snow sample_world = plain_snow" by (simp add: sample_world_def)
  have m: "tun_mtu (vsc_tun sample_server_config) = 1420" by (simp add: sample_server_config_def)
  have fresh: "(case dm_cache d (PublicKey (replicate 32 2)) of
      Some cached \<Rightarrow> if ch_request cached = replicate 32 2 @ rest then Some (ch_response cached) else None
    | None \<Rightarrow> None) = None" using assms(2,4) by (auto split: option.split)
  note facts = assms(1,2) w m fresh sample_authentication [OF assms(3)] sample_finish
  show "\<exists>out. fst (handle_handshake sample_libs sample_world sample_server_config peer datagram SLegacy d) = [SendTo peer out]"
    if "fst (replace_client (hdr_session_id (dg_header datagram))
        (sample_session peer d (hdr_session_id (dg_header datagram))) (dm_sessions d))"
    using that unfolding handle_handshake_def
    by (simp only: facts Let_def option.case prod.case sum.case session_mtu.simps)
      (auto simp: new_session_def split_beta)
  show ?sessions ?registry ?router ?limiter
    unfolding handle_handshake_def
    by (simp_all only: facts Let_def option.case prod.case sum.case session_mtu.simps)
      (simp_all add: new_session_def split_beta assms(1))
  show "\<exists>response. dm_cache (snd (handle_handshake sample_libs sample_world sample_server_config peer datagram SLegacy d)) =
      (dm_cache d)(PublicKey (replicate 32 2) \<mapsto> \<lparr>ch_request = dg_payload datagram, ch_response = response\<rparr>)"
    if "fst (replace_client (hdr_session_id (dg_header datagram))
        (sample_session peer d (hdr_session_id (dg_header datagram))) (dm_sessions d))"
    using that unfolding handle_handshake_def
    by (simp only: facts Let_def option.case prod.case sum.case session_mtu.simps)
      (auto simp: new_session_def split_beta)
qed

lemma sample_start_fields:
  "dm_registry sample_start = sample_registry" "dm_cache sample_start = Map.empty" "dm_sessions sample_start = Sessions_default"
  "dm_router sample_start = MorphRouter_default" "dm_limiter sample_start = HandshakeLimiter_new 50 (secs 60)"
  by (simp_all add: sample_start_def daemon_start_def)

lemma sample_world_fields [simp]:
  "wo_clock sample_world r = None" "wo_now sample_world = 0" "wo_snow sample_world = plain_snow"
  by (simp_all add: sample_world_def)

lemma hello_fields [simp]:
  "hdr_kind (dg_header hello) = HandshakeInit" "hdr_session_id (dg_header hello) = 9" "dg_payload hello = replicate 32 2"
  by (simp_all add: hello_def)

lemma first_session_installed: "fst (replace_client 9 s Sessions_default)"
  by (simp add: replace_client_def Sessions_default_def)

lemma sample_sessions:
  "dm_sessions sample_daemon = snd (replace_client 9 first_session Sessions_default)"
  "dm_registry sample_daemon = sample_registry" "dm_router sample_daemon = MorphRouter_default"
  "dm_limiter sample_daemon = snd (allow_at (HandshakeLimiter_new 50 (secs 60)) (sa_ip sample_peer) 0)"
  "\<exists>response. dm_cache sample_daemon =
     [PublicKey (replicate 32 2) \<mapsto> \<lparr>ch_request = replicate 32 2, ch_response = response\<rparr>]"
proof -
  let ?d = "sample_start\<lparr>dm_router := MorphRouter_default,
    dm_limiter := snd (allow_at (HandshakeLimiter_new 50 (secs 60)) (sa_ip sample_peer) 0)\<rparr>"
  have d: "sample_daemon = snd (handle_handshake sample_libs sample_world sample_server_config sample_peer hello SLegacy ?d)"
    unfolding sample_daemon_def
    by (subst unmasked_handshake) (simp_all add: sample_start_fields sample_allowed)
  note h = sample_handshake [of ?d hello "[]" sample_peer, folded d]
  from h show "dm_sessions sample_daemon = snd (replace_client 9 first_session Sessions_default)"
    "dm_registry sample_daemon = sample_registry" "dm_router sample_daemon = MorphRouter_default"
    "dm_limiter sample_daemon = snd (allow_at (HandshakeLimiter_new 50 (secs 60)) (sa_ip sample_peer) 0)"
    "\<exists>response. dm_cache sample_daemon =
       [PublicKey (replicate 32 2) \<mapsto> \<lparr>ch_request = replicate 32 2, ch_response = response\<rparr>]"
    by (simp_all add: sample_start_fields first_session_def new_session_def first_session_installed)
qed

lemma sample_run:
  "daemon_run sample_libs show_e sample_server_config sample_start
     [Arrived sample_world sample_peer (Datagram_encode hello)]
     (fst (receive_datagram sample_libs sample_world sample_server_config sample_peer (Datagram_encode hello) sample_start))
     sample_daemon"
  using turn [OF receiving [OF prod.collapse [symmetric]] halt] by (simp add: sample_daemon_def)

lemma first_session_fields:
  "rs_client_address first_session = Ipv4Addr 10 0 0 2" "rs_authorization first_session = 0"
  "rs_wire first_session = SLegacy"
  "tr_crypto (rs_inbound first_session) = \<lparr>rh_transport = plain_transport,
     rh_receive_window = ReplayWindow_default, rh_peer_static_key = PublicKey (replicate 32 2)\<rparr>"
  "tr_session_id (rs_inbound first_session) = 9" "tr_mtu (rs_inbound first_session) = 1420"
  by (simp_all add: first_session_def new_session_def split_beta seed_lease_def TunnelDataPlane_split_def
      TunnelDataPlane_new_def SecureSession_split_def SecureSession_new_def)

lemma sample_indexes:
  "ss_heap (dm_sessions sample_daemon) = [first_session]"
  "ss_by_id (dm_sessions sample_daemon) = [9 \<mapsto> 0]"
  "ss_by_address (dm_sessions sample_daemon) = [Ipv4Addr 10 0 0 2 \<mapsto> 0]"
  by (simp_all add: sample_sessions replace_client_def Sessions_default_def first_session_fields)

lemma sample_parcel:
  "fst (receive_datagram sample_libs sample_world sample_server_config sample_peer (Datagram_encode parcel) sample_daemon) =
     [WriteTun sample_packet]"
proof -
  note dec = unmasked_datagram [of sample_world "Datagram_encode parcel" sample_daemon routing_libs char_base64
      sample_server_config, OF _ encoded_length sample_sessions(3)]
  have opened: "fst (TunnelReceiver_decode_into (rs_inbound first_session) parcel) = Inr (DecodedIp sample_packet)"
    using sample_packet_parse fresh_window_accepts [of 5]
    by (simp add: TunnelReceiver_decode_into_def first_session_fields parcel_def ReceiveHalf_decrypt_into_def
        decrypt_into_def MAX_NOISE_MESSAGE_LEN_def plain_transport_def InnerPacket_decode_def
        InnerPacketKind_try_from_def) (simp add: sample_packet_def)
  have active: "is_active sample_registry 0" by (simp add: is_active_def sample_registry_def)
  have "fst (handle_client_data sample_world sample_peer parcel SLegacy (sample_daemon\<lparr>dm_router := MorphRouter_default\<rparr>)) =
      [WriteTun sample_packet]"
    using opened active
    by (cases "TunnelReceiver_decode_into (rs_inbound first_session) parcel")
      (simp add: handle_client_data_def find_session_by_id_def sample_indexes sample_sessions(2) first_session_fields
        sample_packet_parse parcel_def sample_world_def)
  with dec show ?thesis
    by (simp add: receive_datagram_def sample_libs_def sample_world_def sample_sessions parcel_def)
qed

section \<open>Properties\<close>

text \<open>
  C18. The two indexes of the sessions agree, whatever the network, the clock, the random numbers, the
  administrators and the kernel do. In every state the daemon reaches, an indexed identifier leads to a
  session that carries this identifier in both directions and that its own address leads to; an indexed
  address leads to a session of this address that its own identifier leads to. Two identifiers never lead
  to one session, and a device has at most one.
\<close>

theorem sessions_are_indexed_consistently:
  assumes "base64_ok (da_base64 L)" "registry_reach (da_base64 L) show_e R"
    and "daemon_run L show_e config (daemon_start R traffic) es outs d"
  shows "(\<forall>i h. ss_by_id (dm_sessions d) i = Some h \<longrightarrow>
       h < length (ss_heap (dm_sessions d)) \<and> tr_session_id (rs_inbound (session_at d h)) = i \<and>
       ts_session_id (rs_outbound (session_at d h)) = i \<and>
       find_session_by_address (dm_sessions d) (rs_client_address (session_at d h)) = Some h) \<and>
     (\<forall>a h. ss_by_address (dm_sessions d) a = Some h \<longrightarrow>
       h < length (ss_heap (dm_sessions d)) \<and> rs_client_address (session_at d h) = a \<and>
       find_session_by_id (dm_sessions d) (tr_session_id (rs_inbound (session_at d h))) = Some h)"
proof -
  have "indexes_ok (dm_sessions d)"
    using daemon_run_inv [OF assms(3,1) daemon_start_inv [OF assms(1,2)]] by (simp add: daemon_inv_def)
  then show ?thesis
    unfolding indexes_ok_def find_session_by_address_def find_session_by_id_def .
qed

theorem sessions_are_indexed_consistently_witness:
  "find_session_by_address (dm_sessions sample_daemon) (rs_client_address (session_at sample_daemon 0)) = Some 0"
proof -
  have B: "base64_ok (da_base64 sample_libs)" "registry_reach (da_base64 sample_libs) show_e sample_registry"
    for show_e by (simp_all add: sample_libs_def char_base64_ok sample_registry_reach)
  have "ss_by_id (dm_sessions sample_daemon) 9 = Some 0" by (simp add: sample_indexes)
  with sessions_are_indexed_consistently [OF B sample_run [unfolded sample_start_def]] show ?thesis by blast
qed

text \<open>
  C19. Nothing enters the private network but what a registered device may send. Whenever a step of the
  daemon writes a packet to the TUN device, there is an active session that authenticated the packet's
  datagram under its keys, and a lease in force with that session's flag; the packet is a valid IPv4
  packet whose source is the address of that lease.
\<close>

theorem tun_packets_come_from_leases:
  assumes "base64_ok (da_base64 L)" "registry_reach (da_base64 L) show_e R"
    and "daemon_run L show_e config (daemon_start R traffic) es outs d"
    and "daemon_step L show_e config d e outs' d'" "WriteTun p \<in> set outs'"
  shows "\<exists>h datagram inbound key lease ip.
     h < length (ss_heap (dm_sessions d)) \<and>
     TunnelReceiver_decode_into (rs_inbound (session_at d h)) datagram = (Inr (DecodedIp p), inbound) \<and>
     registry_authorize (dm_registry d) key = Some lease \<and> is_active (dm_registry d) (dl_authorization lease) \<and>
     rs_authorization (session_at d h) = dl_authorization lease \<and>
     Ipv4Packet_parse p = Inr ip \<and> ip_source ip = dl_address lease"
proof -
  note inv = daemon_run_inv [OF assms(3,1) daemon_start_inv [OF assms(1,2)]]
  have "p \<in> set (tun_packets outs')" using assms(5) by (induction outs') (auto simp: tun_packets_def List.map_filter_def)
  then have "admitted d p" using daemon_step_inv [OF assms(4,1) inv] by blast
  then obtain i h datagram inbound ip where h: "ss_by_id (dm_sessions d) i = Some h"
    "is_active (dm_registry d) (rs_authorization (session_at d h))"
    "TunnelReceiver_decode_into (rs_inbound (session_at d h)) datagram = (Inr (DecodedIp p), inbound)"
    "Ipv4Packet_parse p = Inr ip" "ip_source ip = rs_client_address (session_at d h)"
    unfolding admitted_def by blast
  have len: "h < length (ss_heap (dm_sessions d))" using inv h(1) indexes_ok_idD(1) by (auto simp: daemon_inv_def)
  then have "leased (dm_registry d) (session_at d h)" using inv by (simp add: daemon_inv_def)
  with h(2) obtain key lease where "dr_leases (dm_registry d) key = Some lease"
    "dl_authorization lease = rs_authorization (session_at d h)" "dl_address lease = rs_client_address (session_at d h)"
    unfolding leased_def is_active_def by blast
  with h len show ?thesis unfolding registry_authorize_def by metis
qed

theorem tun_packets_come_from_leases_witness:
  "\<exists>key lease. registry_authorize sample_registry key = Some lease \<and> dl_address lease = Ipv4Addr 10 0 0 2"
proof -
  have B: "base64_ok (da_base64 sample_libs)" "registry_reach (da_base64 sample_libs) show_e sample_registry"
    for show_e by (simp_all add: sample_libs_def char_base64_ok sample_registry_reach)
  note step = receiving [of sample_libs sample_world sample_server_config sample_peer "Datagram_encode parcel" sample_daemon,
      OF prod.collapse [symmetric]]
  have "WriteTun sample_packet \<in> set (fst (receive_datagram sample_libs sample_world sample_server_config sample_peer
      (Datagram_encode parcel) sample_daemon))" by (simp add: sample_parcel)
  from tun_packets_come_from_leases [OF B sample_run [unfolded sample_start_def] step this]
  show ?thesis by (metis Inr_inject Ipv4Packet.select_convs(2) sample_packet_parse sample_sessions(2))
qed

text \<open>
  C20. Revoking a device ends its sessions for good. Take any state the daemon reaches and a session with
  the flag of a device's lease, and let the revocation of that device succeed. However the daemon runs on,
  whatever is sent to it and whoever registers later, this session is never active again and its record never changes:
  no sequence number is used, no datagram is accepted into its replay window, and it follows no new peer.
\<close>

theorem revocation_ends_sessions:
  assumes "base64_ok (da_base64 L)" "registry_reach (da_base64 L) show_e R"
    and "daemon_run L show_e config (daemon_start R traffic) es outs d"
    and "h < length (ss_heap (dm_sessions d))"
    and "decode_public_key (da_base64 L) key_text = Inr key" "registry_authorize (dm_registry d) key = Some lease"
    and "rs_authorization (session_at d h) = dl_authorization lease"
    and "revoke (da_base64 L) show_e io (dm_registry d) key_text = (Inr True, R')"
    and "daemon_run L show_e config (d\<lparr>dm_registry := R'\<rparr>) es' outs' d'"
  shows "\<not> is_active (dm_registry d') (rs_authorization (session_at d' h)) \<and> session_at d' h = session_at d h"
proof -
  note inv = daemon_run_inv [OF assms(3,1) daemon_start_inv [OF assms(1,2)]]
  have flag: "dl_authorization lease < dr_next_flag (dm_registry d)"
    using inv assms(6) by (auto simp: daemon_inv_def registry_inv_def leases_match_def registry_authorize_def)
  have revoked: "fst (revoke (da_base64 L) show_e io (dm_registry d) key_text) = Inr True" by (simp add: assms(8))
  have "frozen (d\<lparr>dm_registry := R'\<rparr>) h (session_at d h)"
    by (rule revoke_True [OF revoked])
      (use assms(4-8) flag in \<open>auto simp: frozen_def registry_authorize_def\<close>)
  from daemon_run_frozen [OF assms(9) this] show ?thesis by (simp add: frozen_def is_active_def)
qed

theorem revocation_ends_sessions_witness:
  "\<exists>R'. revoke char_base64 (\<lambda>_. []) (Inr ()) sample_registry (rec_public_key (seed_record 2)) = (Inr True, R') \<and>
     \<not> is_active R' (rs_authorization first_session)"
proof -
  have B: "base64_ok (da_base64 sample_libs)" "registry_reach (da_base64 sample_libs) show_e sample_registry"
    for show_e by (simp_all add: sample_libs_def char_base64_ok sample_registry_reach)
  let ?text = "rec_public_key (seed_record 2)"
  let ?R = "snd (revoke char_base64 (\<lambda>_. []) (Inr ()) sample_registry ?text)"
  have "rec_public_key (seed_record 3) \<noteq> ?text"
    using seed_record_key [of 2] seed_record_key [of 3] by (auto simp: replicate_eq_replicate)
  then have revoked: "revoke char_base64 (\<lambda>_. []) (Inr ()) sample_registry ?text = (Inr True, ?R)"
    by (simp add: revoke_def seed_record_key sample_registry_def persist_devices_def Let_def)
  have facts: "0 < length (ss_heap (dm_sessions sample_daemon))"
    "decode_public_key (da_base64 sample_libs) ?text = Inr (PublicKey (replicate 32 2))"
    "registry_authorize (dm_registry sample_daemon) (PublicKey (replicate 32 2)) = Some (seed_lease 2 0)"
    "rs_authorization (session_at sample_daemon 0) = dl_authorization (seed_lease 2 0)"
    "revoke (da_base64 sample_libs) (\<lambda>_. []) (Inr ()) (dm_registry sample_daemon) ?text = (Inr True, ?R)"
    using revoked
    by (simp_all add: sample_indexes sample_libs_def seed_record_key sample_sessions(2) first_session_fields seed_lease_def)
      (simp_all add: registry_authorize_def sample_registry_def map_add_def replicate_eq_replicate seed_lease_def)
  have "\<not> is_active ?R (rs_authorization (session_at sample_daemon 0))"
    using revocation_ends_sessions [OF B sample_run [unfolded sample_start_def] facts halt] by simp
  with revoked show ?thesis by (auto simp: sample_indexes)
qed

text \<open>
  C21. Nobody but a device can replace its session, although clients choose the session identifiers. If a received
  datagram makes an identifier lead away from the session it led to, the datagram decoded to a handshake
  message that the Noise responder attributed to a key the wire mode allows, and the lease of that key has
  the address of the replaced session.
\<close>

theorem only_the_device_replaces_its_session:
  assumes "base64_ok (da_base64 L)" "registry_reach (da_base64 L) show_e R"
    and "daemon_run L show_e config (daemon_start R traffic) es outs d"
    and "receive_datagram L w config peer buffer d = (outs', d')"
    and "ss_by_id (dm_sessions d) i = Some h" "ss_by_id (dm_sessions d') i \<noteq> Some h"
  shows "\<exists>wire payload router datagram hs key lease.
     decode_wire_into (da_wire L) (da_base64 L) (wo_hash_order w) (wo_clock w) buffer config (dm_registry d) (dm_router d) =
       (Some (wire, payload), router) \<and>
     Datagram_decode payload = Inr datagram \<and> hdr_kind (dg_header datagram) = HandshakeInit \<and>
     authenticate_handshake L (wo_snow w) config wire (dg_payload datagram) (dm_registry d) = Some (hs, key, lease) \<and>
     allows_client wire key \<and> dl_address lease = rs_client_address (session_at d h)"
proof -
  have ok: "indexes_ok (dm_sessions d)"
    using daemon_run_inv [OF assms(3,1) daemon_start_inv [OF assms(1,2)]] by (simp add: daemon_inv_def)
  from assms(4) show ?thesis
  proof (cases rule: receive_datagram_cases)
    case (handshake wire payload datagram router limiter)
    from handshake(4) show ?thesis
    proof (cases rule: handle_handshake_cases)
      case (answered hs key lease crypto response)
      have "rs_client_address (session_at d h) = dl_address lease"
        using replaced_session [OF ok assms(5)] assms(6) answered(6)
        by (auto simp: new_session_def split_beta)
      with handshake answered authenticate_handshake_Some [OF answered(1)] show ?thesis by auto
    qed (use assms(5,6) in auto)
  qed (use assms(5,6) in \<open>auto dest: handle_client_data_index handle_keepalive_index\<close>)
qed

text \<open>A later first message of the same device, under another identifier.\<close>

definition hello_again :: Datagram where
  "hello_again = \<lparr>dg_header = \<lparr>hdr_kind = HandshakeInit, hdr_flags = 0, hdr_session_id = 10, hdr_sequence = 0\<rparr>,
     dg_payload = replicate 32 2 @ [1]\<rparr>"

lemma hello_again_fields [simp]:
  "hdr_kind (dg_header hello_again) = HandshakeInit" "hdr_session_id (dg_header hello_again) = 10"
  "dg_payload hello_again = replicate 32 2 @ [1]"
  by (simp_all add: hello_again_def)

theorem only_the_device_replaces_its_session_witness:
  "\<exists>wire key. allows_client wire key \<and>
     ss_by_id (dm_sessions (snd (receive_datagram sample_libs sample_world sample_server_config sample_peer
       (Datagram_encode hello_again) sample_daemon))) 9 = None"
proof -
  have B: "base64_ok (da_base64 sample_libs)" "registry_reach (da_base64 sample_libs) show_e sample_registry"
    for show_e by (simp_all add: sample_libs_def char_base64_ok sample_registry_reach)
  let ?l = "allow_at (dm_limiter sample_daemon) (sa_ip sample_peer) 0"
  let ?d = "sample_daemon\<lparr>dm_router := MorphRouter_default, dm_limiter := snd ?l\<rparr>"
  let ?r = "receive_datagram sample_libs sample_world sample_server_config sample_peer (Datagram_encode hello_again) sample_daemon"
  have "fst ?l"
    by (simp add: sample_sessions(4) allow_at_def HandshakeLimiter_new_def limiter_cleanup_def cleanup_due_def
        DEFAULT_MAX_CLIENTS_def CLEANUP_INTERVAL_def Let_def hm_retain_def hm_insert_def word_le_nat_alt)
  then have r: "?r = handle_handshake sample_libs sample_world sample_server_config sample_peer hello_again SLegacy ?d"
    by (subst unmasked_handshake) (simp_all add: sample_sessions(3))
  have fresh: "ch_request c \<noteq> dg_payload hello_again" if "dm_cache ?d (PublicKey (replicate 32 2)) = Some c" for c
    using that sample_sessions(5) by auto
  have gone: "ss_by_id (dm_sessions (snd ?r)) 9 = None"
    using sample_handshake(1) [of ?d hello_again "[1]" sample_peer, OF _ _ _ fresh]
    by (simp add: r sample_sessions(2) replace_client_def Let_def sample_indexes new_session_def
        split_beta seed_lease_def first_session_fields)
  have "ss_by_id (dm_sessions sample_daemon) 9 = Some 0" by (simp add: sample_indexes)
  with only_the_device_replaces_its_session [OF B sample_run [unfolded sample_start_def], where w = sample_world and
      peer = sample_peer and buffer = "Datagram_encode hello_again" and outs' = "fst ?r" and d' = "snd ?r" and i = 9 and h = 0]
    gone show ?thesis by auto
qed

text \<open>
  C22. A retransmitted handshake message is harmless as long as no other one of the device came in between. Take a message that
  the daemon has answered, and the same message handled again later, from any peer, under any clock and random numbers and after
  any traffic that left the registry alone. When the device's cache entry is still the one of the first answer, nothing at all changes and what is
  answered is an encoding of the very datagram that was answered the first time; and whenever the entry is for this message, nothing
  changes. When another message of the device has been answered since, only that one is cached: the old message then gets no answer, or it
  counts as a new handshake and its session takes the place of the device's present one.
\<close>

theorem retransmission_is_idempotent:
  assumes "handle_handshake L w config peer datagram wire d = ([SendTo peer out], d')"
    and "wo_snow w' = wo_snow w" "dm_registry d2 = dm_registry d'"
    and "handle_handshake L w' config peer' datagram wire d2 = (outs, d2')"
  shows "\<exists>hs key lease answer.
     authenticate_handshake L (wo_snow w) config wire (dg_payload datagram) (dm_registry d) = Some (hs, key, lease) \<and>
     dm_cache d' key = Some \<lparr>ch_request = dg_payload datagram, ch_response = answer\<rparr> \<and>
     fst (encode_server (da_wire L) (wo_send_clock w) (wo_random w) wire answer) = Inr out \<and>
     (if dm_cache d2 key = dm_cache d' key
      then d2' = d2 \<and>
        outs = (case fst (encode_server (da_wire L) (wo_send_clock w') (wo_random w') wire answer) of
                  Inl _ \<Rightarrow> [] | Inr out' \<Rightarrow> [SendTo peer' out'])
      else if map_option ch_request (dm_cache d2 key) = Some (dg_payload datagram) then d2' = d2
      else outs = [] \<or>
        (\<exists>session response. rs_client_address session = dl_address lease \<and> rs_peer session = peer' \<and>
           replace_client (hdr_session_id (dg_header datagram)) session (dm_sessions d2) = (True, dm_sessions d2') \<and>
           dm_cache d2' = (dm_cache d2)(key \<mapsto> \<lparr>ch_request = dg_payload datagram, ch_response = response\<rparr>)))"
proof -
  obtain hs key lease answer where first:
    "authenticate_handshake L (wo_snow w) config wire (dg_payload datagram) (dm_registry d) = Some (hs, key, lease)"
    "dm_cache d' key = Some \<lparr>ch_request = dg_payload datagram, ch_response = answer\<rparr>" "dm_registry d' = dm_registry d"
    "fst (encode_server (da_wire L) (wo_send_clock w) (wo_random w) wire answer) = Inr out"
    using assms(1)
  proof (cases rule: handle_handshake_cases)
    case (repeated hs key lease cached out' wire')
    then show ?thesis using that [of hs key lease "ch_response cached"] by (cases cached) auto
  next
    case (answered hs key lease crypto response)
    then show ?thesis using that [of hs key lease "handshake_answer datagram response"] by auto
  qed simp
  have auth: "authenticate_handshake L (wo_snow w') config wire (dg_payload datagram) (dm_registry d2) = Some (hs, key, lease)"
    using first(1,3) assms(2,3) by simp
  have known: "(outs, d2') = (case fst (encode_server (da_wire L) (wo_send_clock w') (wo_random w') wire (ch_response c)) of
      Inl _ \<Rightarrow> ([], d2) | Inr out' \<Rightarrow> ([SendTo peer' out'], d2))"
    if "dm_cache d2 key = Some c" "ch_request c = dg_payload datagram" for c
    using assms(4) [symmetric] auth that by (auto simp: handle_handshake_def split: prod.splits sum.splits)
  have "d2' = d2 \<and> outs = (case fst (encode_server (da_wire L) (wo_send_clock w') (wo_random w') wire answer) of
      Inl _ \<Rightarrow> [] | Inr out' \<Rightarrow> [SendTo peer' out'])" if "dm_cache d2 key = dm_cache d' key"
    using known [of "\<lparr>ch_request = dg_payload datagram, ch_response = answer\<rparr>"] that first(2) by (auto split: sum.splits)
  moreover have "d2' = d2" if "map_option ch_request (dm_cache d2 key) = Some (dg_payload datagram)"
    using that known by (auto split: sum.splits)
  moreover have "outs = [] \<or> (\<exists>session response. rs_client_address session = dl_address lease \<and> rs_peer session = peer' \<and>
      replace_client (hdr_session_id (dg_header datagram)) session (dm_sessions d2) = (True, dm_sessions d2') \<and>
      dm_cache d2' = (dm_cache d2)(key \<mapsto> \<lparr>ch_request = dg_payload datagram, ch_response = response\<rparr>))"
    if "map_option ch_request (dm_cache d2 key) \<noteq> Some (dg_payload datagram)"
    using assms(4)
  proof (cases rule: handle_handshake_cases)
    case (answered hs' key' lease' crypto response)
    let ?session = "new_session L peer' wire d2 lease (hdr_session_id (dg_header datagram)) (session_mtu wire (tun_mtu (vsc_tun config))) crypto"
    have "rs_client_address ?session = dl_address lease \<and> rs_peer ?session = peer'" by (simp add: new_session_def split_beta)
    with answered auth show ?thesis by (auto intro!: exI [of _ ?session] simp: prod_eq_iff)
  qed (use auth that in auto)
  ultimately show ?thesis using first(1,2,4) by (intro exI [of _ hs] exI [of _ key] exI [of _ lease] exI [of _ answer]) simp
qed

text \<open>The message is repeated at once, and again after the device has sent another one.\<close>

definition after_hello :: Daemon where
  "after_hello = snd (handle_handshake sample_libs sample_world sample_server_config sample_peer hello SLegacy sample_start)"

definition after_both :: Daemon where
  "after_both = snd (handle_handshake sample_libs sample_world sample_server_config sample_peer hello_again SLegacy after_hello)"

lemma hello_twice:
  "\<exists>out. handle_handshake sample_libs sample_world sample_server_config sample_peer hello SLegacy sample_start = ([SendTo sample_peer out], after_hello)"
  "dm_registry after_hello = sample_registry" "dm_registry after_both = sample_registry"
  "map_option ch_request (dm_cache after_hello (PublicKey (replicate 32 2))) = Some (replicate 32 2)"
  "map_option ch_request (dm_cache after_both (PublicKey (replicate 32 2))) = Some (replicate 32 2 @ [1])"
  "\<exists>out. fst (handle_handshake sample_libs sample_world sample_server_config sample_peer hello SLegacy after_both) = [SendTo sample_peer out]"
proof -
  note first = sample_handshake [of sample_start hello "[]" sample_peer, folded after_hello_def]
  show 1: "\<exists>out. handle_handshake sample_libs sample_world sample_server_config sample_peer hello SLegacy sample_start = ([SendTo sample_peer out], after_hello)"
    using first(6) by (auto simp: sample_start_fields first_session_installed after_hello_def prod_eq_iff)
  show registry: "dm_registry after_hello = sample_registry" using first(2) by (simp add: sample_start_fields)
  show cache: "map_option ch_request (dm_cache after_hello (PublicKey (replicate 32 2))) = Some (replicate 32 2)"
    using first(5) by (auto simp: sample_start_fields first_session_installed)
  have sessions: "dm_sessions after_hello = snd (replace_client 9 (sample_session sample_peer sample_start 9) Sessions_default)"
    using first(1) by (simp add: sample_start_fields)
  have fresh: "ch_request c \<noteq> dg_payload hello_again" if "dm_cache after_hello (PublicKey (replicate 32 2)) = Some c" for c
    using cache that by auto
  note second = sample_handshake [of after_hello hello_again "[1]" sample_peer, folded after_both_def, OF registry _ _ fresh]
  have address: "rs_client_address (sample_session peer d i) = Ipv4Addr 10 0 0 2" for peer d i
    by (simp add: new_session_def split_beta seed_lease_def)
  show registry2: "dm_registry after_both = sample_registry" using second(2) by simp
  have installed: "fst (replace_client 10 (sample_session sample_peer after_hello 10) (dm_sessions after_hello))"
    by (simp add: sessions replace_client_def Sessions_default_def Let_def)
  show cache2: "map_option ch_request (dm_cache after_both (PublicKey (replicate 32 2))) = Some (replicate 32 2 @ [1])"
    using second(5) installed by auto
  have "dm_sessions after_both = snd (replace_client 10 (sample_session sample_peer after_hello 10) (dm_sessions after_hello))"
    using second(1) by simp
  then have "fst (replace_client 9 (sample_session sample_peer after_both 9) (dm_sessions after_both))"
    by (simp add: sessions replace_client_def Sessions_default_def Let_def address)
  then show "\<exists>out. fst (handle_handshake sample_libs sample_world sample_server_config sample_peer hello SLegacy after_both) = [SendTo sample_peer out]"
    using sample_handshake(6) [of after_both hello "[]" sample_peer, OF registry2] cache2 by auto
qed

theorem retransmission_is_idempotent_witness:
  "snd (handle_handshake sample_libs sample_world sample_server_config \<lparr>sa_ip = V6 1, sa_port = 9\<rparr> hello SLegacy after_hello) = after_hello \<and>
   (\<exists>session. replace_client 9 session (dm_sessions after_both) =
      (True, dm_sessions (snd (handle_handshake sample_libs sample_world sample_server_config sample_peer hello SLegacy after_both))))"
proof -
  obtain out where first: "handle_handshake sample_libs sample_world sample_server_config sample_peer hello SLegacy sample_start =
      ([SendTo sample_peer out], after_hello)" using hello_twice(1) by blast
  have auth: "authenticate_handshake sample_libs plain_snow sample_server_config SLegacy (replicate 32 2) sample_registry =
      Some ((replicate 32 8, Some (replicate 32 2)), PublicKey (replicate 32 2), seed_lease 2 0)"
    using sample_authentication [of "[]"] by simp
  have "snd (handle_handshake sample_libs sample_world sample_server_config \<lparr>sa_ip = V6 1, sa_port = 9\<rparr> hello SLegacy after_hello) = after_hello"
    using retransmission_is_idempotent [OF first refl refl prod.collapse [symmetric], of "\<lparr>sa_ip = V6 1, sa_port = 9\<rparr>"] by auto
  moreover have registry: "dm_registry after_both = dm_registry after_hello" by (simp add: hello_twice(2,3))
  from retransmission_is_idempotent [OF first refl registry prod.collapse [symmetric], of sample_peer]
  have "\<exists>session. replace_client 9 session (dm_sessions after_both) =
      (True, dm_sessions (snd (handle_handshake sample_libs sample_world sample_server_config sample_peer hello SLegacy after_both)))"
    using hello_twice(4-6) by (auto simp: sample_start_fields auth split: if_splits)
  ultimately show ?thesis by blast
qed

text \<open>
  Batches are only an economy of system calls. As long as the TUN worker reports nothing and receiving
  fails at most with transient errors, the loop never ends, and after any number of turns the outputs, the
  overflow count and the state are those of handling the datagrams that arrived one by one, in order.
\<close>

lemma batching_is_transparent:
  assumes "\<And>turn. turn \<in> set turns \<Longrightarrow> tn_poll_before turn = WorkerSilent \<and> tn_poll_after turn = WorkerSilent \<and>
      (case tn_received turn of Inl failure \<Rightarrow> is_recoverable failure | Inr _ \<Rightarrow> True)"
  shows "run_turns L config turns s =
     (case serve_batch L config (concat (map (\<lambda>turn. case tn_received turn of
         Inl _ \<Rightarrow> [] | Inr messages \<Rightarrow> receive_batch messages) turns)) s of
      (outs, s') \<Rightarrow> (Inr outs, s'))"
  using assms
proof (induction turns arbitrary: s)
  case Nil
  then show ?case by (cases s) simp
next
  case (Cons turn turns)
  have rest: "run_turns L config turns s' =
     (case serve_batch L config (concat (map (\<lambda>turn. case tn_received turn of
         Inl _ \<Rightarrow> [] | Inr messages \<Rightarrow> receive_batch messages) turns)) s' of (outs, s'') \<Rightarrow> (Inr outs, s''))" for s'
    by (rule Cons.IH) (rule Cons.prems, simp)
  have turn: "tn_poll_before turn = WorkerSilent" "tn_poll_after turn = WorkerSilent"
    "case tn_received turn of Inl failure \<Rightarrow> is_recoverable failure | Inr _ \<Rightarrow> True"
    using Cons.prems [of turn] by simp_all
  then show ?case
    by (cases "tn_received turn"; cases s) (simp_all add: run_round_def rest serve_batch_append split_beta)
qed

end
