(* ===== verification/WinPacket.thy ===== *)
theory WinPacket
  imports Net
begin

text \<open>
  In-place editing of IP packets by the Windows client's per-application tunnel
  (\<^verbatim>\<open>windows-client/windivert/packet.rs\<close>): parsing of the header, addresses and ports, replacement of an
  address, and the clamping of the TCP maximum segment size, whose walk over the options is the only
  loop. Checksums are recomputed by the driver and are not part of this module.
\<close>

section \<open>Packets\<close>

definition PROTOCOL_TCP :: u8 where "PROTOCOL_TCP = 6"
definition PROTOCOL_UDP :: u8 where "PROTOCOL_UDP = 17"
definition FRAGMENT_OFFSET_MASK :: u16 where "FRAGMENT_OFFSET_MASK = 0x1fff"

definition v4_PROTOCOL :: nat where "v4_PROTOCOL = 9"
definition v4_SOURCE :: nat where "v4_SOURCE = 12"
definition v4_DESTINATION :: nat where "v4_DESTINATION = 16"
definition v4_FRAGMENT :: nat where "v4_FRAGMENT = 6"
definition v4_MIN_HEADER :: nat where "v4_MIN_HEADER = 20"

definition v6_NEXT_HEADER :: nat where "v6_NEXT_HEADER = 6"
definition v6_SOURCE :: nat where "v6_SOURCE = 8"
definition v6_DESTINATION :: nat where "v6_DESTINATION = 24"
definition v6_HEADER :: nat where "v6_HEADER = 40"

lemmas offset_defs = v4_PROTOCOL_def v4_SOURCE_def v4_DESTINATION_def v4_FRAGMENT_def v4_MIN_HEADER_def
  v6_NEXT_HEADER_def v6_SOURCE_def v6_DESTINATION_def v6_HEADER_def

datatype Version = VersionV4 | VersionV6

record Packet =
  pkt_bytes :: bytes
  pkt_header_length :: nat
  pkt_version :: Version

definition Packet_parse :: "bytes \<Rightarrow> Packet option" where
  "Packet_parse input =
     (if input = [] then None
      else if drop_bit 4 (input ! 0) = 4 then
        let header_length = unat (input ! 0 AND 0x0f) * 4 in
        if header_length < v4_MIN_HEADER then None
        else if length input \<ge> header_length
        then Some \<lparr>pkt_bytes = input, pkt_header_length = header_length, pkt_version = VersionV4\<rparr>
        else None
      else if drop_bit 4 (input ! 0) = 6 then
        if length input \<le> v6_NEXT_HEADER then None
        else if input ! v6_NEXT_HEADER \<notin> {PROTOCOL_TCP, PROTOCOL_UDP} then None
        else if length input \<ge> v6_HEADER
        then Some \<lparr>pkt_bytes = input, pkt_header_length = v6_HEADER, pkt_version = VersionV6\<rparr>
        else None
      else None)"

definition pkt_protocol :: "Packet \<Rightarrow> u8" where
  "pkt_protocol p =
     (case pkt_version p of
        VersionV4 \<Rightarrow> pkt_bytes p ! v4_PROTOCOL
      | VersionV6 \<Rightarrow> pkt_bytes p ! v6_NEXT_HEADER)"

definition source_offset :: "Packet \<Rightarrow> nat" where
  "source_offset p = (case pkt_version p of VersionV4 \<Rightarrow> v4_SOURCE | VersionV6 \<Rightarrow> v6_SOURCE)"

definition destination_offset :: "Packet \<Rightarrow> nat" where
  "destination_offset p = (case pkt_version p of VersionV4 \<Rightarrow> v4_DESTINATION | VersionV6 \<Rightarrow> v6_DESTINATION)"

definition pkt_address :: "Packet \<Rightarrow> nat \<Rightarrow> IpAddr" where
  "pkt_address p offset =
     (let b = pkt_bytes p in
      case pkt_version p of
        VersionV4 \<Rightarrow> V4 (Ipv4Addr (b ! offset) (b ! (offset + 1)) (b ! (offset + 2)) (b ! (offset + 3)))
      | VersionV6 \<Rightarrow> V6 (from_be (take 16 (drop offset b))))"

definition pkt_source :: "Packet \<Rightarrow> IpAddr" where
  "pkt_source p = pkt_address p (source_offset p)"

definition pkt_destination :: "Packet \<Rightarrow> IpAddr" where
  "pkt_destination p = pkt_address p (destination_offset p)"

text \<open>\<open>bytes[offset..offset + n].copy_from_slice(data)\<close> for data of \<open>n\<close> bytes.\<close>

definition copy_at :: "nat \<Rightarrow> bytes \<Rightarrow> bytes \<Rightarrow> bytes" where
  "copy_at offset data b = take offset b @ data @ drop (offset + length data) b"

definition set_address :: "nat \<Rightarrow> IpAddr \<Rightarrow> Packet \<Rightarrow> bool \<times> Packet" where
  "set_address offset address p =
     (case (pkt_version p, address) of
        (VersionV4, V4 a) \<Rightarrow> (True, p\<lparr>pkt_bytes := copy_at offset (octets a) (pkt_bytes p)\<rparr>)
      | (VersionV6, V6 w) \<Rightarrow> (True, p\<lparr>pkt_bytes := copy_at offset (to_be 16 w) (pkt_bytes p)\<rparr>)
      | _ \<Rightarrow> (False, p))"

definition set_source :: "IpAddr \<Rightarrow> Packet \<Rightarrow> bool \<times> Packet" where
  "set_source address p = set_address (source_offset p) address p"

definition set_destination :: "IpAddr \<Rightarrow> Packet \<Rightarrow> bool \<times> Packet" where
  "set_destination address p = set_address (destination_offset p) address p"

definition is_first_fragment :: "Packet \<Rightarrow> bool" where
  "is_first_fragment p =
     (case pkt_version p of
        VersionV4 \<Rightarrow>
          (from_be [pkt_bytes p ! v4_FRAGMENT, pkt_bytes p ! (v4_FRAGMENT + 1)] :: u16) AND FRAGMENT_OFFSET_MASK = 0
      | VersionV6 \<Rightarrow> True)"

definition pkt_ports :: "Packet \<Rightarrow> (u16 \<times> u16) option" where
  "pkt_ports p =
     (if pkt_protocol p \<notin> {PROTOCOL_TCP, PROTOCOL_UDP} \<or> \<not> is_first_fragment p then None
      else
        let transport = drop (pkt_header_length p) (pkt_bytes p) in
        if length transport < 4 then None
        else Some (from_be [transport ! 0, transport ! 1], from_be [transport ! 2, transport ! 3]))"

section \<open>Clamping the segment size\<close>

function clamp_walk :: "u16 \<Rightarrow> nat \<Rightarrow> nat \<Rightarrow> bytes \<Rightarrow> bool \<times> bytes" where
  "clamp_walk limit stop index b =
     (if index < stop then
        if b ! index = 0 then (False, b)
        else if b ! index = 1 then clamp_walk limit stop (index + 1) b
        else if length b \<le> index + 1 then (False, b)
        else
          let len = unat (b ! (index + 1)) in
          if len < 2 \<or> index + len > stop then (False, b)
          else if b ! index = 2 \<and> len = 4 then
            if (from_be [b ! (index + 2), b ! (index + 3)] :: u16) \<le> limit then (False, b)
            else (True, copy_at (index + 2) (to_be 2 limit) b)
          else clamp_walk limit stop (index + len) b
      else (False, b))"
  by pat_completeness auto

termination
  by (relation "measure (\<lambda>(limit, stop, index, b). stop - index)") auto

declare clamp_walk.simps [simp del]

definition SYN :: u8 where "SYN = 2"

text \<open>The bounds of the TCP options, or nothing when the packet has none to clamp.\<close>

definition option_range :: "Packet \<Rightarrow> (nat \<times> nat) option" where
  "option_range p =
     (if pkt_protocol p \<noteq> PROTOCOL_TCP \<or> \<not> is_first_fragment p then None
      else
        let transport = drop (pkt_header_length p) (pkt_bytes p) in
        if length transport < 20 \<or> transport ! 13 AND SYN = 0 then None
        else
          let data_offset = unat (drop_bit 4 (transport ! 12)) * 4 in
          if data_offset \<le> 20 \<or> data_offset > length transport then None
          else Some (pkt_header_length p + 20, pkt_header_length p + data_offset))"

definition clamp_mss :: "u16 \<Rightarrow> Packet \<Rightarrow> bool \<times> Packet" where
  "clamp_mss limit p =
     (case option_range p of
        None \<Rightarrow> (False, p)
      | Some (options, stop) \<Rightarrow>
          let (changed, b) = clamp_walk limit stop options (pkt_bytes p) in (changed, p\<lparr>pkt_bytes := b\<rparr>))"

section \<open>Writing into a packet\<close>

lemma length_copy_at [simp]: "offset + length data \<le> length b \<Longrightarrow> length (copy_at offset data b) = length b"
  by (simp add: copy_at_def)

lemma nth_copy_at:
  assumes "offset + length data \<le> length b"
  shows "copy_at offset data b ! i =
    (if offset \<le> i \<and> i < offset + length data then data ! (i - offset) else b ! i)"
proof (cases "i < length b")
  case True
  with assms show ?thesis by (auto simp: copy_at_def nth_append)
next
  case False
  with assms have "copy_at offset data b ! i = drop (offset + length data) b ! (i - (offset + length data))"
    by (auto simp: copy_at_def nth_append)
  with False assms show ?thesis by simp
qed

lemma take_drop_copy_at:
  assumes "offset + length data \<le> length b"
  shows "take (length data) (drop offset (copy_at offset data b)) = data"
  using assms by (simp add: copy_at_def)

lemma drop_take_copy_at:
  assumes "index \<le> offset" "offset + length data \<le> stop" "stop \<le> length b"
  shows "drop index (take stop (copy_at offset data b)) = copy_at (offset - index) data (drop index (take stop b))"
proof (rule nth_equalityI)
  show "length (drop index (take stop (copy_at offset data b))) =
      length (copy_at (offset - index) data (drop index (take stop b)))"
    using assms by simp
  fix i assume "i < length (drop index (take stop (copy_at offset data b)))"
  then show "drop index (take stop (copy_at offset data b)) ! i = copy_at (offset - index) data (drop index (take stop b)) ! i"
    using assms by (auto simp: nth_copy_at) (simp add: add.commute)
qed

section \<open>Segment size options\<close>

text \<open>
  The reading of a list of TCP options: where the value of the first maximum segment size option
  stands, if the options before it are well formed.
\<close>

function mss_at :: "bytes \<Rightarrow> nat option" where
  "mss_at os =
     (case os of
        [] \<Rightarrow> None
      | kind # rest \<Rightarrow>
          if kind = 0 then None
          else if kind = 1 then map_option Suc (mss_at rest)
          else
            (case rest of
               [] \<Rightarrow> None
             | len # body \<Rightarrow>
                 if unat len < 2 \<or> length os < unat len then None
                 else if kind = 2 \<and> len = 4 then Some 2
                 else map_option ((+) (unat len)) (mss_at (drop (unat len) os))))"
  by pat_completeness auto

termination
  by (relation "measure length") auto

declare mss_at.simps [simp del]

lemma mss_at_Nil [simp]: "mss_at [] = None"
  by (subst mss_at.simps) simp

lemma mss_at_Cons:
  "mss_at (kind # rest) =
     (if kind = 0 then None
      else if kind = 1 then map_option Suc (mss_at rest)
      else
        (case rest of
           [] \<Rightarrow> None
         | len # body \<Rightarrow>
             if unat len < 2 \<or> length (kind # rest) < unat len then None
             else if kind = 2 \<and> len = 4 then Some 2
             else map_option ((+) (unat len)) (mss_at (drop (unat len) (kind # rest)))))"
  by (subst mss_at.simps) simp

text \<open>The four ways in which the first option of a list is read.\<close>

lemma mss_at_cases:
  obtains (stops) "mss_at os = None"
  | (pad) rest where "os = 1 # rest" "mss_at os = map_option Suc (mss_at rest)"
  | (found) body where "os = 2 # 4 # body" "2 \<le> length body" "mss_at os = Some 2"
  | (skip) kind len body where "os = kind # len # body" "kind \<noteq> 0" "kind \<noteq> 1" "2 \<le> unat len" "unat len \<le> length os"
      "\<not> (kind = 2 \<and> len = 4)" "mss_at os = map_option ((+) (unat len)) (mss_at (drop (unat len) os))"
proof (cases os)
  case (Cons kind rest)
  note eq = mss_at_Cons [of kind rest, folded Cons]
  show ?thesis
  proof (cases rest)
    case Nil
    with eq Cons stops pad show ?thesis by (auto split: if_splits)
  next
    case body: (Cons len body)
    note eq = eq [unfolded body list.case]
    consider "kind = 0" | "kind = 1" | "kind \<noteq> 0" "kind \<noteq> 1" "unat len < 2 \<or> length os < unat len"
      | "kind = 2" "len = 4" "\<not> (unat len < 2 \<or> length os < unat len)"
      | "kind \<noteq> 0" "kind \<noteq> 1" "\<not> (unat len < 2 \<or> length os < unat len)" "\<not> (kind = 2 \<and> len = 4)" by blast
    then show ?thesis
    proof cases
      case 1
      with eq show ?thesis by (intro stops) simp
    next
      case 2
      with eq Cons body show ?thesis by (intro pad [of rest]) simp_all
    next
      case 3
      with eq Cons body show ?thesis by (intro stops) simp
    next
      case 4
      with eq Cons body show ?thesis by (intro found [of body]) simp_all
    next
      case 5
      with eq Cons body show ?thesis by (intro skip [of kind len body]) auto
    qed
  qed
qed (use stops in simp)

definition mss_value :: "bytes \<Rightarrow> nat \<Rightarrow> u16" where
  "mss_value os i = from_be (take 2 (drop i os))"

lemma mss_at_bounds: "mss_at os = Some i \<Longrightarrow> 2 \<le> i \<and> i + 2 \<le> length os"
proof (induction "length os" arbitrary: os i rule: less_induct)
  case less
  show ?case
  proof (cases rule: mss_at_cases [of os])
    case (pad rest)
    then obtain j where "mss_at rest = Some j" "i = Suc j" using less.prems by auto
    then show ?thesis using less.hyps [of rest j] pad(1) by auto
  next
    case (skip kind len body)
    then obtain j where "mss_at (drop (unat len) os) = Some j" "i = unat len + j"
      using less.prems skip(7) by (metis map_option_eq_Some)
    then show ?thesis using less.hyps [of "drop (unat len) os" j] skip by auto
  qed (use less.prems in auto)
qed

text \<open>Overwriting the value does not change how the options before it are read.\<close>

lemma mss_at_copy:
  "mss_at os = Some i \<Longrightarrow> length data = 2 \<Longrightarrow> mss_at (copy_at i data os) = Some i"
proof (induction "length os" arbitrary: os i rule: less_induct)
  case less
  note bounds = mss_at_bounds [OF less.prems(1)]
  show ?case
  proof (cases rule: mss_at_cases [of os])
    case (pad rest)
    then obtain j where j: "mss_at rest = Some j" "i = Suc j" using less.prems by auto
    have "copy_at i data os = 1 # copy_at j data rest" using pad j by (simp add: copy_at_def)
    with less.hyps [of rest j] j less.prems(2) pad show ?thesis by (simp add: mss_at_Cons)
  next
    case (found body)
    then have "copy_at i data os = 2 # 4 # data @ drop 2 body" using less.prems by (simp add: copy_at_def)
    then show ?thesis using found less.prems by (simp add: mss_at_Cons)
  next
    case (skip kind len body)
    let ?n = "unat len"
    obtain j where j: "mss_at (drop ?n os) = Some j" "i = ?n + j"
      using less.prems(1) skip(7) by (metis map_option_eq_Some)
    have d: "drop ?n (copy_at i data os) = copy_at j data (drop ?n os)"
      using drop_take_copy_at [of ?n i data "length os" os] j(2) bounds less.prems(2) by simp
    have h: "copy_at i data os = kind # len # drop 2 (copy_at i data os)"
      using bounds skip by (cases "i = 2") (auto simp: copy_at_def take_Cons' drop_Cons')
    have l: "length (copy_at i data os) = length os" using bounds less.prems(2) by simp
    have "mss_at (copy_at i data os) = map_option ((+) ?n) (mss_at (drop ?n (copy_at i data os)))"
      using skip(2-6) l by (subst h, subst mss_at_Cons) (auto simp flip: h)
    then show ?thesis using less.hyps [of "drop ?n os" j] j d less.prems(2) skip by simp
  qed (use less.prems in simp)
qed

lemma clamp_walk_spec:
  assumes "index \<le> stop" "stop \<le> length b"
  shows "clamp_walk limit stop index b =
    (case mss_at (drop index (take stop b)) of
       None \<Rightarrow> (False, b)
     | Some i \<Rightarrow>
         if mss_value (drop index (take stop b)) i \<le> limit then (False, b)
         else (True, copy_at (index + i) (to_be 2 limit) b))"
  using assms
proof (induction limit stop index b rule: clamp_walk.induct)
  case (1 limit stop index b)
  let ?os = "drop index (take stop b)"
  show ?case
  proof (cases "index < stop")
    case False
    then show ?thesis using "1.prems" by (subst clamp_walk.simps) simp
  next
    case True
    have os: "?os = b ! index # drop (Suc index) (take stop b)"
      using True "1.prems" by (simp add: Cons_nth_drop_Suc [symmetric])
    show ?thesis
    proof (cases "b ! index = 1")
      case one: True
      have "mss_at ?os = map_option Suc (mss_at (drop (Suc index) (take stop b)))"
        using one by (simp add: os mss_at_Cons)
      moreover have "mss_value ?os (Suc i) = mss_value (drop (Suc index) (take stop b)) i" for i
        by (simp add: os mss_value_def)
      ultimately show ?thesis
        using "1.IH"(1) [OF True] one True "1.prems"
        by (simp add: clamp_walk.simps [of limit stop index b] split: option.split)
    next
      case not_pad: False
      show ?thesis
      proof (cases "b ! index = 0 \<or> Suc index = stop")
        case True
        then have "mss_at ?os = None" using "1.prems" by (auto simp: os mss_at_Cons)
        then show ?thesis using True not_pad \<open>index < stop\<close> by (auto simp: clamp_walk.simps [of limit stop index b] Let_def)
      next
        case False
        let ?len = "unat (b ! Suc index)"
        have more: "Suc index < stop" "b ! index \<noteq> 0" using False True by auto
        have os2: "?os = b ! index # b ! Suc index # drop (Suc (Suc index)) (take stop b)"
          using more "1.prems" unfolding os by (simp add: Cons_nth_drop_Suc [symmetric])
        have len: "length ?os = stop - index" using "1.prems" by simp
        have walk: "clamp_walk limit stop index b =
           (if ?len < 2 \<or> stop - index < ?len then (False, b)
            else if b ! index = 2 \<and> b ! Suc index = 4 then
              if (from_be [b ! (index + 2), b ! (index + 3)] :: u16) \<le> limit then (False, b)
              else (True, copy_at (index + 2) (to_be 2 limit) b)
            else clamp_walk limit stop (index + ?len) b)"
        proof -
          have "?len < 2 \<or> index + ?len > stop \<longleftrightarrow> ?len < 2 \<or> stop - index < ?len" using "1.prems" by linarith
          moreover have "?len = 4 \<longleftrightarrow> b ! Suc index = 4" by (simp add: word_unat_eq_iff)
          moreover have "\<not> length b \<le> index + 1" using more "1.prems" by simp
          ultimately show ?thesis
            using True not_pad more(2) by (subst clamp_walk.simps) (simp only: Let_def if_True if_False add_Suc_right add_0_right One_nat_def)
        qed
        have os_at: "mss_at ?os =
            (if ?len < 2 \<or> stop - index < ?len then None
             else if b ! index = 2 \<and> b ! Suc index = 4 then Some 2
             else map_option ((+) ?len) (mss_at (drop (index + ?len) (take stop b))))"
        proof -
          have "mss_at ?os =
            (if ?len < 2 \<or> length ?os < ?len then None
             else if b ! index = 2 \<and> b ! Suc index = 4 then Some 2
             else map_option ((+) ?len) (mss_at (drop ?len ?os)))"
            using not_pad more by (subst (1) os2, subst mss_at_Cons) (simp flip: os2)
          then show ?thesis by (simp only: len drop_drop add.commute)
        qed
        consider "?len < 2 \<or> stop - index < ?len" | "\<not> (?len < 2 \<or> stop - index < ?len)" "b ! index = 2 \<and> b ! Suc index = 4"
          | "\<not> (?len < 2 \<or> stop - index < ?len)" "\<not> (b ! index = 2 \<and> b ! Suc index = 4)" by blast
        then show ?thesis
        proof cases
          case 1
          then show ?thesis by (simp add: walk os_at)
        next
          case 2
          then have four: "index + 4 \<le> stop" by auto
          then have "mss_value ?os 2 = from_be [b ! (index + 2), b ! (index + 3)]"
            using "1.prems" by (simp add: mss_value_def drop_take numeral_eq_Suc take_Suc_conv_app_nth)
          with 2 show ?thesis by (simp add: walk os_at)
        next
          case 3
          have shifted: "mss_value ?os (?len + i) = mss_value (drop (index + ?len) (take stop b)) i" for i
            by (simp add: mss_value_def add.assoc add.left_commute add.commute)
          have "clamp_walk limit stop (index + ?len) b =
            (case mss_at (drop (index + ?len) (take stop b)) of
               None \<Rightarrow> (False, b)
             | Some i \<Rightarrow>
                 if mss_value (drop (index + ?len) (take stop b)) i \<le> limit then (False, b)
                 else (True, copy_at (index + ?len + i) (to_be 2 limit) b))"
            using "1.IH"(2) [OF True] more not_pad 3 "1.prems" by (auto simp: word_unat_eq_iff)
          then show ?thesis
            unfolding walk [unfolded if_not_P [OF 3(1)] if_not_P [OF 3(2)]]
              os_at [unfolded if_not_P [OF 3(1)] if_not_P [OF 3(2)]]
            by (simp add: shifted add.assoc split: option.split)
        qed
      qed
    qed
  qed
qed

section \<open>Well-formed packets\<close>

definition packet_ok :: "Packet \<Rightarrow> bool" where
  "packet_ok p \<longleftrightarrow> Packet_parse (pkt_bytes p) = Some p"

lemma Packet_parse_ok: "Packet_parse input = Some p \<Longrightarrow> packet_ok p \<and> pkt_bytes p = input"
  by (auto simp: packet_ok_def Packet_parse_def Let_def split: if_splits)

lemma packet_ok_iff:
  "packet_ok p \<longleftrightarrow> pkt_bytes p \<noteq> [] \<and> pkt_header_length p \<le> length (pkt_bytes p) \<and>
     (case pkt_version p of
        VersionV4 \<Rightarrow> drop_bit 4 (pkt_bytes p ! 0) = 4 \<and> 20 \<le> pkt_header_length p \<and>
          pkt_header_length p = unat (pkt_bytes p ! 0 AND 0x0f) * 4
      | VersionV6 \<Rightarrow> drop_bit 4 (pkt_bytes p ! 0) = 6 \<and> pkt_header_length p = 40 \<and>
          pkt_bytes p ! 6 \<in> {PROTOCOL_TCP, PROTOCOL_UDP})"
  by (cases p) (auto simp: packet_ok_def Packet_parse_def Let_def offset_defs split: if_splits Version.splits)

lemma packet_ok_bounds:
  assumes "packet_ok p"
  shows "pkt_header_length p \<le> length (pkt_bytes p)" "20 \<le> pkt_header_length p"
    "pkt_version p = VersionV6 \<Longrightarrow> pkt_header_length p = 40"
  using assms by (auto simp: packet_ok_iff split: Version.splits)

text \<open>
  What the module reads of a packet depends on its first bytes only: an edit that keeps the length and
  the version byte, and for IPv6 the next header, leaves it well formed.
\<close>

lemma packet_ok_edit:
  assumes "packet_ok p" "length b = length (pkt_bytes p)" "b ! 0 = pkt_bytes p ! 0"
    and "pkt_version p = VersionV6 \<Longrightarrow> b ! 6 = pkt_bytes p ! 6"
  shows "packet_ok (p\<lparr>pkt_bytes := b\<rparr>)"
  using assms by (auto simp: packet_ok_iff split: Version.splits)

lemma protocol_edit:
  assumes "b ! 9 = pkt_bytes p ! 9" "b ! 6 = pkt_bytes p ! 6"
  shows "pkt_protocol (p\<lparr>pkt_bytes := b\<rparr>) = pkt_protocol p"
  using assms by (simp add: pkt_protocol_def offset_defs split: Version.split)

lemma first_fragment_edit:
  assumes "b ! 6 = pkt_bytes p ! 6" "b ! 7 = pkt_bytes p ! 7"
  shows "is_first_fragment (p\<lparr>pkt_bytes := b\<rparr>) = is_first_fragment p"
  using assms by (simp add: is_first_fragment_def offset_defs split: Version.split)

lemma option_range_edit:
  assumes "packet_ok p" "length b = length (pkt_bytes p)"
    and "\<And>i. i < 12 \<Longrightarrow> b ! i = pkt_bytes p ! i"
    and "b ! (pkt_header_length p + 12) = pkt_bytes p ! (pkt_header_length p + 12)"
      "b ! (pkt_header_length p + 13) = pkt_bytes p ! (pkt_header_length p + 13)"
  shows "option_range (p\<lparr>pkt_bytes := b\<rparr>) = option_range p"
  using assms protocol_edit [of b p] first_fragment_edit [of b p] packet_ok_bounds(1) [OF assms(1)]
  by (simp add: option_range_def Let_def)

lemma option_range_bounds:
  "option_range p = Some (options, stop) \<Longrightarrow> options = pkt_header_length p + 20 \<and> options < stop \<and> stop \<le> length (pkt_bytes p)"
  by (auto simp: option_range_def Let_def split: if_splits)

definition advertised_mss :: "Packet \<Rightarrow> u16 option" where
  "advertised_mss p =
     (case option_range p of
        None \<Rightarrow> None
      | Some (options, stop) \<Rightarrow>
          let os = drop options (take stop (pkt_bytes p)) in map_option (mss_value os) (mss_at os))"

lemma clamp_mss_cases:
  assumes "packet_ok p"
  obtains (kept) "clamp_mss limit p = (False, p)" "\<And>m. advertised_mss p = Some m \<Longrightarrow> m \<le> limit"
  | (clamped) options stop i m where "option_range p = Some (options, stop)" "advertised_mss p = Some m" "limit < m"
      "options + 2 \<le> i" "i + 2 \<le> stop"
      "clamp_mss limit p = (True, p\<lparr>pkt_bytes := copy_at i (to_be 2 limit) (pkt_bytes p)\<rparr>)"
      "mss_at (drop options (take stop (pkt_bytes p))) = Some (i - options)"
proof (cases "option_range p")
  case None
  then show ?thesis using kept by (simp add: clamp_mss_def advertised_mss_def)
next
  case (Some r)
  then obtain options stop where r: "option_range p = Some (options, stop)" by (cases r) auto
  note bounds = option_range_bounds [OF r]
  let ?os = "drop options (take stop (pkt_bytes p))"
  have walk: "clamp_walk limit stop options (pkt_bytes p) = (case mss_at ?os of None \<Rightarrow> (False, pkt_bytes p)
     | Some i \<Rightarrow> if mss_value ?os i \<le> limit then (False, pkt_bytes p)
         else (True, copy_at (options + i) (to_be 2 limit) (pkt_bytes p)))"
    using clamp_walk_spec [of options stop "pkt_bytes p" limit] bounds by simp
  have clamp: "clamp_mss limit p = (let (changed, b) = clamp_walk limit stop options (pkt_bytes p) in (changed, p\<lparr>pkt_bytes := b\<rparr>))"
    and adv: "advertised_mss p = map_option (mss_value ?os) (mss_at ?os)"
    by (simp_all add: clamp_mss_def advertised_mss_def r Let_def)
  show ?thesis
  proof (cases "mss_at ?os")
    case None
    then show ?thesis using kept by (simp add: clamp walk adv)
  next
    case (Some i)
    have i: "2 \<le> i" "options + i + 2 \<le> stop" using mss_at_bounds [OF Some] bounds by auto
    show ?thesis
    proof (cases "mss_value ?os i \<le> limit")
      case True
      then show ?thesis using kept by (simp add: clamp walk adv Some)
    next
      case False
      show ?thesis
        by (rule clamped [of options stop "mss_value ?os i" "options + i"])
          (use False i in \<open>simp_all add: clamp walk adv Some r not_le\<close>)
    qed
  qed
qed

lemma clamp_mss_facts:
  assumes "packet_ok p" "clamp_mss limit p = (changed, p')"
  shows "packet_ok p'" "advertised_mss p' = map_option (min limit) (advertised_mss p)"
    "changed \<longleftrightarrow> (\<exists>m. advertised_mss p = Some m \<and> limit < m)" "length (pkt_bytes p') = length (pkt_bytes p)"
    "pkt_version p' = pkt_version p" "pkt_header_length p' = pkt_header_length p"
    "\<And>j. pkt_bytes p' ! j \<noteq> pkt_bytes p ! j \<Longrightarrow> pkt_header_length p + 20 \<le> j \<and>
       (\<exists>stop. option_range p = Some (pkt_header_length p + 20, stop) \<and> j < stop)"
proof -
  have "packet_ok p' \<and> advertised_mss p' = map_option (min limit) (advertised_mss p) \<and>
    (changed \<longleftrightarrow> (\<exists>m. advertised_mss p = Some m \<and> limit < m)) \<and> length (pkt_bytes p') = length (pkt_bytes p) \<and>
    pkt_version p' = pkt_version p \<and> pkt_header_length p' = pkt_header_length p \<and>
    (\<forall>j. pkt_bytes p' ! j \<noteq> pkt_bytes p ! j \<longrightarrow> pkt_header_length p + 20 \<le> j \<and>
       (\<exists>stop. option_range p = Some (pkt_header_length p + 20, stop) \<and> j < stop))"
    using assms(1)
  proof (cases rule: clamp_mss_cases [where limit = limit])
    case kept
    then show ?thesis using assms by (cases "advertised_mss p") (auto simp: min_def not_less)
  next
    case (clamped options stop i m)
    let ?b = "copy_at i (to_be 2 limit) (pkt_bytes p)" and ?os = "drop options (take stop (pkt_bytes p))"
    have p': "p' = p\<lparr>pkt_bytes := ?b\<rparr>" "changed" using assms(2) clamped(6) by simp_all
    note range = option_range_bounds [OF clamped(1)]
    have fits: "i + length (to_be 2 limit) \<le> length (pkt_bytes p)" using clamped(5) range by simp
    have same: "?b ! j = pkt_bytes p ! j" if "j < i \<or> i + 2 \<le> j" for j using that fits by (auto simp: nth_copy_at)
    have far: "pkt_header_length p + 22 \<le> i" "20 \<le> pkt_header_length p"
      using clamped(4) range packet_ok_bounds(2) [OF assms(1)] by simp_all
    have len: "length ?b = length (pkt_bytes p)" using fits by simp
    have ok: "packet_ok p'" unfolding p' using far by (intro packet_ok_edit [OF assms(1) len]) (simp_all add: same)
    have r: "option_range p' = Some (options, stop)"
      unfolding p' using option_range_edit [OF assms(1) len] far clamped(1) by (simp add: same)
    have "drop options (take stop ?b) = copy_at (i - options) (to_be 2 limit) ?os"
      using clamped(4,5) range by (intro drop_take_copy_at) simp_all
    moreover have "i - options + length (to_be 2 limit) \<le> length ?os" using clamped(4,5) range by simp
    then have "mss_value (copy_at (i - options) (to_be 2 limit) ?os) (i - options) = limit"
      using take_drop_copy_at [of "i - options" "to_be 2 limit" ?os] by (simp add: mss_value_def)
    moreover have "mss_at (copy_at (i - options) (to_be 2 limit) ?os) = Some (i - options)"
      using mss_at_copy [OF clamped(7)] by simp
    ultimately have "advertised_mss p' = Some limit" by (simp add: advertised_mss_def r [unfolded p'(1)] p' Let_def)
    moreover have "pkt_header_length p + 20 \<le> j \<and> j < stop" if "?b ! j \<noteq> pkt_bytes p ! j" for j
      using same [of j] that far clamped(5) by force
    ultimately show ?thesis
      using ok clamped(1-3) len range p'(2) by (auto simp: p'(1) min_absorb1 less_imp_le)
  qed
  then show "packet_ok p'" "advertised_mss p' = map_option (min limit) (advertised_mss p)"
    "changed \<longleftrightarrow> (\<exists>m. advertised_mss p = Some m \<and> limit < m)" "length (pkt_bytes p') = length (pkt_bytes p)"
    "pkt_version p' = pkt_version p" "pkt_header_length p' = pkt_header_length p"
    "\<And>j. pkt_bytes p' ! j \<noteq> pkt_bytes p ! j \<Longrightarrow> pkt_header_length p + 20 \<le> j \<and>
       (\<exists>stop. option_range p = Some (pkt_header_length p + 20, stop) \<and> j < stop)"
    by blast+
qed

section \<open>Replacing addresses\<close>

definition same_family :: "Packet \<Rightarrow> IpAddr \<Rightarrow> bool" where
  "same_family p a \<longleftrightarrow> (case (pkt_version p, a) of (VersionV4, V4 _) \<Rightarrow> True | (VersionV6, V6 _) \<Rightarrow> True | _ \<Rightarrow> False)"

definition address_length :: "Packet \<Rightarrow> nat" where
  "address_length p = (case pkt_version p of VersionV4 \<Rightarrow> 4 | VersionV6 \<Rightarrow> 16)"

lemma set_address_cases:
  "set_address offset a p = (if same_family p a
     then (True, p\<lparr>pkt_bytes := copy_at offset (case a of V4 a4 \<Rightarrow> octets a4 | V6 w \<Rightarrow> to_be 16 w) (pkt_bytes p)\<rparr>)
     else (False, p))"
  by (auto simp: set_address_def same_family_def split: Version.split IpAddr.split)

lemma address_bytes_length:
  "same_family p a \<Longrightarrow> length (case a of V4 a4 \<Rightarrow> octets a4 | V6 w \<Rightarrow> to_be 16 w) = address_length p"
  by (auto simp: same_family_def address_length_def split: Version.splits IpAddr.splits)

lemma offsets:
  "packet_ok p \<Longrightarrow> destination_offset p + address_length p \<le> pkt_header_length p"
  "source_offset p + address_length p = destination_offset p" "8 \<le> source_offset p"
  "pkt_version p = VersionV4 \<Longrightarrow> 12 \<le> source_offset p"
  by (auto simp: packet_ok_iff destination_offset_def source_offset_def address_length_def offset_defs split: Version.splits)

lemma set_address_facts:
  assumes "packet_ok p" "set_address offset a p = (True, p')"
    and "offset = source_offset p \<or> offset = destination_offset p"
  shows "packet_ok p'" "pkt_version p' = pkt_version p" "pkt_header_length p' = pkt_header_length p"
    "length (pkt_bytes p') = length (pkt_bytes p)" "pkt_address p' offset = a"
    "\<And>j. j < offset \<or> offset + address_length p \<le> j \<Longrightarrow> pkt_bytes p' ! j = pkt_bytes p ! j"
proof -
  let ?d = "case a of V4 a4 \<Rightarrow> octets a4 | V6 w \<Rightarrow> to_be 16 w"
  let ?b = "copy_at offset ?d (pkt_bytes p)"
  have fam: "same_family p a" and p': "p' = p\<lparr>pkt_bytes := ?b\<rparr>"
    using assms(2) by (auto simp: set_address_cases split: if_splits)
  note d = address_bytes_length [OF fam]
  have fits: "offset + length ?d \<le> length (pkt_bytes p)"
    using assms(3) offsets(1) [OF assms(1)] offsets(2) [of p] packet_ok_bounds(1) [OF assms(1)] d by auto
  have same: "?b ! j = pkt_bytes p ! j" if "j < offset \<or> offset + address_length p \<le> j" for j
    using that fits d by (auto simp: nth_copy_at)
  have low: "8 \<le> offset" using assms(3) offsets(2,3) [of p] by auto
  show "packet_ok p'"
    unfolding p' using fits same low by (intro packet_ok_edit [OF assms(1)]) simp_all
  show "pkt_version p' = pkt_version p" "pkt_header_length p' = pkt_header_length p"
    "length (pkt_bytes p') = length (pkt_bytes p)" using fits by (simp_all add: p')
  show "pkt_bytes p' ! j = pkt_bytes p ! j" if "j < offset \<or> offset + address_length p \<le> j" for j
    using same that by (simp add: p')
  show "pkt_address p' offset = a"
  proof (cases a)
    case (V4 a4)
    obtain x y z w where a4: "a4 = Ipv4Addr x y z w" by (cases a4)
    have "pkt_version p = VersionV4" using fam V4 by (auto simp: same_family_def split: Version.splits)
    then show ?thesis
      using fits V4 a4 by (simp add: pkt_address_def p' nth_copy_at numeral_eq_Suc)
  next
    case (V6 w)
    have "pkt_version p = VersionV6" using fam V6 by (auto simp: same_family_def split: Version.splits)
    moreover have "take 16 (drop offset ?b) = to_be 16 w" using take_drop_copy_at [OF fits] V6 by simp
    ultimately show ?thesis using V6 from_to_be [where 'a = 128 and n = 16 and w = w] by (simp add: pkt_address_def p')
  qed
qed

text \<open>What a packet means to the diverter, besides its addresses: protocol, ports, advertised segment size.\<close>

lemma same_packet_outside:
  assumes "packet_ok p" "pkt_version p' = pkt_version p" "pkt_header_length p' = pkt_header_length p"
    and "length (pkt_bytes p') = length (pkt_bytes p)"
    and "\<And>j. j < source_offset p \<or> pkt_header_length p \<le> j \<Longrightarrow> pkt_bytes p' ! j = pkt_bytes p ! j"
  shows "pkt_protocol p' = pkt_protocol p" "pkt_ports p' = pkt_ports p" "advertised_mss p' = advertised_mss p"
    "option_range p' = option_range p"
proof -
  have p': "p' = p\<lparr>pkt_bytes := pkt_bytes p'\<rparr>" using assms(2,3) by (cases p; cases p') simp
  have low: "pkt_bytes p' ! j = pkt_bytes p ! j" if "j < source_offset p" for j using assms(5) that by blast
  have protocol: "pkt_protocol p' = pkt_protocol p"
    using low assms(2) by (simp add: pkt_protocol_def source_offset_def offset_defs split: Version.splits)
  have frag: "is_first_fragment p' = is_first_fragment p"
    using low assms(2) by (simp add: is_first_fragment_def source_offset_def offset_defs split: Version.splits)
  have tail: "drop (pkt_header_length p) (pkt_bytes p') = drop (pkt_header_length p) (pkt_bytes p)"
    using assms(4,5) by (intro nth_equalityI) auto
  show "pkt_protocol p' = pkt_protocol p" by (rule protocol)
  show "pkt_ports p' = pkt_ports p" by (simp add: pkt_ports_def protocol frag assms(3) tail)
  show range: "option_range p' = option_range p" by (simp add: option_range_def protocol frag assms(3) tail Let_def)
  have "drop options (take stop (pkt_bytes p')) = drop options (take stop (pkt_bytes p))"
    if "pkt_header_length p \<le> options" for options stop
    using arg_cong [OF tail, of "drop (options - pkt_header_length p)"] that by (simp add: drop_take)
  then show "advertised_mss p' = advertised_mss p"
    using option_range_bounds [of p] range by (auto simp: advertised_mss_def Let_def split: option.split)
qed

end
