(* ===== verification/SplitTunnel.thy ===== *)
theory SplitTunnel
  imports WinPacket RustText
begin

text \<open>
  The per-application tunnel of the Windows client: the routing policy
  (\<^verbatim>\<open>windows-client/lib.rs\<close>), the attribution of flows to processes (\<^verbatim>\<open>windivert/flow.rs\<close>), the
  translation of packets and the capture loop (\<^verbatim>\<open>windivert/divert.rs\<close>). The driver and the process
  interface of Windows are parameters: what they answer is an argument of the step that asks. Paths are
  texts; poisoned locks and log lines are not modelled.
\<close>

section \<open>Policy\<close>

datatype AppRoutingMode = Exclude | Include

record AppRoutingPolicy =
  arp_mode :: AppRoutingMode
  arp_apps :: "rust_string list"
  arp_package_sids :: "string list"

definition is_per_application :: "AppRoutingPolicy \<Rightarrow> bool" where
  "is_per_application policy \<longleftrightarrow>
     arp_mode policy = Include \<or> arp_apps policy \<noteq> [] \<or> arp_package_sids policy \<noteq> []"

definition strip_prefix :: "rust_string \<Rightarrow> rust_string \<Rightarrow> rust_string option" where
  "strip_prefix pre s = (if take (length pre) s = pre then Some (drop (length pre) s) else None)"

text \<open>The texts \<^verbatim>\<open>\\?\UNC\\<close> and \<^verbatim>\<open>\\?\\<close>.\<close>

definition unc_prefix :: rust_string where "unc_prefix = [0x5c, 0x5c, 0x3f, 0x5c, 0x55, 0x4e, 0x43, 0x5c]"
definition extended_prefix :: rust_string where "extended_prefix = [0x5c, 0x5c, 0x3f, 0x5c]"

definition normalize_windows_path :: "rust_string \<Rightarrow> rust_string" where
  "normalize_windows_path path =
     (let value = map (\<lambda>c. if c = 0x2f then 0x5c else c) path in
      case strip_prefix unc_prefix value of
        Some rest \<Rightarrow> [0x5c, 0x5c] @ rest
      | None \<Rightarrow>
          (case strip_prefix extended_prefix value of
             Some rest \<Rightarrow> rest
           | None \<Rightarrow> value))"

definition ascii_lower :: "nat \<Rightarrow> nat" where
  "ascii_lower c = (if 0x41 \<le> c \<and> c \<le> 0x5a then c + 32 else c)"

definition paths_equal :: "rust_string \<Rightarrow> rust_string \<Rightarrow> bool" where
  "paths_equal left right \<longleftrightarrow> map ascii_lower left = map ascii_lower right"

section \<open>Driver addresses\<close>

definition LAYER_FLOW :: u32 where "LAYER_FLOW = 2"
definition LAYER_SOCKET :: u32 where "LAYER_SOCKET = 3"

definition EVENT_FLOW_ESTABLISHED :: u32 where "EVENT_FLOW_ESTABLISHED = 1"
definition EVENT_FLOW_DELETED :: u32 where "EVENT_FLOW_DELETED = 2"
definition EVENT_SOCKET_CONNECT :: u32 where "EVENT_SOCKET_CONNECT = 4"
definition EVENT_SOCKET_CLOSE :: u32 where "EVENT_SOCKET_CLOSE = 7"

lemmas event_defs = EVENT_FLOW_ESTABLISHED_def EVENT_FLOW_DELETED_def EVENT_SOCKET_CONNECT_def EVENT_SOCKET_CLOSE_def

record FlowData =
  fd_process_id :: u32
  fd_local_addr :: "u32 list"
  fd_remote_addr :: "u32 list"
  fd_local_port :: u16
  fd_remote_port :: u16
  fd_protocol :: u8

text \<open>The union of the driver's address is kept as what it reads as flow data.\<close>

record Address =
  ad_bitfield :: u32
  ad_flow_view :: FlowData

definition ad_layer :: "Address \<Rightarrow> u32" where
  "ad_layer address = ad_bitfield address AND 0xFF"

definition ad_event :: "Address \<Rightarrow> u32" where
  "ad_event address = drop_bit 8 (ad_bitfield address) AND 0xFF"

definition ad_ipv6 :: "Address \<Rightarrow> bool" where
  "ad_ipv6 address \<longleftrightarrow> drop_bit 20 (ad_bitfield address) AND 1 = 1"

definition ad_flow :: "Address \<Rightarrow> FlowData option" where
  "ad_flow address =
     (if ad_layer address = LAYER_FLOW \<or> ad_layer address = LAYER_SOCKET then Some (ad_flow_view address) else None)"

section \<open>Flows\<close>

record FlowKey =
  fk_protocol :: u8
  fk_local :: IpAddr
  fk_local_port :: u16
  fk_remote :: IpAddr
  fk_remote_port :: u16

datatype Disposition = Tunnel | Direct

type_synonym FlowTable = "FlowKey \<rightharpoonup> Disposition"

definition table_lookup :: "FlowTable \<Rightarrow> FlowKey \<Rightarrow> Disposition option" where
  "table_lookup table key = table key"

definition table_insert :: "FlowKey \<Rightarrow> Disposition \<Rightarrow> FlowTable \<Rightarrow> FlowTable" where
  "table_insert key disposition table = table(key \<mapsto> disposition)"

definition insert_unattributed :: "FlowKey \<Rightarrow> Disposition \<Rightarrow> FlowTable \<Rightarrow> FlowTable" where
  "insert_unattributed key disposition table =
     (case table key of None \<Rightarrow> table(key \<mapsto> disposition) | Some _ \<Rightarrow> table)"

definition table_remove :: "FlowKey \<Rightarrow> FlowTable \<Rightarrow> FlowTable" where
  "table_remove key table = table(key := None)"

definition table_clear :: "FlowTable \<Rightarrow> FlowTable" where
  "table_clear table = Map.empty"

definition decode_address :: "u32 list \<Rightarrow> bool \<Rightarrow> IpAddr option" where
  "decode_address words ipv6 =
     (if ipv6 then Some (V6 (from_be (concat (map (to_be 4) (rev words)))))
      else if words ! 1 = 0xffff \<and> words ! 2 = 0 \<and> words ! 3 = 0
      then (case to_be 4 (words ! 0) of
              [a, b, c, d] \<Rightarrow> Some (V4 (Ipv4Addr a b c d))
            | _ \<Rightarrow> None)
      else None)"

definition flow_key :: "FlowData \<Rightarrow> bool \<Rightarrow> FlowKey option" where
  "flow_key flow ipv6 =
     (case decode_address (fd_local_addr flow) ipv6 of
        None \<Rightarrow> None
      | Some local \<Rightarrow>
          (case decode_address (fd_remote_addr flow) ipv6 of
             None \<Rightarrow> None
           | Some remote \<Rightarrow>
               Some \<lparr>fk_protocol = fd_protocol flow, fk_local = local, fk_local_port = fd_local_port flow,
                     fk_remote = remote, fk_remote_port = fd_remote_port flow\<rparr>))"

section \<open>Processes\<close>

text \<open>
  A process as the operating system shows it: its creation time, and its path when asked with a buffer
  of a given number of characters, or the error code.
\<close>

record Process =
  pr_created :: "u64 option"
  pr_query :: "nat \<Rightarrow> int + rust_string"

definition ERROR_INSUFFICIENT_BUFFER :: int where "ERROR_INSUFFICIENT_BUFFER = 122"

partial_function (option) image_path_loop :: "(nat \<Rightarrow> int + rust_string) \<Rightarrow> nat \<Rightarrow> rust_string option option" where
  [code]: "image_path_loop query capacity =
     (case query capacity of
        Inr path \<Rightarrow> Some (Some (normalize_windows_path path))
      | Inl e \<Rightarrow>
          if e \<noteq> ERROR_INSUFFICIENT_BUFFER \<or> capacity \<ge> 32768 then Some None
          else image_path_loop query (min (capacity * 2) 32768))"

definition image_path :: "Process \<Rightarrow> rust_string option" where
  "image_path process = (case image_path_loop (pr_query process) 512 of Some result \<Rightarrow> result | None \<Rightarrow> None)"

definition CLASSIFICATION_CAPACITY :: nat where "CLASSIFICATION_CAPACITY = 4096"

record Classifier =
  cl_mode :: AppRoutingMode
  cl_apps :: "rust_string list"
  cl_cache :: "(u32 \<times> u64, bool) hashmap"

definition Classifier_new :: "AppRoutingPolicy \<Rightarrow> Classifier" where
  "Classifier_new policy =
     \<lparr>cl_mode = arp_mode policy, cl_apps = map normalize_windows_path (arp_apps policy), cl_cache = []\<rparr>"

definition classifier_matches :: "Classifier \<Rightarrow> rust_string \<Rightarrow> bool" where
  "classifier_matches c path = list_ex (\<lambda>candidate. paths_equal candidate path) (cl_apps c)"

definition is_listed :: "(u32 \<Rightarrow> Process option) \<Rightarrow> u32 \<Rightarrow> Classifier \<Rightarrow> (bool \<times> bool) \<times> Classifier" where
  "is_listed open_process process_id c =
     (case open_process process_id of
        None \<Rightarrow> ((False, False), c)
      | Some process \<Rightarrow>
          (case pr_created process of
             None \<Rightarrow>
               ((case image_path process of None \<Rightarrow> (False, False) | Some path \<Rightarrow> (classifier_matches c path, True)), c)
           | Some created \<Rightarrow>
               let key = (process_id, created) in
               (case map_of (cl_cache c) key of
                  Some listed \<Rightarrow> ((listed, True), c)
                | None \<Rightarrow>
                    (case image_path process of
                       None \<Rightarrow> ((False, False), c)
                     | Some path \<Rightarrow>
                         let listed = classifier_matches c path;
                             cache = (if length (cl_cache c) \<ge> CLASSIFICATION_CAPACITY then [] else cl_cache c)
                         in ((listed, True), c\<lparr>cl_cache := hm_insert key listed cache\<rparr>)))))"

definition classify :: "(u32 \<Rightarrow> Process option) \<Rightarrow> u32 \<Rightarrow> Classifier \<Rightarrow> (Disposition \<times> bool) \<times> Classifier" where
  "classify open_process process_id c =
     (let ((listed, attributed), c') = is_listed open_process process_id c;
          disposition = (case (cl_mode c, listed) of
              (Exclude, True) \<Rightarrow> Direct
            | (Include, False) \<Rightarrow> Direct
            | (Exclude, False) \<Rightarrow> Tunnel
            | (Include, True) \<Rightarrow> Tunnel)
      in ((disposition, attributed), c'))"

text \<open>The body of the watcher's loop for one event, with the processes as they are at that moment.\<close>

definition watch_event ::
  "(u32 \<Rightarrow> Process option) \<Rightarrow> Address \<Rightarrow> FlowTable \<times> Classifier \<Rightarrow> FlowTable \<times> Classifier" where
  "watch_event open_process address s =
     (case ad_flow address of
        None \<Rightarrow> s
      | Some flow \<Rightarrow>
          (case flow_key flow (ad_ipv6 address) of
             None \<Rightarrow> s
           | Some key \<Rightarrow>
               let (table, c) = s in
               if ad_event address \<in> {EVENT_SOCKET_CONNECT, EVENT_FLOW_ESTABLISHED} then
                 let ((disposition, attributed), c') = classify open_process (fd_process_id flow) c in
                 (if attributed then table_insert key disposition table else insert_unattributed key disposition table, c')
               else if ad_event address \<in> {EVENT_SOCKET_CLOSE, EVENT_FLOW_DELETED} then (table_remove key table, c)
               else s))"

section \<open>Translation\<close>

definition DNS_PORT :: u16 where "DNS_PORT = 53"

datatype Outcome = OutTunnel | OutPassThrough | OutDiscard

record Translation =
  tl_physical :: IpAddr
  tl_tunnel :: IpAddr
  tl_resolver :: IpAddr
  tl_max_segment_size :: u16

definition Translation_new :: "IpAddr \<Rightarrow> IpAddr \<Rightarrow> IpAddr \<Rightarrow> u16 \<Rightarrow> Translation" where
  "Translation_new physical tunnel resolver tunnel_mtu =
     \<lparr>tl_physical = physical, tl_tunnel = tunnel, tl_resolver = resolver,
      tl_max_segment_size = saturating_sub tunnel_mtu 40\<rparr>"

definition packet_key :: "Packet \<Rightarrow> u16 \<Rightarrow> u16 \<Rightarrow> FlowKey" where
  "packet_key packet source_port destination_port =
     \<lparr>fk_protocol = pkt_protocol packet, fk_local = pkt_source packet, fk_local_port = source_port,
      fk_remote = pkt_destination packet, fk_remote_port = destination_port\<rparr>"

definition prepare_outbound :: "FlowTable \<Rightarrow> Translation \<Rightarrow> bytes \<Rightarrow> Outcome \<times> bytes" where
  "prepare_outbound table translation input =
     (case Packet_parse input of
        None \<Rightarrow> (OutPassThrough, input)
      | Some packet \<Rightarrow>
          if pkt_protocol packet \<notin> {PROTOCOL_TCP, PROTOCOL_UDP} then (OutPassThrough, input)
          else
            (case pkt_ports packet of
               None \<Rightarrow> (OutPassThrough, input)
             | Some (source_port, destination_port) \<Rightarrow>
                 let key = packet_key packet source_port destination_port;
                     resolving = (pkt_destination packet = tl_resolver translation \<and> destination_port = DNS_PORT)
                 in
                 if \<not> resolving \<and> table_lookup table key \<noteq> Some Tunnel then (OutPassThrough, input)
                 else
                   (case set_source (tl_tunnel translation) packet of
                      (False, _) \<Rightarrow> (OutDiscard, input)
                    | (True, packet1) \<Rightarrow>
                        let (_, packet2) = clamp_mss (tl_max_segment_size translation) packet1
                        in (OutTunnel, pkt_bytes packet2))))"

definition prepare_inbound :: "Translation \<Rightarrow> bytes \<Rightarrow> bool \<times> bytes" where
  "prepare_inbound translation input =
     (case Packet_parse input of
        None \<Rightarrow> (False, input)
      | Some packet \<Rightarrow>
          if pkt_destination packet \<noteq> tl_tunnel translation then (False, input)
          else
            (case set_destination (tl_physical translation) packet of
               (False, _) \<Rightarrow> (False, input)
             | (True, packet1) \<Rightarrow>
                 let (_, packet2) = clamp_mss (tl_max_segment_size translation) packet1
                 in (True, pkt_bytes packet2)))"

section \<open>The capture loop\<close>

definition BATCH_MAX :: nat where "BATCH_MAX = 255"
definition CAPTURE_BUFFER :: nat where "CAPTURE_BUFFER = 512 * 1024"

text \<open>What the loop asks of the driver's send functions, and what it hands to the data plane.\<close>

datatype divert_output = InjectBatch bytes "Address list" | InjectOne bytes Address | Sink bytes

record Reinject =
  rj_packets :: bytes
  rj_addresses :: "Address list"
  rj_lengths :: "nat list"

definition Reinject_new :: Reinject where
  "Reinject_new = \<lparr>rj_packets = [], rj_addresses = [], rj_lengths = []\<rparr>"

definition rj_is_full :: "Reinject \<Rightarrow> nat \<Rightarrow> bool" where
  "rj_is_full r len \<longleftrightarrow> length (rj_addresses r) \<ge> BATCH_MAX \<or> length (rj_packets r) + len > CAPTURE_BUFFER"

definition rj_push :: "bytes \<Rightarrow> Address \<Rightarrow> Reinject \<Rightarrow> Reinject" where
  "rj_push packet address r =
     \<lparr>rj_packets = rj_packets r @ packet, rj_addresses = rj_addresses r @ [address],
      rj_lengths = rj_lengths r @ [length packet]\<rparr>"

fun flush_individually :: "bytes \<Rightarrow> nat \<Rightarrow> (nat \<times> Address) list \<Rightarrow> divert_output list" where
  "flush_individually packets offset [] = []"
| "flush_individually packets offset ((len, address) # rest) =
     (let stop = min (offset + len) (length packets) in
      InjectOne (take (stop - offset) (drop offset packets)) address # flush_individually packets stop rest)"

text \<open>\<open>accepted\<close> is the driver's answer to the batch; a refused batch is retried packet by packet.\<close>

definition rj_flush :: "(bytes \<Rightarrow> Address list \<Rightarrow> bool) \<Rightarrow> Reinject \<Rightarrow> divert_output list \<times> Reinject" where
  "rj_flush accepted r =
     (if rj_addresses r = [] then ([], r)
      else
        (InjectBatch (rj_packets r) (rj_addresses r) #
           (if accepted (rj_packets r) (rj_addresses r) then []
            else flush_individually (rj_packets r) 0 (zip (rj_lengths r) (rj_addresses r))),
         Reinject_new))"

text \<open>
  The driver: whether it takes a batch; its packet parser, which fails or says how many bytes follow the
  first packet (nothing for a null pointer); and the checksums it fills in.
\<close>

record divert_driver =
  dd_accepts_batch :: "bytes \<Rightarrow> Address list \<Rightarrow> bool"
  dd_parse_packet :: "bytes \<Rightarrow> nat option option"
  dd_calc_checksums :: "bytes \<Rightarrow> Address \<Rightarrow> (bytes \<times> Address) option"

definition first_packet_len :: "divert_driver \<Rightarrow> bytes \<Rightarrow> nat option" where
  "first_packet_len D input =
     (if length input \<ge> 2 ^ 32 then None
      else
        (case dd_parse_packet D input of
           None \<Rightarrow> None
         | Some rest \<Rightarrow>
             let remainder = (case rest of None \<Rightarrow> 0 | Some next_len \<Rightarrow> next_len) in
             if remainder \<le> length input \<and> length input - remainder > 0 then Some (length input - remainder) else None))"

record Stats =
  st_tunnelled :: u64
  st_passed :: u64
  st_discarded :: u64
  st_batches :: u64

record Capture =
  cp_reinject :: Reinject
  cp_tunnelled :: "bytes list"
  cp_stats :: Stats
  cp_outputs :: "divert_output list"

definition capture_flush :: "divert_driver \<Rightarrow> Capture \<Rightarrow> Capture" where
  "capture_flush D s =
     (let (outs, r) = rj_flush (dd_accepts_batch D) (cp_reinject s)
      in s\<lparr>cp_reinject := r, cp_outputs := cp_outputs s @ outs\<rparr>)"

text \<open>What the loop does with one packet of a batch.\<close>

definition capture_packet :: "divert_driver \<Rightarrow> FlowTable \<Rightarrow> Translation \<Rightarrow> bytes \<Rightarrow> Address \<Rightarrow> Capture \<Rightarrow> Capture" where
  "capture_packet D table translation packet address s =
     (case prepare_outbound table translation packet of
        (OutPassThrough, packet') \<Rightarrow>
          let s1 = s\<lparr>cp_stats := (cp_stats s)\<lparr>st_passed := saturating_add (st_passed (cp_stats s)) 1\<rparr>\<rparr>;
              s2 = (if rj_is_full (cp_reinject s1) (length packet') then capture_flush D s1 else s1)
          in s2\<lparr>cp_reinject := rj_push packet' address (cp_reinject s2)\<rparr>
      | (OutDiscard, _) \<Rightarrow>
          s\<lparr>cp_stats := (cp_stats s)\<lparr>st_discarded := saturating_add (st_discarded (cp_stats s)) 1\<rparr>\<rparr>
      | (OutTunnel, packet') \<Rightarrow>
          let s1 = s\<lparr>cp_stats := (cp_stats s)\<lparr>st_tunnelled := saturating_add (st_tunnelled (cp_stats s)) 1\<rparr>\<rparr> in
          (case dd_calc_checksums D packet' address of
             None \<Rightarrow> s1
           | Some (packet'', _) \<Rightarrow> s1\<lparr>cp_tunnelled := cp_tunnelled s1 @ [packet'']\<rparr>))"

text \<open>The loop over a batch: \<open>remaining\<close> are the captured bytes from the current offset on.\<close>

fun capture_packets ::
  "divert_driver \<Rightarrow> FlowTable \<Rightarrow> Translation \<Rightarrow> bytes \<Rightarrow> Address list \<Rightarrow> Capture \<Rightarrow> Capture" where
  "capture_packets D table translation remaining [] s = s"
| "capture_packets D table translation remaining (address # addresses) s =
     (if remaining = [] then s
      else
        (case first_packet_len D remaining of
           None \<Rightarrow> s
         | Some len \<Rightarrow>
             capture_packets D table translation (drop len remaining) addresses
               (capture_packet D table translation (take len remaining) address s)))"

text \<open>One turn of the loop on the captured bytes and the addresses the driver filled in.\<close>

definition capture_turn ::
  "divert_driver \<Rightarrow> FlowTable \<Rightarrow> Translation \<Rightarrow> bytes \<Rightarrow> Address list \<Rightarrow> Capture \<Rightarrow> Capture" where
  "capture_turn D table translation buffer addresses s =
     (let s1 = s\<lparr>cp_stats := (cp_stats s)\<lparr>st_batches := saturating_add (st_batches (cp_stats s)) 1\<rparr>\<rparr>;
          s2 = capture_flush D (capture_packets D table translation buffer addresses s1)
      in s2\<lparr>cp_tunnelled := [], cp_outputs := cp_outputs s2 @ map Sink (cp_tunnelled s2)\<rparr>)"

definition inject_inbound :: "divert_driver \<Rightarrow> bytes \<Rightarrow> Address \<Rightarrow> divert_output list" where
  "inject_inbound D packet address =
     (case dd_calc_checksums D packet address of
        None \<Rightarrow> []
      | Some (packet', address') \<Rightarrow> [InjectOne packet' address'])"

section \<open>Resolving an executable\<close>

text \<open>
  The buffers the loop tries, in order, and the answer of the first that is not refused for its size.
\<close>

definition path_capacities :: "nat list" where
  "path_capacities = [512, 1024, 2048, 4096, 8192, 16384, 32768]"

definition path_answer :: "(nat \<Rightarrow> int + rust_string) \<Rightarrow> rust_string option" where
  "path_answer query =
     (case find (\<lambda>capacity. query capacity \<noteq> Inl ERROR_INSUFFICIENT_BUFFER) path_capacities of
        None \<Rightarrow> None
      | Some capacity \<Rightarrow> (case query capacity of Inr path \<Rightarrow> Some (normalize_windows_path path) | Inl _ \<Rightarrow> None))"

lemma image_path_loop_step:
  assumes "capacity < 32768" "find (\<lambda>c. query c \<noteq> Inl ERROR_INSUFFICIENT_BUFFER) (min (capacity * 2) 32768 # rest) = found"
    and "image_path_loop query (min (capacity * 2) 32768) =
      Some (case found of None \<Rightarrow> None
        | Some c \<Rightarrow> (case query c of Inr path \<Rightarrow> Some (normalize_windows_path path) | Inl _ \<Rightarrow> None))"
  shows "image_path_loop query capacity =
      Some (case find (\<lambda>c. query c \<noteq> Inl ERROR_INSUFFICIENT_BUFFER) (capacity # min (capacity * 2) 32768 # rest) of None \<Rightarrow> None
        | Some c \<Rightarrow> (case query c of Inr path \<Rightarrow> Some (normalize_windows_path path) | Inl _ \<Rightarrow> None))"
  using assms by (subst image_path_loop.simps) (auto split: sum.splits)

lemma image_path_loop_last:
  "image_path_loop query 32768 =
      Some (case find (\<lambda>c. query c \<noteq> Inl ERROR_INSUFFICIENT_BUFFER) [32768] of None \<Rightarrow> None
        | Some c \<Rightarrow> (case query c of Inr path \<Rightarrow> Some (normalize_windows_path path) | Inl _ \<Rightarrow> None))"
  by (subst image_path_loop.simps) (auto split: sum.splits)

lemma image_path_loop_answer: "image_path_loop query 512 = Some (path_answer query)"
proof -
  note last = image_path_loop_last [of query]
  note l1 = image_path_loop_step [of 16384 query "[]", simplified, OF refl last [simplified]]
  note l2 = image_path_loop_step [of 8192 query "[32768]", simplified, OF refl l1 [simplified]]
  note l3 = image_path_loop_step [of 4096 query "[16384, 32768]", simplified, OF refl l2 [simplified]]
  note l4 = image_path_loop_step [of 2048 query "[8192, 16384, 32768]", simplified, OF refl l3 [simplified]]
  note l5 = image_path_loop_step [of 1024 query "[4096, 8192, 16384, 32768]", simplified, OF refl l4 [simplified]]
  note l6 = image_path_loop_step [of 512 query "[2048, 4096, 8192, 16384, 32768]", simplified, OF refl l5 [simplified]]
  show ?thesis using l6 by (simp add: path_answer_def path_capacities_def)
qed

section \<open>The classifier's cache\<close>

text \<open>
  What Windows promises of a process identified by its id and creation time: its executable is the
  same each time it is asked for.
\<close>

definition stable_images :: "(u32 \<times> u64 \<Rightarrow> rust_string option) \<Rightarrow> (u32 \<Rightarrow> Process option) \<Rightarrow> bool" where
  "stable_images paths open_process \<longleftrightarrow>
     (\<forall>process_id process created. open_process process_id = Some process \<longrightarrow> pr_created process = Some created \<longrightarrow>
        image_path process = paths (process_id, created))"

definition class_cache_ok :: "(u32 \<times> u64 \<Rightarrow> rust_string option) \<Rightarrow> Classifier \<Rightarrow> bool" where
  "class_cache_ok paths c \<longleftrightarrow> hm_ok (cl_cache c) \<and> length (cl_cache c) \<le> CLASSIFICATION_CAPACITY \<and>
     (\<forall>key listed. map_of (cl_cache c) key = Some listed \<longrightarrow>
        (\<exists>path. paths key = Some path \<and> listed = classifier_matches c path))"

text \<open>The decision without a cache: the executable of the process, if it can be had, against the policy.\<close>

definition decide :: "AppRoutingPolicy \<Rightarrow> rust_string option \<Rightarrow> Disposition \<times> bool" where
  "decide policy path =
     (let listed = (case path of None \<Rightarrow> False
                    | Some p \<Rightarrow> \<exists>app \<in> set (arp_apps policy). paths_equal (normalize_windows_path app) p)
      in (if listed \<longleftrightarrow> arp_mode policy = Include then Tunnel else Direct, path \<noteq> None))"

definition process_path :: "(u32 \<Rightarrow> Process option) \<Rightarrow> u32 \<Rightarrow> rust_string option" where
  "process_path open_process process_id = Option.bind (open_process process_id) image_path"

definition for_policy :: "AppRoutingPolicy \<Rightarrow> Classifier \<Rightarrow> bool" where
  "for_policy policy c \<longleftrightarrow> cl_mode c = arp_mode policy \<and> cl_apps c = map normalize_windows_path (arp_apps policy)"

lemma matches_for_policy:
  "for_policy policy c \<Longrightarrow>
     classifier_matches c path \<longleftrightarrow> (\<exists>app \<in> set (arp_apps policy). paths_equal (normalize_windows_path app) path)"
  by (simp add: classifier_matches_def for_policy_def list_ex_iff)

lemma class_cache_ok_insert:
  assumes "class_cache_ok paths c" "paths key = Some path"
  shows "class_cache_ok paths (c\<lparr>cl_cache := hm_insert key (classifier_matches c path)
    (if length (cl_cache c) \<ge> CLASSIFICATION_CAPACITY then [] else cl_cache c)\<rparr>)"
proof -
  let ?m = "if length (cl_cache c) \<ge> CLASSIFICATION_CAPACITY then [] else cl_cache c"
  have same: "classifier_matches (c\<lparr>cl_cache := m\<rparr>) = classifier_matches c" for m
    by (simp add: classifier_matches_def fun_eq_iff)
  have valid: "hm_ok ?m" using assms(1) by (simp add: class_cache_ok_def hm_ok_def)
  have "length (hm_insert key (classifier_matches c path) ?m) \<le> CLASSIFICATION_CAPACITY"
    using hm.len_insert_le [OF valid, of key "classifier_matches c path"] by (auto simp: CLASSIFICATION_CAPACITY_def split: if_splits)
  moreover have "\<exists>path. paths k = Some path \<and> listed = classifier_matches c path"
    if "map_of (hm_insert key (classifier_matches c path) ?m) k = Some listed" for k listed
    using that assms by (cases k) (auto simp: hm.get_insert class_cache_ok_def split: if_splits)
  ultimately show ?thesis using hm.valid_insert [OF valid] by (simp add: class_cache_ok_def same)
qed

lemma is_listed_facts:
  assumes "stable_images paths open_process" "class_cache_ok paths c"
  shows "fst (is_listed open_process process_id c) =
      (case process_path open_process process_id of None \<Rightarrow> (False, False) | Some path \<Rightarrow> (classifier_matches c path, True))"
    and "class_cache_ok paths (snd (is_listed open_process process_id c))"
    and "\<exists>cache. snd (is_listed open_process process_id c) = c\<lparr>cl_cache := cache\<rparr>"
proof -
  have self: "\<exists>cache. c = c\<lparr>cl_cache := cache\<rparr>" by (rule exI [of _ "cl_cache c"]) simp
  have "fst (is_listed open_process process_id c) =
      (case process_path open_process process_id of None \<Rightarrow> (False, False) | Some path \<Rightarrow> (classifier_matches c path, True)) \<and>
    class_cache_ok paths (snd (is_listed open_process process_id c)) \<and>
    (\<exists>cache. snd (is_listed open_process process_id c) = c\<lparr>cl_cache := cache\<rparr>)"
  proof (cases "open_process process_id")
    case None
    then show ?thesis using assms(2) self by (simp add: is_listed_def process_path_def)
  next
    case process: (Some process)
    show ?thesis
    proof (cases "pr_created process")
      case None
      then show ?thesis using assms(2) self process by (simp add: is_listed_def process_path_def)
    next
      case created: (Some created)
      have path: "image_path process = paths (process_id, created)"
        using assms(1) process created by (simp add: stable_images_def)
      show ?thesis
      proof (cases "map_of (cl_cache c) (process_id, created)")
        case hit: (Some listed)
        then obtain p where "paths (process_id, created) = Some p" "listed = classifier_matches c p"
          using assms(2) unfolding class_cache_ok_def by blast
        then show ?thesis using hit assms(2) self process created path by (simp add: is_listed_def process_path_def Let_def)
      next
        case None
        then show ?thesis
          using assms(2) self process created path class_cache_ok_insert [OF assms(2), of "(process_id, created)"]
          by (cases "paths (process_id, created)") (auto simp add: is_listed_def process_path_def Let_def)
      qed
    qed
  qed
  then show "fst (is_listed open_process process_id c) =
      (case process_path open_process process_id of None \<Rightarrow> (False, False) | Some path \<Rightarrow> (classifier_matches c path, True))"
    and "class_cache_ok paths (snd (is_listed open_process process_id c))"
    and "\<exists>cache. snd (is_listed open_process process_id c) = c\<lparr>cl_cache := cache\<rparr>" by blast+
qed

lemma classify_facts:
  assumes "stable_images paths open_process" "class_cache_ok paths c" "for_policy policy c"
  shows "fst (classify open_process process_id c) = decide policy (process_path open_process process_id)"
    and "class_cache_ok paths (snd (classify open_process process_id c))" "for_policy policy (snd (classify open_process process_id c))"
proof -
  note listed = is_listed_facts [OF assms(1,2), of process_id]
  obtain l a c' where r: "is_listed open_process process_id c = ((l, a), c')" by (metis prod.collapse)
  have e: "classify open_process process_id c =
    ((if l \<longleftrightarrow> cl_mode c = Include then Tunnel else Direct, a), c')"
    unfolding classify_def r by (cases "cl_mode c"; cases l) simp_all
  show "fst (classify open_process process_id c) = decide policy (process_path open_process process_id)"
    using listed(1) assms(3) matches_for_policy [OF assms(3)]
    by (auto simp: e r decide_def for_policy_def split: option.splits)
  show "class_cache_ok paths (snd (classify open_process process_id c))" using listed(2) by (simp add: e r)
  show "for_policy policy (snd (classify open_process process_id c))" using listed(3) assms(3) by (auto simp: e r for_policy_def)
qed

text \<open>The watcher without a cache, on the decisions alone.\<close>

definition reference_event :: "AppRoutingPolicy \<Rightarrow> (u32 \<Rightarrow> Process option) \<Rightarrow> Address \<Rightarrow> FlowTable \<Rightarrow> FlowTable" where
  "reference_event policy open_process address table =
     (case Option.bind (ad_flow address) (\<lambda>flow. map_option (Pair flow) (flow_key flow (ad_ipv6 address))) of
        None \<Rightarrow> table
      | Some (flow, key) \<Rightarrow>
          if ad_event address = EVENT_SOCKET_CONNECT \<or> ad_event address = EVENT_FLOW_ESTABLISHED then
            (case decide policy (process_path open_process (fd_process_id flow)) of
               (disposition, True) \<Rightarrow> table(key \<mapsto> disposition)
             | (disposition, False) \<Rightarrow> (if key \<in> dom table then table else table(key \<mapsto> disposition)))
          else if ad_event address = EVENT_SOCKET_CLOSE \<or> ad_event address = EVENT_FLOW_DELETED then table |` (- {key})
          else table)"

lemma watch_event_facts:
  assumes "stable_images paths open_process" "class_cache_ok paths c" "for_policy policy c"
  shows "fst (watch_event open_process address (table, c)) = reference_event policy open_process address table"
    and "class_cache_ok paths (snd (watch_event open_process address (table, c)))"
    and "for_policy policy (snd (watch_event open_process address (table, c)))"
proof -
  let ?w = "watch_event open_process address (table, c)"
  have "fst ?w = reference_event policy open_process address table \<and> class_cache_ok paths (snd ?w) \<and> for_policy policy (snd ?w)"
  proof (cases "Option.bind (ad_flow address) (\<lambda>flow. map_option (Pair flow) (flow_key flow (ad_ipv6 address)))")
    case None
    then have "ad_flow address = None \<or> (\<exists>flow. ad_flow address = Some flow \<and> flow_key flow (ad_ipv6 address) = None)"
      by (cases "ad_flow address") auto
    then show ?thesis using assms(2,3) None by (auto simp: watch_event_def reference_event_def)
  next
    case (Some fk)
    then obtain flow key where fk: "ad_flow address = Some flow" "flow_key flow (ad_ipv6 address) = Some key"
      and bind: "Option.bind (ad_flow address) (\<lambda>flow. map_option (Pair flow) (flow_key flow (ad_ipv6 address))) = Some (flow, key)"
      by (auto simp: bind_eq_Some_conv)
    note cl = classify_facts [OF assms, of "fd_process_id flow"]
    obtain d a c' where r: "classify open_process (fd_process_id flow) c = ((d, a), c')" by (metis prod.collapse)
    have dec: "decide policy (process_path open_process (fd_process_id flow)) = (d, a)" using cl(1) r by simp
    show ?thesis
      using cl(2,3) assms(2,3) r
      by (cases a) (auto simp: watch_event_def reference_event_def bind [simplified fk] fk dec table_insert_def table_remove_def
          insert_unattributed_def restrict_map_def fun_eq_iff split: option.splits)
  qed
  then show "fst ?w = reference_event policy open_process address table" "class_cache_ok paths (snd ?w)" "for_policy policy (snd ?w)"
    by blast+
qed

definition watch_all :: "((u32 \<Rightarrow> Process option) \<times> Address) list \<Rightarrow> FlowTable \<times> Classifier \<Rightarrow> FlowTable \<times> Classifier" where
  "watch_all events s = fold (\<lambda>(open_process, address). watch_event open_process address) events s"

definition reference_all :: "AppRoutingPolicy \<Rightarrow> ((u32 \<Rightarrow> Process option) \<times> Address) list \<Rightarrow> FlowTable \<Rightarrow> FlowTable" where
  "reference_all policy events table = fold (\<lambda>(open_process, address). reference_event policy open_process address) events table"

lemma watch_all_facts:
  assumes "list_all (\<lambda>(open_process, _). stable_images paths open_process) events" "class_cache_ok paths c" "for_policy policy c"
  shows "fst (watch_all events (table, c)) = reference_all policy events table \<and> class_cache_ok paths (snd (watch_all events (table, c)))"
  using assms
proof (induction events arbitrary: table c)
  case Nil
  then show ?case by (simp add: watch_all_def reference_all_def)
next
  case (Cons e events)
  obtain open_process address where e: "e = (open_process, address)" by (cases e)
  have stable: "stable_images paths open_process" using Cons.prems(1) e by simp
  note step = watch_event_facts [OF stable Cons.prems(2,3), of address table]
  obtain table' c' where w: "watch_event open_process address (table, c) = (table', c')" by (cases "watch_event open_process address (table, c)")
  show ?case
    using Cons.IH [of c' table'] Cons.prems(1) step w by (simp add: e watch_all_def reference_all_def)
qed

lemma classifier_start: "class_cache_ok paths (Classifier_new policy)" "for_policy policy (Classifier_new policy)"
  by (simp_all add: class_cache_ok_def hm_ok_def for_policy_def Classifier_new_def)

section \<open>Rewriting\<close>

lemma address_outside:
  assumes "packet_ok p" "pkt_version p' = pkt_version p" "length (pkt_bytes p') = length (pkt_bytes p)"
    and "i + address_length p \<le> length (pkt_bytes p)"
    and "\<And>j. i \<le> j \<Longrightarrow> j < i + address_length p \<Longrightarrow> pkt_bytes p' ! j = pkt_bytes p ! j"
  shows "pkt_address p' i = pkt_address p i"
proof (cases "pkt_version p")
  case VersionV4
  then show ?thesis using assms by (simp add: pkt_address_def address_length_def Let_def)
next
  case VersionV6
  have "take 16 (drop i (pkt_bytes p')) = take 16 (drop i (pkt_bytes p))"
    using VersionV6 assms(3-5) by (intro nth_equalityI) (simp_all add: address_length_def)
  then show ?thesis using VersionV6 assms(2) by (simp add: pkt_address_def)
qed

text \<open>The clamp leaves everything but the advertised segment size as it was.\<close>

lemma clamp_mss_keeps:
  assumes "packet_ok p" "clamp_mss limit p = (changed, p')"
  shows "pkt_protocol p' = pkt_protocol p" "pkt_ports p' = pkt_ports p" "pkt_source p' = pkt_source p"
    "pkt_destination p' = pkt_destination p"
proof -
  note f = clamp_mss_facts [OF assms]
  have low: "pkt_bytes p' ! j = pkt_bytes p ! j" if "j < pkt_header_length p + 20" for j
    using f(7) [of j] that by linarith
  have p': "p' = p\<lparr>pkt_bytes := pkt_bytes p'\<rparr>" using f(5,6) by (cases p; cases p') simp
  note b = packet_ok_bounds [OF assms(1)]
  have protocol: "pkt_protocol (p\<lparr>pkt_bytes := pkt_bytes p'\<rparr>) = pkt_protocol p" by (rule protocol_edit) (simp_all add: low)
  have frag: "is_first_fragment (p\<lparr>pkt_bytes := pkt_bytes p'\<rparr>) = is_first_fragment p"
    by (rule first_fragment_edit) (simp_all add: low)
  show protocol': "pkt_protocol p' = pkt_protocol p" using protocol p' by simp
  have frag': "is_first_fragment p' = is_first_fragment p" using frag p' by simp
  show "pkt_ports p' = pkt_ports p"
    unfolding pkt_ports_def protocol' frag' f(6) using f(4) b low by (auto simp: Let_def)
  have address: "pkt_address p' i = pkt_address p i" if "i + address_length p \<le> pkt_header_length p" for i
    using that b low by (intro address_outside [OF assms(1) f(5) f(4)]) simp_all
  show "pkt_source p' = pkt_source p" "pkt_destination p' = pkt_destination p"
    using offsets(1) [OF assms(1)] offsets(2) [of p] address [of "source_offset p"] address [of "destination_offset p"] f(5)
    by (simp_all add: pkt_source_def pkt_destination_def source_offset_def destination_offset_def)
qed

lemma set_source_facts:
  assumes "packet_ok p" "set_source a p = (True, p')"
  shows "packet_ok p'" "pkt_source p' = a" "pkt_destination p' = pkt_destination p" "pkt_protocol p' = pkt_protocol p"
    "pkt_ports p' = pkt_ports p" "advertised_mss p' = advertised_mss p" "length (pkt_bytes p') = length (pkt_bytes p)"
    "pkt_version p' = pkt_version p"
proof -
  note f = set_address_facts [OF assms(1) assms(2) [unfolded set_source_def]]
  note o = offsets(1) [OF assms(1)] offsets(2) [of p]
  show "packet_ok p'" "length (pkt_bytes p') = length (pkt_bytes p)" "pkt_version p' = pkt_version p"
    using f(1,2,4) by simp_all
  have off: "source_offset p' = source_offset p" "destination_offset p' = destination_offset p"
    using f(2) by (simp_all add: source_offset_def destination_offset_def)
  show "pkt_source p' = a" using f(5) off by (simp add: pkt_source_def)
  show "pkt_destination p' = pkt_destination p"
    unfolding pkt_destination_def off
    using o packet_ok_bounds(1) [OF assms(1)] f(6) by (intro address_outside [OF assms(1) f(2) f(4)]) auto
  have same: "pkt_bytes p' ! j = pkt_bytes p ! j" if "j < source_offset p \<or> pkt_header_length p \<le> j" for j
    using that o f(6) [of j] by fastforce
  show "pkt_protocol p' = pkt_protocol p" "pkt_ports p' = pkt_ports p" "advertised_mss p' = advertised_mss p"
    using same_packet_outside [OF assms(1) f(2,3,4) same] by simp_all
qed

lemma set_destination_facts:
  assumes "packet_ok p" "set_destination a p = (True, p')"
  shows "packet_ok p'" "pkt_destination p' = a" "pkt_source p' = pkt_source p" "pkt_protocol p' = pkt_protocol p"
    "pkt_ports p' = pkt_ports p" "advertised_mss p' = advertised_mss p" "length (pkt_bytes p') = length (pkt_bytes p)"
    "pkt_version p' = pkt_version p"
proof -
  note f = set_address_facts [OF assms(1) assms(2) [unfolded set_destination_def]]
  note o = offsets(1) [OF assms(1)] offsets(2) [of p]
  show "packet_ok p'" "length (pkt_bytes p') = length (pkt_bytes p)" "pkt_version p' = pkt_version p"
    using f(1,2,4) by simp_all
  have off: "source_offset p' = source_offset p" "destination_offset p' = destination_offset p"
    using f(2) by (simp_all add: source_offset_def destination_offset_def)
  show "pkt_destination p' = a" using f(5) off by (simp add: pkt_destination_def)
  show "pkt_source p' = pkt_source p"
    unfolding pkt_source_def off
    using o packet_ok_bounds(1) [OF assms(1)] f(6) by (intro address_outside [OF assms(1) f(2) f(4)]) auto
  have same: "pkt_bytes p' ! j = pkt_bytes p ! j" if "j < source_offset p \<or> pkt_header_length p \<le> j" for j
    using that o f(6) [of j] by fastforce
  show "pkt_protocol p' = pkt_protocol p" "pkt_ports p' = pkt_ports p" "advertised_mss p' = advertised_mss p"
    using same_packet_outside [OF assms(1) f(2,3,4) same] by simp_all
qed

text \<open>The packets that go through the tunnel: those that carry their ports, of a routed flow or to the session's resolver.\<close>

definition takes_tunnel :: "FlowTable \<Rightarrow> Translation \<Rightarrow> Packet \<Rightarrow> bool" where
  "takes_tunnel table translation p \<longleftrightarrow>
     (case pkt_ports p of
        None \<Rightarrow> False
      | Some (sp, dp) \<Rightarrow>
          table (packet_key p sp dp) = Some Tunnel \<or> pkt_destination p = tl_resolver translation \<and> dp = DNS_PORT)"

lemma ports_protocol: "pkt_ports p = Some pp \<Longrightarrow> pkt_protocol p \<in> {PROTOCOL_TCP, PROTOCOL_UDP}"
  by (auto simp: pkt_ports_def split: if_splits)

lemma set_source_family: "fst (set_source a p) = same_family p a"
  by (simp add: set_source_def set_address_cases)

lemma prepare_outbound_cases:
  obtains (unparsed) "Packet_parse input = None" "prepare_outbound table tr input = (OutPassThrough, input)"
  | (direct) p where "Packet_parse input = Some p" "\<not> takes_tunnel table tr p" "prepare_outbound table tr input = (OutPassThrough, input)"
  | (dropped) p where "Packet_parse input = Some p" "takes_tunnel table tr p" "\<not> same_family p (tl_tunnel tr)"
      "prepare_outbound table tr input = (OutDiscard, input)"
  | (tunnelled) p p1 changed p2 where "Packet_parse input = Some p" "takes_tunnel table tr p" "same_family p (tl_tunnel tr)"
      "set_source (tl_tunnel tr) p = (True, p1)" "clamp_mss (tl_max_segment_size tr) p1 = (changed, p2)"
      "prepare_outbound table tr input = (OutTunnel, pkt_bytes p2)"
proof (cases "Packet_parse input")
  case None
  then show ?thesis using unparsed by (simp add: prepare_outbound_def)
next
  case (Some p)
  show ?thesis
  proof (cases "takes_tunnel table tr p")
    case False
    then have "prepare_outbound table tr input = (OutPassThrough, input)"
      using Some by (auto simp: prepare_outbound_def takes_tunnel_def table_lookup_def Let_def split: option.splits)
    then show ?thesis using direct Some False by blast
  next
    case True
    then obtain sp dp where ports: "pkt_ports p = Some (sp, dp)" by (auto simp: takes_tunnel_def split: option.splits)
    note protocol = ports_protocol [OF ports]
    obtain ok p1 where s: "set_source (tl_tunnel tr) p = (ok, p1)" by (cases "set_source (tl_tunnel tr) p")
    obtain changed p2 where c: "clamp_mss (tl_max_segment_size tr) p1 = (changed, p2)" by (cases "clamp_mss (tl_max_segment_size tr) p1")
    have family: "ok = same_family p (tl_tunnel tr)" using set_source_family [of "tl_tunnel tr" p] s by simp
    have e: "prepare_outbound table tr input = (if ok then (OutTunnel, pkt_bytes p2) else (OutDiscard, input))"
      using Some True ports protocol s c by (auto simp: prepare_outbound_def takes_tunnel_def table_lookup_def Let_def split: if_splits)
    show ?thesis
    proof (cases ok)
      case True
      then show ?thesis using tunnelled [of p p1 changed p2] Some \<open>takes_tunnel table tr p\<close> e s c family by simp
    next
      case False
      then show ?thesis using dropped [of p] Some \<open>takes_tunnel table tr p\<close> e family by simp
    qed
  qed
qed

lemma prepare_outbound_tunnelled:
  assumes "Packet_parse input = Some p" "prepare_outbound table tr input = (OutTunnel, out)"
  obtains p' where "Packet_parse out = Some p'" "pkt_source p' = tl_tunnel tr" "pkt_destination p' = pkt_destination p"
    "pkt_protocol p' = pkt_protocol p" "pkt_ports p' = pkt_ports p" "length out = length input"
    "advertised_mss p' = map_option (min (tl_max_segment_size tr)) (advertised_mss p)"
    "takes_tunnel table tr p" "same_family p (tl_tunnel tr)"
proof (cases rule: prepare_outbound_cases [of input table tr])
  case (tunnelled q p1 changed p2)
  have q: "q = p" using tunnelled(1) assms(1) by simp
  have ok: "packet_ok p" "pkt_bytes p = input" using Packet_parse_ok [OF assms(1)] by simp_all
  note s = set_source_facts [OF ok(1) tunnelled(4) [unfolded q]]
  note c = clamp_mss_facts [OF s(1) tunnelled(5)] and k = clamp_mss_keeps [OF s(1) tunnelled(5)]
  have out: "out = pkt_bytes p2" using tunnelled(6) assms(2) by simp
  show ?thesis
    using tunnelled(2,3) s c(1,2,4) k ok by (intro that [of p2]) (simp_all add: out q packet_ok_def)
qed (use assms in simp_all)

lemma family_of_address: "same_family p (pkt_address p i)"
  by (simp add: same_family_def pkt_address_def Let_def split: Version.split)

lemma same_family_trans: "same_family p a \<Longrightarrow> same_family q a \<Longrightarrow> same_family p b \<Longrightarrow> same_family q b"
  by (auto simp: same_family_def split: Version.splits IpAddr.splits)

lemma prepare_inbound_delivers:
  assumes "Packet_parse input = Some p" "pkt_destination p = tl_tunnel tr" "same_family p (tl_physical tr)"
  obtains out p' where "prepare_inbound tr input = (True, out)" "Packet_parse out = Some p'"
    "pkt_destination p' = tl_physical tr" "pkt_source p' = pkt_source p" "pkt_protocol p' = pkt_protocol p"
    "pkt_ports p' = pkt_ports p" "advertised_mss p' = map_option (min (tl_max_segment_size tr)) (advertised_mss p)"
proof -
  have ok: "packet_ok p" "pkt_bytes p = input" using Packet_parse_ok [OF assms(1)] by simp_all
  obtain p1 where d: "set_destination (tl_physical tr) p = (True, p1)"
    using assms(3) by (simp add: set_destination_def set_address_cases)
  obtain changed p2 where m: "clamp_mss (tl_max_segment_size tr) p1 = (changed, p2)"
    by (cases "clamp_mss (tl_max_segment_size tr) p1")
  note s = set_destination_facts [OF ok(1) d]
  note c = clamp_mss_facts [OF s(1) m] and k = clamp_mss_keeps [OF s(1) m]
  have "prepare_inbound tr input = (True, pkt_bytes p2)" using assms d m by (simp add: prepare_inbound_def)
  then show ?thesis using s c(1,2) k by (intro that [of "pkt_bytes p2" p2]) (simp_all add: packet_ok_def)
qed

section \<open>Staging and batches\<close>

text \<open>The packets a staging area holds, with their addresses.\<close>

definition staged :: "(bytes \<times> Address) list \<Rightarrow> Reinject" where
  "staged ps = \<lparr>rj_packets = concat (map fst ps), rj_addresses = map snd ps, rj_lengths = map (length \<circ> fst) ps\<rparr>"

lemma rj_push_staged: "rj_push p a (staged ps) = staged (ps @ [(p, a)])"
  by (simp add: rj_push_def staged_def)

lemma Reinject_new_staged: "Reinject_new = staged []"
  by (simp add: Reinject_new_def staged_def)

lemma flush_individually_staged:
  "flush_individually (pre @ concat (map fst ps)) (length pre) (zip (map (length \<circ> fst) ps) (map snd ps)) =
     map (\<lambda>(p, a). InjectOne p a) ps"
proof (induction ps arbitrary: pre)
  case (Cons pa ps)
  obtain p a where pa: "pa = (p, a)" by (cases pa)
  show ?case using Cons.IH [of "pre @ p"] by (simp add: pa Let_def)
qed simp

text \<open>What reaches the stack again: an accepted batch as a whole, or its packets sent one by one.\<close>

fun reinjected :: "(bytes \<Rightarrow> Address list \<Rightarrow> bool) \<Rightarrow> divert_output list \<Rightarrow> bytes \<times> Address list" where
  "reinjected accepted [] = ([], [])"
| "reinjected accepted (InjectBatch b as # os) =
     (let (b', as') = reinjected accepted os in if accepted b as then (b @ b', as @ as') else (b', as'))"
| "reinjected accepted (InjectOne b a # os) = (let (b', as') = reinjected accepted os in (b @ b', a # as'))"
| "reinjected accepted (Sink _ # os) = reinjected accepted os"

definition sunk :: "divert_output list \<Rightarrow> bytes list" where
  "sunk os = concat (map (\<lambda>out. case out of Sink b \<Rightarrow> [b] | _ \<Rightarrow> []) os)"

definition batches_fit :: "divert_output list \<Rightarrow> bool" where
  "batches_fit os \<longleftrightarrow> list_all (\<lambda>out. case out of InjectBatch b as \<Rightarrow> length as \<le> BATCH_MAX \<and> length b \<le> CAPTURE_BUFFER | _ \<Rightarrow> True) os"

lemma reinjected_append:
  "reinjected accepted (xs @ ys) = (fst (reinjected accepted xs) @ fst (reinjected accepted ys),
     snd (reinjected accepted xs) @ snd (reinjected accepted ys))"
  by (induction accepted xs rule: reinjected.induct) (simp_all add: Let_def split: prod.split)

lemma reinjected_singles: "reinjected accepted (map (\<lambda>(p, a). InjectOne p a) ps) = (concat (map fst ps), map snd ps)"
  by (induction ps) auto

lemma reinjected_sinks: "reinjected accepted (map Sink bs) = ([], [])"
  by (induction bs) auto

lemma sunk_simps: "sunk (xs @ ys) = sunk xs @ sunk ys" "sunk (map (\<lambda>(p, a). InjectOne p a) ps) = []" "sunk (map Sink bs) = bs"
proof -
  show "sunk (map (\<lambda>(p, a). InjectOne p a) ps) = []" by (induction ps) (auto simp: sunk_def)
  show "sunk (map Sink bs) = bs" by (induction bs) (auto simp: sunk_def)
qed (simp add: sunk_def)

definition staging_fits :: "(bytes \<times> Address) list \<Rightarrow> bool" where
  "staging_fits ps \<longleftrightarrow> length ps \<le> BATCH_MAX \<and> length (concat (map fst ps)) \<le> CAPTURE_BUFFER"

lemma rj_flush_staged:
  obtains outs where "rj_flush accepted (staged ps) = (outs, staged [])"
    "reinjected accepted outs = (concat (map fst ps), map snd ps)" "sunk outs = []"
    "staging_fits ps \<longrightarrow> batches_fit outs"
proof (cases ps)
  case Nil
  then show ?thesis by (intro that [of "[]"]) (simp_all add: rj_flush_def staged_def sunk_def batches_fit_def)
next
  case Cons
  let ?r = "staged ps"
  have single: "flush_individually (rj_packets ?r) 0 (zip (rj_lengths ?r) (rj_addresses ?r)) = map (\<lambda>(p, a). InjectOne p a) ps"
    using flush_individually_staged [of "[]" ps] by (simp add: staged_def)
  let ?outs = "InjectBatch (rj_packets ?r) (rj_addresses ?r) #
    (if accepted (rj_packets ?r) (rj_addresses ?r) then [] else map (\<lambda>(p, a). InjectOne p a) ps)"
  have "rj_flush accepted ?r = (?outs, staged [])"
    using Cons single by (simp add: rj_flush_def Reinject_new_staged) (simp add: staged_def)
  moreover have "reinjected accepted ?outs = (concat (map fst ps), map snd ps)"
    by (simp add: reinjected_singles staged_def)
  moreover have "sunk ?outs = []"
    using sunk_simps(2) [of ps] by (simp add: sunk_def)
  moreover have "staging_fits ps \<longrightarrow> batches_fit ?outs"
    by (auto simp: batches_fit_def staging_fits_def staged_def list_all_iff)
  ultimately show ?thesis by (rule that)
qed

text \<open>
  A capture between two steps: the staged packets fit a batch, and \<open>capture_view\<close> is all that was handed
  back so far or is staged for it.
\<close>

definition capture_ok :: "Capture \<Rightarrow> bool" where
  "capture_ok s \<longleftrightarrow> (\<exists>ps. cp_reinject s = staged ps \<and> staging_fits ps) \<and> batches_fit (cp_outputs s)"

definition capture_view :: "divert_driver \<Rightarrow> Capture \<Rightarrow> bytes \<times> Address list" where
  "capture_view D s =
     (fst (reinjected (dd_accepts_batch D) (cp_outputs s)) @ rj_packets (cp_reinject s),
      snd (reinjected (dd_accepts_batch D) (cp_outputs s)) @ rj_addresses (cp_reinject s))"

lemma batches_fit_simps: "batches_fit (xs @ ys) \<longleftrightarrow> batches_fit xs \<and> batches_fit ys" "batches_fit (map Sink bs)"
  by (auto simp: batches_fit_def list_all_iff)

lemma capture_flush_facts:
  assumes "capture_ok s"
  shows "capture_ok (capture_flush D s)" "capture_view D (capture_flush D s) = capture_view D s"
    "cp_reinject (capture_flush D s) = staged []" "cp_tunnelled (capture_flush D s) = cp_tunnelled s"
    "sunk (cp_outputs (capture_flush D s)) = sunk (cp_outputs s)"
proof -
  obtain ps where ps: "cp_reinject s = staged ps" "staging_fits ps" and fit: "batches_fit (cp_outputs s)"
    using assms by (auto simp: capture_ok_def)
  obtain outs where outs: "rj_flush (dd_accepts_batch D) (staged ps) = (outs, staged [])"
    "reinjected (dd_accepts_batch D) outs = (concat (map fst ps), map snd ps)" "sunk outs = []" "staging_fits ps \<longrightarrow> batches_fit outs"
    by (rule rj_flush_staged [of "dd_accepts_batch D" ps])
  have e: "capture_flush D s = s\<lparr>cp_reinject := staged [], cp_outputs := cp_outputs s @ outs\<rparr>"
    using ps(1) outs(1) by (simp add: capture_flush_def)
  have "batches_fit (cp_outputs s @ outs)" using fit outs(4) ps(2) by (simp add: batches_fit_simps)
  then show "capture_ok (capture_flush D s)"
    unfolding capture_ok_def e by (auto intro!: exI [of _ "[]"] simp: staging_fits_def)
  show "capture_view D (capture_flush D s) = capture_view D s"
    by (simp add: capture_view_def e reinjected_append outs(2) ps(1)) (simp add: staged_def)
  show "cp_reinject (capture_flush D s) = staged []" "cp_tunnelled (capture_flush D s) = cp_tunnelled s"
    "sunk (cp_outputs (capture_flush D s)) = sunk (cp_outputs s)"
    by (simp_all add: e sunk_simps(1) outs(3))
qed

lemma capture_push_facts:
  assumes "capture_ok s" "length p \<le> CAPTURE_BUFFER"
    and "s' = (let s1 = (if rj_is_full (cp_reinject s) (length p) then capture_flush D s else s)
               in s1\<lparr>cp_reinject := rj_push p a (cp_reinject s1)\<rparr>)"
  shows "capture_ok s'" "capture_view D s' = (fst (capture_view D s) @ p, snd (capture_view D s) @ [a])"
    "cp_tunnelled s' = cp_tunnelled s" "sunk (cp_outputs s') = sunk (cp_outputs s)"
proof -
  define s1 where "s1 = (if rj_is_full (cp_reinject s) (length p) then capture_flush D s else s)"
  have s': "s' = s1\<lparr>cp_reinject := rj_push p a (cp_reinject s1)\<rparr>" using assms(3) by (simp add: s1_def Let_def)
  have keep: "capture_ok s1" "capture_view D s1 = capture_view D s" "cp_tunnelled s1 = cp_tunnelled s"
    "sunk (cp_outputs s1) = sunk (cp_outputs s)"
    using capture_flush_facts [OF assms(1)] assms(1) by (simp_all add: s1_def)
  obtain ps where ps: "cp_reinject s1 = staged ps" "staging_fits ps" using keep(1) by (auto simp: capture_ok_def)
  have "\<not> rj_is_full (staged ps) (length p)"
  proof (cases "rj_is_full (cp_reinject s) (length p)")
    case True
    then have "staged ps = staged []" using capture_flush_facts(3) [OF assms(1), of D] ps(1) by (simp add: s1_def)
    then show ?thesis using assms(2) by (simp add: rj_is_full_def BATCH_MAX_def) (simp add: staged_def)
  next
    case False
    then show ?thesis using ps(1) by (simp add: s1_def)
  qed
  then have fits: "staging_fits (ps @ [(p, a)])" by (simp add: rj_is_full_def staging_fits_def staged_def)
  show "capture_ok s'"
    using keep(1) fits ps(1) unfolding capture_ok_def s' by (auto simp: rj_push_staged)
  show "capture_view D s' = (fst (capture_view D s) @ p, snd (capture_view D s) @ [a])"
    using keep(2) by (auto simp: capture_view_def s' rj_push_def)
  show "cp_tunnelled s' = cp_tunnelled s" "sunk (cp_outputs s') = sunk (cp_outputs s)" using keep(3,4) by (simp_all add: s')
qed

definition passed :: "FlowTable \<Rightarrow> Translation \<Rightarrow> (bytes \<times> Address) list \<Rightarrow> (bytes \<times> Address) list" where
  "passed table tr = filter (\<lambda>(p, a). fst (prepare_outbound table tr p) = OutPassThrough)"

definition tunnelled_packet :: "divert_driver \<Rightarrow> FlowTable \<Rightarrow> Translation \<Rightarrow> bytes \<times> Address \<Rightarrow> bytes option" where
  "tunnelled_packet D table tr = (\<lambda>(p, a).
     case prepare_outbound table tr p of
       (OutTunnel, p') \<Rightarrow> map_option fst (dd_calc_checksums D p' a)
     | _ \<Rightarrow> None)"

lemma pass_unchanged: "prepare_outbound table tr p = (OutPassThrough, p') \<Longrightarrow> p' = p"
  by (cases rule: prepare_outbound_cases [of p table tr]) auto

lemma capture_packet_facts:
  assumes "capture_ok s" "length p \<le> CAPTURE_BUFFER"
  shows "capture_ok (capture_packet D table tr p a s)"
    "capture_view D (capture_packet D table tr p a s) =
       (fst (capture_view D s) @ concat (map fst (passed table tr [(p, a)])), snd (capture_view D s) @ map snd (passed table tr [(p, a)]))"
    "cp_tunnelled (capture_packet D table tr p a s) = cp_tunnelled s @ List.map_filter (tunnelled_packet D table tr) [(p, a)]"
    "sunk (cp_outputs (capture_packet D table tr p a s)) = sunk (cp_outputs s)"
proof -
  have count: "capture_ok (s\<lparr>cp_stats := st\<rparr>)" "capture_view D (s\<lparr>cp_stats := st\<rparr>) = capture_view D s" for st
    using assms(1) by (simp_all add: capture_ok_def capture_view_def)
  obtain kind p' where o: "prepare_outbound table tr p = (kind, p')" by (cases "prepare_outbound table tr p")
  let ?s = "capture_packet D table tr p a s"
  have "capture_ok ?s \<and>
    capture_view D ?s =
       (fst (capture_view D s) @ concat (map fst (passed table tr [(p, a)])), snd (capture_view D s) @ map snd (passed table tr [(p, a)])) \<and>
    cp_tunnelled ?s = cp_tunnelled s @ List.map_filter (tunnelled_packet D table tr) [(p, a)] \<and>
    sunk (cp_outputs ?s) = sunk (cp_outputs s)"
  proof (cases kind)
    case OutPassThrough
    have p': "p' = p" using pass_unchanged o OutPassThrough by blast
    let ?s1 = "s\<lparr>cp_stats := (cp_stats s)\<lparr>st_passed := saturating_add (st_passed (cp_stats s)) 1\<rparr>\<rparr>"
    have e: "?s = (let s1 = (if rj_is_full (cp_reinject ?s1) (length p) then capture_flush D ?s1 else ?s1)
               in s1\<lparr>cp_reinject := rj_push p a (cp_reinject s1)\<rparr>)"
      unfolding capture_packet_def o OutPassThrough p' by (simp only: prod.case Outcome.case Let_def)
    note push = capture_push_facts [OF count(1) assms(2) e]
    show ?thesis
      using push OutPassThrough by (simp add: passed_def o tunnelled_packet_def List.map_filter_simps count(2))
  next
    case OutDiscard
    then show ?thesis
      using count by (simp add: capture_packet_def o passed_def tunnelled_packet_def List.map_filter_simps)
  next
    case OutTunnel
    have more: "capture_ok (s\<lparr>cp_stats := st, cp_tunnelled := t\<rparr>)" "capture_view D (s\<lparr>cp_stats := st, cp_tunnelled := t\<rparr>) = capture_view D s" for st t
      using assms(1) by (simp_all add: capture_ok_def capture_view_def)
    show ?thesis
      using OutTunnel count more
      by (cases "dd_calc_checksums D p' a") (auto simp: capture_packet_def o passed_def tunnelled_packet_def List.map_filter_simps Let_def)
  qed
  then show "capture_ok ?s"
    "capture_view D ?s =
       (fst (capture_view D s) @ concat (map fst (passed table tr [(p, a)])), snd (capture_view D s) @ map snd (passed table tr [(p, a)]))"
    "cp_tunnelled ?s = cp_tunnelled s @ List.map_filter (tunnelled_packet D table tr) [(p, a)]"
    "sunk (cp_outputs ?s) = sunk (cp_outputs s)" by blast+
qed

text \<open>The driver's parser finds the packets a batch was made of.\<close>

fun splits_batch :: "divert_driver \<Rightarrow> bytes list \<Rightarrow> bool" where
  "splits_batch D [] \<longleftrightarrow> True"
| "splits_batch D (p # ps) \<longleftrightarrow> p \<noteq> [] \<and> dd_parse_packet D (p @ concat ps) = Some (if ps = [] then None else Some (length (concat ps))) \<and>
     splits_batch D ps"

lemma first_packet_found:
  assumes "splits_batch D (p # ps)" "length (concat (p # ps)) \<le> CAPTURE_BUFFER"
  shows "first_packet_len D (concat (p # ps)) = Some (length p)"
  using assms by (auto simp: first_packet_len_def CAPTURE_BUFFER_def Let_def)

lemma capture_packets_facts:
  assumes "splits_batch D ps" "length ps = length as" "length (concat ps) \<le> CAPTURE_BUFFER" "capture_ok s"
  shows "capture_ok (capture_packets D table tr (concat ps) as s) \<and>
    capture_view D (capture_packets D table tr (concat ps) as s) =
      (fst (capture_view D s) @ concat (map fst (passed table tr (zip ps as))), snd (capture_view D s) @ map snd (passed table tr (zip ps as))) \<and>
    cp_tunnelled (capture_packets D table tr (concat ps) as s) =
      cp_tunnelled s @ List.map_filter (tunnelled_packet D table tr) (zip ps as) \<and>
    sunk (cp_outputs (capture_packets D table tr (concat ps) as s)) = sunk (cp_outputs s)"
  using assms
proof (induction ps arbitrary: as s)
  case Nil
  then show ?case by (simp add: passed_def List.map_filter_simps)
next
  case (Cons p ps)
  then obtain a as' where as: "as = a # as'" by (cases as) auto
  have len: "length p \<le> CAPTURE_BUFFER" "length (concat ps) \<le> CAPTURE_BUFFER" using Cons.prems(3) by simp_all
  have ne: "p \<noteq> []" using Cons.prems(1) by simp
  note one = capture_packet_facts [OF Cons.prems(4) len(1), of D table tr a]
  let ?s = "capture_packet D table tr p a s"
  have e: "capture_packets D table tr (concat (p # ps)) as s = capture_packets D table tr (concat ps) as' ?s"
    using first_packet_found [OF Cons.prems(1,3)] ne by (simp add: as)
  have "splits_batch D ps" "length ps = length as'" using Cons.prems(1,2) as by simp_all
  note rest = Cons.IH [OF this len(2) one(1)]
  show ?case
    unfolding e using rest one(2-4) by (auto simp: as passed_def List.map_filter_simps split: option.splits if_splits)
qed

end
