(* ===== verification/SplitProps.thy ===== *)
theory SplitProps
  imports SplitTunnel
begin

text \<open>
  The properties of the per-application tunnel, on the lemmas of \<^verbatim>\<open>SplitTunnel\<close>, with a sample session,
  machine and driver to run the model on.
\<close>

section \<open>Properties\<close>

text \<open>A session and packets to run the model on: a connection request with a segment size of 1460, and its answer.\<close>

definition sample_translation :: Translation where
  "sample_translation = Translation_new (V4 (Ipv4Addr 192 168 0 189)) (V4 (Ipv4Addr 10 77 0 22)) (V4 (Ipv4Addr 10 77 0 1)) 1280"

definition sample_syn :: bytes where
  "sample_syn = [0x45, 0, 0, 44, 0, 0, 0, 0, 64, 6, 0, 0, 192, 168, 0, 189, 1, 1, 1, 1,
     0xc7, 0x38, 1, 0xbb, 0, 0, 0, 0, 0, 0, 0, 0, 0x60, 2, 0xff, 0xff, 0, 0, 0, 0, 2, 4, 5, 0xb4]"

definition sample_moved :: bytes where
  "sample_moved = [0x45, 0, 0, 44, 0, 0, 0, 0, 64, 6, 0, 0, 10, 77, 0, 22, 1, 1, 1, 1,
     0xc7, 0x38, 1, 0xbb, 0, 0, 0, 0, 0, 0, 0, 0, 0x60, 2, 0xff, 0xff, 0, 0, 0, 0, 2, 4, 5, 0xb4]"

definition sample_tunnelled :: bytes where
  "sample_tunnelled = [0x45, 0, 0, 44, 0, 0, 0, 0, 64, 6, 0, 0, 10, 77, 0, 22, 1, 1, 1, 1,
     0xc7, 0x38, 1, 0xbb, 0, 0, 0, 0, 0, 0, 0, 0, 0x60, 2, 0xff, 0xff, 0, 0, 0, 0, 2, 4, 4, 0xd8]"

definition sample_reply :: bytes where
  "sample_reply = [0x45, 0, 0, 44, 0, 0, 0, 0, 64, 6, 0, 0, 1, 1, 1, 1, 10, 77, 0, 22,
     1, 0xbb, 0xc7, 0x38, 0, 0, 0, 0, 0, 0, 0, 0, 0x60, 0x12, 0xff, 0xff, 0, 0, 0, 0, 2, 4, 5, 0xb4]"

definition sample_query :: bytes where
  "sample_query = [0x45, 0, 0, 28, 0, 0, 0, 0, 64, 17, 0, 0, 192, 168, 0, 189, 8, 8, 8, 8, 0xc7, 0x39, 0, 53, 0, 8, 0, 0]"

definition sample_flow_key :: FlowKey where
  "sample_flow_key = \<lparr>fk_protocol = 6, fk_local = V4 (Ipv4Addr 192 168 0 189), fk_local_port = 51000,
     fk_remote = V4 (Ipv4Addr 1 1 1 1), fk_remote_port = 443\<rparr>"

definition sample_table :: FlowTable where
  "sample_table = [sample_flow_key \<mapsto> Tunnel]"

lemmas packet_eval = Packet_parse_def pkt_protocol_def pkt_ports_def pkt_source_def pkt_destination_def pkt_address_def
  source_offset_def destination_offset_def is_first_fragment_def offset_defs PROTOCOL_TCP_def PROTOCOL_UDP_def
  FRAGMENT_OFFSET_MASK_def Let_def from_be_def be_value_def

definition sample_view :: "bytes \<Rightarrow> Packet" where
  "sample_view input = \<lparr>pkt_bytes = input, pkt_header_length = 20, pkt_version = VersionV4\<rparr>"

lemma be_digits_small:
  "be_digits 2 x = [x div 256 mod 256, x mod 256]"
  "be_digits 4 x = [x div 256 div 256 div 256 mod 256, x div 256 div 256 mod 256, x div 256 mod 256, x mod 256]"
proof -
  have "be_digits (Suc (Suc 0)) x = [x div 256 mod 256, x mod 256]"
    and "be_digits (Suc (Suc (Suc (Suc 0)))) x =
      [x div 256 div 256 div 256 mod 256, x div 256 div 256 mod 256, x div 256 mod 256, x mod 256]" by simp_all
  moreover have "Suc (Suc 0) = 2" "Suc (Suc (Suc (Suc 0))) = 4" by simp_all
  ultimately show "be_digits 2 x = [x div 256 mod 256, x mod 256]"
    "be_digits 4 x = [x div 256 div 256 div 256 mod 256, x div 256 div 256 mod 256, x div 256 mod 256, x mod 256]"
    by (simp_all only:)
qed

lemmas sample_packets = sample_syn_def sample_moved_def sample_tunnelled_def sample_reply_def sample_query_def sample_view_def

lemma sample_parse:
  "Packet_parse sample_syn = Some (sample_view sample_syn)"
  "Packet_parse sample_tunnelled = Some (sample_view sample_tunnelled)"
  "Packet_parse sample_reply = Some (sample_view sample_reply)"
  "Packet_parse sample_query = Some (sample_view sample_query)"
  by (simp_all add: sample_packets packet_eval drop_bit_eq_div)

lemma sample_fields:
  "pkt_ports (sample_view sample_syn) = Some (51000, 443)"
  "pkt_ports (sample_view sample_tunnelled) = Some (51000, 443)"
  "pkt_ports (sample_view sample_reply) = Some (443, 51000)"
  "pkt_ports (sample_view sample_query) = Some (51001, 53)"
  "pkt_source (sample_view sample_syn) = V4 (Ipv4Addr 192 168 0 189)"
  "pkt_source (sample_view sample_tunnelled) = V4 (Ipv4Addr 10 77 0 22)"
  "pkt_source (sample_view sample_reply) = V4 (Ipv4Addr 1 1 1 1)"
  "pkt_source (sample_view sample_query) = V4 (Ipv4Addr 192 168 0 189)"
  "pkt_destination (sample_view sample_syn) = V4 (Ipv4Addr 1 1 1 1)"
  "pkt_destination (sample_view sample_tunnelled) = V4 (Ipv4Addr 1 1 1 1)"
  "pkt_destination (sample_view sample_reply) = V4 (Ipv4Addr 10 77 0 22)"
  "pkt_destination (sample_view sample_query) = V4 (Ipv4Addr 8 8 8 8)"
  "pkt_protocol (sample_view sample_syn) = 6" "pkt_protocol (sample_view sample_tunnelled) = 6"
  "pkt_protocol (sample_view sample_reply) = 6" "pkt_protocol (sample_view sample_query) = 17"
  by (simp_all add: sample_packets packet_eval)

lemma sample_options: "option_range (sample_view sample_moved) = Some (40, 44)"
  by (simp add: option_range_def sample_packets packet_eval SYN_def drop_bit_eq_div)

lemma sample_outbound:
  "prepare_outbound sample_table sample_translation sample_syn = (OutTunnel, sample_tunnelled)"
  "prepare_outbound sample_table sample_translation sample_query = (OutPassThrough, sample_query)"
proof -
  have key: "packet_key (sample_view sample_syn) 51000 443 = sample_flow_key"
    by (simp add: packet_key_def sample_flow_key_def sample_fields)
  have source: "set_source (tl_tunnel sample_translation) (sample_view sample_syn) = (True, sample_view sample_moved)"
    by (simp add: set_source_def set_address_def source_offset_def offset_defs sample_translation_def Translation_new_def
        sample_packets copy_at_def)
  have walk: "clamp_walk (tl_max_segment_size sample_translation) 44 40 sample_moved = (True, sample_tunnelled)"
    by (subst clamp_walk.simps) (simp add: sample_packets packet_eval sample_translation_def Translation_new_def
        saturating_sub_def copy_at_def to_be_def be_digits_small)
  have edit: "sample_view sample_moved\<lparr>pkt_bytes := b\<rparr> = sample_view b" "pkt_bytes (sample_view b) = b" for b
    by (simp_all add: sample_view_def)
  have "clamp_mss (tl_max_segment_size sample_translation) (sample_view sample_moved) = (True, sample_view sample_tunnelled)"
    by (simp add: clamp_mss_def sample_options edit walk)
  then show "prepare_outbound sample_table sample_translation sample_syn = (OutTunnel, sample_tunnelled)"
    by (simp add: prepare_outbound_def sample_parse sample_fields source key PROTOCOL_TCP_def table_lookup_def sample_table_def)
      (simp add: sample_view_def)
  show "prepare_outbound sample_table sample_translation sample_query = (OutPassThrough, sample_query)"
    by (simp add: prepare_outbound_def sample_parse sample_fields PROTOCOL_TCP_def PROTOCOL_UDP_def table_lookup_def
        sample_table_def packet_key_def sample_flow_key_def sample_translation_def Translation_new_def)
qed

text \<open>
  A datagram's later fragments carry no ports, so the diverter hands them back whatever the policy says
  of the flow they belong to.
\<close>

lemma trailing_fragments_pass_through:
  assumes "Packet_parse input = Some p" "\<not> is_first_fragment p"
  shows "prepare_outbound table tr input = (OutPassThrough, input)"
  using assms by (simp add: prepare_outbound_def pkt_ports_def)

text \<open>
  C39. What happens to a captured packet. One that cannot be parsed, or that carries no ports, is handed back byte for byte; so are all
  later fragments of a datagram, whatever the policy says of its flow. One that carries its ports is handed back byte for byte when the policy does not
  route its flow and it is not a query to the session's resolver. Every other one, a query to the resolver of any application
  included, is never handed back: it is discarded when the tunnel has no address of its family, and otherwise
  leaves with the tunnel's source address, the same destination, protocol, ports and length, and an advertised segment size limited to
  what the tunnel carries.
\<close>

theorem captured_packets_are_dispatched:
  "case Packet_parse input of
     None \<Rightarrow> prepare_outbound table tr input = (OutPassThrough, input)
   | Some p \<Rightarrow>
       (is_first_fragment p \<or> prepare_outbound table tr input = (OutPassThrough, input)) \<and>
       (case pkt_ports p of
          None \<Rightarrow> prepare_outbound table tr input = (OutPassThrough, input)
        | Some (source_port, destination_port) \<Rightarrow>
            if table \<lparr>fk_protocol = pkt_protocol p, fk_local = pkt_source p, fk_local_port = source_port,
                 fk_remote = pkt_destination p, fk_remote_port = destination_port\<rparr> \<noteq> Some Tunnel \<and>
               (pkt_destination p, destination_port) \<noteq> (tl_resolver tr, 53)
            then prepare_outbound table tr input = (OutPassThrough, input)
            else if \<not> same_family p (tl_tunnel tr) then prepare_outbound table tr input = (OutDiscard, input)
            else \<exists>out p'. prepare_outbound table tr input = (OutTunnel, out) \<and> Packet_parse out = Some p' \<and>
                   pkt_source p' = tl_tunnel tr \<and> pkt_destination p' = pkt_destination p \<and> pkt_protocol p' = pkt_protocol p \<and>
                   pkt_ports p' = Some (source_port, destination_port) \<and> length out = length input \<and>
                   advertised_mss p' = map_option (min (tl_max_segment_size tr)) (advertised_mss p))"
proof -
  have fragment: "is_first_fragment p" if "pkt_ports p = Some ports" for p ports using that by (auto simp: pkt_ports_def split: if_splits)
  show ?thesis
  proof (cases rule: prepare_outbound_cases [of input table tr])
    case (tunnelled p p1 changed p2)
    obtain p' where "Packet_parse (pkt_bytes p2) = Some p'" "pkt_source p' = tl_tunnel tr" "pkt_destination p' = pkt_destination p"
      "pkt_protocol p' = pkt_protocol p" "pkt_ports p' = pkt_ports p" "length (pkt_bytes p2) = length input"
      "advertised_mss p' = map_option (min (tl_max_segment_size tr)) (advertised_mss p)"
      using prepare_outbound_tunnelled [OF tunnelled(1,6)] by blast
    then show ?thesis
      using tunnelled fragment by (auto simp: takes_tunnel_def packet_key_def DNS_PORT_def split: option.splits)
  qed (use fragment in \<open>auto simp: takes_tunnel_def packet_key_def DNS_PORT_def split: option.splits\<close>)
qed

text \<open>
  C40. translation is undone on the way back. When a captured packet of the physical address went into
  the tunnel, a reply to what the server saw, with addresses and ports exchanged, is delivered to the application
  as a reply to what the application sent: from the same peer, to the physical address, on the same ports.
\<close>

theorem translation_roundtrip:
  assumes "Packet_parse input = Some p" "pkt_source p = tl_physical tr"
    and "prepare_outbound table tr input = (OutTunnel, out)" "Packet_parse out = Some q"
    and "Packet_parse reply = Some r" "pkt_source r = pkt_destination q" "pkt_destination r = pkt_source q"
      "pkt_protocol r = pkt_protocol q" "pkt_ports r = map_option prod.swap (pkt_ports q)"
  shows "\<exists>delivered d. prepare_inbound tr reply = (True, delivered) \<and> Packet_parse delivered = Some d \<and>
    pkt_source d = pkt_destination p \<and> pkt_destination d = pkt_source p \<and> pkt_protocol d = pkt_protocol p \<and>
    pkt_ports d = map_option prod.swap (pkt_ports p) \<and>
    advertised_mss d = map_option (min (tl_max_segment_size tr)) (advertised_mss r)"
proof -
  obtain p' where "Packet_parse out = Some p'" "pkt_source p' = tl_tunnel tr" "pkt_destination p' = pkt_destination p"
    "pkt_protocol p' = pkt_protocol p" "pkt_ports p' = pkt_ports p" and family: "same_family p (tl_tunnel tr)"
    using prepare_outbound_tunnelled [OF assms(1,3)] by blast
  then have q: "pkt_source q = tl_tunnel tr" "pkt_destination q = pkt_destination p" "pkt_protocol q = pkt_protocol p"
    "pkt_ports q = pkt_ports p" using assms(4) by simp_all
  have "same_family r (tl_tunnel tr)" using family_of_address [of r "destination_offset r"] assms(7) q(1) by (simp add: pkt_destination_def)
  moreover have "same_family p (tl_physical tr)" using family_of_address [of p "source_offset p"] assms(2) by (simp add: pkt_source_def)
  ultimately have physical: "same_family r (tl_physical tr)" using family same_family_trans by blast
  have "pkt_destination r = tl_tunnel tr" using assms(7) q(1) by simp
  from prepare_inbound_delivers [OF assms(5) this physical] obtain delivered d where "prepare_inbound tr reply = (True, delivered)" "Packet_parse delivered = Some d"
    "pkt_destination d = tl_physical tr" "pkt_source d = pkt_source r" "pkt_protocol d = pkt_protocol r" "pkt_ports d = pkt_ports r"
    "advertised_mss d = map_option (min (tl_max_segment_size tr)) (advertised_mss r)"
    by blast
  then show ?thesis using assms(2,6,8,9) q by auto
qed

theorem translation_roundtrip_witness:
  "\<exists>delivered d. prepare_inbound sample_translation sample_reply = (True, delivered) \<and> Packet_parse delivered = Some d \<and>
    pkt_source d = V4 (Ipv4Addr 1 1 1 1) \<and> pkt_destination d = V4 (Ipv4Addr 192 168 0 189) \<and> pkt_ports d = Some (443, 51000)"
proof -
  have facts: "pkt_source (sample_view sample_syn) = tl_physical sample_translation"
    "pkt_source (sample_view sample_reply) = pkt_destination (sample_view sample_tunnelled)"
    "pkt_destination (sample_view sample_reply) = pkt_source (sample_view sample_tunnelled)"
    "pkt_protocol (sample_view sample_reply) = pkt_protocol (sample_view sample_tunnelled)"
    "pkt_ports (sample_view sample_reply) = map_option prod.swap (pkt_ports (sample_view sample_tunnelled))"
    by (simp_all add: sample_fields sample_translation_def Translation_new_def)
  show ?thesis
    using translation_roundtrip [OF sample_parse(1) facts(1) sample_outbound(1) sample_parse(2,3) facts(2-5)]
    by (auto simp: sample_fields)
qed

text \<open>
  the classifier's cache is invisible. As long as a process identified by its id and creation time keeps
  its executable, the flow table after any sequence of driver events is the one of a watcher that looks
  up the executable each time, in which a report without a process never replaces a decision; and the cache never
  holds more than its capacity.
\<close>

lemma classifier_cache_is_transparent:
  assumes "list_all (\<lambda>(open_process, _). stable_images paths open_process) events"
  shows "fst (watch_all events (Map.empty, Classifier_new policy)) = reference_all policy events Map.empty \<and>
    length (cl_cache (snd (watch_all events (Map.empty, Classifier_new policy)))) \<le> CLASSIFICATION_CAPACITY"
  using watch_all_facts [OF assms classifier_start(1) classifier_start(2) [of policy], of Map.empty] by (simp add: class_cache_ok_def)

text \<open>A machine with one process, whose connection is reported and then reported again without a process.\<close>

definition sample_image :: rust_string where
  "sample_image = [0x43, 0x3a, 0x5c, 0x41]"

definition sample_processes :: "u32 \<Rightarrow> Process option" where
  "sample_processes process_id =
     (if process_id = 7 then Some \<lparr>pr_created = Some 99, pr_query = (\<lambda>_. Inr sample_image)\<rparr> else None)"

definition sample_event :: "u32 \<Rightarrow> Address" where
  "sample_event process_id = \<lparr>ad_bitfield = 0x403, ad_flow_view = \<lparr>fd_process_id = process_id,
     fd_local_addr = [0xc0a800bd, 0xffff, 0, 0], fd_remote_addr = [0x01010101, 0xffff, 0, 0],
     fd_local_port = 51000, fd_remote_port = 443, fd_protocol = 6\<rparr>\<rparr>"

definition sample_policy :: AppRoutingPolicy where
  "sample_policy = \<lparr>arp_mode = Include, arp_apps = [[0x63, 0x3a, 0x2f, 0x61]], arp_package_sids = []\<rparr>"

lemma sample_image_path: "image_path \<lparr>pr_created = created, pr_query = (\<lambda>_. Inr sample_image)\<rparr> = Some sample_image"
proof -
  have "path_answer (\<lambda>_. Inr sample_image) = Some sample_image"
    by (simp add: path_answer_def path_capacities_def sample_image_def normalize_windows_path_def strip_prefix_def unc_prefix_def
        extended_prefix_def)
  then show ?thesis by (simp add: image_path_def image_path_loop_answer)
qed

lemma sample_stable: "stable_images (\<lambda>_. Some sample_image) sample_processes"
  by (simp add: stable_images_def sample_processes_def sample_image_path)

lemma sample_decide: "decide sample_policy (Some sample_image) = (Tunnel, True)" "decide sample_policy None = (Direct, False)"
  by (simp_all add: decide_def sample_policy_def sample_image_def normalize_windows_path_def strip_prefix_def unc_prefix_def
      extended_prefix_def paths_equal_def ascii_lower_def)

lemma sample_flow: "ad_flow (sample_event p) = Some (ad_flow_view (sample_event p))"
  "flow_key (ad_flow_view (sample_event p)) (ad_ipv6 (sample_event p)) = Some sample_flow_key"
  "ad_event (sample_event p) = EVENT_SOCKET_CONNECT"
  by (simp_all add: ad_flow_def ad_layer_def ad_event_def ad_ipv6_def sample_event_def LAYER_SOCKET_def LAYER_FLOW_def
      EVENT_SOCKET_CONNECT_def flow_key_def decode_address_def sample_flow_key_def to_be_def drop_bit_eq_div be_digits_small)

text \<open>
  a captured batch is conserved. With the packets of a batch found by the driver's parser, the packets
  that are handed back to the stack are exactly those that pass through, unchanged, in order and with their
  addresses, whether or not the driver accepts them as a batch; the packets given to the data plane are exactly the
  rewritten routed ones whose checksums could be computed, in order; no batch exceeds the driver's limits; and
  the next turn starts with nothing staged.
\<close>

lemma capture_conserves_packets:
  assumes "splits_batch D ps" "length ps = length addresses" "length (concat ps) \<le> CAPTURE_BUFFER"
    and "cp_reinject s = Reinject_new" "cp_tunnelled s = []" "cp_outputs s = []"
  shows "reinjected (dd_accepts_batch D) (cp_outputs (capture_turn D table tr (concat ps) addresses s)) =
      (concat (map fst (passed table tr (zip ps addresses))), map snd (passed table tr (zip ps addresses))) \<and>
    sunk (cp_outputs (capture_turn D table tr (concat ps) addresses s)) =
      List.map_filter (tunnelled_packet D table tr) (zip ps addresses) \<and>
    batches_fit (cp_outputs (capture_turn D table tr (concat ps) addresses s)) \<and>
    cp_reinject (capture_turn D table tr (concat ps) addresses s) = Reinject_new \<and>
    cp_tunnelled (capture_turn D table tr (concat ps) addresses s) = []"
proof -
  let ?s = "s\<lparr>cp_stats := (cp_stats s)\<lparr>st_batches := saturating_add (st_batches (cp_stats s)) 1\<rparr>\<rparr>"
  let ?c = "capture_packets D table tr (concat ps) addresses ?s"
  have empty: "staged [] = Reinject_new" by (simp add: Reinject_new_staged)
  have "capture_ok ?s"
    using assms(4,6) unfolding capture_ok_def
    by (auto intro!: exI [of _ "[]"] simp: batches_fit_def staging_fits_def empty)
  note run = capture_packets_facts [OF assms(1-3) this, of table tr]
  note flush = capture_flush_facts [OF conjunct1 [OF run], of D]
  have view: "capture_view D ?s = ([], [])" using assms(4,6) by (simp add: capture_view_def Reinject_new_def)
  have handed: "reinjected (dd_accepts_batch D) (cp_outputs (capture_flush D ?c)) = capture_view D ?c"
    using flush(2) unfolding capture_view_def flush(3) by (simp add: staged_def prod_eq_iff)
  have turn: "capture_turn D table tr (concat ps) addresses s =
    (capture_flush D ?c)\<lparr>cp_tunnelled := [], cp_outputs := cp_outputs (capture_flush D ?c) @ map Sink (cp_tunnelled ?c)\<rparr>"
    by (simp add: capture_turn_def Let_def flush(4))
  have "sunk (cp_outputs ?s) = []" using assms(6) by (simp add: sunk_def)
  then show ?thesis
    using run flush(1,3,5) handed view assms(5)
    by (simp add: turn reinjected_append reinjected_sinks sunk_simps empty capture_ok_def batches_fit_simps)
qed

text \<open>A driver that reads the length field of IPv4, refuses every batch and leaves checksums alone.\<close>

definition sample_driver :: divert_driver where
  "sample_driver = \<lparr>dd_accepts_batch = (\<lambda>_ _. False),
     dd_parse_packet = (\<lambda>b. let n = unat (b ! 3) in Some (if length b \<le> n then None else Some (length b - n))),
     dd_calc_checksums = (\<lambda>b a. Some (b, a))\<rparr>"

definition sample_capture :: Capture where
  "sample_capture = \<lparr>cp_reinject = Reinject_new, cp_tunnelled = [],
     cp_stats = \<lparr>st_tunnelled = 0, st_passed = 0, st_discarded = 0, st_batches = 0\<rparr>, cp_outputs = []\<rparr>"

text \<open>
  Looking up the executable of a process ends. The loop returns for every behaviour of the operating
  system, with the answer of the first of seven buffers that is not refused for its size; so it finds every path a
  Windows system can hold, if a query fails only for lack of room.
\<close>

lemma image_path_terminates:
  "image_path_loop query 512 = Some (path_answer query) \<and>
   path_answer (\<lambda>capacity. if length path < capacity then Inr path else Inl ERROR_INSUFFICIENT_BUFFER) =
     (if length path < 32768 then Some (normalize_windows_path path) else None)"
  by (simp add: image_path_loop_answer path_answer_def path_capacities_def)

end
