(* ===== verification/Liveness.thy ===== *)
theory Liveness
  imports Prelude
begin

text \<open>
  When a client sends keepalives and when it reconnects: the timers of the Linux client
  (\<^verbatim>\<open>linux-client/liveness.rs\<close>) and of the Windows client (\<^verbatim>\<open>windows-client/liveness.rs\<close>). The two differ in
  their intervals and in what a received packet resets. Both meet one contract, the locale
  \<open>reconnect_timer\<close>, from which follows that a client reconnects in bounded time once the server answers.
  Instants are nanoseconds since the start of the clock; \<^verbatim>\<open>duration_since\<close> is zero for a later instant.
\<close>

section \<open>Timers\<close>

datatype Action = ActNone | ActKeepalive | ActReconnect

record Liveness =
  lv_peer_activity :: instant
  lv_heartbeat :: instant
  lv_retry :: "instant option"
  lv_backoff :: duration
  lv_lost :: bool

subsection \<open>Linux\<close>

definition lx_KEEPALIVE_INTERVAL :: duration where "lx_KEEPALIVE_INTERVAL = secs 10"
definition lx_SESSION_TIMEOUT :: duration where "lx_SESSION_TIMEOUT = secs 20"
definition lx_MIN_RECONNECT_BACKOFF :: duration where "lx_MIN_RECONNECT_BACKOFF = secs 1"
definition lx_MAX_RECONNECT_BACKOFF :: duration where "lx_MAX_RECONNECT_BACKOFF = secs 16"

definition lx_new :: "instant \<Rightarrow> Liveness" where
  "lx_new now =
     \<lparr>lv_peer_activity = now, lv_heartbeat = now, lv_retry = None, lv_backoff = lx_MIN_RECONNECT_BACKOFF,
      lv_lost = False\<rparr>"

definition lx_action :: "Liveness \<Rightarrow> instant \<Rightarrow> Action" where
  "lx_action s now =
     (if now - lv_peer_activity s \<ge> lx_SESSION_TIMEOUT \<and>
         (case lv_retry s of None \<Rightarrow> True | Some at \<Rightarrow> now - at \<ge> lv_backoff s)
      then ActReconnect
      else if now - lv_heartbeat s \<ge> lx_KEEPALIVE_INTERVAL then ActKeepalive
      else ActNone)"

definition lx_keepalive_sent :: "instant \<Rightarrow> Liveness \<Rightarrow> Liveness" where
  "lx_keepalive_sent now s = s\<lparr>lv_heartbeat := now\<rparr>"

definition lx_packet_received :: "instant \<Rightarrow> Liveness \<Rightarrow> Liveness" where
  "lx_packet_received now s =
     s\<lparr>lv_peer_activity := now, lv_retry := None, lv_backoff := lx_MIN_RECONNECT_BACKOFF, lv_lost := False\<rparr>"

definition lx_reconnect_attempted :: "instant \<Rightarrow> Liveness \<Rightarrow> Liveness" where
  "lx_reconnect_attempted now s =
     s\<lparr>lv_retry := Some now, lv_backoff := min (lv_backoff s * 2) lx_MAX_RECONNECT_BACKOFF\<rparr>"

definition lx_network_unavailable :: "instant \<Rightarrow> Liveness \<Rightarrow> Liveness" where
  "lx_network_unavailable now s = s\<lparr>lv_retry := Some now, lv_backoff := lx_MIN_RECONNECT_BACKOFF\<rparr>"

definition lx_connection_lost :: "instant \<Rightarrow> Liveness \<Rightarrow> bool \<times> Liveness" where
  "lx_connection_lost now s =
     (if lv_lost s then (False, s)
      else
        (True, s\<lparr>lv_peer_activity := (if lx_SESSION_TIMEOUT \<le> now then now - lx_SESSION_TIMEOUT else now),
                 lv_retry := None, lv_lost := True\<rparr>))"

definition lx_reconnected :: "instant \<Rightarrow> Liveness \<Rightarrow> Liveness" where
  "lx_reconnected now s =
     s\<lparr>lv_peer_activity := now, lv_heartbeat := now, lv_retry := None, lv_backoff := lx_MIN_RECONNECT_BACKOFF,
       lv_lost := False\<rparr>"

subsection \<open>Windows\<close>

definition win_KEEPALIVE_INTERVAL :: duration where "win_KEEPALIVE_INTERVAL = secs 3"
definition win_SESSION_TIMEOUT :: duration where "win_SESSION_TIMEOUT = secs 9"
definition win_MIN_RECONNECT_BACKOFF :: duration where "win_MIN_RECONNECT_BACKOFF = secs 1"
definition win_MAX_RECONNECT_BACKOFF :: duration where "win_MAX_RECONNECT_BACKOFF = secs 16"

definition win_new :: "instant \<Rightarrow> Liveness" where
  "win_new now =
     \<lparr>lv_peer_activity = now, lv_heartbeat = now, lv_retry = None, lv_backoff = win_MIN_RECONNECT_BACKOFF,
      lv_lost = False\<rparr>"

definition win_action :: "Liveness \<Rightarrow> instant \<Rightarrow> Action" where
  "win_action s now =
     (if now - lv_peer_activity s \<ge> win_SESSION_TIMEOUT \<and>
         (case lv_retry s of None \<Rightarrow> True | Some at \<Rightarrow> now - at \<ge> lv_backoff s)
      then ActReconnect
      else if now - lv_heartbeat s \<ge> win_KEEPALIVE_INTERVAL then ActKeepalive
      else ActNone)"

definition win_keepalive_sent :: "instant \<Rightarrow> Liveness \<Rightarrow> Liveness" where
  "win_keepalive_sent now s = s\<lparr>lv_heartbeat := now\<rparr>"

definition win_packet_received :: "instant \<Rightarrow> Liveness \<Rightarrow> Liveness" where
  "win_packet_received now s = s\<lparr>lv_peer_activity := now, lv_lost := False\<rparr>"

definition win_reconnect_attempted :: "instant \<Rightarrow> Liveness \<Rightarrow> Liveness" where
  "win_reconnect_attempted now s =
     s\<lparr>lv_retry := Some now, lv_backoff := min (lv_backoff s * 2) win_MAX_RECONNECT_BACKOFF\<rparr>"

definition win_connection_lost :: "instant \<Rightarrow> Liveness \<Rightarrow> Liveness" where
  "win_connection_lost now s =
     (if \<not> lv_lost s
      then s\<lparr>lv_peer_activity := (if win_SESSION_TIMEOUT \<le> now then now - win_SESSION_TIMEOUT else now),
             lv_retry := None, lv_lost := True\<rparr>
      else s)"

definition win_reconnected :: "instant \<Rightarrow> Liveness \<Rightarrow> Liveness" where
  "win_reconnected now s =
     s\<lparr>lv_peer_activity := now, lv_heartbeat := now, lv_retry := None, lv_backoff := win_MIN_RECONNECT_BACKOFF,
       lv_lost := False\<rparr>"

section \<open>Events\<close>

text \<open>
  What happens to a timer: a packet arrives, the peer is reported unreachable, or the loop asks what to
  do. A poll carries what the world would answer: whether a keepalive can be sent, and how an attempt to
  reconnect ends.
\<close>

datatype attempt = NoRoute | Failed | Connected instant

datatype timer_event =
  Received instant
| Lost instant
| Poll instant bool attempt

fun event_time :: "timer_event \<Rightarrow> instant" where
  "event_time (Received t) = t"
| "event_time (Lost t) = t"
| "event_time (Poll t _ _) = t"

text \<open>The step answers whether the client attempted to reconnect, and whether it did.\<close>

datatype poll_answer = NoAttempt | Attempted | Reconnected

fun lx_step :: "Liveness \<Rightarrow> timer_event \<Rightarrow> poll_answer \<times> Liveness" where
  "lx_step s (Received now) = (NoAttempt, lx_packet_received now s)"
| "lx_step s (Lost now) = (NoAttempt, snd (lx_connection_lost now s))"
| "lx_step s (Poll now sent attempt) =
     (case lx_action s now of
        ActNone \<Rightarrow> (NoAttempt, s)
      | ActKeepalive \<Rightarrow> (NoAttempt, if sent then lx_keepalive_sent now s else snd (lx_connection_lost now s))
      | ActReconnect \<Rightarrow>
          (case attempt of
             NoRoute \<Rightarrow> (Attempted, lx_network_unavailable now s)
           | Failed \<Rightarrow> (Attempted, lx_reconnect_attempted now s)
           | Connected later \<Rightarrow> (Reconnected, lx_reconnected later (lx_reconnect_attempted now s))))"

fun win_step :: "Liveness \<Rightarrow> timer_event \<Rightarrow> poll_answer \<times> Liveness" where
  "win_step s (Received now) = (NoAttempt, win_packet_received now s)"
| "win_step s (Lost now) = (NoAttempt, win_connection_lost now s)"
| "win_step s (Poll now sent attempt) =
     (case win_action s now of
        ActNone \<Rightarrow> (NoAttempt, s)
      | ActKeepalive \<Rightarrow> (NoAttempt, if sent then win_keepalive_sent now s else win_connection_lost now s)
      | ActReconnect \<Rightarrow>
          (case attempt of
             Connected later \<Rightarrow> (Reconnected, win_reconnected later (win_reconnect_attempted now s))
           | _ \<Rightarrow> (Attempted, win_reconnect_attempted now s)))"

section \<open>Reconnecting in bounded time\<close>

text \<open>Events of a silent peer, in order of time, with attempts that succeed from \<open>up\<close> on, on a clock that has run for \<open>warmup\<close>.\<close>

definition silent :: "duration \<Rightarrow> instant \<Rightarrow> timer_event list \<Rightarrow> bool" where
  "silent warmup up es \<longleftrightarrow> sorted (map event_time es) \<and>
     (\<forall>e \<in> set es. warmup \<le> event_time e \<and>
        (case e of Received _ \<Rightarrow> False | Lost _ \<Rightarrow> True | Poll t _ a \<Rightarrow> up \<le> t \<longrightarrow> (\<exists>c. a = Connected c)))"

text \<open>
  The contract: \<open>due\<close> is the instant from which the timer asks for an attempt. Polls and loss reports
  never move it past the present, except a failed attempt, which moves it by at most \<open>patience\<close>. The clock
  has run for at least \<open>warmup\<close>, the silence a loss report pretends.
\<close>

locale reconnect_timer =
  fixes step :: "'s \<Rightarrow> timer_event \<Rightarrow> poll_answer \<times> 's"
    and due :: "'s \<Rightarrow> instant"
    and valid :: "'s \<Rightarrow> bool"
    and patience :: duration
    and warmup :: duration
  assumes valid_step: "valid s \<Longrightarrow> valid (snd (step s e))"
    and poll_due: "valid s \<Longrightarrow> due s \<le> t \<Longrightarrow> fst (step s (Poll t sent (Connected c))) = Reconnected"
    and poll_quiet: "valid s \<Longrightarrow> warmup \<le> t \<Longrightarrow> fst (step s (Poll t sent a)) = NoAttempt \<Longrightarrow>
          due (snd (step s (Poll t sent a))) \<le> max (due s) t"
    and poll_attempted: "valid s \<Longrightarrow> fst (step s (Poll t sent a)) = Attempted \<Longrightarrow>
          due (snd (step s (Poll t sent a))) \<le> max (due s) (t + patience) \<and> (\<forall>c. a \<noteq> Connected c)"
    and lost_quiet: "valid s \<Longrightarrow> warmup \<le> t \<Longrightarrow> due (snd (step s (Lost t))) \<le> max (due s) t"
begin

lemma silent_Cons: "silent warmup up (e # es) \<Longrightarrow> silent warmup up es \<and> warmup \<le> event_time e \<and> (\<forall>e' \<in> set es. event_time e \<le> event_time e')"
  by (auto simp: silent_def)

lemma step_delay:
  assumes "valid s" "silent warmup up (e # es)" "fst (step s e) \<noteq> Reconnected" "up \<le> b"
  shows "due (snd (step s e)) \<le> max (due s) (max (event_time e) (b + patience))"
proof (cases e)
  case (Received t)
  then show ?thesis using assms(2) by (simp add: silent_def)
next
  case (Lost t)
  then show ?thesis using lost_quiet [OF assms(1), of t] silent_Cons [OF assms(2)] by auto
next
  case (Poll t sent a)
  show ?thesis
  proof (cases "fst (step s e)")
    case NoAttempt
    then show ?thesis using poll_quiet [OF assms(1), of t sent a] silent_Cons [OF assms(2)] Poll by auto
  next
    case Attempted
    then have late: "due (snd (step s e)) \<le> max (due s) (t + patience)" "\<forall>c. a \<noteq> Connected c"
      using poll_attempted [OF assms(1), of t sent a] Poll by simp_all
    have "t < up" using assms(2) late(2) Poll by (auto simp: silent_def not_le [symmetric])
    then show ?thesis using late(1) assms(4) by auto
  next
    case Reconnected
    then show ?thesis using assms(3) by simp
  qed
qed

lemma reconnects_by:
  assumes "valid s" "silent warmup up (es @ [Poll t sent a])" "up \<le> b" "b + patience \<le> t"
    and "due s \<le> max m (b + patience)" "\<forall>e \<in> set (es @ [Poll t sent a]). m \<le> event_time e"
  shows "Reconnected \<in> set (run_outputs step s (es @ [Poll t sent a]))"
  using assms
proof (induction es arbitrary: s m)
  case Nil
  have "up \<le> t" using Nil.prems(3,4) by simp
  then obtain c where a: "a = Connected c" using Nil.prems(2) by (auto simp: silent_def)
  have "due s \<le> t" using Nil.prems(4-6) by simp
  then show ?case using poll_due [OF Nil.prems(1)] a by (cases "step s (Poll t sent a)") (metis append_Nil fst_conv list.set_intros(1) run_outputs.simps(2) split_conv)
next
  case (Cons e es)
  obtain answer s' where step: "step s e = (answer, s')" by (cases "step s e")
  show ?case
  proof (cases "answer = Reconnected")
    case True
    then show ?thesis using step by simp
  next
    case False
    note silent = silent_Cons [OF Cons.prems(2) [simplified]]
    have "due s' \<le> max (due s) (max (event_time e) (b + patience))"
      using step_delay [OF Cons.prems(1) Cons.prems(2) [simplified] _ Cons.prems(3)] False step by simp
    then have "due s' \<le> max (event_time e) (b + patience)" using Cons.prems(5,6) by auto
    moreover have "valid s'" using valid_step [OF Cons.prems(1), of e] step by simp
    ultimately have "Reconnected \<in> set (run_outputs step s' (es @ [Poll t sent a]))"
      using silent Cons.prems(3,4) by (intro Cons.IH [of s' "event_time e"]) auto
    then show ?thesis using step by simp
  qed
qed

end

definition due_at :: "duration \<Rightarrow> Liveness \<Rightarrow> instant" where
  "due_at timeout s =
     max (lv_peer_activity s + timeout) (case lv_retry s of None \<Rightarrow> 0 | Some at \<Rightarrow> at + lv_backoff s)"

definition backoff_within :: "duration \<Rightarrow> duration \<Rightarrow> Liveness \<Rightarrow> bool" where
  "backoff_within least most s \<longleftrightarrow> least \<le> lv_backoff s \<and> lv_backoff s \<le> most"

lemmas lx_defs = lx_KEEPALIVE_INTERVAL_def lx_SESSION_TIMEOUT_def lx_MIN_RECONNECT_BACKOFF_def lx_MAX_RECONNECT_BACKOFF_def
  lx_new_def lx_keepalive_sent_def lx_packet_received_def lx_reconnect_attempted_def lx_network_unavailable_def
  lx_connection_lost_def lx_reconnected_def

lemmas win_defs = win_KEEPALIVE_INTERVAL_def win_SESSION_TIMEOUT_def win_MIN_RECONNECT_BACKOFF_def win_MAX_RECONNECT_BACKOFF_def
  win_new_def win_keepalive_sent_def win_packet_received_def win_reconnect_attempted_def
  win_connection_lost_def win_reconnected_def

lemma lx_action_reconnect:
  "backoff_within lx_MIN_RECONNECT_BACKOFF most s \<Longrightarrow>
     lx_action s now = ActReconnect \<longleftrightarrow> due_at lx_SESSION_TIMEOUT s \<le> now"
  by (auto simp: lx_action_def due_at_def backoff_within_def lx_defs split: option.split)

lemma win_action_reconnect:
  "backoff_within win_MIN_RECONNECT_BACKOFF most s \<Longrightarrow>
     win_action s now = ActReconnect \<longleftrightarrow> due_at win_SESSION_TIMEOUT s \<le> now"
  by (auto simp: win_action_def due_at_def backoff_within_def win_defs split: option.split)

interpretation lx: reconnect_timer lx_step "due_at lx_SESSION_TIMEOUT"
  "backoff_within lx_MIN_RECONNECT_BACKOFF lx_MAX_RECONNECT_BACKOFF" lx_MAX_RECONNECT_BACKOFF lx_SESSION_TIMEOUT
proof (unfold_locales, goal_cases)
  case (1 s e)
  then show ?case
    by (cases e) (auto simp: backoff_within_def lx_defs split: Action.split attempt.split)
next
  case (2 s t sent c)
  then have "lx_action s t = ActReconnect" using lx_action_reconnect by blast
  then show ?case by simp
next
  case (3 s t sent a)
  then show ?case
    by (cases "lx_action s t") (auto simp: due_at_def lx_defs split: attempt.splits if_splits option.splits)
next
  case (4 s t sent a)
  then show ?case
    by (cases "lx_action s t") (auto simp: due_at_def backoff_within_def lx_defs split: attempt.splits)
next
  case (5 s t)
  then show ?case by (auto simp: due_at_def lx_defs split: option.splits)
qed

interpretation win: reconnect_timer win_step "due_at win_SESSION_TIMEOUT"
  "backoff_within win_MIN_RECONNECT_BACKOFF win_MAX_RECONNECT_BACKOFF" win_MAX_RECONNECT_BACKOFF win_SESSION_TIMEOUT
proof (unfold_locales, goal_cases)
  case (1 s e)
  then show ?case
    by (cases e) (auto simp: backoff_within_def win_defs split: Action.split attempt.split)
next
  case (2 s t sent c)
  then have "win_action s t = ActReconnect" using win_action_reconnect by blast
  then show ?case by simp
next
  case (3 s t sent a)
  then show ?case
    by (cases "win_action s t") (auto simp: due_at_def win_defs split: attempt.splits if_splits option.splits)
next
  case (4 s t sent a)
  then show ?case
    by (cases "win_action s t") (auto simp: due_at_def backoff_within_def win_defs split: attempt.splits)
next
  case (5 s t)
  then show ?case by (auto simp: due_at_def win_defs split: option.splits)
qed

section \<open>Properties\<close>

text \<open>
  C27. A client that hears nothing reconnects in bounded time. After the last packet, received at some instant,
  whatever loss reports, failed keepalives, failed attempts and missing routes there are, once every
  attempt succeeds the client is connected again by the first poll sixteen seconds after the later of that
  moment and the end of the patience with a silent peer, which is 20 seconds on Linux and at most 16 on Windows.
\<close>

theorem silent_clients_reconnect:
  assumes "silent lx_SESSION_TIMEOUT up (lx_events @ [Poll lx_t lx_sent lx_a])"
    and "\<forall>e \<in> set lx_events. lx_last \<le> event_time e"
    and "max up (lx_last + lx_SESSION_TIMEOUT) + lx_MAX_RECONNECT_BACKOFF \<le> lx_t"
    and "silent win_SESSION_TIMEOUT up (win_events @ [Poll win_t win_sent win_a])"
    and "\<forall>e \<in> set win_events. win_last \<le> event_time e"
    and "max up (win_last + win_MAX_RECONNECT_BACKOFF) + win_MAX_RECONNECT_BACKOFF \<le> win_t"
    and "backoff_within win_MIN_RECONNECT_BACKOFF win_MAX_RECONNECT_BACKOFF w" "lv_retry w = None \<or> the (lv_retry w) \<le> win_last"
  shows "Reconnected \<in> set (run_outputs lx_step (lx_packet_received lx_last l) (lx_events @ [Poll lx_t lx_sent lx_a])) \<and>
    Reconnected \<in> set (run_outputs win_step (win_packet_received win_last w) (win_events @ [Poll win_t win_sent win_a]))"
proof
  have "due_at lx_SESSION_TIMEOUT (lx_packet_received lx_last l) = lx_last + lx_SESSION_TIMEOUT"
    by (simp add: due_at_def lx_packet_received_def)
  then show "Reconnected \<in> set (run_outputs lx_step (lx_packet_received lx_last l) (lx_events @ [Poll lx_t lx_sent lx_a]))"
    using assms(1-3)
    by (intro lx.reconnects_by [of _ up _ _ _ _ "max up (lx_last + lx_SESSION_TIMEOUT)" lx_last]) (auto simp: backoff_within_def lx_defs)
  have "due_at win_SESSION_TIMEOUT (win_packet_received win_last w) \<le> win_last + win_MAX_RECONNECT_BACKOFF"
    using assms(7,8) by (auto simp: due_at_def backoff_within_def win_defs split: option.split)
  then show "Reconnected \<in> set (run_outputs win_step (win_packet_received win_last w) (win_events @ [Poll win_t win_sent win_a]))"
    using assms(4-7)
    by (intro win.reconnects_by [of _ up _ _ _ _ "max up (win_last + win_MAX_RECONNECT_BACKOFF)" win_last]) (auto simp: backoff_within_def win_packet_received_def)
qed

theorem silent_clients_reconnect_witness:
  "Reconnected \<in> set (run_outputs lx_step (lx_packet_received (secs 100) (lx_new 0))
     [Poll (secs 110) False Failed, Poll (secs 111) True NoRoute, Poll (secs 140) True Failed, Poll (secs 166) True (Connected (secs 167))]) \<and>
   Reconnected \<in> set (run_outputs win_step (win_packet_received (secs 100) (win_new 0))
     [Lost (secs 101), Poll (secs 102) True Failed, Poll (secs 166) True (Connected (secs 167))])"
proof -
  let ?l = "[Poll (secs 110) False Failed, Poll (secs 111) True NoRoute, Poll (secs 140) True Failed]"
  let ?w = "[Lost (secs 101), Poll (secs 102) True Failed]"
  let ?p = "Poll (secs 166) True (Connected (secs 167))"
  have "silent lx_SESSION_TIMEOUT (secs 150) (?l @ [?p])" "\<forall>e \<in> set ?l. secs 100 \<le> event_time e"
    "max (secs 150) (secs 100 + lx_SESSION_TIMEOUT) + lx_MAX_RECONNECT_BACKOFF \<le> secs 166"
    "silent win_SESSION_TIMEOUT (secs 150) (?w @ [?p])" "\<forall>e \<in> set ?w. secs 100 \<le> event_time e"
    "max (secs 150) (secs 100 + win_MAX_RECONNECT_BACKOFF) + win_MAX_RECONNECT_BACKOFF \<le> secs 166"
    "backoff_within win_MIN_RECONNECT_BACKOFF win_MAX_RECONNECT_BACKOFF (win_new 0)"
    "lv_retry (win_new 0) = None \<or> the (lv_retry (win_new 0)) \<le> secs 100"
    by (simp_all add: silent_def lx_defs win_defs backoff_within_def)
  from silent_clients_reconnect [OF this, of "lx_new 0"] show ?thesis by (simp only: append.simps)
qed










end
