(* ===== verification/Negotiate.thy ===== *)
theory Negotiate
  imports ClientWire Handshake DataPlane RustIo
begin

text \<open>
  How a client obtains a session: the cover datagrams, the handshake request with its retransmissions and
  the wait for an answer (\<^verbatim>\<open>linux-client/handshake.rs\<close>, and \<^verbatim>\<open>windows-client/handshake.rs\<close> where it differs).
  The clocks, the random source and the socket are inputs: each turn of the waiting loop carries what they
  answer, and a list of turns that ends before the loop does leaves it waiting, which is the result \<open>None\<close>.
  Sleeping between cover datagrams is not modelled.
\<close>

section \<open>Errors\<close>

datatype ClientError =
  CeIo io_error | CeCrypto CryptoError | CeOuter DecodeError | CeParameters SessionParametersError |
  CeDataPlane DataPlaneError | CeWire ClientWireError | HandshakeTimeout | InvalidHandshakeResponse |
  SessionParametersChanged | CeRandom string | CeWorkerStopped

definition is_peer_unavailable :: "io_error \<Rightarrow> bool" where
  "is_peer_unavailable e \<longleftrightarrow>
     ioe_kind e \<in> {ConnectionRefused, ConnectionReset, ConnectionAborted, NotConnected, HostUnreachable,
       NetworkUnreachable, NetworkDown, BrokenPipe}"

definition is_retryable_network :: "io_error \<Rightarrow> bool" where
  "is_retryable_network e \<longleftrightarrow>
     ioe_kind e \<in> {Interrupted, WouldBlock, TimedOut} \<or> ioe_raw_os e \<in> {Some ENOBUFS, Some ENOMEM} \<or>
     is_peer_unavailable e"

definition win_is_retryable :: "io_error \<Rightarrow> bool" where
  "win_is_retryable e \<longleftrightarrow>
     ioe_kind e \<in> {TimedOut, WouldBlock, Interrupted, ConnectionRefused, ConnectionReset, NotConnected}"

section \<open>Sending\<close>

definition HANDSHAKE_TIMEOUT :: duration where "HANDSHAKE_TIMEOUT = secs 10"
definition HANDSHAKE_RETRANSMIT :: duration where "HANDSHAKE_RETRANSMIT = 700 * 1000000"

text \<open>What sending one datagram meets: the clock and random bytes of its encoding, and the socket's answer.\<close>

record send_world =
  sw_clock :: "u64 option"
  sw_random :: "string + bytes"
  sw_sent :: "io_error option"

definition send_request ::
  "wire_libs \<Rightarrow> (io_error \<Rightarrow> bool) \<Rightarrow> send_world \<Rightarrow> bytes \<Rightarrow> ClientWire \<Rightarrow> (ClientError + bytes) \<times> ClientWire" where
  "send_request W retryable w request wire =
     (case ClientWire_encode W (sw_clock w) (sw_random w) wire request of
        (Inl e, wire') \<Rightarrow> (Inl (CeWire e), wire')
      | (Inr encoded, wire') \<Rightarrow>
          (case sw_sent w of
             None \<Rightarrow> (Inr encoded, wire')
           | Some e \<Rightarrow> (if retryable e then Inr encoded else Inl (CeIo e), wire')))"

text \<open>A cover datagram and the random bytes of the pause after it.\<close>

fun send_covers ::
  "wire_libs \<Rightarrow> (nat \<Rightarrow> send_world \<times> (string + bytes)) \<Rightarrow> ClientWire \<Rightarrow> nat \<Rightarrow> bytes list \<times> (ClientError + unit)" where
  "send_covers W turn wire 0 = ([], Inr ())"
| "send_covers W turn wire (Suc n) =
     (let (w, jitter) = turn n in
      case ClientWire_encode_cover W (sw_clock w) (sw_random w) wire of
        Inl e \<Rightarrow> ([], Inl (CeWire e))
      | Inr cover \<Rightarrow>
          (case sw_sent w of
             Some e \<Rightarrow> ([cover], Inl (CeIo e))
           | None \<Rightarrow>
               (case ClientWire_handshake_jitter_ms jitter wire of
                  Inl e \<Rightarrow> ([cover], Inl (CeWire e))
                | Inr _ \<Rightarrow> let (outs, r) = send_covers W turn wire n in (cover # outs, r))))"

definition send_prelude ::
  "wire_libs \<Rightarrow> string + bytes \<Rightarrow> (nat \<Rightarrow> send_world \<times> (string + bytes)) \<Rightarrow> ClientWire \<Rightarrow> bytes list \<times> (ClientError + unit)" where
  "send_prelude W random turn wire =
     (case ClientWire_cover_count random wire of
        Inl e \<Rightarrow> ([], Inl (CeWire e))
      | Inr n \<Rightarrow> send_covers W turn wire n)"

section \<open>Waiting for the answer\<close>

text \<open>
  One turn's inputs. Setting the read timeout and receiving depend on the timeout the loop computed.
\<close>

record handshake_turn =
  ht_now :: instant
  ht_send :: send_world
  ht_timeout_set :: "duration \<Rightarrow> io_error option"
  ht_received :: "duration \<Rightarrow> io_error + bytes"
  ht_decode_clock :: "u64 option"

type_synonym negotiated = "TunnelDataPlane \<times> SessionParameters"

text \<open>What the loop does with one received datagram: \<open>None\<close> lets it wait on.\<close>

definition handshake_reply ::
  "'h Snow \<Rightarrow> ClientError \<Rightarrow> u64 \<Rightarrow> 'h \<Rightarrow> ClientWireError + bool \<times> bytes \<Rightarrow> (ClientError + negotiated) option" where
  "handshake_reply S rejected session_id handshake decoded =
     (case decoded of
        Inr (True, payload) \<Rightarrow>
          (case Datagram_decode payload of
             Inl _ \<Rightarrow> None
           | Inr response \<Rightarrow>
               if hdr_kind (dg_header response) \<noteq> HandshakeResponse \<or> hdr_session_id (dg_header response) \<noteq> session_id
               then None
               else
                 (case ClientHandshake_finish S handshake (dg_payload response) of
                    Inl _ \<Rightarrow> Some (Inl rejected)
                  | Inr (crypto, bytes) \<Rightarrow>
                      (case SessionParameters_decode bytes of
                         Inl e \<Rightarrow> Some (Inl (CeParameters e))
                       | Inr parameters \<Rightarrow>
                           Some (Inr (TunnelDataPlane_new session_id (unat (sp_mtu parameters)) crypto, parameters)))))
      | _ \<Rightarrow> None)"

text \<open>One turn of the loop: what it sends, how it ends the loop if it does, and the next retransmission.\<close>

definition handshake_step ::
  "wire_libs \<Rightarrow> 'h Snow \<Rightarrow> (io_error \<Rightarrow> bool) \<Rightarrow> ClientError \<Rightarrow> u64 \<Rightarrow> 'h \<Rightarrow> bytes \<Rightarrow> instant \<Rightarrow> handshake_turn \<Rightarrow>
   instant \<Rightarrow> ClientWire \<Rightarrow> bytes list \<times> (ClientError + negotiated) option \<times> instant \<times> ClientWire" where
  "handshake_step W S retryable rejected session_id handshake request deadline turn next_retransmit wire =
     (let now = ht_now turn in
      if now \<ge> deadline then ([], Some (Inl HandshakeTimeout), next_retransmit, wire)
      else
        let (resent, wire1) =
              (if now \<ge> next_retransmit
               then let (r, wire1) = send_request W retryable (ht_send turn) request wire
                    in (bind_r r (\<lambda>encoded. Inr [encoded]), wire1)
               else (Inr [], wire));
            next1 = (if now \<ge> next_retransmit then now + HANDSHAKE_RETRANSMIT else next_retransmit);
            wait = max (min next1 deadline - now) 1000000
        in
        (case resent of
           Inl e \<Rightarrow> ([], Some (Inl e), next_retransmit, wire1)
         | Inr outs \<Rightarrow>
             (case ht_timeout_set turn wait of
                Some e \<Rightarrow> (outs, Some (Inl (CeIo e)), next1, wire1)
              | None \<Rightarrow>
                  (case ht_received turn wait of
                     Inl e \<Rightarrow> (outs, if retryable e then None else Some (Inl (CeIo e)), next1, wire1)
                   | Inr buffer \<Rightarrow>
                       let (decoded, wire2) = ClientWire_decode W (ht_decode_clock turn) wire1 buffer in
                       (outs, handshake_reply S rejected session_id handshake decoded, next1, wire2)))))"

fun handshake_loop ::
  "wire_libs \<Rightarrow> 'h Snow \<Rightarrow> (io_error \<Rightarrow> bool) \<Rightarrow> ClientError \<Rightarrow> u64 \<Rightarrow> 'h \<Rightarrow> bytes \<Rightarrow> instant \<Rightarrow> handshake_turn list \<Rightarrow>
   instant \<Rightarrow> ClientWire \<Rightarrow> bytes list \<times> (ClientError + negotiated) option \<times> ClientWire" where
  "handshake_loop W S retryable rejected session_id handshake request deadline [] next_retransmit wire = ([], None, wire)"
| "handshake_loop W S retryable rejected session_id handshake request deadline (turn # turns) next_retransmit wire =
     (case handshake_step W S retryable rejected session_id handshake request deadline turn next_retransmit wire of
        (outs, Some r, _, wire1) \<Rightarrow> (outs, Some r, wire1)
      | (outs, None, next1, wire1) \<Rightarrow>
          let (outs', r, wire2) = handshake_loop W S retryable rejected session_id handshake request deadline turns next1 wire1
          in (outs @ outs', r, wire2))"

section \<open>One attempt, and all of them\<close>

record attempt_world =
  aw_session_random :: "string + bytes"
  aw_started :: instant
  aw_cover_random :: "string + bytes"
  aw_covers :: "nat \<Rightarrow> send_world \<times> (string + bytes)"
  aw_first :: send_world
  aw_turns :: "handshake_turn list"

definition random_session_id :: "string + bytes \<Rightarrow> ClientError + u64" where
  "random_session_id random = bind_r (map_err CeRandom random) (\<lambda>bytes. Inr (from_be bytes))"

definition handshake_request :: "u64 \<Rightarrow> bytes \<Rightarrow> bytes" where
  "handshake_request session_id initial =
     Datagram_encode \<lparr>dg_header = \<lparr>hdr_kind = HandshakeInit, hdr_flags = 0, hdr_session_id = session_id, hdr_sequence = 0\<rparr>,
                      dg_payload = initial\<rparr>"

text \<open>From the request on: the attempt with a session id and a handshake state that has written its message.\<close>

definition await_session ::
  "wire_libs \<Rightarrow> 'h Snow \<Rightarrow> (io_error \<Rightarrow> bool) \<Rightarrow> ClientError \<Rightarrow> u64 \<Rightarrow> 'h \<Rightarrow> bytes \<Rightarrow> instant \<Rightarrow> attempt_world \<Rightarrow> ClientWire \<Rightarrow>
   bytes list \<times> (ClientError + negotiated) option \<times> ClientWire" where
  "await_session W S retryable rejected session_id handshake request deadline w wire =
     (case send_prelude W (aw_cover_random w) (aw_covers w) wire of
        (covers, Inl e) \<Rightarrow> (covers, Some (Inl e), wire)
      | (covers, Inr _) \<Rightarrow>
          (case send_request W retryable (aw_first w) request wire of
             (Inl e, wire1) \<Rightarrow> (covers, Some (Inl e), wire1)
           | (Inr encoded, wire1) \<Rightarrow>
               let (outs, r, wire2) = handshake_loop W S retryable rejected session_id handshake request deadline
                     (aw_turns w) (aw_started w + HANDSHAKE_RETRANSMIT) wire1
               in (covers @ encoded # outs, r, wire2)))"

definition negotiate_attempt ::
  "wire_libs \<Rightarrow> 'h Snow \<Rightarrow> ValidatedClientConfig \<Rightarrow> instant \<Rightarrow> attempt_world \<Rightarrow> ClientWire \<Rightarrow>
   bytes list \<times> (ClientError + negotiated) option \<times> ClientWire" where
  "negotiate_attempt W S config deadline w wire =
     (case random_session_id (aw_session_random w) of
        Inl e \<Rightarrow> ([], Some (Inl e), wire)
      | Inr session_id \<Rightarrow>
          (case ClientHandshake_new S (vcc_client_private_key config) (vcc_server_public_key config) (vcc_context config) of
             Inl e \<Rightarrow> ([], Some (Inl (CeCrypto e)), wire)
           | Inr handshake \<Rightarrow>
               (case ClientHandshake_write_initial S handshake [] of
                  Inl e \<Rightarrow> ([], Some (Inl (CeCrypto e)), wire)
                | Inr (handshake1, initial) \<Rightarrow>
                    if aw_started w \<ge> deadline then ([], Some (Inl HandshakeTimeout), wire)
                    else await_session W S is_retryable_network InvalidHandshakeResponse session_id handshake1
                           (handshake_request session_id initial) deadline w wire)))"

text \<open>The outer loop: the attempts with the instant at which each one's failure is looked at.\<close>

fun negotiate_attempts ::
  "wire_libs \<Rightarrow> 'h Snow \<Rightarrow> ValidatedClientConfig \<Rightarrow> instant \<Rightarrow> (attempt_world \<times> instant) list \<Rightarrow> ClientWire \<Rightarrow>
   bytes list \<times> (ClientError + negotiated) option \<times> ClientWire" where
  "negotiate_attempts W S config deadline [] wire = ([], None, wire)"
| "negotiate_attempts W S config deadline ((w, later) # rest) wire =
     (let (outs, r, wire1) = negotiate_attempt W S config deadline w wire in
      if r = Some (Inl InvalidHandshakeResponse) \<and> later < deadline
      then let (outs', r', wire2) = negotiate_attempts W S config deadline rest wire1 in (outs @ outs', r', wire2)
      else (outs, r, wire1))"

definition negotiate ::
  "wire_libs \<Rightarrow> 'h Snow \<Rightarrow> ValidatedClientConfig \<Rightarrow> instant \<Rightarrow> (attempt_world \<times> instant) list \<Rightarrow> ClientWire \<Rightarrow>
   bytes list \<times> (ClientError + negotiated) option \<times> ClientWire" where
  "negotiate W S config start attempts wire = negotiate_attempts W S config (start + HANDSHAKE_TIMEOUT) attempts wire"

text \<open>Binding a socket of the server's address family, then negotiating over it; the number names the socket.\<close>

definition unspecified_local :: "SocketAddr \<Rightarrow> SocketAddr" where
  "unspecified_local server = (case sa_ip server of V4 _ \<Rightarrow> \<lparr>sa_ip = V4 (Ipv4Addr 0 0 0 0), sa_port = 0\<rparr> | V6 _ \<Rightarrow> \<lparr>sa_ip = V6 0, sa_port = 0\<rparr>)"

definition connect ::
  "wire_libs \<Rightarrow> 'h Snow \<Rightarrow> (SocketAddr \<Rightarrow> SocketAddr \<Rightarrow> io_error + nat) \<Rightarrow> ValidatedClientConfig \<Rightarrow> instant \<Rightarrow>
   (attempt_world \<times> instant) list \<Rightarrow> ClientWire \<Rightarrow> bytes list \<times> (ClientError + nat \<times> negotiated) option \<times> ClientWire" where
  "connect W S bind config start attempts wire =
     (case bind (unspecified_local (vcc_server config)) (vcc_server config) of
        Inl e \<Rightarrow> ([], Some (Inl (CeIo e)), wire)
      | Inr transport \<Rightarrow>
          let (outs, r, wire1) = negotiate W S config start attempts wire
          in (outs, map_option (\<lambda>r. bind_r r (\<lambda>session. Inr (transport, session))) r, wire1))"

text \<open>The Windows client makes one attempt, and reports an answer it cannot authenticate as a timeout.\<close>

definition win_negotiate ::
  "wire_libs \<Rightarrow> 'h Snow \<Rightarrow> ValidatedClientConfig \<Rightarrow> attempt_world \<Rightarrow> ClientWire \<Rightarrow>
   bytes list \<times> (ClientError + negotiated) option \<times> ClientWire" where
  "win_negotiate W S config w wire =
     (case random_session_id (aw_session_random w) of
        Inl e \<Rightarrow> ([], Some (Inl e), wire)
      | Inr session_id \<Rightarrow>
          (case ClientHandshake_new S (vcc_client_private_key config) (vcc_server_public_key config) (vcc_context config) of
             Inl e \<Rightarrow> ([], Some (Inl (CeCrypto e)), wire)
           | Inr handshake \<Rightarrow>
               (case ClientHandshake_write_initial S handshake [] of
                  Inl e \<Rightarrow> ([], Some (Inl (CeCrypto e)), wire)
                | Inr (handshake1, initial) \<Rightarrow>
                    await_session W S win_is_retryable HandshakeTimeout session_id handshake1
                      (handshake_request session_id initial) (aw_started w + HANDSHAKE_TIMEOUT) w wire)))"

end
