(* ===== verification/LinuxClient.thy ===== *)
theory LinuxClient
  imports Negotiate Liveness
begin

text \<open>
  The running Linux client (\<^verbatim>\<open>linux-client\<close>): the counters of \<^verbatim>\<open>metrics.rs\<close>, the packet loop of
  \<^verbatim>\<open>packet_loop.rs\<close> with reconnection, migration and re-configuration, and the sending thread of \<^verbatim>\<open>outgoing.rs\<close>.
  One record holds what both threads share and what each of them owns; every operation takes what the
  clocks, the sockets and the devices answer as an argument, and what it asks of them is appended to a log.
  A socket is a number: a clone of a socket has the number of the original.
\<close>

section \<open>Counters\<close>

record RuntimeMetrics =
  rm_outgoing_packets :: u64
  rm_incoming_packets :: u64
  rm_outgoing_drops :: u64
  rm_keepalives_sent :: u64
  rm_keepalive_responses :: u64
  rm_keepalive_timeouts :: u64
  rm_reconnects :: u64
  rm_reconnect_failures :: u64
  rm_peer_unreachable :: u64
  rm_migrations :: u64
  rm_keepalive_rtt_total_ms :: u64
  rm_keepalive_rtt_samples :: u64
  rm_last_keepalive_rtt_ms :: u64
  rm_max_keepalive_rtt_ms :: u64

definition RuntimeMetrics_default :: RuntimeMetrics where
  "RuntimeMetrics_default =
     \<lparr>rm_outgoing_packets = 0, rm_incoming_packets = 0, rm_outgoing_drops = 0, rm_keepalives_sent = 0,
      rm_keepalive_responses = 0, rm_keepalive_timeouts = 0, rm_reconnects = 0, rm_reconnect_failures = 0,
      rm_peer_unreachable = 0, rm_migrations = 0, rm_keepalive_rtt_total_ms = 0, rm_keepalive_rtt_samples = 0,
      rm_last_keepalive_rtt_ms = 0, rm_max_keepalive_rtt_ms = 0\<rparr>"

definition record_outgoing_packets :: "nat \<Rightarrow> RuntimeMetrics \<Rightarrow> RuntimeMetrics" where
  "record_outgoing_packets n m = m\<lparr>rm_outgoing_packets := rm_outgoing_packets m + of_nat n\<rparr>"

definition record_incoming_packet :: "RuntimeMetrics \<Rightarrow> RuntimeMetrics" where
  "record_incoming_packet m = m\<lparr>rm_incoming_packets := rm_incoming_packets m + 1\<rparr>"

definition record_outgoing_drops :: "nat \<Rightarrow> RuntimeMetrics \<Rightarrow> RuntimeMetrics" where
  "record_outgoing_drops n m = m\<lparr>rm_outgoing_drops := rm_outgoing_drops m + of_nat n\<rparr>"

definition record_keepalive_sent :: "RuntimeMetrics \<Rightarrow> RuntimeMetrics" where
  "record_keepalive_sent m = m\<lparr>rm_keepalives_sent := rm_keepalives_sent m + 1\<rparr>"

definition record_keepalive_response :: "duration \<Rightarrow> RuntimeMetrics \<Rightarrow> RuntimeMetrics" where
  "record_keepalive_response elapsed m =
     (let milliseconds = of_nat (min (elapsed div 1000000) (2 ^ 64 - 1)) in
      m\<lparr>rm_keepalive_responses := rm_keepalive_responses m + 1,
        rm_keepalive_rtt_total_ms := rm_keepalive_rtt_total_ms m + milliseconds,
        rm_keepalive_rtt_samples := rm_keepalive_rtt_samples m + 1,
        rm_last_keepalive_rtt_ms := milliseconds,
        rm_max_keepalive_rtt_ms := max (rm_max_keepalive_rtt_ms m) milliseconds\<rparr>)"

definition record_keepalive_timeouts :: "nat \<Rightarrow> RuntimeMetrics \<Rightarrow> RuntimeMetrics" where
  "record_keepalive_timeouts n m = m\<lparr>rm_keepalive_timeouts := rm_keepalive_timeouts m + of_nat n\<rparr>"

definition record_reconnect :: "RuntimeMetrics \<Rightarrow> RuntimeMetrics" where
  "record_reconnect m = m\<lparr>rm_reconnects := rm_reconnects m + 1\<rparr>"

definition record_reconnect_failure :: "RuntimeMetrics \<Rightarrow> RuntimeMetrics" where
  "record_reconnect_failure m = m\<lparr>rm_reconnect_failures := rm_reconnect_failures m + 1\<rparr>"

definition record_peer_unreachable :: "RuntimeMetrics \<Rightarrow> RuntimeMetrics" where
  "record_peer_unreachable m = m\<lparr>rm_peer_unreachable := rm_peer_unreachable m + 1\<rparr>"

definition record_migration :: "RuntimeMetrics \<Rightarrow> RuntimeMetrics" where
  "record_migration m = m\<lparr>rm_migrations := rm_migrations m + 1\<rparr>"

lemmas metrics_defs =
  record_outgoing_packets_def record_incoming_packet_def record_outgoing_drops_def record_keepalive_sent_def
  record_keepalive_response_def record_keepalive_timeouts_def record_reconnect_def record_reconnect_failure_def
  record_peer_unreachable_def record_migration_def

section \<open>State\<close>

text \<open>What the client asks of the outside: a datagram on a socket, a packet to the TUN device, a change of the system.\<close>

datatype client_output =
  OutSend nat bytes
| OutTun bytes
| OutRefreshRoute
| OutReconfigure ipv4 u8 u16
| OutDns ipv4
| OutMetrics RuntimeMetrics duration
| OutDropReport u64

text \<open>
  The channel on which the sending thread reports its end: it runs, has left its result, or is gone. While it
  runs it receives the replacement sockets.
\<close>

datatype worker = WkRunning | WkResult "ClientError option" | WkGone

record Client =
  cl_sender :: TunnelSender
  cl_sender_poisoned :: bool
  cl_wire :: ClientWire
  cl_stopping :: bool
  cl_reconnecting :: bool
  cl_reconnect_requested :: u64
  cl_session_generation :: u64
  cl_replacements :: "nat list"
  cl_worker :: worker
  cl_metrics :: RuntimeMetrics
  cl_transport :: nat
  cl_parameters :: SessionParameters
  cl_receiver :: TunnelReceiver
  cl_routes :: bool
  cl_dns :: bool
  cl_liveness :: Liveness
  cl_pending :: "instant list"
  cl_next_route_refresh :: instant
  cl_next_metrics :: instant
  cl_outgoing :: nat
  cl_drops :: u64
  cl_last_report :: "instant option"
  cl_log :: "client_output list"

definition log_out :: "client_output \<Rightarrow> Client \<Rightarrow> Client" where
  "log_out out c = c\<lparr>cl_log := cl_log c @ [out]\<rparr>"

definition io_result :: "io_error option \<Rightarrow> 's \<Rightarrow> (ClientError + unit) \<times> 's" where
  "io_result r s = (case r of None \<Rightarrow> Inr () | Some e \<Rightarrow> Inl (CeIo e), s)"

section \<open>Checks\<close>

definition BATCH_SIZE :: nat where "BATCH_SIZE = 32"
definition MIGRATION_ATTEMPTS :: nat where "MIGRATION_ATTEMPTS = 3"
definition ROUTE_REFRESH_INTERVAL :: duration where "ROUTE_REFRESH_INTERVAL = secs 30"
definition METRICS_INTERVAL :: duration where "METRICS_INTERVAL = secs 10"
definition KEEPALIVE_RESPONSE_TIMEOUT :: duration where "KEEPALIVE_RESPONSE_TIMEOUT = secs 20"
definition DROP_REPORT_INTERVAL :: duration where "DROP_REPORT_INTERVAL = secs 30"

definition is_timeout :: "io_error \<Rightarrow> bool" where
  "is_timeout e \<longleftrightarrow> ioe_kind e \<in> {WouldBlock, TimedOut}"

definition lx_is_recoverable :: "io_error \<Rightarrow> bool" where
  "lx_is_recoverable e \<longleftrightarrow> is_timeout e \<or> ioe_kind e = Interrupted"

definition is_ipv6 :: "bytes \<Rightarrow> bool" where
  "is_ipv6 packet \<longleftrightarrow> (case packet of [] \<Rightarrow> False | byte # _ \<Rightarrow> drop_bit 4 byte = 6)"

definition check_worker :: "Client \<Rightarrow> (ClientError + unit) \<times> Client" where
  "check_worker c =
     (case cl_worker c of
        WkRunning \<Rightarrow> (Inr (), c)
      | WkResult (Some e) \<Rightarrow> (Inl e, c\<lparr>cl_worker := WkGone\<rparr>)
      | _ \<Rightarrow> (if cl_stopping c then Inr () else Inl CeWorkerStopped, c\<lparr>cl_worker := WkGone\<rparr>))"

definition take_reconnect_request :: "Client \<Rightarrow> bool \<times> Client" where
  "take_reconnect_request c =
     (let requested = cl_reconnect_requested c in
      (requested \<noteq> 0 \<and> requested = cl_session_generation c, c\<lparr>cl_reconnect_requested := 0\<rparr>))"

definition expire_keepalives :: "instant \<Rightarrow> Client \<Rightarrow> Client" where
  "expire_keepalives now c =
     (let late = (\<lambda>sent. now - sent \<ge> KEEPALIVE_RESPONSE_TIMEOUT) in
      c\<lparr>cl_pending := dropWhile late (cl_pending c),
        cl_metrics := record_keepalive_timeouts (length (takeWhile late (cl_pending c))) (cl_metrics c)\<rparr>)"

text \<open>The loss of the connection is counted when the timer had not noticed it.\<close>

definition report_lost :: "instant \<Rightarrow> Client \<Rightarrow> Client" where
  "report_lost now c =
     (let (noticed, liveness) = lx_connection_lost now (cl_liveness c);
          c1 = c\<lparr>cl_liveness := liveness\<rparr>
      in if noticed then cl_metrics_update record_peer_unreachable c1 else c1)"

section \<open>Receiving\<close>

datatype ReceiveEvent = Packets "bytes list" | Idle | PeerUnavailable

definition receive :: "io_error + bytes list \<Rightarrow> Client \<Rightarrow> (ClientError + ReceiveEvent) \<times> Client" where
  "receive batch c =
     (case batch of
        Inr datagrams \<Rightarrow> (Inr (Packets datagrams), c)
      | Inl e \<Rightarrow>
          if ioe_kind e = Interrupted \<and> cl_stopping c then (Inr Idle, c)
          else if is_timeout e then and_then (check_worker c) (\<lambda>_ c. (Inr Idle, c))
          else if is_peer_unavailable e then (Inr PeerUnavailable, c)
          else if ioe_kind e = Interrupted then (Inr Idle, c)
          else (Inl (CeIo e), c))"

text \<open>What the handling of one received datagram meets: the clocks, and the answer of the TUN device.\<close>

record datagram_world =
  dw_clock :: "u64 option"
  dw_now :: instant
  dw_tun :: "io_error option"

definition write_tun :: "bytes \<Rightarrow> io_error option \<Rightarrow> Client \<Rightarrow> (ClientError + unit) \<times> Client" where
  "write_tun packet answer c =
     (case answer of
        Some e \<Rightarrow> if lx_is_recoverable e then Inr () else Inl (CeIo e)
      | None \<Rightarrow> Inr (), log_out (OutTun packet) c)"

definition keepalive_answered :: "instant \<Rightarrow> Client \<Rightarrow> Client" where
  "keepalive_answered now c =
     (let c1 = cl_liveness_update (lx_packet_received now) c in
      if cl_pending c1 = [] then c1
      else c1\<lparr>cl_pending := butlast (cl_pending c1),
              cl_metrics := record_keepalive_response (now - List.last (cl_pending c1)) (cl_metrics c1)\<rparr>)"

text \<open>Decoding with the client's receiving half: nothing when the datagram is not one of the session.\<close>

definition decode_received ::
  "wire_libs \<Rightarrow> u64 option \<Rightarrow> bytes \<Rightarrow> Client \<Rightarrow> (ClientError + DecodedPacket option) \<times> Client" where
  "decode_received W clock datagram c =
     (let (decoded, wire) = ClientWire_decode W clock (cl_wire c) datagram;
          c1 = c\<lparr>cl_wire := wire\<rparr>
      in
      case decoded of
        Inl e \<Rightarrow> (Inl (CeWire e), c1)
      | Inr (False, _) \<Rightarrow> (Inr None, c1)
      | Inr (True, payload) \<Rightarrow>
          (case Datagram_decode payload of
             Inl e \<Rightarrow> (Inl (CeIo (io_error_new OtherKind)), c1)
           | Inr parsed \<Rightarrow>
               let (r, receiver) = TunnelReceiver_decode_into (cl_receiver c1) parsed
               in (bind_r (map_err CeDataPlane r) (\<lambda>packet. Inr (Some packet)), c1\<lparr>cl_receiver := receiver\<rparr>)))"

definition process_datagram ::
  "wire_libs \<Rightarrow> datagram_world \<Rightarrow> bytes \<Rightarrow> Client \<Rightarrow> (ClientError + unit) \<times> Client" where
  "process_datagram W w datagram c =
     (case decode_received W (dw_clock w) datagram c of
        (Inr (Some (DecodedIp packet)), c1) \<Rightarrow>
          write_tun packet (dw_tun w)
            (cl_metrics_update record_incoming_packet (cl_liveness_update (lx_packet_received (dw_now w)) c1))
      | (Inr (Some DecodedKeepalive), c1) \<Rightarrow> (Inr (), keepalive_answered (dw_now w) c1)
      | (_, c1) \<Rightarrow> (Inr (), c1))"

fun process_datagrams ::
  "wire_libs \<Rightarrow> (nat \<Rightarrow> datagram_world) \<Rightarrow> bytes list \<Rightarrow> Client \<Rightarrow> (ClientError + unit) \<times> Client" where
  "process_datagrams W w [] c = (Inr (), c)"
| "process_datagrams W w (datagram # datagrams) c =
     and_then (process_datagram W (w (length datagrams)) datagram c)
       (\<lambda>_. process_datagrams W w datagrams)"

section \<open>Keepalives\<close>

text \<open>A keepalive encoded by the shared sending half, masked and sent on a socket.\<close>

definition send_probe ::
  "wire_libs \<Rightarrow> send_world \<Rightarrow> nat \<Rightarrow> Client \<Rightarrow> (ClientError + unit) \<times> Client" where
  "send_probe W w socket c =
     (if cl_sender_poisoned c then (Inl CeWorkerStopped, c)
      else
        let (r, sender) = TunnelSender_encode_keepalive_into (cl_sender c);
            c1 = c\<lparr>cl_sender := sender\<rparr>
        in
        (case r of
           Inl e \<Rightarrow> (Inl (CeDataPlane e), c1)
         | Inr keepalive \<Rightarrow>
             let (encoded, wire) = ClientWire_encode W (sw_clock w) (sw_random w) (cl_wire c1) keepalive;
                 c2 = c1\<lparr>cl_wire := wire\<rparr>
             in
             (case encoded of
                Inl e \<Rightarrow> (Inl (CeWire e), c2)
              | Inr datagram \<Rightarrow> io_result (sw_sent w) (log_out (OutSend socket datagram) c2))))"

definition send_keepalive :: "wire_libs \<Rightarrow> send_world \<Rightarrow> Client \<Rightarrow> (ClientError + unit) \<times> Client" where
  "send_keepalive W w c = send_probe W w (cl_transport c) c"

section \<open>Another socket for the session\<close>

definition send_replacement :: "nat \<Rightarrow> Client \<Rightarrow> (ClientError + unit) \<times> Client" where
  "send_replacement socket c =
     (if cl_worker c = WkRunning then (Inr (), c\<lparr>cl_replacements := cl_replacements c @ [socket]\<rparr>)
      else (Inl CeWorkerStopped, c))"

definition next_generation :: "nat \<Rightarrow> Client \<Rightarrow> Client" where
  "next_generation socket c =
     c\<lparr>cl_transport := socket, cl_session_generation := cl_session_generation c + 1, cl_reconnect_requested := 0\<rparr>"

text \<open>One migration attempt: the keepalive, what is received on the new socket, and the answers of the system.\<close>

record probe_world =
  pw_send :: send_world
  pw_received :: "io_error + bytes"
  pw_datagram :: datagram_world
  pw_timeout_set :: "io_error option"
  pw_clone :: "io_error option"

definition adopt_migrated :: "nat \<Rightarrow> probe_world \<Rightarrow> Client \<Rightarrow> (ClientError + unit) \<times> Client" where
  "adopt_migrated socket w c =
     and_then (io_result (pw_timeout_set w) c) (\<lambda>_ c.
     and_then (io_result (pw_clone w) c) (\<lambda>_ c.
     and_then (send_replacement socket c) (\<lambda>_ c.
       (Inr (), cl_metrics_update record_migration (next_generation socket c)))))"

text \<open>The result says whether the session has migrated; if not, the next attempt is made.\<close>

definition migration_attempt :: "wire_libs \<Rightarrow> nat \<Rightarrow> probe_world \<Rightarrow> Client \<Rightarrow> (ClientError + bool) \<times> Client" where
  "migration_attempt W socket w c =
     and_then (send_probe W (pw_send w) socket c) (\<lambda>_ c.
       case pw_received w of
         Inl e \<Rightarrow>
           (if is_timeout e \<or> is_peer_unavailable e \<or> ioe_kind e = Interrupted then Inr False else Inl (CeIo e), c)
       | Inr datagram \<Rightarrow>
           and_then (decode_received W (dw_clock (pw_datagram w)) datagram c) (\<lambda>decoded c.
             case decoded of
               None \<Rightarrow> (Inr False, c)
             | Some packet \<Rightarrow>
                 and_then (case packet of
                             DecodedKeepalive \<Rightarrow> (Inr (), c)
                           | DecodedIp ip \<Rightarrow> write_tun ip (dw_tun (pw_datagram w)) c) (\<lambda>_ c.
                 and_then (adopt_migrated socket w c) (\<lambda>_ c. (Inr True, c)))))"

fun migration_attempts ::
  "wire_libs \<Rightarrow> nat \<Rightarrow> (nat \<Rightarrow> probe_world) \<Rightarrow> nat \<Rightarrow> Client \<Rightarrow> (ClientError + unit) \<times> Client" where
  "migration_attempts W socket w 0 c = (Inl (CeIo (io_error_new TimedOut)), c)"
| "migration_attempts W socket w (Suc n) c =
     and_then (migration_attempt W socket (w n) c) (\<lambda>migrated c.
       if migrated then (Inr (), c) else migration_attempts W socket w n c)"

record migrate_world =
  mg_bind :: "SocketAddr \<Rightarrow> SocketAddr \<Rightarrow> io_error + nat"
  mg_timeout_set :: "io_error option"
  mg_probes :: "nat \<Rightarrow> probe_world"

definition try_migrate ::
  "wire_libs \<Rightarrow> ValidatedClientConfig \<Rightarrow> migrate_world \<Rightarrow> Client \<Rightarrow> (ClientError + unit) \<times> Client" where
  "try_migrate W config w c =
     (case mg_bind w (unspecified_local (vcc_server config)) (vcc_server config) of
        Inl e \<Rightarrow> (Inl (CeIo e), c)
      | Inr socket \<Rightarrow>
          and_then (io_result (mg_timeout_set w) c) (\<lambda>_.
            migration_attempts W socket (mg_probes w) MIGRATION_ATTEMPTS))"

section \<open>Another session\<close>

record establish_world =
  es_bind :: "SocketAddr \<Rightarrow> SocketAddr \<Rightarrow> io_error + nat"
  es_start :: instant
  es_attempts :: "(attempt_world \<times> instant) list"
  es_timeout_set :: "io_error option"
  es_clone :: "io_error option"
  es_reconfigure :: "io_error option"
  es_dns :: "io_error option"
  es_rollback :: "io_error option"

definition reconfigure :: "SessionParameters \<Rightarrow> io_error option \<Rightarrow> Client \<Rightarrow> io_error option \<times> Client" where
  "reconfigure p answer c = (answer, log_out (OutReconfigure (sp_client_address p) (sp_prefix_len p) (sp_mtu p)) c)"

definition apply_session_parameters ::
  "establish_world \<Rightarrow> SessionParameters \<Rightarrow> Client \<Rightarrow> (ClientError + unit) \<times> Client" where
  "apply_session_parameters w parameters c =
     (if parameters = cl_parameters c then (Inr (), c)
      else if \<not> cl_dns c then (Inl SessionParametersChanged, c)
      else
        (case reconfigure parameters (es_reconfigure w) c of
           (Some e, c1) \<Rightarrow> (Inl (CeIo e), c1)
         | (None, c1) \<Rightarrow>
             let c2 = log_out (OutDns (sp_dns parameters)) c1 in
             (case es_dns w of
                Some e \<Rightarrow>
                  (case reconfigure (cl_parameters c) (es_rollback w) c2 of
                     (None, c3) \<Rightarrow> (Inl (CeIo e), c3)
                   | (Some _, c3) \<Rightarrow> (Inl (CeIo (io_error_new OtherKind)), c3))
              | None \<Rightarrow> (Inr (), c2\<lparr>cl_parameters := parameters\<rparr>))))"

text \<open>Taking over a negotiated session, in the order of the code.\<close>

definition adopt_session ::
  "establish_world \<Rightarrow> nat \<Rightarrow> negotiated \<Rightarrow> Client \<Rightarrow> (ClientError + unit) \<times> Client" where
  "adopt_session w socket session c =
     and_then (io_result (es_timeout_set w) c) (\<lambda>_ c.
     and_then (io_result (es_clone w) c) (\<lambda>_ c.
     and_then (apply_session_parameters w (snd session) c) (\<lambda>_ c.
       let (sender, receiver) = TunnelDataPlane_split (fst session);
           c1 = c\<lparr>cl_receiver := receiver\<rparr>
       in
       if cl_sender_poisoned c1 then (Inl CeWorkerStopped, c1)
       else
         and_then (send_replacement socket (c1\<lparr>cl_sender := sender\<rparr>)) (\<lambda>_ c.
           (Inr (), next_generation socket c)))))"

text \<open>\<open>None\<close> while the negotiation is waiting.\<close>

definition establish_replacement ::
  "wire_libs \<Rightarrow> 'h Snow \<Rightarrow> ValidatedClientConfig \<Rightarrow> establish_world \<Rightarrow> Client \<Rightarrow> (ClientError + unit) option \<times> Client" where
  "establish_replacement W S config w c =
     (let (outs, r, wire) = connect W S (es_bind w) config (es_start w) (es_attempts w) (cl_wire c);
          socket = (case es_bind w (unspecified_local (vcc_server config)) (vcc_server config) of Inr s \<Rightarrow> s | Inl _ \<Rightarrow> 0);
          c1 = c\<lparr>cl_wire := wire, cl_log := cl_log c @ map (OutSend socket) outs\<rparr>
      in
      case r of
        None \<Rightarrow> (None, c1)
      | Some (Inl e) \<Rightarrow> (Some (Inl e), c1)
      | Some (Inr (transport, session)) \<Rightarrow> map_prod Some id (adopt_session w transport session c1))"

section \<open>Keeping the connection alive\<close>

record maintain_world =
  mw_now :: instant
  mw_keepalive :: send_world
  mw_refresh :: "io_error option"
  mw_migrate :: migrate_world
  mw_establish :: establish_world
  mw_reconnected :: instant

definition refresh_routes :: "io_error option \<Rightarrow> Client \<Rightarrow> io_error option \<times> Client" where
  "refresh_routes answer c = (if cl_routes c then (answer, log_out OutRefreshRoute c) else (None, c))"

text \<open>How an attempt to reconnect ends: the result of the two ways to do it.\<close>

definition reconnect_finish ::
  "instant \<Rightarrow> (ClientError + unit) option \<times> Client \<Rightarrow> bool \<times> Client" where
  "reconnect_finish later m =
     (case m of
        (None, c) \<Rightarrow> (False, c)
      | (Some (Inr _), c) \<Rightarrow> (True, (cl_liveness_update (lx_reconnected later) c)\<lparr>cl_reconnecting := False\<rparr>)
      | (Some (Inl _), c) \<Rightarrow> (True, (cl_metrics_update record_reconnect_failure c)\<lparr>cl_reconnecting := False\<rparr>))"

text \<open>The flag is false while the attempt waits for the server.\<close>

definition reconnect ::
  "wire_libs \<Rightarrow> 'h Snow \<Rightarrow> ValidatedClientConfig \<Rightarrow> maintain_world \<Rightarrow> Client \<Rightarrow> bool \<times> Client" where
  "reconnect W S config w c =
     (let now = mw_now w;
          c1 = c\<lparr>cl_metrics := record_keepalive_timeouts (length (cl_pending c)) (record_reconnect (cl_metrics c)),
                 cl_pending := [], cl_reconnecting := True\<rparr>
      in
      case refresh_routes (mw_refresh w) c1 of
        (Some _, c2) \<Rightarrow>
          (True, (cl_metrics_update record_reconnect_failure (cl_liveness_update (lx_network_unavailable now) c2))
                   \<lparr>cl_reconnecting := False\<rparr>)
      | (None, c2) \<Rightarrow>
          reconnect_finish (mw_reconnected w)
            (case try_migrate W config (mw_migrate w) (cl_liveness_update (lx_reconnect_attempted now) c2) of
               (Inr _, c3) \<Rightarrow> (Some (Inr ()), c3)
             | (Inl _, c3) \<Rightarrow> establish_replacement W S config (mw_establish w) c3))"

definition maintain_liveness ::
  "wire_libs \<Rightarrow> 'h Snow \<Rightarrow> ValidatedClientConfig \<Rightarrow> maintain_world \<Rightarrow> Client \<Rightarrow> (ClientError + bool) \<times> Client" where
  "maintain_liveness W S config w c =
     (let now = mw_now w in
      case lx_action (cl_liveness c) now of
        ActNone \<Rightarrow> (Inr True, c)
      | ActKeepalive \<Rightarrow>
          (case send_keepalive W (mw_keepalive w) c of
             (Inr _, c1) \<Rightarrow>
               (Inr True, c1\<lparr>cl_liveness := lx_keepalive_sent now (cl_liveness c1), cl_pending := cl_pending c1 @ [now],
                            cl_metrics := record_keepalive_sent (cl_metrics c1)\<rparr>)
           | (Inl (CeIo e), c1) \<Rightarrow> if is_peer_unavailable e then (Inr True, report_lost now c1) else (Inl (CeIo e), c1)
           | (Inl e, c1) \<Rightarrow> (Inl e, c1))
      | ActReconnect \<Rightarrow> map_prod Inr id (reconnect W S config w c))"

section \<open>The packet loop\<close>

text \<open>
  What one turn of the loop meets. The stop flag may be raised while the loop waits for datagrams.
\<close>

record loop_world =
  lw_stop :: bool
  lw_batch :: "io_error + bytes list"
  lw_datagrams :: "nat \<Rightarrow> datagram_world"
  lw_lost :: instant
  lw_requested :: instant
  lw_now :: instant
  lw_refresh :: "io_error option"
  lw_refreshed :: instant
  lw_maintain :: maintain_world
  lw_elapsed :: duration

text \<open>How a turn ends: the loop goes on, waits inside an attempt to reconnect, or has returned.\<close>

datatype loop_end = Continue | Waiting | Returned "ClientError option"

definition handle_event :: "wire_libs \<Rightarrow> loop_world \<Rightarrow> ReceiveEvent \<Rightarrow> Client \<Rightarrow> (ClientError + unit) \<times> Client" where
  "handle_event W w event c =
     (case event of
        Packets datagrams \<Rightarrow> process_datagrams W (lw_datagrams w) datagrams c
      | Idle \<Rightarrow> (Inr (), c)
      | PeerUnavailable \<Rightarrow> (Inr (), report_lost (lw_lost w) c))"

definition handle_request :: "loop_world \<Rightarrow> Client \<Rightarrow> Client" where
  "handle_request w c =
     (case take_reconnect_request c of
        (True, c1) \<Rightarrow> report_lost (lw_requested w) c1
      | (False, c1) \<Rightarrow> c1)"

definition refresh_when_due :: "loop_world \<Rightarrow> Client \<Rightarrow> Client" where
  "refresh_when_due w c =
     (if lw_now w \<ge> cl_next_route_refresh c
      then (snd (refresh_routes (lw_refresh w) c))\<lparr>cl_next_route_refresh := lw_refreshed w + ROUTE_REFRESH_INTERVAL\<rparr>
      else c)"

definition emit_when_due :: "loop_world \<Rightarrow> Client \<Rightarrow> Client" where
  "emit_when_due w c =
     (if lw_now w \<ge> cl_next_metrics c
      then (log_out (OutMetrics (cl_metrics c) (lw_elapsed w)) c)\<lparr>cl_next_metrics := lw_now w + METRICS_INTERVAL\<rparr>
      else c)"

text \<open>One turn; the counters are emitted once more when the loop ends because of the stop flag.\<close>

definition packet_loop_turn ::
  "wire_libs \<Rightarrow> 'h Snow \<Rightarrow> ValidatedClientConfig \<Rightarrow> loop_world \<Rightarrow> Client \<Rightarrow> loop_end \<times> Client" where
  "packet_loop_turn W S config w c =
     (if cl_stopping c then (Returned None, log_out (OutMetrics (cl_metrics c) (lw_elapsed w)) c)
      else
        (case and_then (check_worker c) (\<lambda>_ c.
                and_then (receive (lw_batch w) (c\<lparr>cl_stopping := lw_stop w\<rparr>)) (handle_event W w)) of
           (Inl e, c1) \<Rightarrow> (Returned (Some e), c1)
         | (Inr _, c1) \<Rightarrow>
             if cl_stopping c1 then (Returned None, log_out (OutMetrics (cl_metrics c1) (lw_elapsed w)) c1)
             else
               (case maintain_liveness W S config (lw_maintain w)
                       (refresh_when_due w (expire_keepalives (lw_now w) (handle_request w c1))) of
                  (Inl e, c2) \<Rightarrow> (Returned (Some e), c2)
                | (Inr False, c2) \<Rightarrow> (Waiting, c2)
                | (Inr True, c2) \<Rightarrow> (Continue, emit_when_due w c2))))"

section \<open>The sending thread\<close>

text \<open>
  The thread's position between two operations the other thread can observe: at the head of its loop, after the
  TUN device became readable, holding packets, holding encoded datagrams, after a send that found the peer
  unreachable, and with the generation it has read but not yet stored.
\<close>

datatype outgoing_phase =
  OgHead
| OgReadable
| OgHolding "bytes list"
| OgEncoded "bytes list"
| OgFailed
| OgLoaded u64
| OgReturned "ClientError option"

text \<open>The answer of polling the TUN device.\<close>

datatype poll_result = PollNone | PollReady | PollFailed io_error

record outgoing_world =
  ow_poll :: poll_result
  ow_reads :: "(io_error + bytes) list"
  ow_now :: "nat \<Rightarrow> instant"
  ow_wire :: "nat \<Rightarrow> u64 option \<times> (string + bytes)"
  ow_sent :: "io_error + nat"

definition Drops_record :: "instant \<Rightarrow> nat \<Rightarrow> Client \<Rightarrow> Client" where
  "Drops_record now n c =
     (let c1 = c\<lparr>cl_drops := cl_drops c + of_nat n, cl_metrics := record_outgoing_drops n (cl_metrics c)\<rparr> in
      if (case cl_last_report c1 of None \<Rightarrow> True | Some at \<Rightarrow> now - at \<ge> DROP_REPORT_INTERVAL)
      then (log_out (OutDropReport (cl_drops c1)) c1)\<lparr>cl_last_report := Some now\<rparr>
      else c1)"

text \<open>Lines 59 to 76: replacement sockets, the pause of a reconnection, and the poll.\<close>

definition outgoing_poll :: "outgoing_world \<Rightarrow> Client \<Rightarrow> outgoing_phase \<times> Client" where
  "outgoing_poll w c =
     (if cl_stopping c then (OgReturned None, c)
      else
        let c1 = (if cl_replacements c = [] then c
                  else c\<lparr>cl_outgoing := List.last (cl_replacements c), cl_replacements := []\<rparr>)
        in
        if cl_reconnecting c1 then (OgHead, c1)
        else
          (case ow_poll w of
             PollNone \<Rightarrow> OgHead
           | PollReady \<Rightarrow> OgReadable
           | PollFailed e \<Rightarrow> OgReturned (Some (CeIo e)), c1))"

text \<open>Lines 77 to 92: at most a batch of packets, up to the first transient error.\<close>

fun read_batch :: "nat \<Rightarrow> (io_error + bytes) list \<Rightarrow> ClientError + bytes list" where
  "read_batch 0 reads = Inr []"
| "read_batch (Suc n) [] = Inr []"
| "read_batch (Suc n) (Inr packet # reads) = bind_r (read_batch n reads) (\<lambda>packets. Inr (packet # packets))"
| "read_batch (Suc n) (Inl e # reads) =
     (if ioe_kind e = WouldBlock then Inr [] else if is_retryable_network e then Inr [] else Inl (CeIo e))"

definition outgoing_read :: "outgoing_world \<Rightarrow> Client \<Rightarrow> outgoing_phase \<times> Client" where
  "outgoing_read w c =
     (if cl_reconnecting c then (OgHead, c)
      else
        (case read_batch BATCH_SIZE (ow_reads w) of
           Inl e \<Rightarrow> OgReturned (Some e)
         | Inr packets \<Rightarrow> if packets = [] then OgHead else OgHolding packets, c))"

text \<open>Lines 94 to 112, while the sending half is locked.\<close>

fun encode_packets :: "(nat \<Rightarrow> instant) \<Rightarrow> bytes list \<Rightarrow> Client \<Rightarrow> bytes list \<times> Client" where
  "encode_packets now [] c = ([], c)"
| "encode_packets now (packet # packets) c =
     (if is_ipv6 packet then encode_packets now packets c
      else
        (case TunnelSender_encode_ip_into (cl_sender c) packet of
           (Inl e, sender) \<Rightarrow>
             encode_packets now packets (Drops_record (now (length packets)) 1 (c\<lparr>cl_sender := sender\<rparr>))
         | (Inr datagram, sender) \<Rightarrow>
             let (datagrams, c1) = encode_packets now packets (c\<lparr>cl_sender := sender\<rparr>) in (datagram # datagrams, c1)))"

definition outgoing_encode :: "outgoing_world \<Rightarrow> bytes list \<Rightarrow> Client \<Rightarrow> outgoing_phase \<times> Client" where
  "outgoing_encode w packets c =
     (if cl_sender_poisoned c then (OgReturned (Some CeWorkerStopped), c)
      else
        let (datagrams, c1) = encode_packets (ow_now w) packets c
        in (if datagrams = [] then OgHead else OgEncoded datagrams, c1))"

text \<open>Lines 113 to 140: masking and one batched send.\<close>

fun mask_datagrams ::
  "wire_libs \<Rightarrow> (nat \<Rightarrow> u64 option \<times> (string + bytes)) \<Rightarrow> bytes list \<Rightarrow> ClientWire \<Rightarrow> (ClientError + bytes list) \<times> ClientWire" where
  "mask_datagrams W w [] wire = (Inr [], wire)"
| "mask_datagrams W w (datagram # datagrams) wire =
     (case ClientWire_encode W (fst (w (length datagrams))) (snd (w (length datagrams))) wire datagram of
        (Inl e, wire1) \<Rightarrow> (Inl (CeWire e), wire1)
      | (Inr encoded, wire1) \<Rightarrow>
          and_then (mask_datagrams W w datagrams wire1) (\<lambda>rest wire2. (Inr (encoded # rest), wire2)))"

definition outgoing_sent :: "instant \<Rightarrow> io_error + nat \<Rightarrow> nat \<Rightarrow> Client \<Rightarrow> outgoing_phase \<times> Client" where
  "outgoing_sent now answer encoded c =
     (case answer of
        Inr sent \<Rightarrow>
          let c1 = cl_metrics_update (record_outgoing_packets sent) c
          in (OgHead, if sent = encoded then c1 else Drops_record now (encoded - sent) c1)
      | Inl e \<Rightarrow>
          if is_peer_unavailable e then (OgFailed, Drops_record now encoded c)
          else if is_retryable_network e then (OgHead, Drops_record now encoded c)
          else (OgReturned (Some (CeIo e)), c))"

definition outgoing_send :: "wire_libs \<Rightarrow> outgoing_world \<Rightarrow> bytes list \<Rightarrow> Client \<Rightarrow> outgoing_phase \<times> Client" where
  "outgoing_send W w datagrams c =
     (case mask_datagrams W (ow_wire w) datagrams (cl_wire c) of
        (Inl e, wire) \<Rightarrow> (OgReturned (Some e), c\<lparr>cl_wire := wire\<rparr>)
      | (Inr encoded, wire) \<Rightarrow>
          let accepted = (case ow_sent w of Inr sent \<Rightarrow> take sent encoded | Inl _ \<Rightarrow> [])
          in outgoing_sent (ow_now w 0) (ow_sent w) (length encoded)
               (c\<lparr>cl_wire := wire, cl_log := cl_log c @ map (OutSend (cl_outgoing c)) accepted\<rparr>))"

text \<open>The whole loop, one observable operation at a time.\<close>

fun outgoing_step :: "wire_libs \<Rightarrow> outgoing_world \<Rightarrow> outgoing_phase \<Rightarrow> Client \<Rightarrow> outgoing_phase \<times> Client" where
  "outgoing_step W w OgHead c = outgoing_poll w c"
| "outgoing_step W w OgReadable c = outgoing_read w c"
| "outgoing_step W w (OgHolding packets) c = outgoing_encode w packets c"
| "outgoing_step W w (OgEncoded datagrams) c = outgoing_send W w datagrams c"
| "outgoing_step W w OgFailed c = (OgLoaded (cl_session_generation c), c)"
| "outgoing_step W w (OgLoaded generation) c = (OgHead, c\<lparr>cl_reconnect_requested := generation\<rparr>)"
| "outgoing_step W w (OgReturned r) c =
     (OgReturned r, if cl_worker c = WkRunning then c\<lparr>cl_worker := WkResult r\<rparr> else c)"

section \<open>Both threads\<close>

text \<open>A step of the client: a turn of the packet loop, an operation of the sending thread, or a signal.\<close>

datatype client_event = LoopTurn loop_world | Outgoing outgoing_world | Signal

type_synonym client_state = "loop_end \<times> outgoing_phase \<times> Client"

fun client_step ::
  "wire_libs \<Rightarrow> 'h Snow \<Rightarrow> ValidatedClientConfig \<Rightarrow> client_state \<Rightarrow> client_event \<Rightarrow> client_state" where
  "client_step W S config (ended, phase, c) (LoopTurn w) =
     (if ended = Continue then let (ended', c1) = packet_loop_turn W S config w c in (ended', phase, c1)
      else (ended, phase, c))"
| "client_step W S config (ended, phase, c) (Outgoing w) = (ended, outgoing_step W w phase c)"
| "client_step W S config (ended, phase, c) Signal = (ended, phase, c\<lparr>cl_stopping := True\<rparr>)"

definition client_run ::
  "wire_libs \<Rightarrow> 'h Snow \<Rightarrow> ValidatedClientConfig \<Rightarrow> client_state \<Rightarrow> client_event list \<Rightarrow> client_state" where
  "client_run W S config = foldl (client_step W S config)"

text \<open>The state in which \<^verbatim>\<open>run_mode\<close> starts the two threads on a negotiated session.\<close>

definition client_start :: "bool \<Rightarrow> nat \<Rightarrow> negotiated \<Rightarrow> ClientWire \<Rightarrow> instant \<Rightarrow> client_state" where
  "client_start full_tunnel socket session wire now =
     (let (sender, receiver) = TunnelDataPlane_split (fst session) in
      (Continue, OgHead,
       \<lparr>cl_sender = sender, cl_sender_poisoned = False, cl_wire = wire, cl_stopping = False, cl_reconnecting = False,
        cl_reconnect_requested = 0, cl_session_generation = 1, cl_replacements = [], cl_worker = WkRunning,
        cl_metrics = RuntimeMetrics_default, cl_transport = socket, cl_parameters = snd session,
        cl_receiver = receiver, cl_routes = full_tunnel, cl_dns = full_tunnel, cl_liveness = lx_new now, cl_pending = [],
        cl_next_route_refresh = now + ROUTE_REFRESH_INTERVAL, cl_next_metrics = now + METRICS_INTERVAL,
        cl_outgoing = socket, cl_drops = 0, cl_last_report = None, cl_log = []\<rparr>))"

end
