(* ===== verification/ClientProps.thy ===== *)
theory ClientProps
  imports LinuxClient
begin

text \<open>
  What the Linux client promises: its counters add up, its sending thread delivers the packets of the TUN device in
  order, a session is replaced as a whole or not at all, and a connection attempt ends by its deadline.
\<close>

section \<open>Keepalive accounting\<close>

text \<open>What the accounting of keepalives is about.\<close>

definition books :: "Client \<Rightarrow> u64 \<times> u64 \<times> u64 \<times> instant list" where
  "books c =
     (rm_keepalives_sent (cl_metrics c), rm_keepalive_responses (cl_metrics c), rm_keepalive_timeouts (cl_metrics c),
      cl_pending c)"

definition accounted :: "Client \<Rightarrow> bool" where
  "accounted c \<longleftrightarrow>
     rm_keepalives_sent (cl_metrics c) =
       rm_keepalive_responses (cl_metrics c) + rm_keepalive_timeouts (cl_metrics c) + of_nat (length (cl_pending c))"

lemma accounted_books: "books c' = books c \<Longrightarrow> accounted c' = accounted c"
  by (simp add: books_def accounted_def)

lemma books_log [simp]: "books (log_out out c) = books c"
  by (simp add: books_def log_out_def)

lemma books_check_worker: "check_worker c = (r, c') \<Longrightarrow> books c' = books c"
  by (auto simp: check_worker_def books_def split: worker.splits option.splits)

lemma books_receive: "receive batch c = (r, c') \<Longrightarrow> books c' = books c"
  by (auto simp: receive_def and_then_def dest: books_check_worker split: sum.splits if_splits prod.splits)

lemma books_report_lost [simp]: "books (report_lost now c) = books c"
  by (simp add: report_lost_def books_def Let_def split_beta metrics_defs)

lemma books_decode_received: "decode_received W clock datagram c = (r, c') \<Longrightarrow> books c' = books c"
  by (auto simp: decode_received_def books_def split_beta Let_def split: sum.splits bool.splits prod.splits)

lemma books_write_tun: "write_tun packet answer c = (r, c') \<Longrightarrow> books c' = books c"
  by (auto simp: write_tun_def)

lemma books_io_result: "io_result answer c = (r, c') \<Longrightarrow> c' = c"
  by (simp add: io_result_def)

lemma books_send_probe: "send_probe W w socket c = (r, c') \<Longrightarrow> books c' = books c"
  by (auto simp: send_probe_def Let_def split_beta io_result_def log_out_def books_def split: if_splits sum.splits)

lemma books_send_replacement: "send_replacement socket c = (r, c') \<Longrightarrow> books c' = books c"
  by (auto simp: send_replacement_def books_def split: if_splits)

lemma books_next_generation [simp]: "books (next_generation socket c) = books c"
  by (simp add: next_generation_def books_def)

lemma books_adopt_migrated:
  assumes "adopt_migrated socket w c = (r, c')"
  shows "books c' = books c"
  using assms
  by (auto simp: adopt_migrated_def io_result_def books_def metrics_defs next_generation_def send_replacement_def
      elim!: and_then_cases split: if_splits)

lemma books_migration_attempt:
  assumes "migration_attempt W socket w c = (r, c')"
  shows "books c' = books c"
  using assms
  by (auto simp: migration_attempt_def elim!: and_then_cases
      dest!: books_send_probe books_decode_received books_write_tun books_adopt_migrated
      split: sum.splits option.splits DecodedPacket.splits)

lemma books_migration_attempts:
  "migration_attempts W socket w n c = (r, c') \<Longrightarrow> books c' = books c"
proof (induction n arbitrary: c)
  case (Suc n)
  from Suc.prems show ?case
    by (auto dest!: Suc.IH books_migration_attempt elim!: and_then_cases split: if_splits)
qed simp

lemma books_try_migrate: "try_migrate W config w c = (r, c') \<Longrightarrow> books c' = books c"
  by (auto simp: try_migrate_def dest!: books_io_result books_migration_attempts elim!: and_then_cases split: sum.splits)

lemma books_apply_session_parameters: "apply_session_parameters w p c = (r, c') \<Longrightarrow> books c' = books c"
  by (auto simp: apply_session_parameters_def reconfigure_def books_def log_out_def Let_def split: if_splits option.splits)

lemma books_adopt_session:
  assumes "adopt_session w socket session c = (r, c')"
  shows "books c' = books c"
proof -
  have set: "books (c\<lparr>cl_receiver := x\<rparr>) = books c" "books (c\<lparr>cl_sender := y\<rparr>) = books c" for c x y
    by (simp_all add: books_def)
  show ?thesis
    using assms
    by (auto simp: adopt_session_def split_beta Let_def set elim!: and_then_cases
        dest!: books_io_result books_apply_session_parameters books_send_replacement split: if_splits)
qed

lemma books_establish_replacement:
  assumes "establish_replacement W S config w c = (r, c')"
  shows "books c' = books c"
proof -
  have set: "books (c\<lparr>cl_wire := x, cl_log := y\<rparr>) = books c" for c x y by (simp add: books_def)
  obtain outs a wire where conn: "connect W S (es_bind w) config (es_start w) (es_attempts w) (cl_wire c) = (outs, a, wire)"
    by (metis prod_cases3)
  show ?thesis
  proof (cases "\<exists>transport session. a = Some (Inr (transport, session))")
    case False
    with assms conn show ?thesis
      by (auto simp: establish_replacement_def Let_def set split: option.splits sum.splits)
  next
    case True
    then obtain transport session where a: "a = Some (Inr (transport, session))" by blast
    let ?c1 = "c\<lparr>cl_wire := wire, cl_log := cl_log c @ map (OutSend
        (case es_bind w (unspecified_local (vcc_server config)) (vcc_server config) of Inl _ \<Rightarrow> 0 | Inr s \<Rightarrow> s)) outs\<rparr>"
    obtain r' c2 where adopt: "adopt_session w transport session ?c1 = (r', c2)" by fastforce
    then have "c' = c2" using assms conn a by (auto simp: establish_replacement_def Let_def)
    with books_adopt_session [OF adopt] show ?thesis by (simp add: set)
  qed
qed

lemma books_maintain_liveness:
  assumes "maintain_liveness W S config w c = (r, c')" "accounted c"
  shows "accounted c'"
proof (cases "lx_action (cl_liveness c) (mw_now w)")
  case ActNone
  with assms show ?thesis by (simp add: maintain_liveness_def)
next
  case ActKeepalive
  obtain a c1 where sent: "send_keepalive W (mw_keepalive w) c = (a, c1)" by fastforce
  then have "accounted c1" using accounted_books [OF books_send_probe] assms(2) by (simp add: send_keepalive_def)
  moreover from this have "accounted (report_lost (mw_now w) c1)"
      "accounted (c1\<lparr>cl_liveness := l, cl_pending := cl_pending c1 @ [t], cl_metrics := record_keepalive_sent (cl_metrics c1)\<rparr>)" for l t
    using accounted_books [OF books_report_lost] by (simp_all add: accounted_def record_keepalive_sent_def algebra_simps)
  moreover have "c' \<in> {c1, report_lost (mw_now w) c1,
      c1\<lparr>cl_liveness := lx_keepalive_sent (mw_now w) (cl_liveness c1), cl_pending := cl_pending c1 @ [mw_now w],
         cl_metrics := record_keepalive_sent (cl_metrics c1)\<rparr>}"
  proof (cases a)
    case (Inl e)
    then show ?thesis
      using assms(1) unfolding maintain_liveness_def Let_def ActKeepalive sent Action.case prod.case
      by (cases e) (simp_all split: if_splits)
  next
    case (Inr u)
    then show ?thesis
      using assms(1) unfolding maintain_liveness_def Let_def ActKeepalive sent Action.case prod.case by simp
  qed
  ultimately show ?thesis by blast
next
  case ActReconnect
  let ?c1 = "c\<lparr>cl_metrics := record_keepalive_timeouts (length (cl_pending c)) (record_reconnect (cl_metrics c)),
                 cl_pending := [], cl_reconnecting := True\<rparr>"
  have start: "accounted ?c1" using assms(2) by (simp add: accounted_def metrics_defs algebra_simps)
  have upd: "accounted (cl_liveness_update f c) = accounted c" "accounted (c\<lparr>cl_reconnecting := b\<rparr>) = accounted c"
    "accounted (cl_metrics_update record_reconnect_failure c) = accounted c" for f b c
    by (simp_all add: accounted_def metrics_defs)
  have finish: "accounted (snd (reconnect_finish later (a, c)))" if "accounted c" for later a c
    using that by (auto simp: reconnect_finish_def upd split: option.splits sum.splits)
  obtain no_route c2 where routes: "refresh_routes (mw_refresh w) ?c1 = (no_route, c2)" by fastforce
  then have c2: "accounted c2"
    using start accounted_books [OF books_log] by (auto simp: refresh_routes_def split: if_splits)
  obtain m c3 where mig: "try_migrate W config (mw_migrate w) (cl_liveness_update (lx_reconnect_attempted (mw_now w)) c2) = (m, c3)"
    by fastforce
  then have c3: "accounted c3" using accounted_books [OF books_try_migrate [OF mig]] c2 by (simp add: upd)
  have est: "accounted (snd (establish_replacement W S config (mw_establish w) c3))"
    using accounted_books [OF books_establish_replacement] c3 by (metis prod.collapse)
  have "accounted (snd (reconnect W S config w c))"
    unfolding reconnect_def Let_def routes prod.case mig
    using c2 c3 finish finish [OF est, of _ "fst (establish_replacement W S config (mw_establish w) c3)"]
    by (auto simp: upd split: option.splits sum.splits)
  with assms(1) ActReconnect show ?thesis
    by (cases "reconnect W S config w c") (auto simp: maintain_liveness_def Let_def)
qed

lemma accounted_process_datagram:
  assumes "process_datagram W w datagram c = (r, c')" "accounted c"
  shows "accounted c'"
proof -
  obtain a c1 where dec: "decode_received W (dw_clock w) datagram c = (a, c1)" by fastforce
  have c1: "accounted c1" using accounted_books [OF books_decode_received [OF dec]] assms(2) by simp
  let ?c2 = "cl_metrics_update record_incoming_packet (cl_liveness_update (lx_packet_received (dw_now w)) c1)"
  have "accounted ?c2" using c1 by (simp add: accounted_def metrics_defs)
  then have ip: "accounted (snd (write_tun p t ?c2))" for p t
    using accounted_books [OF books_write_tun] by (metis prod.collapse)
  have "length (cl_pending c1) = Suc (length (butlast (cl_pending c1)))" if "cl_pending c1 \<noteq> []"
    using that by simp
  then have "accounted (keepalive_answered (dw_now w) c1)"
    using c1 by (auto simp: keepalive_answered_def accounted_def metrics_defs Let_def algebra_simps simp del: length_butlast)
  with assms(1) c1 dec ip show ?thesis
    by (auto simp: process_datagram_def split: sum.splits option.splits DecodedPacket.splits) (metis snd_conv)
qed

lemma accounted_process_datagrams:
  "process_datagrams W w datagrams c = (r, c') \<Longrightarrow> accounted c \<Longrightarrow> accounted c'"
proof (induction datagrams arbitrary: c)
  case (Cons datagram datagrams)
  from Cons.prems(1) show ?case
    by (auto elim!: and_then_cases dest!: accounted_process_datagram [OF _ Cons.prems(2)] intro: Cons.IH)
qed simp

lemma accounted_expire: "accounted c \<Longrightarrow> accounted (expire_keepalives now c)"
proof -
  have "length xs = length (takeWhile P xs) + length (dropWhile P xs)" for P and xs :: "instant list"
    by (metis length_append takeWhile_dropWhile_id)
  then show "accounted c \<Longrightarrow> accounted (expire_keepalives now c)"
    by (simp add: accounted_def expire_keepalives_def metrics_defs Let_def) (metis (no_types, lifting) add.assoc add.commute of_nat_add)
qed

lemma accounted_frame [simp]:
  "accounted (c\<lparr>cl_stopping := b\<rparr>) = accounted c" "accounted (c\<lparr>cl_reconnect_requested := n\<rparr>) = accounted c"
  "accounted (c\<lparr>cl_next_route_refresh := t\<rparr>) = accounted c" "accounted (c\<lparr>cl_next_metrics := t\<rparr>) = accounted c"
  "accounted (report_lost t c) = accounted c" "accounted (log_out out c) = accounted c"
  by (simp_all add: accounted_books [OF books_report_lost] accounted_books [OF books_log]) (simp_all add: accounted_def)

lemma accounted_handle_event:
  "handle_event W w event c = (r, c') \<Longrightarrow> accounted c \<Longrightarrow> accounted c'"
  by (cases event) (auto simp: handle_event_def accounted_books [OF books_report_lost] dest: accounted_process_datagrams)

lemma accounted_handle_request: "accounted (handle_request w c) = accounted c"
  by (simp add: handle_request_def take_reconnect_request_def Let_def split: bool.split)

lemma accounted_due: "accounted (refresh_when_due w c) = accounted c" "accounted (emit_when_due w c) = accounted c"
  by (simp_all add: refresh_when_due_def emit_when_due_def refresh_routes_def)

lemma accounted_packet_loop_turn:
  assumes "accounted c"
  shows "accounted (snd (packet_loop_turn W S config w c))"
proof -
  obtain a c1 where first: "and_then (check_worker c) (\<lambda>_ c.
      and_then (receive (lw_batch w) (c\<lparr>cl_stopping := lw_stop w\<rparr>)) (handle_event W w)) = (a, c1)" by fastforce
  have c1: "accounted c1"
    using first
  proof (rule and_then_cases)
    fix e assume "check_worker c = (Inl e, c1)"
    then show ?thesis using assms accounted_books [OF books_check_worker] by blast
  next
    fix u c0
    assume "check_worker c = (Inr u, c0)"
      and rest: "and_then (receive (lw_batch w) (c0\<lparr>cl_stopping := lw_stop w\<rparr>)) (handle_event W w) = (a, c1)"
    then have c0: "accounted (c0\<lparr>cl_stopping := lw_stop w\<rparr>)" using assms accounted_books [OF books_check_worker] by simp
    show ?thesis
      using rest c0 accounted_books [OF books_receive] accounted_handle_event by (elim and_then_cases) blast+
  qed
  let ?c2 = "refresh_when_due w (expire_keepalives (lw_now w) (handle_request w c1))"
  have "accounted ?c2" using c1 by (simp add: accounted_due accounted_expire accounted_handle_request)
  then have c3: "accounted (snd (maintain_liveness W S config (lw_maintain w) ?c2))"
    using books_maintain_liveness by (metis prod.collapse)
  show ?thesis
    unfolding packet_loop_turn_def first prod.case
    using assms c1 c3 by (auto simp: accounted_due split: sum.splits prod.splits bool.splits)
qed

text \<open>The sending thread does not touch the accounting.\<close>

lemma books_Drops_record [simp]: "books (Drops_record now n c) = books c"
  by (auto simp: Drops_record_def Let_def log_out_def books_def metrics_defs split: option.splits)

lemma books_encode_packets: "encode_packets now packets c = (datagrams, c') \<Longrightarrow> books c' = books c"
proof (induction packets arbitrary: c datagrams)
  case (Cons packet packets)
  have set: "books (c\<lparr>cl_sender := x\<rparr>) = books c" for c x by (simp add: books_def)
  from Cons.prems show ?case
    by (auto simp: set dest!: Cons.IH split: if_splits prod.splits sum.splits)
qed simp

lemma books_outgoing_step: "books (snd (outgoing_step W w phase c)) = books c"
proof (cases phase)
  case (OgHolding packets)
  then show ?thesis
    using books_encode_packets
    by (auto simp: outgoing_encode_def Let_def split_beta) (metis prod.collapse)
next
  case (OgEncoded datagrams)
  have set: "books (c\<lparr>cl_wire := x, cl_log := y\<rparr>) = books c" "books (c\<lparr>cl_wire := x\<rparr>) = books c"
    "books (cl_metrics_update (record_outgoing_packets n) c) = books c" for c x y n
    by (simp_all add: books_def metrics_defs)
  show ?thesis
    by (auto simp: OgEncoded outgoing_send_def outgoing_sent_def Let_def set split: sum.splits prod.splits)
qed (auto simp: outgoing_poll_def outgoing_read_def Let_def books_def split: sum.splits poll_result.splits)

lemma accounted_client_step: "accounted (snd (snd s)) \<Longrightarrow> accounted (snd (snd (client_step W S config s e)))"
proof (cases e)
  case (Outgoing w)
  then show "accounted (snd (snd s)) \<Longrightarrow> ?thesis"
    using accounted_books [OF books_outgoing_step, of W w "fst (snd s)" "snd (snd s)"] by (cases s) simp
qed (cases s; simp add: split_beta accounted_packet_loop_turn)+

text \<open>
  C25. Keepalives are accounted for. In every state the two threads of a client reach, whatever the sockets, the clocks and
  the server do, the keepalives counted as sent are those counted as answered, those counted as lost and those still waiting
  for an answer, modulo the width of the counters.
\<close>

theorem keepalives_are_accounted:
  "let c = snd (snd (client_run W S config (client_start full_tunnel socket session wire now) events)); m = cl_metrics c
   in rm_keepalives_sent m = rm_keepalive_responses m + rm_keepalive_timeouts m + of_nat (length (cl_pending c))"
proof -
  have "accounted (snd (snd (foldl (client_step W S config) s events)))" if "accounted (snd (snd s))" for s
    using that by (induction events arbitrary: s) (simp_all add: accounted_client_step)
  moreover have "accounted (snd (snd (client_start full_tunnel socket session wire now)))"
    by (simp add: client_start_def split_beta accounted_def RuntimeMetrics_default_def)
  ultimately show ?thesis by (simp add: client_run_def accounted_def Let_def)
qed

section \<open>Delivery\<close>

text \<open>What the tunnel carries of a packet: the IPv4 packet at its front, if it fits the MTU.\<close>

definition tunnelled :: "nat \<Rightarrow> bytes \<Rightarrow> bytes option" where
  "tunnelled mtu packet =
     (case Ipv4Packet_parse packet of
        Inl _ \<Rightarrow> None
      | Inr ip \<Rightarrow> if length (ip_bytes ip) \<le> mtu then Some (ip_bytes ip) else None)"

lemma tunnelled_ipv6: "is_ipv6 packet \<Longrightarrow> tunnelled mtu packet = None"
  by (auto simp: is_ipv6_def tunnelled_def Ipv4Packet_parse_def split: list.splits)

text \<open>The receiver of a session whose sender has not used a number from its next one on.\<close>

definition awaits :: "TunnelSender \<Rightarrow> TunnelReceiver \<Rightarrow> bool" where
  "awaits s r \<longleftrightarrow>
     noise_pair (sh_transport (ts_crypto s)) (rh_transport (tr_crypto r)) \<and>
     ts_session_id s = tr_session_id r \<and> ts_mtu s \<le> tr_mtu r \<and>
     (case highest (rh_receive_window (tr_crypto r)) of None \<Rightarrow> True | Some h \<Rightarrow> h < ts_next_sequence s)"

lemma sent_packet_arrives:
  assumes "awaits s r" "TunnelSender_encode_ip_into s packet = (Inr out, s')"
  shows "\<exists>p. tunnelled (ts_mtu s) packet = Some p \<and> fst (receiver_step r out) = Inr (DecodedIp p) \<and>
    awaits s' (snd (receiver_step r out)) \<and> ts_mtu s' = ts_mtu s \<and> ts_next_sequence s' = ts_next_sequence s + 1 \<and>
    sh_transport (ts_crypto s') = sh_transport (ts_crypto s)"
proof -
  let ?n = "ts_next_sequence s" and ?w = "rh_receive_window (tr_crypto r)"
  from assms(2) obtain ip where ip: "Ipv4Packet_parse packet = Inr ip" "length (ip_bytes ip) \<le> ts_mtu s"
      "TunnelSender_encode_into s Data InnerData (ip_bytes ip) = (Inr out, s')"
    by (auto simp: TunnelSender_encode_ip_into_def split: sum.splits if_splits)
  have pair: "noise_pair (sh_transport (ts_crypto s)) (rh_transport (tr_crypto r))" "length (ip_bytes ip) \<le> tr_mtu r"
      "ts_session_id s = tr_session_id r" "ensure_acceptable ?w ?n = Inr ()"
    using assms(1) ip(2) by (auto simp: awaits_def ensure_acceptable_def split: option.splits)
  note arrives = encoded_ip_decodes [OF pair(1) ip(1) pair(2,3) ip(3) pair(4)]
  have "case highest (mark_authenticated ?w ?n) of None \<Rightarrow> True | Some h \<Rightarrow> h < ?n + 1"
    using assms(1) arrives(4) by (auto simp: awaits_def mark_authenticated_def Let_def split: option.splits)
  then show ?thesis
    using assms(1) ip(1,2) arrives(1,3)
    by (auto simp: tunnelled_def awaits_def receiver_step_def split: option.splits)
qed

text \<open>A live transport refuses no packet the tunnel carries, while sequence numbers last.\<close>

lemma tunnelled_is_sent:
  assumes "noise_live (sh_transport (ts_crypto s))" "ts_mtu s < MAX_PLAINTEXT_LEN" "ts_next_sequence s \<noteq> - 1"
    and "tunnelled (ts_mtu s) packet = Some p"
  shows "\<exists>out s'. TunnelSender_encode_ip_into s packet = (Inr out, s')"
proof -
  obtain ip where ip: "Ipv4Packet_parse packet = Inr ip" "length (ip_bytes ip) \<le> ts_mtu s" "p = ip_bytes ip"
    using assms(4) by (auto simp: tunnelled_def split: sum.splits if_splits)
  let ?plain = "InnerPacketKind_byte InnerData # p"
  have short: "length ?plain \<le> MAX_PLAINTEXT_LEN" using assms(2) ip by simp
  then obtain c where "tr_write (sh_transport (ts_crypto s)) (ts_next_sequence s) ?plain (Suc (length p) + AUTH_TAG_LEN) = Inr c"
    using assms(1,3) unfolding noise_live_def by (metis length_Cons order_refl)
  then have "encrypt_into (sh_transport (ts_crypto s)) (ts_next_sequence s) ?plain (Suc (length p) + AUTH_TAG_LEN) = Inr c"
    using short by (simp add: result_simps)
  then show ?thesis
    using ip unat_not_max [OF assms(3)]
    by (auto simp: TunnelSender_encode_ip_into_def TunnelSender_encode_into_Inr SendHalf_encrypt_into_def)
qed

lemma Drops_record_simps [simp]:
  "cl_sender (Drops_record now n c) = cl_sender c" "cl_drops (Drops_record now n c) = cl_drops c + of_nat n"
  by (auto simp: Drops_record_def Let_def log_out_def split: option.splits)

lemma untunnelled_is_dropped:
  "tunnelled (ts_mtu s) packet = None \<Longrightarrow> \<exists>e. TunnelSender_encode_ip_into s packet = (Inl e, s)"
  by (auto simp: tunnelled_def TunnelSender_encode_ip_into_def split: sum.splits if_splits)

lemma encode_packets_delivers:
  assumes "encode_packets now packets c = (datagrams, c')" "awaits (cl_sender c) r"
    and "noise_live (sh_transport (ts_crypto (cl_sender c)))" "ts_mtu (cl_sender c) < MAX_PLAINTEXT_LEN"
    and "unat (ts_next_sequence (cl_sender c)) + length packets < 2 ^ 64"
  shows "run_outputs receiver_step r datagrams =
        map (\<lambda>p. Inr (DecodedIp p)) (List.map_filter (tunnelled (ts_mtu (cl_sender c))) packets) \<and>
      cl_drops c' = cl_drops c + of_nat (length (filter (\<lambda>p. \<not> is_ipv6 p \<and> tunnelled (ts_mtu (cl_sender c)) p = None) packets))"
  using assms
proof (induction packets arbitrary: c r datagrams)
  case (Cons packet packets)
  let ?s = "cl_sender c" and ?n = "ts_next_sequence (cl_sender c)"
  have n: "?n \<noteq> - 1" using Cons.prems(5) by (auto simp: unsigned_minus_1_eq_mask mask_eq_exp_minus_1)
  note succ = unat_succ [OF n]
  show ?case
  proof (cases "tunnelled (ts_mtu ?s) packet")
    case None
    show ?thesis
    proof (cases "is_ipv6 packet")
      case True
      with Cons.IH [of c] Cons.prems None show ?thesis by (simp add: map_filter_def)
    next
      case False
      obtain e where "TunnelSender_encode_ip_into ?s packet = (Inl e, ?s)" using untunnelled_is_dropped [OF None] by blast
      with Cons.IH [of "Drops_record (now (length packets)) 1 (c\<lparr>cl_sender := ?s\<rparr>)"] Cons.prems None False
      show ?thesis by (simp add: map_filter_def)
    qed
  next
    case (Some p)
    then have v4: "\<not> is_ipv6 packet" using tunnelled_ipv6 by fastforce
    obtain out s' where out: "TunnelSender_encode_ip_into ?s packet = (Inr out, s')"
      using tunnelled_is_sent [OF Cons.prems(3,4) n Some] by blast
    note arrives = sent_packet_arrives [OF Cons.prems(2) out]
    obtain rest where rest: "encode_packets now packets (c\<lparr>cl_sender := s'\<rparr>) = (rest, c')" "datagrams = out # rest"
      using Cons.prems(1) out v4 by (auto simp: split_beta Let_def prod_eq_iff)
    show ?thesis
      using Cons.IH [OF rest(1), of "snd (receiver_step r out)"] Cons.prems(3-5) arrives rest(2) v4 Some succ
      by (auto simp: map_filter_def split_beta)
  qed
qed (simp add: map_filter_def)

text \<open>
  C23. The sending thread tunnels the packets of the TUN device, in order and nothing else. For a batch it holds, the
  datagrams it encodes while it has the sending half are delivered by the receiver of the session as exactly the IPv4
  packets of the batch that fit the MTU, each trimmed to its own length, in the order of the batch. IPv6 packets are left
  out silently, and every other packet is counted as dropped.
\<close>

theorem sending_thread_delivers:
  assumes "awaits (cl_sender c) r" "noise_live (sh_transport (ts_crypto (cl_sender c)))"
    and "ts_mtu (cl_sender c) < MAX_PLAINTEXT_LEN" "\<not> cl_sender_poisoned c"
    and "unat (ts_next_sequence (cl_sender c)) + length packets < 2 ^ 64"
    and "outgoing_step W w (OgHolding packets) c = (phase, c')"
  shows "run_outputs receiver_step r (case phase of OgEncoded datagrams \<Rightarrow> datagrams | _ \<Rightarrow> []) =
      map (\<lambda>p. Inr (DecodedIp p)) (List.map_filter (tunnelled (ts_mtu (cl_sender c))) packets) \<and>
    cl_drops c' = cl_drops c + of_nat (length (filter (\<lambda>p. \<not> is_ipv6 p \<and> tunnelled (ts_mtu (cl_sender c)) p = None) packets))"
proof -
  obtain datagrams c1 where "encode_packets (ow_now w) packets c = (datagrams, c1)" by fastforce
  with encode_packets_delivers [OF this assms(1-3,5)] assms(4,6) show ?thesis
    by (auto simp: outgoing_encode_def Let_def split: if_splits)
qed

text \<open>A client on a session over the transport without secrecy.\<close>

definition sample_negotiated :: negotiated where
  "sample_negotiated =
     (TunnelDataPlane_new 9 1280 (SecureSession_new plain_transport (PublicKey [])),
      \<lparr>sp_client_address = Ipv4Addr 10 0 0 2, sp_prefix_len = 24, sp_mtu = 1280, sp_dns = Ipv4Addr 10 0 0 1\<rparr>)"

definition sample_running :: Client where
  "sample_running = snd (snd (client_start True 4 sample_negotiated WLegacy 0))"

definition sample_outgoing :: outgoing_world where
  "sample_outgoing =
     \<lparr>ow_poll = PollReady, ow_reads = [], ow_now = (\<lambda>_. secs 1), ow_wire = (\<lambda>_. (Some 0, Inr [])), ow_sent = Inr 2\<rparr>"

lemma sample_running_sender:
  "cl_sender sample_running =
     \<lparr>ts_session_id = 9, ts_next_sequence = 0, ts_mtu = 1280,
      ts_crypto = \<lparr>sh_transport = plain_transport, sh_peer_static_key = PublicKey []\<rparr>, ts_plaintext = []\<rparr>"
  "\<not> cl_sender_poisoned sample_running"
  by (simp_all add: sample_running_def client_start_def sample_negotiated_def TunnelDataPlane_split_def TunnelDataPlane_new_def
      SecureSession_split_def SecureSession_new_def)

theorem sending_thread_delivers_witness:
  "\<exists>phase c'. outgoing_step plain_wire_libs sample_outgoing (OgHolding [sample_packet, [0x60], [0x45], sample_packet]) sample_running = (phase, c') \<and>
     run_outputs receiver_step sample_receiver (case phase of OgEncoded datagrams \<Rightarrow> datagrams | _ \<Rightarrow> []) =
       [Inr (DecodedIp sample_packet), Inr (DecodedIp sample_packet)] \<and> cl_drops c' = cl_drops sample_running + 1"
proof -
  let ?packets = "[sample_packet, [0x60], [0x45], sample_packet]"
  obtain phase c' where step: "outgoing_step plain_wire_libs sample_outgoing (OgHolding ?packets) sample_running = (phase, c')" by fastforce
  have "awaits (cl_sender sample_running) sample_receiver"
    by (simp add: awaits_def sample_running_sender sample_receiver_def plain_transport_pair ReplayWindow_default_def)
  moreover have "tunnelled 1280 sample_packet = Some sample_packet" "tunnelled 1280 [0x60] = None" "tunnelled 1280 [0x45] = None"
    by (simp_all add: tunnelled_def sample_packet_parse) (simp_all add: sample_packet_def Ipv4Packet_parse_def MINIMUM_HEADER_LEN_def)
  moreover have "\<not> is_ipv6 sample_packet" "is_ipv6 [0x60]" "\<not> is_ipv6 [0x45]"
    by (simp_all add: is_ipv6_def sample_packet_def drop_bit_eq_div)
  ultimately show ?thesis
    using sending_thread_delivers [of sample_running sample_receiver ?packets plain_wire_libs sample_outgoing phase c'] step plain_transport_live
    by (simp add: sample_running_sender map_filter_def MAX_PLAINTEXT_LEN_def MAX_NOISE_MESSAGE_LEN_def AUTH_TAG_LEN_def)
qed

section \<open>Replacing a session\<close>

text \<open>What a session is to the client, and the settings the TUN device is asked for.\<close>

definition client_session :: "Client \<Rightarrow> TunnelSender \<times> TunnelReceiver \<times> nat \<times> SessionParameters \<times> u64 \<times> u64 \<times> nat list" where
  "client_session c =
     (cl_sender c, cl_receiver c, cl_transport c, cl_parameters c, cl_session_generation c, cl_reconnect_requested c,
      cl_replacements c)"

fun reconfigurations :: "client_output list \<Rightarrow> (ipv4 \<times> u8 \<times> u16) list" where
  "reconfigurations [] = []"
| "reconfigurations (OutReconfigure a p m # outs) = (a, p, m) # reconfigurations outs"
| "reconfigurations (_ # outs) = reconfigurations outs"

definition settings :: "SessionParameters \<Rightarrow> ipv4 \<times> u8 \<times> u16" where
  "settings p = (sp_client_address p, sp_prefix_len p, sp_mtu p)"

lemma reconfigurations_append [simp]: "reconfigurations (xs @ ys) = reconfigurations xs @ reconfigurations ys"
  by (induction xs rule: reconfigurations.induct) simp_all

lemma reconfigurations_sends [simp]: "reconfigurations (map (OutSend socket) outs) = []"
  by (induction outs) simp_all

lemma apply_session_parameters_cases:
  assumes "apply_session_parameters w p c = (r, c')"
  obtains (applied) "r = Inr ()" "c' = c\<lparr>cl_parameters := p, cl_log := cl_log c'\<rparr>"
      "reconfigurations (cl_log c') = reconfigurations (cl_log c) @ (if p = cl_parameters c then [] else [settings p])"
  | (refused) e where "r = Inl e" "c' = c\<lparr>cl_log := cl_log c'\<rparr>"
      "reconfigurations (cl_log c') = reconfigurations (cl_log c) \<or>
       reconfigurations (cl_log c') = reconfigurations (cl_log c) @ settings p #
         (if es_reconfigure w = None then [settings (cl_parameters c)] else [])"
  using assms
  by (auto simp: apply_session_parameters_def reconfigure_def log_out_def settings_def Let_def split: if_splits option.splits)

text \<open>
  The requests to the TUN device of an attempt that fails: none, or one for new settings. When the device takes the new settings, a
  request for the old ones follows; when it refuses them, none does.
\<close>

definition settings_kept :: "establish_world \<Rightarrow> Client \<Rightarrow> Client \<Rightarrow> bool" where
  "settings_kept w c c' \<longleftrightarrow>
     reconfigurations (cl_log c') = reconfigurations (cl_log c) \<or>
     (\<exists>p. reconfigurations (cl_log c') = reconfigurations (cl_log c) @ settings p #
        (if es_reconfigure w = None then [settings (cl_parameters c)] else []))"

text \<open>The requests when the parameters are taken over.\<close>

definition settings_moved :: "SessionParameters \<Rightarrow> Client \<Rightarrow> Client \<Rightarrow> bool" where
  "settings_moved p c c' \<longleftrightarrow>
     reconfigurations (cl_log c') = reconfigurations (cl_log c) @ (if p = cl_parameters c then [] else [settings p])"

lemma adopt_session_cases:
  assumes "adopt_session w socket (plane, parameters) c = (r, c')"
  obtains (adopted) "r = Inr ()" "cl_worker c = WkRunning" "\<not> cl_sender_poisoned c" "settings_moved parameters c c'"
      "client_session c' = (fst (TunnelDataPlane_split plane), snd (TunnelDataPlane_split plane), socket, parameters,
         cl_session_generation c + 1, 0, cl_replacements c @ [socket])"
  | (refused) e where "r = Inl e" "client_session c' = client_session c" "settings_kept w c c'"
  | (torn) "r = Inl CeWorkerStopped" "cl_worker c \<noteq> WkRunning \<or> cl_sender_poisoned c" "settings_moved parameters c c'"
      "client_session c' = (if cl_sender_poisoned c then cl_sender c else fst (TunnelDataPlane_split plane),
         snd (TunnelDataPlane_split plane), cl_transport c, parameters, cl_session_generation c, cl_reconnect_requested c, cl_replacements c)"
proof -
  obtain b c3 where params: "apply_session_parameters w parameters c = (b, c3)" by fastforce
  show ?thesis
  proof (cases "es_timeout_set w = None \<and> es_clone w = None")
    case False
    then have "\<exists>e. r = Inl e" "c' = c"
      using assms by (auto simp: adopt_session_def io_result_def and_then_def split: option.splits)
    with refused show ?thesis by (auto simp: settings_kept_def)
  next
    case True
    from params show ?thesis
    proof (cases rule: apply_session_parameters_cases)
      case applied
      have c3: "cl_worker c3 = cl_worker c" "cl_sender_poisoned c3 = cl_sender_poisoned c" "cl_replacements c3 = cl_replacements c"
          "cl_parameters c3 = parameters" "cl_session_generation c3 = cl_session_generation c" "cl_sender c3 = cl_sender c"
          "cl_transport c3 = cl_transport c" "cl_reconnect_requested c3 = cl_reconnect_requested c" "settings_moved parameters c c3"
        by (subst applied(2); simp add: applied(3) settings_moved_def)+
      show ?thesis
      proof (cases "cl_worker c = WkRunning \<and> \<not> cl_sender_poisoned c")
        case running: True
        then have "r = Inr ()" "c' = next_generation socket (c3\<lparr>cl_receiver := snd (TunnelDataPlane_split plane),
            cl_sender := fst (TunnelDataPlane_split plane), cl_replacements := cl_replacements c3 @ [socket]\<rparr>)"
          using assms True params applied(1) c3
          by (auto simp: adopt_session_def io_result_def and_then_def split_beta Let_def send_replacement_def)
        with adopted running c3 show ?thesis by (simp add: next_generation_def client_session_def settings_moved_def)
      next
        case stopped: False
        then have "r = Inl CeWorkerStopped" "c' = c3\<lparr>cl_receiver := snd (TunnelDataPlane_split plane),
            cl_sender := if cl_sender_poisoned c then cl_sender c3 else fst (TunnelDataPlane_split plane)\<rparr>"
          using assms True params applied(1) c3
          by (auto simp: adopt_session_def io_result_def and_then_def split_beta Let_def send_replacement_def)
        with torn stopped c3 show ?thesis by (simp add: client_session_def settings_moved_def)
      qed
    next
      case (refused e)
      have "r = Inl e" "c' = c3"
        using assms True params refused(1) by (auto simp: adopt_session_def io_result_def and_then_def)
      moreover have "client_session c3 = client_session c" by (subst refused(2)) (simp add: client_session_def)
      ultimately show ?thesis using that(2) refused(3) by (auto simp: settings_kept_def)
    qed
  qed
qed

text \<open>
  C24. While the sending thread runs and the lock of the sending half is not poisoned, a session is replaced as a whole or not at
  all. An attempt that succeeds installs both halves of the negotiated session, its socket for both directions and its
  parameters, raises the generation, forgets pending requests, and changes the TUN settings exactly when the parameters
  differ. An attempt that fails, at whatever point, leaves the sending and the receiving half, the socket, the parameters, the generation and
  the pending request as they were; if the TUN device had taken new settings, the old ones are asked for again. Without the sending thread
  or with a poisoned lock every attempt fails, and one whose handshake and settings work out leaves a mixture: the receiving half and the
  parameters of the new session, and its sending half unless the lock is poisoned, with the old socket and generation.
\<close>

theorem replacement_is_atomic:
  assumes "establish_replacement W S config w c = (Some r, c')"
  shows "case r of
     Inr _ \<Rightarrow>
       cl_worker c = WkRunning \<and> \<not> cl_sender_poisoned c \<and>
       (\<exists>outs socket plane parameters wire.
          connect W S (es_bind w) config (es_start w) (es_attempts w) (cl_wire c) =
            (outs, Some (Inr (socket, plane, parameters)), wire) \<and>
          client_session c' =
            (fst (TunnelDataPlane_split plane), snd (TunnelDataPlane_split plane), socket, parameters,
             cl_session_generation c + 1, 0, cl_replacements c @ [socket]) \<and>
          settings_moved parameters c c')
   | Inl e \<Rightarrow>
       client_session c' = client_session c \<and> settings_kept w c c' \<or>
       (cl_worker c \<noteq> WkRunning \<or> cl_sender_poisoned c) \<and> e = CeWorkerStopped \<and>
       (\<exists>outs socket plane parameters wire.
          connect W S (es_bind w) config (es_start w) (es_attempts w) (cl_wire c) =
            (outs, Some (Inr (socket, plane, parameters)), wire) \<and>
          client_session c' =
            (if cl_sender_poisoned c then cl_sender c else fst (TunnelDataPlane_split plane), snd (TunnelDataPlane_split plane),
             cl_transport c, parameters, cl_session_generation c, cl_reconnect_requested c, cl_replacements c) \<and>
          settings_moved parameters c c')"
proof -
  obtain outs a wire where conn: "connect W S (es_bind w) config (es_start w) (es_attempts w) (cl_wire c) = (outs, a, wire)"
    by (metis prod_cases3)
  let ?socket = "case es_bind w (unspecified_local (vcc_server config)) (vcc_server config) of Inl _ \<Rightarrow> 0 | Inr s \<Rightarrow> s"
  let ?c1 = "c\<lparr>cl_wire := wire, cl_log := cl_log c @ map (OutSend ?socket) outs\<rparr>"
  have same: "client_session ?c1 = client_session c" "settings_kept w c ?c1" "settings_kept w ?c1 = settings_kept w c"
    "settings_moved p ?c1 = settings_moved p c" for p
    by (simp_all add: client_session_def settings_kept_def settings_moved_def fun_eq_iff)
  show ?thesis
  proof (cases "\<exists>socket plane parameters. a = Some (Inr (socket, plane, parameters))")
    case False
    with assms(1) conn same(1,2) show ?thesis
      by (auto simp: establish_replacement_def Let_def split: option.splits sum.splits)
  next
    case True
    then obtain socket plane parameters where a: "a = Some (Inr (socket, plane, parameters))" by blast
    then have "adopt_session w socket (plane, parameters) ?c1 = (r, c')"
      using assms conn
      by (cases "adopt_session w socket (plane, parameters) ?c1") (auto simp: establish_replacement_def Let_def)
    then show ?thesis
    proof (cases rule: adopt_session_cases)
      case adopted
      with conn a same(4) show ?thesis by simp
    next
      case (refused e)
      with same(1,3) show ?thesis by simp
    next
      case torn
      with conn a same(4) show ?thesis by simp
    qed
  qed
qed

text \<open>A server that answers the handshake without secrecy, and the world in which a client connects to it.\<close>

definition sample_response :: bytes where
  "sample_response = Datagram_encode
     \<lparr>dg_header = \<lparr>hdr_kind = HandshakeResponse, hdr_flags = 0, hdr_session_id = 0x0102030405060708, hdr_sequence = 0\<rparr>,
      dg_payload = replicate 32 1 @ SessionParameters_encode (snd sample_negotiated)\<rparr>"

definition sample_turn :: handshake_turn where
  "sample_turn =
     \<lparr>ht_now = secs 1, ht_send = \<lparr>sw_clock = None, sw_random = Inr [], sw_sent = None\<rparr>, ht_timeout_set = (\<lambda>_. None),
      ht_received = (\<lambda>_. Inr sample_response), ht_decode_clock = None\<rparr>"

definition sample_attempt :: attempt_world where
  "sample_attempt =
     \<lparr>aw_session_random = Inr [1, 2, 3, 4, 5, 6, 7, 8], aw_started = 0, aw_cover_random = Inr [],
      aw_covers = (\<lambda>_. (\<lparr>sw_clock = None, sw_random = Inr [], sw_sent = None\<rparr>, Inr [])),
      aw_first = \<lparr>sw_clock = None, sw_random = Inr [], sw_sent = None\<rparr>, aw_turns = [sample_turn]\<rparr>"

definition sample_establish :: "io_error option \<Rightarrow> establish_world" where
  "sample_establish dns =
     \<lparr>es_bind = (\<lambda>_ _. Inr 7), es_start = 0, es_attempts = [(sample_attempt, secs 1)], es_timeout_set = None,
      es_clone = None, es_reconfigure = None, es_dns = dns, es_rollback = None\<rparr>"

definition sample_plane :: TunnelDataPlane where
  "sample_plane = TunnelDataPlane_new 0x0102030405060708 1280 (SecureSession_new plain_transport (PublicKey (replicate 32 1)))"

lemma sample_session_id: "(from_be [1, 2, 3, 4, 5, 6, 7, 8] :: u64) = 0x0102030405060708"
  by (simp add: from_be_def be_value_def)

lemma sample_reply:
  "handshake_reply plain_snow rejected 0x0102030405060708 (replicate 32 5, Some (replicate 32 1)) (Inr (True, sample_response)) =
   Some (Inr (sample_plane, snd sample_negotiated))"
proof -
  have valid: "SessionParameters_decode (SessionParameters_encode (snd sample_negotiated)) = Inr (snd sample_negotiated)"
    by (rule session_parameters.dec_enc) (simp add: sample_negotiated_def SessionParameters_valid_def)
  then show ?thesis
    by (simp add: handshake_reply_def sample_response_def datagram.dec_enc ClientHandshake_finish_def read_handshake_message_def
        peer_static_key_def PublicKey_from_slice_def KEY_LEN_def plain_snow_def MAX_NOISE_MESSAGE_LEN_def
        SessionParameters_encode_def sample_negotiated_def sample_plane_def)
qed

lemmas sample_handshake_defs =
  await_session_def send_prelude_def send_request_def handshake_step_def sample_attempt_def sample_turn_def sample_client_def
  random_session_id_def ClientHandshake_new_def ClientHandshake_write_initial_def write_handshake_message_def
  MAX_NOISE_MESSAGE_LEN_def HANDSHAKE_TIMEOUT_def HANDSHAKE_RETRANSMIT_def Let_def plain_snow_def

lemma sample_connect:
  "\<exists>outs. connect plain_wire_libs plain_snow (es_bind (sample_establish dns)) (sample_client PLegacy) (es_start (sample_establish dns))
     (es_attempts (sample_establish dns)) WLegacy = (outs, Some (Inr (7, sample_plane, snd sample_negotiated)), WLegacy)"
  using sample_reply sample_session_id
  by (simp add: connect_def negotiate_def negotiate_attempt_def sample_establish_def sample_handshake_defs)

theorem replacement_is_atomic_witness:
  "let c = sample_running\<lparr>cl_parameters := (snd sample_negotiated)\<lparr>sp_mtu := 1400\<rparr>\<rparr> in
   client_session (snd (establish_replacement plain_wire_libs plain_snow (sample_client PLegacy) (sample_establish (Some (io_error_new TimedOut))) c)) =
     client_session c \<and>
   cl_session_generation (snd (establish_replacement plain_wire_libs plain_snow (sample_client PLegacy) (sample_establish None) c)) =
     cl_session_generation c + 1"
proof -
  let ?c = "sample_running\<lparr>cl_parameters := (snd sample_negotiated)\<lparr>sp_mtu := 1400\<rparr>\<rparr>"
  let ?f = "\<lambda>dns. establish_replacement plain_wire_libs plain_snow (sample_client PLegacy) (sample_establish dns) ?c"
  have c: "cl_wire ?c = WLegacy" "cl_worker ?c = WkRunning" "\<not> cl_sender_poisoned ?c" "cl_dns ?c"
    by (simp_all add: sample_running_def client_start_def split_beta)
  have "\<exists>e. fst (?f (Some (io_error_new TimedOut))) = Some (Inl e)"
    using sample_connect [of "Some (io_error_new TimedOut)"] c
    by (auto simp: establish_replacement_def adopt_session_def apply_session_parameters_def reconfigure_def io_result_def
        and_then_def sample_establish_def Let_def sample_negotiated_def)
  then obtain e where failed: "?f (Some (io_error_new TimedOut)) = (Some (Inl e), snd (?f (Some (io_error_new TimedOut))))"
    by (metis prod.collapse)
  have "fst (?f None) = Some (Inr ())"
    using sample_connect [of None] c
    by (auto simp: establish_replacement_def adopt_session_def apply_session_parameters_def reconfigure_def io_result_def
        and_then_def sample_establish_def Let_def sample_negotiated_def send_replacement_def log_out_def split_beta)
  then have done_: "?f None = (Some (Inr ()), snd (?f None))" by (metis prod.collapse)
  show ?thesis
    using replacement_is_atomic [OF failed] replacement_is_atomic [OF done_] c(2,3) by (auto simp: Let_def client_session_def)
qed

text \<open>
  The generation does not tell old failures from new ones. A send that failed before the session was replaced, whose
  thread reads the generation only afterwards, requests a reconnection of the new session, and the packet loop takes it.
\<close>

lemma stale_failure_is_taken:
  assumes "cl_session_generation c + 1 \<noteq> 0"
  shows "let (loaded, c1) = outgoing_step W w OgFailed (next_generation socket c); (head, c2) = outgoing_step W w loaded c1
    in head = OgHead \<and> fst (take_reconnect_request c2)"
  using assms by (simp add: next_generation_def take_reconnect_request_def)

section \<open>Connecting\<close>

lemma handshake_step_due:
  assumes "handshake_step W S retryable rejected i h request deadline turn next_retransmit wire = (outs, r, next', wire')"
  shows "deadline \<le> ht_now turn \<Longrightarrow> r \<noteq> None"
    "outs = [] \<and> (r = None \<longrightarrow> next' = next_retransmit) \<or>
     (\<exists>out. outs = [out]) \<and> next_retransmit < deadline \<and> next_retransmit + HANDSHAKE_RETRANSMIT \<le> next'"
  using assms
  by (auto simp: handshake_step_def Let_def result_simps split: if_splits sum.splits option.splits prod.splits)

lemma handshake_loop_ends:
  "\<exists>turn \<in> set turns. deadline \<le> ht_now turn \<Longrightarrow>
   fst (snd (handshake_loop W S retryable rejected i h request deadline turns next_retransmit wire)) \<noteq> None"
proof (induction turns arbitrary: next_retransmit wire)
  case (Cons turn turns)
  obtain outs r next' wire' where step:
    "handshake_step W S retryable rejected i h request deadline turn next_retransmit wire = (outs, r, next', wire')"
    by (metis prod_cases4)
  show ?case
    using Cons.IH [of next' wire'] Cons.prems handshake_step_due(1) [OF step] step
    by (cases r) (auto simp: split_beta)
qed simp

text \<open>Every retransmission lies before the deadline and a full interval after the one before it.\<close>

lemma handshake_loop_retransmits:
  "length (fst (handshake_loop W S retryable rejected i h request deadline turns next_retransmit wire)) * HANDSHAKE_RETRANSMIT
     < deadline - next_retransmit + HANDSHAKE_RETRANSMIT"
proof (induction turns arbitrary: next_retransmit wire)
  case (Cons turn turns)
  obtain outs r next' wire' where step:
    "handshake_step W S retryable rejected i h request deadline turn next_retransmit wire = (outs, r, next', wire')"
    by (metis prod_cases4)
  show ?case
    using Cons.IH [of next' wire'] handshake_step_due(2) [OF step] step
    by (cases r; cases "deadline \<le> next'") (auto simp: split_beta HANDSHAKE_RETRANSMIT_def)
qed (simp add: HANDSHAKE_RETRANSMIT_def)

lemma send_covers_length: "length (fst (send_covers W turn wire n)) \<le> n"
  by (induction n) (auto simp: Let_def split_beta split: sum.splits option.splits)

lemma await_session_ends:
  assumes "\<exists>turn \<in> set (aw_turns w). deadline \<le> ht_now turn" "deadline \<le> aw_started w + HANDSHAKE_TIMEOUT"
  shows "fst (snd (await_session W S retryable rejected i h request deadline w wire)) \<noteq> None"
    "length (fst (await_session W S retryable rejected i h request deadline w wire)) \<le>
       length (fst (send_prelude W (aw_cover_random w) (aw_covers w) wire)) + 15"
proof -
  obtain covers p where prelude: "send_prelude W (aw_cover_random w) (aw_covers w) wire = (covers, p)" by fastforce
  obtain a wire1 where first: "send_request W retryable (aw_first w) request wire = (a, wire1)" by fastforce
  let ?loop = "handshake_loop W S retryable rejected i h request deadline (aw_turns w) (aw_started w + HANDSHAKE_RETRANSMIT) wire1"
  have "fst (snd ?loop) \<noteq> None" by (rule handshake_loop_ends [OF assms(1)])
  moreover have "length (fst ?loop) \<le> 14"
    using handshake_loop_retransmits [of W S retryable rejected i h request deadline "aw_turns w" "aw_started w + HANDSHAKE_RETRANSMIT" wire1]
      assms(2) by (simp add: HANDSHAKE_RETRANSMIT_def HANDSHAKE_TIMEOUT_def)
  ultimately show "fst (snd (await_session W S retryable rejected i h request deadline w wire)) \<noteq> None"
    "length (fst (await_session W S retryable rejected i h request deadline w wire)) \<le>
       length (fst (send_prelude W (aw_cover_random w) (aw_covers w) wire)) + 15"
    unfolding await_session_def prelude first
    by (auto simp: split_beta split: sum.split)
qed

lemma negotiate_attempt_ends:
  assumes "\<exists>turn \<in> set (aw_turns w). deadline \<le> ht_now turn" "deadline \<le> aw_started w + HANDSHAKE_TIMEOUT"
  shows "\<exists>outs r wire'. negotiate_attempt W S config deadline w wire = (outs, Some r, wire') \<and>
    length outs \<le> length (fst (send_prelude W (aw_cover_random w) (aw_covers w) wire)) + 15"
proof -
  have "fst (snd (negotiate_attempt W S config deadline w wire)) \<noteq> None \<and>
      length (fst (negotiate_attempt W S config deadline w wire)) \<le>
        length (fst (send_prelude W (aw_cover_random w) (aw_covers w) wire)) + 15"
    using await_session_ends [OF assms] by (auto simp: negotiate_attempt_def split: sum.split)
  then show ?thesis by (metis not_None_eq prod.collapse)
qed

text \<open>
  C26. A connection attempt ends. When the clock of every attempt passes the deadline and the failure of the last one is
  looked at after it, negotiating returns a session or an error, whatever the server and the network do; and no attempt
  sends more than fifteen requests after its cover datagrams.
\<close>

theorem negotiation_ends:
  assumes "attempts \<noteq> []" "start + HANDSHAKE_TIMEOUT \<le> snd (List.last attempts)"
    and "\<forall>(w, later) \<in> set attempts. start \<le> aw_started w \<and> (\<exists>turn \<in> set (aw_turns w). start + HANDSHAKE_TIMEOUT \<le> ht_now turn)"
  shows "(\<exists>outs r wire'. negotiate W S config start attempts wire = (outs, Some r, wire')) \<and>
    (\<forall>(w, later) \<in> set attempts. \<forall>wire1. length (fst (negotiate_attempt W S config (start + HANDSHAKE_TIMEOUT) w wire1)) \<le>
       length (fst (send_prelude W (aw_cover_random w) (aw_covers w) wire1)) + 15)"
proof -
  let ?deadline = "start + HANDSHAKE_TIMEOUT"
  have each: "\<exists>outs r wire'. negotiate_attempt W S config ?deadline w wire = (outs, Some r, wire') \<and>
      length outs \<le> length (fst (send_prelude W (aw_cover_random w) (aw_covers w) wire)) + 15"
    if "(w, later) \<in> set attempts" for w later wire
    using that assms(3) by (intro negotiate_attempt_ends) auto
  have "\<exists>outs r wire'. negotiate_attempts W S config ?deadline as wire = (outs, Some r, wire')"
    if "as \<noteq> []" "?deadline \<le> snd (List.last as)" "set as \<subseteq> set attempts" for as wire
    using that
  proof (induction as arbitrary: wire)
    case (Cons a as)
    obtain w later where a: "a = (w, later)" by fastforce
    obtain outs r wire1 where attempt: "negotiate_attempt W S config ?deadline w wire = (outs, Some r, wire1)"
      using each [of w later wire] Cons.prems(3) a by auto
    show ?case
    proof (cases "r = Inl InvalidHandshakeResponse \<and> later < ?deadline")
      case True
      then have "as \<noteq> []" using Cons.prems(2) a by auto
      then show ?thesis using Cons.IH [of wire1] Cons.prems a attempt True by (auto simp: split_beta)
    next
      case False
      then show ?thesis using a attempt by auto
    qed
  qed simp
  then have "\<exists>outs r wire'. negotiate W S config start attempts wire = (outs, Some r, wire')"
    using assms(1,2) by (simp add: negotiate_def)
  moreover have "length (fst (negotiate_attempt W S config ?deadline w wire1)) \<le>
      length (fst (send_prelude W (aw_cover_random w) (aw_covers w) wire1)) + 15"
    if "(w, later) \<in> set attempts" for w later wire1
    using each [OF that, of wire1] by auto
  ultimately show ?thesis by (auto intro: case_prodI2)
qed

theorem negotiation_ends_witness:
  "\<exists>outs r wire'. negotiate plain_wire_libs plain_snow (sample_client PLegacy) 0
     [(sample_attempt\<lparr>aw_turns := [sample_turn\<lparr>ht_now := secs 3, ht_received := (\<lambda>_. Inl (io_error_new TimedOut))\<rparr>,
                                   sample_turn\<lparr>ht_now := secs 12\<rparr>]\<rparr>, secs 12)] WLegacy = (outs, Some r, wire')"
  using negotiation_ends [of "[(sample_attempt\<lparr>aw_turns := [sample_turn\<lparr>ht_now := secs 3, ht_received := (\<lambda>_. Inl (io_error_new TimedOut))\<rparr>,
      sample_turn\<lparr>ht_now := secs 12\<rparr>]\<rparr>, secs 12)]" 0 plain_wire_libs plain_snow "sample_client PLegacy" WLegacy]
  by (simp add: HANDSHAKE_TIMEOUT_def)

end
