(* ===== verification/EndToEnd.thy ===== *)
theory EndToEnd
  imports DaemonProps ClientProps
begin

text \<open>
  A client and the daemon together: the lemmas under the properties of the root theory that follow a connection from
  the client's first datagram to the packets the two sides exchange.
\<close>

section \<open>Both ends of a handshake\<close>

abbreviation public_of :: "wire_libs \<Rightarrow> bytes \<Rightarrow> bytes" where
  "public_of W k \<equiv> pk_bytes (SecretKey_public_key (wl_crypto W) (SecretKey k))"

lemma split_awaits:
  assumes "noise_pair a b"
  shows "awaits (fst (TunnelDataPlane_split (TunnelDataPlane_new i mtu (SecureSession_new a k))))
    (snd (TunnelDataPlane_split (TunnelDataPlane_new i mtu (SecureSession_new b k'))))"
  using assms
  by (simp add: awaits_def TunnelDataPlane_split_def TunnelDataPlane_new_def SecureSession_split_def SecureSession_new_def
      ReplayWindow_default_def)

text \<open>
  The daemon's half of a handshake a client began, for a wire mode other than Speedy: the daemon knows the client by its
  static key, and the client completes the handshake with the daemon's answer; the two sessions are the ends of one
  transport.
\<close>

lemma authenticated_client:
  assumes ik: "noise_ik S pub (sk_bytes client) (sk_bytes (vsc_server_private_key config)) (context_bytes (vsc_context config))"
    and pubs: "length (pub (sk_bytes client)) = KEY_LEN"
    and begun: "ClientHandshake_new S client (PublicKey (pub (sk_bytes (vsc_server_private_key config)))) (vsc_context config) = Inr h"
      "ClientHandshake_write_initial S h [] = Inr (h1, initial)" "length initial \<le> MAX_NOISE_MESSAGE_LEN"
    and wire: "\<And>key codec. wire \<noteq> SSpeedy key codec"
    and auth: "authenticate_handshake L S config wire initial R = Some (hs, key, lease)"
  shows "key = PublicKey (pub (sk_bytes client))" "sn_remote_static S hs = Some (pub (sk_bytes client))"
    "ik_answer S (pub (sk_bytes (vsc_server_private_key config))) h1 hs"
proof -
  let ?s = "vsc_server_private_key config"
  have ctx: "(case wire of SSpeedy a b \<Rightarrow> for_speedy_server (wl_crypto (da_wire L)) (vsc_server_public_key config)
      | _ \<Rightarrow> vsc_context config) = vsc_context config" using wire by (cases wire) auto
  obtain hs0 x where s0: "ServerHandshake_new S ?s (vsc_context config) = Inr hs0"
    and s1: "ServerHandshake_read_initial S hs0 initial = Inr (hs, x)" "ServerHandshake_peer_static_key S hs = Some key"
    using auth unfolding authenticate_handshake_def ctx Let_def
    by (auto split: sum.splits option.splits if_splits prod.splits)
  have init: "sn_initiator S (sk_bytes client) (pub (sk_bytes ?s)) (context_bytes (vsc_context config)) = Inr h"
    and resp: "sn_responder S (sk_bytes ?s) (context_bytes (vsc_context config)) = Inr hs0"
    and w1: "sn_write S h [] MAX_NOISE_MESSAGE_LEN = Inr (h1, initial)"
    using begun s0
    by (simp_all add: ClientHandshake_new_def ServerHandshake_new_def ClientHandshake_write_initial_def
        write_handshake_message_def result_simps)
  from noise_ik_first [OF ik init resp w1] obtain hs1 where
    r1: "\<forall>room. length ([] :: bytes) \<le> room \<longrightarrow> sn_read S hs0 initial room = Inr (hs1, [])"
    and st: "sn_remote_static S hs1 = Some (pub (sk_bytes client))" "ik_answer S (pub (sk_bytes ?s)) h1 hs1" by blast
  have "hs = hs1"
    using s1(1) r1 begun(3) by (simp add: ServerHandshake_read_initial_def read_handshake_message_def)
  with s1(2) st pubs show "key = PublicKey (pub (sk_bytes client))" "sn_remote_static S hs = Some (pub (sk_bytes client))"
    "ik_answer S (pub (sk_bytes ?s)) h1 hs"
    by (simp_all add: ServerHandshake_peer_static_key_def PublicKey_from_slice_def)
qed

lemma finished_handshake:
  assumes "sn_remote_static S hs = Some cpub" "length cpub = KEY_LEN" "ik_answer S spub h1 hs" "length spub = KEY_LEN"
    and fin: "ServerHandshake_finish S hs p = Inr (crypto, response)" "length response \<le> MAX_NOISE_MESSAGE_LEN"
  shows "\<exists>ti tr k k'. ClientHandshake_finish S h1 response = Inr (SecureSession_new ti k, p) \<and>
      crypto = SecureSession_new tr k' \<and> noise_pair ti tr \<and> noise_pair tr ti"
proof -
  from server_finish [OF fin(1) assms(1,2)] obtain hs2 tr where
    w2: "sn_write S hs p MAX_NOISE_MESSAGE_LEN = Inr (hs2, response)"
    and tr: "sn_transport S hs2 = Inr tr" "crypto = SecureSession_new tr (PublicKey cpub)" .
  from ik_answer_second [OF assms(3) w2] obtain h2 ti tr' where
    r2: "\<forall>room'. length p \<le> room' \<longrightarrow> sn_read S h1 response room' = Inr (h2, p)" "length p \<le> length response"
      "sn_remote_static S h2 = Some spub" "sn_transport S h2 = Inr ti"
    and tr': "sn_transport S hs2 = Inr tr'" "noise_pair ti tr'" "noise_pair tr' ti" .
  from client_finish [OF r2(1,2) fin(2) r2(3) assms(4) r2(4)] tr tr' show ?thesis by auto
qed

text \<open>What the MouseMorph codec has encoded it decodes again, on clocks within an epoch of each other.\<close>

lemma morph_payload_decodes:
  assumes "morph_lib_ok L" "length (mk_bytes (mc_key codec)) = 32" "length random = FRAME_RANDOM_LEN"
    and "unat t1 \<le> unat t2 + unat (epoch_seconds (mc_profile codec))"
      "unat t2 \<le> unat t1 + unat (epoch_seconds (mc_profile codec))"
    and "MorphCodec_encode_payload L (Some t1) (Inr random) codec inner direction = Inr frame"
  shows "MorphCodec_decode L (Some t2) codec frame direction = Inr (DecodedPayload (mc_profile codec), inner)"
    "MIN_FRAME_LEN + length inner \<le> MAX_DATAGRAM_LEN"
proof -
  have enc: "encode_frame L (Some t1) (Inr random) (mc_key codec) (mc_profile codec) Payload inner direction = Inr frame"
    using assms(6) by (simp add: MorphCodec_encode_payload_def)
  then show size: "MIN_FRAME_LEN + length inner \<le> MAX_DATAGRAM_LEN"
    by (auto simp: encode_frame_def Let_def split: if_splits)
  from frame_roundtrip [OF assms(1-3) size assms(4,5), of Payload direction] enc
  show "MorphCodec_decode L (Some t2) codec frame direction = Inr (DecodedPayload (mc_profile codec), inner)"
    by (auto simp: MorphCodec_decode_def)
qed

section \<open>The daemon's answer\<close>

lemma receive_handshake:
  assumes "decode_wire_into (da_wire L) (da_base64 L) (wo_hash_order w) (wo_clock w) frame config (dm_registry d) (dm_router d) =
      (Some (wire, handshake_request sid initial), router')"
    and "receive_datagram L w config peer frame d = (outs, d')" "outs \<noteq> []"
  obtains limiter where "handle_handshake L w config peer
      \<lparr>dg_header = \<lparr>hdr_kind = HandshakeInit, hdr_flags = 0, hdr_session_id = sid, hdr_sequence = 0\<rparr>, dg_payload = initial\<rparr>
      wire (d\<lparr>dm_router := router', dm_limiter := limiter\<rparr>) = (outs, d')"
  using assms
  by (auto simp: receive_datagram_def handshake_request_def datagram.dec_enc Let_def split: prod.splits if_splits)

lemma new_session_found:
  assumes "fst (replace_client i session ss)"
  shows "ss_by_id (snd (replace_client i session ss)) i = Some (length (ss_heap ss))"
    "ss_by_address (snd (replace_client i session ss)) (rs_client_address session) = Some (length (ss_heap ss))"
    "ss_heap (snd (replace_client i session ss)) ! length (ss_heap ss) = session"
  using assms by (simp_all add: replace_client_def Let_def split: if_splits)

text \<open>
  An answer of the daemon to a client's first datagram: it comes from a session installed for the client's lease,
  whose handshake the client completes.
\<close>

lemma daemon_answers:
  assumes routed: "decode_wire_into (da_wire L) (da_base64 L) (wo_hash_order w) (wo_clock w) frame config (dm_registry d) (dm_router d) =
      (Some (wire, handshake_request sid initial), router')"
    and answered: "receive_datagram L w config peer frame d = ([SendTo peer answer], d')"
    and ik: "noise_ik (wo_snow w) pub (sk_bytes client) (sk_bytes (vsc_server_private_key config)) (context_bytes (vsc_context config))"
    and pubs: "length (pub (sk_bytes client)) = KEY_LEN" "length (pub (sk_bytes (vsc_server_private_key config))) = KEY_LEN"
    and begun: "ClientHandshake_new (wo_snow w) client (PublicKey (pub (sk_bytes (vsc_server_private_key config)))) (vsc_context config) = Inr h"
      "ClientHandshake_write_initial (wo_snow w) h [] = Inr (h1, initial)" "length initial \<le> MAX_NOISE_MESSAGE_LEN"
    and wire: "\<And>key codec. wire \<noteq> SSpeedy key codec"
    and unknown: "\<And>cached. dm_cache d (PublicKey (pub (sk_bytes client))) = Some cached \<Longrightarrow> ch_request cached \<noteq> initial"
    and small: "\<And>response. fst (encode_server (da_wire L) (wo_send_clock w) (wo_random w) wire response) = Inr answer \<Longrightarrow>
      length response \<le> MAX_NOISE_MESSAGE_LEN"
  obtains lease response ti tr k k' where
    "registry_authorize (dm_registry d) (PublicKey (pub (sk_bytes client))) = Some lease"
    "fst (encode_server (da_wire L) (wo_send_clock w) (wo_random w) wire
       (Datagram_encode \<lparr>dg_header = \<lparr>hdr_kind = HandshakeResponse, hdr_flags = 0, hdr_session_id = sid, hdr_sequence = 0\<rparr>,
          dg_payload = response\<rparr>)) = Inr answer"
    "ClientHandshake_finish (wo_snow w) h1 response = Inr (SecureSession_new ti k, SessionParameters_encode (offered config wire lease))"
    "noise_pair ti tr" "noise_pair tr ti"
    "ss_by_id (dm_sessions d') sid = Some (length (ss_heap (dm_sessions d)))"
    "ss_by_address (dm_sessions d') (dl_address lease) = Some (length (ss_heap (dm_sessions d)))"
    "session_at d' (length (ss_heap (dm_sessions d))) =
       new_session L peer wire d lease sid (session_mtu wire (tun_mtu (vsc_tun config))) (SecureSession_new tr k')"
proof -
  let ?dg = "\<lparr>dg_header = \<lparr>hdr_kind = HandshakeInit, hdr_flags = 0, hdr_session_id = sid, hdr_sequence = 0\<rparr>, dg_payload = initial\<rparr>"
  obtain limiter where handled: "handle_handshake L w config peer ?dg wire (d\<lparr>dm_router := router', dm_limiter := limiter\<rparr>) =
      ([SendTo peer answer], d')"
    by (rule receive_handshake [OF routed answered]) simp
  from handled show ?thesis
  proof (cases rule: handle_handshake_cases)
    case (repeated hs key lease cached out wire')
    then have "key = PublicKey (pub (sk_bytes client))"
      using authenticated_client(1) [OF ik pubs(1) begun wire] by auto
    with repeated(2,3) unknown show ?thesis by simp
  next
    case (answered hs key lease crypto response)
    note auth = authenticated_client [OF ik pubs(1) begun wire answered(1) [simplified]]
    obtain out: "fst (replace_client sid (new_session L peer wire d lease sid (session_mtu wire (tun_mtu (vsc_tun config))) crypto)
        (dm_sessions d))"
      "fst (encode_server (da_wire L) (wo_send_clock w) (wo_random w) wire (handshake_answer ?dg response)) = Inr answer"
      using answered(5) by (auto simp: new_session_def)
    have "length response \<le> MAX_NOISE_MESSAGE_LEN"
      using small [OF out(2)] by (simp add: handshake_answer_def Datagram_encode_def)
    from finished_handshake [OF auth(2) pubs(1) auth(3) pubs(2) answered(3) this] obtain ti tr k k' where
      fin: "ClientHandshake_finish (wo_snow w) h1 response = Inr (SecureSession_new ti k, SessionParameters_encode (offered config wire lease))"
        "crypto = SecureSession_new tr k'" "noise_pair ti tr" "noise_pair tr ti" by blast
    have "registry_authorize (dm_registry d) (PublicKey (pub (sk_bytes client))) = Some lease"
      using authenticate_handshake_Some [OF answered(1)] auth(1) by simp
    then show ?thesis
      using that [OF _ _ fin(1,3,4)] out answered(6) new_session_found [OF out(1)]
      by (simp add: handshake_answer_def fin(2) new_session_def split_beta)
  qed simp
qed

lemma handle_handshake_answers:
  assumes "authenticate_handshake L (wo_snow w) config wire (dg_payload datagram) (dm_registry d) = Some (hs, key, lease)"
    and "dm_cache d key = None" "ss_by_id (dm_sessions d) (hdr_session_id (dg_header datagram)) = None"
    and "ServerHandshake_finish (wo_snow w) hs (SessionParameters_encode (offered config wire lease)) = Inr (crypto, response)"
    and "encode_server (da_wire L) (wo_send_clock w) (wo_random w) wire (handshake_answer datagram response) = (Inr out, wire')"
  shows "\<exists>d'. handle_handshake L w config peer datagram wire d = ([SendTo peer out], d')"
  using assms(4,5)
  by (simp add: handle_handshake_def assms(1-3) offered_def handshake_answer_def replace_client_def Let_def split_beta)

section \<open>The client's wait\<close>

lemma morph_wire_kept:
  "snd (ClientWire_encode W now rng (WMorph codec) inner) = WMorph codec"
  "snd (ClientWire_decode W now (WMorph codec) outer) = WMorph codec"
  by simp_all

lemma handshake_step_wire:
  assumes "handshake_step W S retryable rejected i h request deadline turn next_retransmit (WMorph codec) = (outs, r, next', wire')"
  shows "wire' = WMorph codec"
  using assms
  by (auto simp: handshake_step_def send_request_def Let_def split_beta split: if_splits sum.splits option.splits)

text \<open>A client that still waits after some turns acts on the next one as at that turn's start.\<close>

lemma handshake_loop_waits:
  assumes "fst (snd (handshake_loop W S retryable rejected i h request deadline before next_retransmit (WMorph codec))) = None"
  shows "\<exists>next'. fst (snd (handshake_loop W S retryable rejected i h request deadline (before @ turns) next_retransmit (WMorph codec))) =
    fst (snd (handshake_loop W S retryable rejected i h request deadline turns next' (WMorph codec)))"
  using assms
proof (induction before arbitrary: next_retransmit)
  case (Cons turn before)
  obtain outs r next' wire' where step:
    "handshake_step W S retryable rejected i h request deadline turn next_retransmit (WMorph codec) = (outs, r, next', wire')"
    by (metis prod_cases4)
  with Cons.prems have "r = None" by (cases r) auto
  with step handshake_step_wire [OF step] Cons.IH [of next'] Cons.prems show ?case by (auto simp: split_beta)
qed auto

text \<open>The turn in which the answer arrives, whether or not it also retransmits the request.\<close>

lemma handshake_step_answered:
  assumes "ht_now turn < deadline" "\<And>wait. ht_timeout_set turn wait = None" "\<And>wait. ht_received turn wait = Inr answer"
    and "\<exists>out. fst (send_request W retryable (ht_send turn) request (WMorph codec)) = Inr out"
    and "fst (ClientWire_decode W (ht_decode_clock turn) (WMorph codec) answer) = decoded"
    and "handshake_reply S rejected i h decoded = Some r"
  shows "fst (snd (handshake_step W S retryable rejected i h request deadline turn next_retransmit (WMorph codec))) = Some r"
proof -
  obtain out where "send_request W retryable (ht_send turn) request (WMorph codec) = (Inr out, WMorph codec)"
    using assms(4) by (auto simp: send_request_def split: sum.splits option.splits if_splits)
  with assms show ?thesis by (simp add: handshake_step_def Let_def split_beta)
qed

text \<open>An attempt of a client that still waits when a response arrives that completes its handshake.\<close>

lemma attempt_is_answered:
  assumes begun: "ClientHandshake_new S (vcc_client_private_key cc) (vcc_server_public_key cc) (vcc_context cc) = Inr h"
      "ClientHandshake_write_initial S h [] = Inr (h1, initial)"
      "aw_session_random a = Inr id_bytes" "sid = from_be id_bytes" "aw_started a < deadline"
      "snd (send_prelude W (aw_cover_random a) (aw_covers a) (WMorph codec)) = Inr ()"
      "fst (send_request W is_retryable_network (aw_first a) (handshake_request sid initial) (WMorph codec)) = Inr frame"
    and waiting: "aw_turns a = before @ [turn]"
      "fst (snd (handshake_loop W S is_retryable_network InvalidHandshakeResponse sid h1 (handshake_request sid initial)
         deadline before (aw_started a + HANDSHAKE_RETRANSMIT) (WMorph codec))) = None"
    and arrives: "ht_now turn < deadline" "\<And>wait. ht_timeout_set turn wait = None" "\<And>wait. ht_received turn wait = Inr answer"
      "\<exists>out. fst (send_request W is_retryable_network (ht_send turn) (handshake_request sid initial) (WMorph codec)) = Inr out"
      "fst (ClientWire_decode W (ht_decode_clock turn) (WMorph codec) answer) = Inr (True, Datagram_encode
        \<lparr>dg_header = \<lparr>hdr_kind = HandshakeResponse, hdr_flags = 0, hdr_session_id = sid, hdr_sequence = 0\<rparr>, dg_payload = response\<rparr>)"
    and fin: "ClientHandshake_finish S h1 response = Inr (crypto, SessionParameters_encode p)" "SessionParameters_valid p"
  shows "fst (snd (negotiate_attempt W S cc deadline a (WMorph codec))) =
    Some (Inr (TunnelDataPlane_new sid (unat (sp_mtu p)) crypto, p))"
proof -
  let ?request = "handshake_request sid initial"
  let ?loop = "\<lambda>turns next_retransmit. handshake_loop W S is_retryable_network InvalidHandshakeResponse sid h1 ?request deadline
    turns next_retransmit (WMorph codec)"
  have "handshake_reply S InvalidHandshakeResponse sid h1 (Inr (True, Datagram_encode
      \<lparr>dg_header = \<lparr>hdr_kind = HandshakeResponse, hdr_flags = 0, hdr_session_id = sid, hdr_sequence = 0\<rparr>, dg_payload = response\<rparr>)) =
      Some (Inr (TunnelDataPlane_new sid (unat (sp_mtu p)) crypto, p))"
    using fin by (simp add: handshake_reply_def datagram.dec_enc session_parameters.dec_enc)
  from handshake_step_answered [OF arrives this]
  have "fst (snd (?loop [turn] n)) = Some (Inr (TunnelDataPlane_new sid (unat (sp_mtu p)) crypto, p))" for n
    by (simp add: split_beta split: option.splits prod.splits)
  with handshake_loop_waits [OF waiting(2), of "[turn]"]
  have loop: "fst (snd (?loop (aw_turns a) (aw_started a + HANDSHAKE_RETRANSMIT))) =
      Some (Inr (TunnelDataPlane_new sid (unat (sp_mtu p)) crypto, p))" by (auto simp: waiting(1))
  obtain covers where prelude: "send_prelude W (aw_cover_random a) (aw_covers a) (WMorph codec) = (covers, Inr ())"
    using begun(6) by (metis prod.collapse)
  have first: "send_request W is_retryable_network (aw_first a) ?request (WMorph codec) = (Inr frame, WMorph codec)"
    using begun(7) by (auto simp: send_request_def split: sum.splits option.splits if_splits)
  show ?thesis
    using begun(1-5) loop
    by (simp add: negotiate_attempt_def await_session_def prelude first [unfolded begun(4)] random_session_id_def split_beta)
qed

section \<open>Masking\<close>

text \<open>
  The two ends of a session mask alike: both not at all, both with one MouseMorph codec, or both with Speedy codecs of the same
  keys. Clocks agree when they are within an epoch of the mode. The tables of the daemon name the owner of a frame's first eight
  bytes: nobody for a bare datagram, the device otherwise.
\<close>

fun wires_agree :: "wire_libs \<Rightarrow> ClientWire \<Rightarrow> WireMode \<Rightarrow> bool" where
  "wires_agree W WLegacy SLegacy = True"
| "wires_agree W (WMorph c) (SMorph pk s) = (s = c \<and> length (mk_bytes (mc_key c)) = 32)"
| "wires_agree W (WSpeedy c) (SSpeedy pk s) = (cache_ok (wl_speedy W) c \<and> cache_ok (wl_speedy W) s \<and> sc_keys s = sc_keys c)"
| "wires_agree W _ _ = False"

definition wire_epoch :: "ClientWire \<Rightarrow> nat" where
  "wire_epoch wire = (case wire of WMorph c \<Rightarrow> unat (epoch_seconds (mc_profile c)) | WSpeedy _ \<Rightarrow> 10 | WLegacy \<Rightarrow> 0)"

definition clocks_agree :: "ClientWire \<Rightarrow> u64 \<Rightarrow> u64 \<Rightarrow> bool" where
  "clocks_agree wire t t' \<longleftrightarrow> wire = WLegacy \<or> unat t \<le> unat t' + wire_epoch wire \<and> unat t' \<le> unat t + wire_epoch wire"

fun named_by :: "wire_libs \<Rightarrow> MorphRoute option \<times> MorphRouter \<Rightarrow> bytes \<Rightarrow> WireMode \<Rightarrow> bool" where
  "named_by W (found, router) frame SLegacy \<longleftrightarrow> found = None \<and>
     (length frame < 8 \<or> take 8 frame \<notin> ro_ambiguous router \<and> ro_speedy_routes router (take 8 frame) = None)"
| "named_by W (found, router) frame (SMorph pk codec) \<longleftrightarrow>
     found = Some \<lparr>mr_public_key = pk, mr_key = mc_key codec, mr_profile = mc_profile codec\<rparr>"
| "named_by W (found, router) frame (SSpeedy pk codec) \<longleftrightarrow> found = None \<and> take 8 frame \<notin> ro_ambiguous router \<and>
     (\<exists>entry. ro_speedy_routes router (take 8 frame) = Some (pk, entry) \<and> cache_ok (wl_speedy W) entry \<and> sc_keys entry = sc_keys codec)"

lemma speedy_frame_decodes:
  assumes "speedy_lib_ok L" "cache_ok L c1" "cache_ok L c2" "sc_keys c2 = sc_keys c1"
    and "unat t1 \<le> unat t2 + 10" "unat t2 \<le> unat t1 + 10" "fst (SpeedyCodec_encode L (Some t1) c1 inner d) = Inr frame"
  shows "fst (SpeedyCodec_decode L (Some t2) c2 frame d) = Inr inner" "8 \<le> length frame"
proof -
  have enc: "spec_encode L c1 inner d (t1 div EPOCH_SECONDS) = Inr frame"
    using assms(7) encode_at_spec(1) [OF assms(2)] by (simp add: SpeedyCodec_encode_def sp_current_epoch_def)
  then have "validate_inner inner d = Inr ()" by (simp add: spec_encode_Inr)
  from speedy_crosses [OF assms(1-3) assms(4) [symmetric] this assms(5,6)] assms(7)
  show "fst (SpeedyCodec_decode L (Some t2) c2 frame d) = Inr inner" by auto
  show "8 \<le> length frame"
    using enc length_sp_routing_tag [OF assms(1)] by (auto simp: spec_encode_Inr Let_def speedy_consts)
qed

lemma upward_frame_decodes:
  assumes libs: "morph_lib_ok (wl_morph W)" "speedy_lib_ok (wl_speedy W)"
    and wires: "wires_agree W wire mode" "clocks_agree wire t t'" "clk AtDecode = Some t'" "length random = FRAME_RANDOM_LEN"
    and sent: "fst (ClientWire_encode W (Some t) (Inr random) wire inner) = Inr frame"
    and named: "named_by W (resolve W B hash_order clk frame config R router) frame mode"
  shows "\<exists>mode' router'. decode_wire_into W B hash_order clk frame config R router = (Some (mode', inner), router') \<and> wire_matches mode mode'"
proof -
  obtain found r1 where res: "resolve W B hash_order clk frame config R router = (found, r1)" by fastforce
  note named = named [unfolded res]
  from wires(1) show ?thesis
  proof (cases rule: wires_agree.elims(2))
    case 1
    then show ?thesis using sent named by (auto simp: decode_wire_into_def res)
  next
    case (2 c pk s)
    then have "MorphCodec_decode (wl_morph W) (Some t') c frame ClientToServer = Inr (DecodedPayload (mc_profile c), inner)"
      using morph_payload_decodes(1) [OF libs(1) _ wires(4), of c t t' inner ClientToServer frame] wires(2) sent
      by (simp add: clocks_agree_def wire_epoch_def result_simps)
    then show ?thesis using 2 named wires(3) by (cases c) (simp add: decode_wire_into_def res)
  next
    case (3 c pk s)
    then obtain entry where entry: "found = None" "take 8 frame \<notin> ro_ambiguous r1"
        "ro_speedy_routes r1 (take 8 frame) = Some (pk, entry)" "cache_ok (wl_speedy W) entry" "sc_keys entry = sc_keys c"
      using named by auto
    have "fst (SpeedyCodec_encode (wl_speedy W) (Some t) c inner SpClientToServer) = Inr frame"
      using sent 3 by (auto simp: split_beta result_simps)
    then have "fst (SpeedyCodec_decode (wl_speedy W) (Some t') entry frame SpClientToServer) = Inr inner" "8 \<le> length frame"
      using speedy_frame_decodes [OF libs(2) _ entry(4,5), of t t'] wires(2) 3 by (simp_all add: clocks_agree_def wire_epoch_def)
    then show ?thesis
      using 3 entry(1-3) wires(3)
      by (cases "SpeedyCodec_decode (wl_speedy W) (Some t') entry frame SpClientToServer") (simp add: decode_wire_into_def res)
  qed
qed

lemma downward_frame_decodes:
  assumes libs: "morph_lib_ok (wl_morph W)" "speedy_lib_ok (wl_speedy W)"
    and wires: "wires_agree W wire mode" "clocks_agree wire t t'" "length random = FRAME_RANDOM_LEN"
    and sent: "fst (encode_server W (Some t) (Inr random) mode inner) = Inr frame"
  shows "fst (ClientWire_decode W (Some t') wire frame) = Inr (True, inner)"
  using wires(1)
proof (cases rule: wires_agree.elims(2))
  case 1
  then show ?thesis using sent by simp
next
  case (2 c pk s)
  then show ?thesis
    using morph_payload_decodes(1) [OF libs(1) _ wires(3), of c t t' inner ServerToClient frame] wires(2) sent
    by (simp add: clocks_agree_def wire_epoch_def result_simps)
next
  case (3 c pk s)
  then have "fst (SpeedyCodec_encode (wl_speedy W) (Some t) s inner SpServerToClient) = Inr frame"
    using sent by (auto simp: split_beta result_simps)
  then show ?thesis
    using 3 speedy_frame_decodes(1) [OF libs(2), of s c t t'] wires(2) by (simp add: clocks_agree_def wire_epoch_def split_beta result_simps)
qed

text \<open>A frame that the daemon has opened under a MouseMorph mode was named so by its tables.\<close>

lemma opened_frame_is_named:
  assumes "decode_wire_into W B hash_order clk frame config R router = (Some (SMorph pk codec, inner), router')"
  shows "named_by W (resolve W B hash_order clk frame config R router) frame (SMorph pk codec)"
  using assms
  by (auto simp: decode_wire_into_def MorphCodec_decode_def split: if_splits option.splits sum.splits prod.splits DecodedFrame.splits
      dest!: decode_frame_profile)

section \<open>Packets\<close>

text \<open>A datagram of the client's sending half, given to the daemon that holds the other end.\<close>

lemma daemon_writes_packet:
  assumes found: "ss_by_id (dm_sessions d) sid = Some i" "i < length (ss_heap (dm_sessions d))"
      "is_active (dm_registry d) (rs_authorization (session_at d i))" "wire_matches (rs_wire (session_at d i)) wire"
    and ends: "awaits s (rs_inbound (session_at d i))" "ts_session_id s = sid"
    and sent: "TunnelSender_encode_ip_into s packet = (Inr out, s')" "Ipv4Packet_parse packet = Inr ip"
      "ip_source ip = rs_client_address (session_at d i)"
    and routed: "decode_wire_into (da_wire L) (da_base64 L) (wo_hash_order w) (wo_clock w) frame config (dm_registry d) (dm_router d) =
        (Some (wire, out), router')" "wo_tun_accepts w"
  shows "\<exists>d'. receive_datagram L w config peer frame d = ([WriteTun (ip_bytes ip)], d') \<and>
    rs_peer (session_at d' i) = peer \<and> awaits s' (rs_inbound (session_at d' i))"
proof -
  let ?r = "rs_inbound (session_at d i)"
  from sent_packet_arrives [OF ends(1) sent(1)] sent(2) obtain
    delivered: "fst (receiver_step ?r out) = Inr (DecodedIp (ip_bytes ip))" "awaits s' (snd (receiver_step ?r out))"
    by (auto simp: tunnelled_def split: if_splits)
  obtain c where out: "out = Datagram_encode \<lparr>dg_header = \<lparr>hdr_kind = Data, hdr_flags = 0, hdr_session_id = ts_session_id s,
      hdr_sequence = ts_next_sequence s\<rparr>, dg_payload = c\<rparr>"
    using sent by (auto simp: TunnelSender_encode_ip_into_def TunnelSender_encode_into_Inr split: if_splits)
  let ?d = "\<lparr>dg_header = \<lparr>hdr_kind = Data, hdr_flags = 0, hdr_session_id = sid, hdr_sequence = ts_next_sequence s\<rparr>, dg_payload = c\<rparr>"
  have dec: "TunnelReceiver_decode_into ?r ?d = (Inr (DecodedIp (ip_bytes ip)), snd (receiver_step ?r out))"
    using delivered(1) unfolding out by (simp add: receiver_step_def datagram.dec_enc ends(2) prod_eq_iff)
  have parse: "Ipv4Packet_parse (ip_bytes ip) = Inr ip" by (rule Ipv4Packet_parse_idem [OF sent(2)])
  have "\<exists>d'. handle_client_data w peer ?d wire (d\<lparr>dm_router := router'\<rparr>) = ([WriteTun (ip_bytes ip)], d') \<and>
      rs_peer (session_at d' i) = peer \<and> awaits s' (rs_inbound (session_at d' i))"
    using found(2) delivered(2)
    by (simp add: handle_client_data_def find_session_by_id_def found dec parse sent(3) routed(2) put_session_def adopt_peer_def Let_def)
  then show ?thesis
    using routed(1) unfolding out ends(2)
    by (simp add: receive_datagram_def datagram.dec_enc Let_def encoded_looks_like)
qed

text \<open>A packet for the client's address, taken by the daemon from its TUN device, at the client.\<close>

lemma client_writes_packet:
  assumes found: "ss_by_address (dm_sessions d) (ip_destination ip) = Some i"
    and ends: "awaits (rs_outbound (session_at d i)) (cl_receiver c)"
    and sent: "Ipv4Packet_parse packet = Inr ip" "encode_tun_packet L w packet d = (Some item, d')"
    and masked: "\<And>inner. fst (encode_server (da_wire L) (wo_send_clock w) (wo_random w) (rs_wire (session_at d i)) inner) =
        Inr (ti_datagram item) \<Longrightarrow> fst (ClientWire_decode (da_wire L) (dw_clock v) (cl_wire c) (ti_datagram item)) = Inr (True, inner)"
    and device: "dw_tun v = None"
  shows "\<exists>c'. process_datagram (da_wire L) v (ti_datagram item) c = (Inr (), c') \<and> cl_log c' = cl_log c @ [OutTun (ip_bytes ip)]"
proof -
  obtain out s' wire' where enc: "TunnelSender_encode_ip_into (rs_outbound (session_at d i)) (ip_bytes ip) = (Inr out, s')"
      "encode_server (da_wire L) (wo_send_clock w) (wo_random w) (rs_wire (session_at d i)) out = (Inr (ti_datagram item), wire')"
    using sent found
    by (auto simp: encode_tun_packet_def find_session_by_address_def Let_def split: if_splits sum.splits prod.splits)
  have parse: "Ipv4Packet_parse (ip_bytes ip) = Inr ip" by (rule Ipv4Packet_parse_idem [OF sent(1)])
  from sent_packet_arrives [OF ends enc(1)] parse
  have "fst (receiver_step (cl_receiver c) out) = Inr (DecodedIp (ip_bytes ip))" by (auto simp: tunnelled_def split: if_splits)
  then obtain dg r' where dec: "Datagram_decode out = Inr dg"
      "TunnelReceiver_decode_into (cl_receiver c) dg = (Inr (DecodedIp (ip_bytes ip)), r')"
    by (auto simp: receiver_step_def prod_eq_iff split: sum.splits)
  obtain wire where "ClientWire_decode (da_wire L) (dw_clock v) (cl_wire c) (ti_datagram item) = (Inr (True, out), wire)"
    using masked [of out] enc(2) by (metis fst_conv prod.collapse)
  with dec device show ?thesis
    by (simp add: process_datagram_def decode_received_def Let_def write_tun_def log_out_def)
qed

section \<open>A meeting\<close>

text \<open>A world in which a client connects: one registered device, a handshake without secrecy, clocks ten seconds apart.\<close>

definition shared_snow :: "(bytes \<times> bytes option) Snow" where
  "shared_snow = plain_snow\<lparr>sn_initiator := (\<lambda>c spub prologue. Inr (replicate 32 1, Some spub)),
     sn_responder := (\<lambda>s prologue. Inr (replicate 32 1, None))\<rparr>"

definition meeting_world :: "(bytes \<times> bytes option) world" where
  "meeting_world = \<lparr>wo_clock = sample_clock, wo_send_clock = Some 3020, wo_random = Inr (replicate 45 7), wo_now = 0,
     wo_hash_order = id, wo_tun_accepts = True, wo_snow = shared_snow\<rparr>"

definition meeting_daemon :: Daemon where
  "meeting_daemon = daemon_start (one_device_registry\<lparr>dr_leases := [PublicKey (replicate 32 1) \<mapsto> seed_lease 1 0]\<rparr>) sample_store"

definition meeting_codec :: MorphCodec where
  "meeting_codec = \<lparr>mc_key = MorphKey (replicate 32 9), mc_profile = Quiet\<rparr>"

abbreviation meeting_request :: bytes where
  "meeting_request \<equiv> handshake_request 0x0102030405060708 (replicate 32 1)"

definition meeting_attempt :: "bytes \<Rightarrow> attempt_world" where
  "meeting_attempt answer = sample_attempt
     \<lparr>aw_first := \<lparr>sw_clock = Some 3010, sw_random = Inr (replicate 45 7), sw_sent = None\<rparr>,
      aw_turns := [sample_turn\<lparr>ht_now := 1, ht_received := (\<lambda>_. Inl (io_error_new TimedOut))\<rparr>,
                   sample_turn\<lparr>ht_received := (\<lambda>_. Inr answer), ht_decode_clock := Some 3030,
                     ht_send := \<lparr>sw_clock = Some 3020, sw_random = Inr (replicate 45 5), sw_sent = None\<rparr>\<rparr>]\<rparr>"

lemma shared_snow_ik: "noise_ik shared_snow (\<lambda>_. replicate 32 1) c s prologue"
  using plain_transport_pair
  by (auto simp: noise_ik_def ik_answer_def shared_snow_def plain_snow_def split: if_splits)

lemma meeting_refresh:
  "refresh routing_libs char_base64 id sample_clock 3000 sample_server_config (dm_registry meeting_daemon) MorphRouter_default =
     sample_refresh"
proof -
  have "registered_keys char_base64 (dm_registry meeting_daemon) = registered_keys char_base64 one_device_registry"
    by (simp add: meeting_daemon_def daemon_start_def registered_keys_def)
  then show ?thesis by (simp add: sample_refresh_def refresh_def)
qed

lemma meeting_pub: "SecretKey_public_key (wl_crypto routing_libs) k = PublicKey (replicate 32 1)"
  by (simp add: SecretKey_public_key_def routing_libs_def plain_wire_libs_def plain_crypto_lib_def)

lemma routing_libs_ok:
  "dh_commutes (wl_crypto routing_libs)" "hkdf_length (wl_crypto routing_libs)" "morph_lib_ok (wl_morph routing_libs)"
  using plain_crypto_lib_ok tagging_morph_lib_ok by (simp_all add: routing_libs_def plain_wire_libs_def)

lemma meeting_config: "from_config routing_libs (sample_client PMorphQuiet) = Inr (WMorph meeting_codec)"
  by (simp add: routing_libs_def plain_wire_libs_def sample_client_def from_config_Morph derive_morph_key_def
      derive_wire_key_def plain_crypto_lib_def KEY_LEN_def meeting_codec_def)

lemma meeting_encodes:
  assumes "MIN_FRAME_LEN + length inner \<le> MAX_DATAGRAM_LEN" "length random = 45"
  shows "\<exists>frame. MorphCodec_encode_payload (wl_morph routing_libs) (Some t) (Inr random) meeting_codec inner direction = Inr frame"
  using frame_roundtrip [OF routing_libs_ok(3), of "MorphKey (replicate 32 9)" random inner t t Quiet Payload direction] assms
  by (auto simp: MorphCodec_encode_payload_def meeting_codec_def morph_consts)

lemma meeting_frame:
  assumes "MorphCodec_encode_payload (wl_morph routing_libs) (Some 3010) (Inr (replicate 45 7)) meeting_codec inner ClientToServer = Inr frame"
    and "sample_refresh = (Inr (), router')"
  shows "take 8 frame \<notin> ro_ambiguous router'"
proof -
  have "encode_frame (wl_morph routing_libs) (Some 3010) (Inr (replicate 45 7)) (MorphKey (replicate 32 9)) Quiet Payload
      inner ClientToServer = Inr frame"
    using assms(1) by (simp add: MorphCodec_encode_payload_def meeting_codec_def)
  from encode_frame_tag(1) [OF routing_libs_ok(3) this] have tag: "take 8 frame = sample_tag"
    by (simp add: routing_libs_def tagging_tag sample_tag_def)
  have "router_sound routing_libs sample_server_config router'"
    using refresh_sound [OF router_sound_default, of routing_libs sample_server_config char_base64 id sample_clock 3000
        one_device_registry, folded sample_refresh_def] unfolding assms(2) by simp
  from shown_route_cases(1) [OF this, of "take 8 frame"]
    refresh_shown(1) [OF router_sound_default assms(2) [unfolded sample_refresh_def], of "take 8 frame"]
  show ?thesis by (simp add: tag sample_owners)
qed

lemma meeting_facts:
  "vsc_server_public_key sample_server_config = PublicKey (replicate 32 1)"
  "vcc_server_public_key (sample_client PMorphQuiet) = PublicKey (replicate 32 1)"
  "vcc_context (sample_client PMorphQuiet) = vsc_context sample_server_config"
  "ro_epoch MorphRouter_default = None" "mc_profile meeting_codec = Quiet" "length meeting_request = 52"
  "dm_registry meeting_daemon = one_device_registry\<lparr>dr_leases := [PublicKey (replicate 32 1) \<mapsto> seed_lease 1 0]\<rparr>"
  "dm_router meeting_daemon = MorphRouter_default" "dm_cache meeting_daemon = Map.empty"
  by (simp_all add: sample_server_config_def sample_client_def MorphRouter_default_def meeting_codec_def handshake_request_def
      Datagram_encode_def Header_encode_def meeting_daemon_def daemon_start_def)

lemma meeting_registered: "registered_keys char_base64 (dm_registry meeting_daemon) = [PublicKey (replicate 32 1)]"
  using sample_registered by (simp add: meeting_facts registered_keys_def)

lemma meeting_routed:
  assumes "MorphCodec_encode_payload (wl_morph routing_libs) (Some 3010) (Inr (replicate 45 7)) meeting_codec inner ClientToServer = Inr frame"
    and "sample_refresh = (Inr (), router')"
  shows "decode_wire_into (da_wire sample_libs) (da_base64 sample_libs) (wo_hash_order meeting_world) (wo_clock meeting_world) frame
      sample_server_config (dm_registry meeting_daemon) (dm_router meeting_daemon) =
    (Some (SMorph (PublicKey (replicate 32 1)) meeting_codec, inner), router')"
proof -
  have "MIN_FRAME_LEN + length inner \<le> MAX_DATAGRAM_LEN"
    using assms(1) by (auto simp: MorphCodec_encode_payload_def encode_frame_def Let_def split: if_splits)
  then have "decode_wire_into routing_libs char_base64 id sample_clock frame sample_server_config (dm_registry meeting_daemon) MorphRouter_default =
      (Some (SMorph (PublicKey (replicate 32 1)) meeting_codec, inner), router')"
    by (intro morph_client_is_routed [OF routing_libs_ok _ _ meeting_config meeting_pub [symmetric], where t = 3010 and random = "replicate 45 7"
          and ?t1.0 = 3000 and ?t2.0 = 3000 and epoch = 3000 and u = "()"])
      (use assms meeting_frame [OF assms] router_sound_default in \<open>simp_all add: meeting_pub meeting_facts(1-6) meeting_registered
         meeting_refresh morph_consts current_epoch_def\<close>)
  then show ?thesis by (simp add: sample_libs_def meeting_world_def meeting_facts(8))
qed

lemma meeting_answer:
  assumes "MorphCodec_encode_payload (wl_morph routing_libs) (Some 3010) (Inr (replicate 45 7)) meeting_codec meeting_request ClientToServer = Inr frame"
    and "sample_refresh = (Inr (), router')"
  shows "\<exists>answer d'. receive_datagram sample_libs meeting_world sample_server_config sample_peer frame meeting_daemon =
    ([SendTo sample_peer answer], d')"
proof -
  let ?pk = "PublicKey (replicate 32 1)"
  let ?wire = "SMorph ?pk meeting_codec"
  let ?params = "offered sample_server_config ?wire (seed_lease 1 0)"
  let ?answer = "Datagram_encode \<lparr>dg_header = \<lparr>hdr_kind = HandshakeResponse, hdr_flags = 0, hdr_session_id = 0x0102030405060708,
      hdr_sequence = 0\<rparr>, dg_payload = replicate 32 1 @ SessionParameters_encode ?params\<rparr>"
  obtain answer where "encode_server (da_wire sample_libs) (wo_send_clock meeting_world) (wo_random meeting_world) ?wire ?answer =
      (Inr answer, ?wire)"
    using meeting_encodes [of ?answer "replicate 45 7" 3020 ServerToClient]
    by (auto simp: sample_libs_def meeting_world_def Datagram_encode_def Header_encode_def SessionParameters_encode_def morph_consts)
  moreover have "authenticate_handshake sample_libs shared_snow sample_server_config ?wire (replicate 32 1) (dm_registry meeting_daemon) =
      Some ((replicate 32 1, Some (replicate 32 1)), ?pk, seed_lease 1 0)"
    by (simp add: authenticate_handshake_def ServerHandshake_new_def shared_snow_def plain_snow_def
        ServerHandshake_read_initial_def read_handshake_message_def MAX_NOISE_MESSAGE_LEN_def
        ServerHandshake_peer_static_key_def PublicKey_from_slice_def KEY_LEN_def registry_authorize_def meeting_facts(7))
  moreover have "ServerHandshake_finish shared_snow (replicate 32 1, Some (replicate 32 1)) (SessionParameters_encode ?params) =
      Inr (SecureSession_new plain_transport ?pk, replicate 32 1 @ SessionParameters_encode ?params)"
    by (simp add: ServerHandshake_finish_def peer_static_key_def shared_snow_def plain_snow_def PublicKey_from_slice_def KEY_LEN_def
        write_handshake_message_def MAX_NOISE_MESSAGE_LEN_def SessionParameters_encode_def ok_or_def)
  ultimately have "\<exists>d'. handle_handshake sample_libs meeting_world sample_server_config sample_peer
      \<lparr>dg_header = \<lparr>hdr_kind = HandshakeInit, hdr_flags = 0, hdr_session_id = 0x0102030405060708, hdr_sequence = 0\<rparr>,
       dg_payload = replicate 32 1\<rparr> ?wire (meeting_daemon\<lparr>dm_router := router', dm_limiter := limiter\<rparr>) = ([SendTo sample_peer answer], d')" for limiter
    by (intro handle_handshake_answers)
      (auto simp: meeting_world_def handshake_answer_def meeting_facts(9) meeting_daemon_def daemon_start_def Sessions_default_def)
  moreover have "fst (allow_at (dm_limiter meeting_daemon) (sa_ip sample_peer) (wo_now meeting_world))"
    using sample_allowed by (simp add: meeting_daemon_def daemon_start_def)
  ultimately show ?thesis
    using meeting_routed [OF assms] by (simp add: receive_datagram_def handshake_request_def datagram.dec_enc split_beta) blast
qed

lemma meeting_handshake:
  "ClientHandshake_new shared_snow k (PublicKey spub) prologue = Inr (replicate 32 1, Some spub)"
  "ClientHandshake_write_initial shared_snow (replicate 32 1, x) [] = Inr ((replicate 32 1, x), replicate 32 1)"
  "(from_be [1, 2, 3, 4, 5, 6, 7, 8] :: u64) = 0x0102030405060708"
  by (simp_all add: ClientHandshake_new_def ClientHandshake_write_initial_def write_handshake_message_def MAX_NOISE_MESSAGE_LEN_def
      shared_snow_def plain_snow_def from_be_def be_value_def)

lemma meeting_attempt_facts:
  "aw_session_random (meeting_attempt answer) = Inr [1, 2, 3, 4, 5, 6, 7, 8]" "aw_started (meeting_attempt answer) = 0"
  "aw_first (meeting_attempt answer) = \<lparr>sw_clock = Some 3010, sw_random = Inr (replicate 45 7), sw_sent = None\<rparr>"
  "send_prelude W (aw_cover_random (meeting_attempt answer)) (aw_covers (meeting_attempt answer)) (WMorph meeting_codec) = ([], Inr ())"
  by (simp_all add: meeting_attempt_def sample_attempt_def send_prelude_def meeting_codec_def)

definition meeting_reply :: bytes where
  "meeting_reply = [0x45, 0, 0, 20, 0, 0, 0, 0, 64, 17, 0, 0, 10, 0, 0, 1, 10, 0, 0, 2]"

lemma meeting_reply_parse:
  "Ipv4Packet_parse meeting_reply =
     Inr \<lparr>ip_bytes = meeting_reply, ip_source = Ipv4Addr 10 0 0 1, ip_destination = Ipv4Addr 10 0 0 2\<rparr>"
  by (simp add: Ipv4Packet_parse_def MINIMUM_HEADER_LEN_def meeting_reply_def from_be_def be_value_def drop_bit_eq_div)

text \<open>The two ends of a session of the meeting, for the lease of 10.0.0.2.\<close>

definition meeting_session :: RuntimeSession where
  "meeting_session = new_session sample_libs sample_peer (SMorph (PublicKey (replicate 32 1)) meeting_codec) meeting_daemon
     (seed_lease 2 0) 9 1280 (SecureSession_new plain_transport (PublicKey (replicate 32 1)))"

definition joined_daemon :: Daemon where
  "joined_daemon = meeting_daemon
     \<lparr>dm_sessions := \<lparr>ss_heap = [meeting_session], ss_by_id = [9 \<mapsto> 0], ss_by_address = [Ipv4Addr 10 0 0 2 \<mapsto> 0]\<rparr>\<rparr>"

definition joined_client :: Client where
  "joined_client = sample_running\<lparr>cl_wire := WMorph meeting_codec\<rparr>"

lemma joined_facts:
  "session_at joined_daemon 0 = meeting_session" "ss_by_id (dm_sessions joined_daemon) 9 = Some 0"
  "ss_by_address (dm_sessions joined_daemon) (Ipv4Addr 10 0 0 2) = Some 0" "length (ss_heap (dm_sessions joined_daemon)) = 1"
  "dm_registry joined_daemon = dm_registry meeting_daemon" "dm_router joined_daemon = dm_router meeting_daemon"
  "rs_client_address meeting_session = Ipv4Addr 10 0 0 2" "rs_authorization meeting_session = 0"
  "rs_wire meeting_session = SMorph (PublicKey (replicate 32 1)) meeting_codec"
  "is_active (dm_registry meeting_daemon) 0"
  by (simp_all add: joined_daemon_def meeting_session_def new_session_def seed_lease_def split_beta meeting_facts(7)
      one_device_registry_def sample_registry_def is_active_def)

lemma joined_ends:
  "awaits (cl_sender joined_client) (rs_inbound meeting_session)" "awaits (rs_outbound meeting_session) (cl_receiver joined_client)"
  "ts_session_id (cl_sender joined_client) = 9" "cl_wire joined_client = WMorph meeting_codec"
  using split_awaits [OF plain_transport_pair, of 9 1280 "PublicKey (replicate 32 1)" "PublicKey []"]
    split_awaits [OF plain_transport_pair, of 9 1280 "PublicKey []" "PublicKey (replicate 32 1)"]
  by (simp_all add: joined_client_def meeting_session_def new_session_def sample_running_def client_start_def sample_negotiated_def split_beta)

lemma joined_senders:
  "sh_transport (ts_crypto (cl_sender joined_client)) = plain_transport" "ts_mtu (cl_sender joined_client) = 1280"
  "ts_next_sequence (cl_sender joined_client) = 0"
  "sh_transport (ts_crypto (rs_outbound meeting_session)) = plain_transport" "ts_mtu (rs_outbound meeting_session) = 1280"
  "ts_next_sequence (rs_outbound meeting_session) = 0"
  by (simp_all add: joined_client_def meeting_session_def new_session_def sample_running_def client_start_def sample_negotiated_def
      TunnelDataPlane_split_def TunnelDataPlane_new_def SecureSession_split_def SecureSession_new_def)

lemma joined_sends:
  assumes "sh_transport (ts_crypto s) = plain_transport" "ts_mtu s = 1280" "ts_next_sequence s = 0"
    and "Ipv4Packet_parse packet = Inr ip" "length (ip_bytes ip) = 20"
  shows "\<exists>out s' frame. TunnelSender_encode_ip_into s packet = (Inr out, s') \<and>
    MorphCodec_encode_payload (wl_morph routing_libs) (Some t) (Inr (replicate 45 7)) meeting_codec out direction = Inr frame"
proof -
  obtain out s' where out: "TunnelSender_encode_ip_into s packet = (Inr out, s')"
    using tunnelled_is_sent [of s packet "ip_bytes ip"] plain_transport_live assms
    by (auto simp: tunnelled_def MAX_PLAINTEXT_LEN_def MAX_NOISE_MESSAGE_LEN_def AUTH_TAG_LEN_def)
  then have "length out = 57"
    using assms by (auto simp: TunnelSender_encode_ip_into_def TunnelSender_encode_into_Inr SendHalf_encrypt_into_def
        Datagram_encode_def Header_encode_def plain_transport_def AUTH_TAG_LEN_def result_simps split: if_splits)
  with out meeting_encodes [of out "replicate 45 7" t direction] show ?thesis by (auto simp: morph_consts)
qed

end
