(* ===== verification/Dns.thy ===== *)
theory Dns
  imports Net RustText RustIo
begin

text \<open>
  The resolver of the SOCKS proxy, \<^verbatim>\<open>crates/linux-client/src/socks/dns.rs\<close>: the query for an IPv4 address,
  and the scan of a response, whose length fields and counts come from the network. Reading a byte
  outside the packet is a panic in Rust; it is a value of the model, \<open>Panicked\<close>, so that its absence is
  a theorem.
\<close>

unbundle bit_operations_syntax

section \<open>Slices and names\<close>

datatype dns_error = DnsFailed io_error | Panicked

text \<open>The index operator, which panics, and \<^verbatim>\<open>slice::get\<close>, which does not.\<close>

definition slice_index :: "bytes \<Rightarrow> nat \<Rightarrow> dns_error + u8" where
  "slice_index bs i = (if i < length bs then Inr (bs ! i) else Inl Panicked)"

definition slice_get :: "bytes \<Rightarrow> nat \<Rightarrow> u8 option" where
  "slice_get bs i = (if i < length bs then Some (bs ! i) else None)"

definition slice_range :: "bytes \<Rightarrow> nat \<Rightarrow> nat \<Rightarrow> bytes option" where
  "slice_range bs a b = (if a \<le> b \<and> b \<le> length bs then Some (take (b - a) (drop a bs)) else None)"

definition DOT :: nat where "DOT = 46"

text \<open>\<^verbatim>\<open>trim_end_matches('.')\<close> and \<^verbatim>\<open>split('.')\<close>.\<close>

definition trim_dots :: "rust_string \<Rightarrow> rust_string" where
  "trim_dots s = rev (dropWhile (\<lambda>c. c = DOT) (rev s))"

fun split_dots :: "rust_string \<Rightarrow> rust_string list" where
  "split_dots [] = [[]]"
| "split_dots (c # s) =
     (if c = DOT then [] # split_dots s
      else (case split_dots s of [] \<Rightarrow> [[c]] | l # ls \<Rightarrow> (c # l) # ls))"

definition is_ascii :: "rust_string \<Rightarrow> bool" where
  "is_ascii s \<longleftrightarrow> (\<forall>c\<in>set s. c < 128)"

section \<open>Queries\<close>

fun push_labels :: "rust_string list \<Rightarrow> io_error + bytes" where
  "push_labels [] = Inr []"
| "push_labels (label # rest) =
     (if label = [] \<or> str_len label > 63 \<or> \<not> is_ascii label then Inl (io_error_new InvalidInput)
      else bind_r (push_labels rest) (\<lambda>bs. Inr (of_nat (str_len label) # map of_nat label @ bs)))"

definition build_query :: "rust_string \<Rightarrow> bytes \<Rightarrow> io_error + bytes" where
  "build_query name0 identifier =
     (let name = trim_dots name0 in
      if name = [] \<or> str_len name > 253 then Inl (io_error_new InvalidInput)
      else bind_r (push_labels (split_dots name)) (\<lambda>labels.
        Inr (identifier @ [0x01, 0x00, 0x00, 0x01, 0, 0, 0, 0, 0, 0] @ labels @ [0, 0, 1, 0, 1])))"

section \<open>Responses\<close>

definition invalid_response :: dns_error where
  "invalid_response = DnsFailed (io_error_new InvalidData)"

definition read_u16 :: "bytes \<Rightarrow> nat \<Rightarrow> dns_error + u16" where
  "read_u16 packet offset =
     bind_r (ok_or invalid_response (slice_range packet offset (offset + 2))) (\<lambda>bs.
     bind_r (slice_index bs 0) (\<lambda>b0.
     bind_r (slice_index bs 1) (\<lambda>b1. Inr (from_be [b0, b1]))))"

text \<open>The loop of \<^verbatim>\<open>skip_name\<close>; every label moves the offset forward.\<close>

function skip_name :: "bytes \<Rightarrow> nat \<Rightarrow> dns_error + nat" where
  "skip_name packet offset =
     (if offset < length packet then
        let len = packet ! offset; offset1 = offset + 1 in
        if len = 0 then Inr offset1
        else if len AND 0xc0 = 0xc0 then
          (if slice_get packet offset1 = None then Inl invalid_response else Inr (offset1 + 1))
        else if len AND 0xc0 \<noteq> 0 then Inl invalid_response
        else if offset1 + unat len \<le> length packet then skip_name packet (offset1 + unat len)
        else Inl invalid_response
      else Inl invalid_response)"
  by pat_completeness auto
termination by (relation "measure (\<lambda>(packet, offset). length packet - offset)") auto

declare skip_name.simps [simp del]

fun skip_questions :: "nat \<Rightarrow> bytes \<Rightarrow> nat \<Rightarrow> dns_error + nat" where
  "skip_questions 0 packet offset = Inr offset"
| "skip_questions (Suc n) packet offset =
     bind_r (skip_name packet offset) (\<lambda>offset1.
       if offset1 + 4 \<le> length packet then skip_questions n packet (offset1 + 4)
       else Inl invalid_response)"

text \<open>One answer: its address, or the offset of the next one.\<close>

definition read_answer :: "bytes \<Rightarrow> nat \<Rightarrow> dns_error + (ipv4 + nat)" where
  "read_answer packet offset0 =
     bind_r (skip_name packet offset0) (\<lambda>offset1.
     if offset1 + 10 > length packet then Inl invalid_response
     else
       bind_r (read_u16 packet offset1) (\<lambda>record_type.
       bind_r (read_u16 packet (offset1 + 2)) (\<lambda>cls.
       bind_r (read_u16 packet (offset1 + 8)) (\<lambda>len16.
         let len = unat len16; offset = offset1 + 10 in
         if offset + len > length packet then Inl invalid_response
         else if record_type = 1 \<and> cls = 1 \<and> len = 4 then
           bind_r (slice_index packet offset) (\<lambda>a.
           bind_r (slice_index packet (offset + 1)) (\<lambda>b.
           bind_r (slice_index packet (offset + 2)) (\<lambda>c.
           bind_r (slice_index packet (offset + 3)) (\<lambda>d. Inr (Inl (Ipv4Addr a b c d))))))
         else Inr (Inr (offset + len))))))"

fun scan_answers :: "nat \<Rightarrow> bytes \<Rightarrow> nat \<Rightarrow> dns_error + ipv4" where
  "scan_answers 0 packet offset = Inl (DnsFailed (io_error_new NotFound))"
| "scan_answers (Suc n) packet offset =
     bind_r (read_answer packet offset) (\<lambda>found.
       case found of Inl address \<Rightarrow> Inr address | Inr next \<Rightarrow> scan_answers n packet next)"

definition parse_response :: "bytes \<Rightarrow> bytes \<Rightarrow> dns_error + ipv4" where
  "parse_response packet identifier =
     (if length packet < 12 then Inl invalid_response
      else if take 2 packet \<noteq> identifier then Inl invalid_response
      else bind_r (slice_index packet 2) (\<lambda>flags.
        if flags AND 0x80 = 0 then Inl invalid_response
        else bind_r (slice_index packet 3) (\<lambda>code.
          if code AND 0x0f \<noteq> 0 then Inl (DnsFailed (io_error_new NotFound))
          else
            bind_r (read_u16 packet 4) (\<lambda>questions.
            bind_r (read_u16 packet 6) (\<lambda>answers.
            bind_r (skip_questions (unat questions) packet 12) (\<lambda>offset.
              scan_answers (unat answers) packet offset))))))"

section \<open>Resolution\<close>

text \<open>
  What the system does for one resolution: the random identifier, the first failure among the calls that make
  the marked socket, and the two waits, of which \<open>None\<close> is the timeout; what arrives depends on the query.
\<close>

record dns_world =
  dw_random :: "io_error + bytes"
  dw_socket :: "io_error + unit"
  dw_sent :: "(io_error + unit) option"
  dw_received :: "bytes \<Rightarrow> (io_error + bytes) option"

definition within_timeout :: "(io_error + 'a) option \<Rightarrow> io_error + 'a" where
  "within_timeout r = (case r of None \<Rightarrow> Inl (io_error_new TimedOut) | Some x \<Rightarrow> x)"

definition dns_failure :: "io_error + 'a \<Rightarrow> dns_error + 'a" where
  "dns_failure = map_err DnsFailed"

definition resolve_ipv4 :: "dns_world \<Rightarrow> rust_string \<Rightarrow> dns_error + ipv4" where
  "resolve_ipv4 w name =
     bind_r (dns_failure (dw_random w)) (\<lambda>identifier.
     bind_r (dns_failure (build_query name identifier)) (\<lambda>query.
     bind_r (dns_failure (dw_socket w)) (\<lambda>_.
     bind_r (dns_failure (within_timeout (dw_sent w))) (\<lambda>_.
     bind_r (dns_failure (within_timeout (dw_received w query))) (\<lambda>response.
       parse_response (take 4096 response) identifier)))))"

section \<open>The parser does not panic\<close>

definition no_panic :: "dns_error + 'a \<Rightarrow> bool" where
  "no_panic r \<longleftrightarrow> r \<noteq> Inl Panicked"

lemma no_panic_simps [simp]: "no_panic (Inr x)" "no_panic (Inl invalid_response)" "no_panic (Inl (DnsFailed e))"
  by (simp_all add: no_panic_def invalid_response_def)

lemma no_panic_bind: "no_panic r \<Longrightarrow> (\<And>x. r = Inr x \<Longrightarrow> no_panic (f x)) \<Longrightarrow> no_panic (bind_r r f)"
  by (cases r) (auto simp: no_panic_def)

lemma no_panic_index: "i < length bs \<Longrightarrow> no_panic (slice_index bs i)"
  by (simp add: slice_index_def)

lemma no_panic_read_u16: "no_panic (read_u16 packet offset)"
  unfolding read_u16_def
  by (intro no_panic_bind no_panic_index) (auto simp: slice_range_def ok_or_def split: if_splits)

lemma no_panic_skip_name: "no_panic (skip_name packet offset)"
proof (induction packet offset rule: skip_name.induct)
  case (1 packet offset)
  then show ?case by (subst skip_name.simps) (simp add: Let_def)
qed

lemmas no_panic_rules = no_panic_bind no_panic_index no_panic_read_u16 no_panic_skip_name

lemma no_panic_skip_questions: "no_panic (skip_questions n packet offset)"
  by (induction n packet offset rule: skip_questions.induct) (auto intro!: no_panic_rules)

lemma no_panic_read_answer: "no_panic (read_answer packet offset)"
  by (auto simp: read_answer_def Let_def intro!: no_panic_rules)

lemma no_panic_scan_answers: "no_panic (scan_answers n packet offset)"
  by (induction n packet offset rule: scan_answers.induct)
     (auto intro!: no_panic_bind no_panic_read_answer split: sum.split)

lemma no_panic_parse_response: "no_panic (parse_response packet identifier)"
  by (auto simp: parse_response_def intro!: no_panic_rules no_panic_skip_questions no_panic_scan_answers)

section \<open>Messages as the protocol defines them\<close>

text \<open>
  A name of RFC 1035: labels of 1 to 63 bytes, closed by the root or by a pointer to an earlier name; a question; a resource
  record.
\<close>

datatype name_end = Root | Pointer u8 u8

fun name_end_bytes :: "name_end \<Rightarrow> bytes" where
  "name_end_bytes Root = [0]"
| "name_end_bytes (Pointer hi lo) = [hi OR 0xc0, lo]"

definition label_bytes :: "bytes \<Rightarrow> bytes" where
  "label_bytes l = of_nat (length l) # l"

record dns_name =
  dn_labels :: "bytes list"
  dn_end :: name_end

definition name_bytes :: "dns_name \<Rightarrow> bytes" where
  "name_bytes n = concat (map label_bytes (dn_labels n)) @ name_end_bytes (dn_end n)"

definition name_ok :: "dns_name \<Rightarrow> bool" where
  "name_ok n \<longleftrightarrow> (\<forall>l\<in>set (dn_labels n). 0 < length l \<and> length l \<le> 63)"

record dns_record =
  dr_name :: dns_name
  dr_type :: u16
  dr_class :: u16
  dr_ttl :: u32
  dr_data :: bytes

definition record_bytes :: "dns_record \<Rightarrow> bytes" where
  "record_bytes r = name_bytes (dr_name r) @ to_be 2 (dr_type r) @ to_be 2 (dr_class r) @ to_be 4 (dr_ttl r) @
     to_be 2 (of_nat (length (dr_data r)) :: u16) @ dr_data r"

definition record_ok :: "dns_record \<Rightarrow> bool" where
  "record_ok r \<longleftrightarrow> name_ok (dr_name r) \<and> length (dr_data r) < 2 ^ 16"

definition is_address :: "dns_record \<Rightarrow> bool" where
  "is_address r \<longleftrightarrow> dr_type r = 1 \<and> dr_class r = 1 \<and> length (dr_data r) = 4"

definition record_address :: "dns_record \<Rightarrow> ipv4" where
  "record_address r = Ipv4Addr (dr_data r ! 0) (dr_data r ! 1) (dr_data r ! 2) (dr_data r ! 3)"

lemma slice_range_middle: "length m = b - a \<Longrightarrow> length p = a \<Longrightarrow> a \<le> b \<Longrightarrow> slice_range (p @ m @ s) a b = Some m"
  by (auto simp: slice_range_def)

lemma read_u16_at: "length p = a \<Longrightarrow> read_u16 (p @ to_be 2 w @ s) a = Inr w"
proof -
  assume p: "length p = a"
  have len: "length (to_be 2 w) = 2" by simp
  then obtain b0 b1 where b: "to_be 2 w = [b0, b1]" 
    by (cases "to_be 2 w"; cases "tl (to_be 2 w)") auto
  have "slice_range (p @ to_be 2 w @ s) a (a + 2) = Some (to_be 2 w)"
    by (rule slice_range_middle) (use p len in simp_all)
  then show ?thesis
    using from_to_be_16 [of w] by (simp add: read_u16_def b slice_index_def)
qed

lemma small_label: "n \<le> 63 \<Longrightarrow> (of_nat n :: u8) AND 0xc0 = 0"
proof -
  assume n: "n \<le> 63"
  have "take_bit 6 (of_nat n :: u8) = of_nat n"
    using n by (simp add: take_bit_of_nat take_bit_nat_eq_self)
  moreover have "\<not> bit (0xc0 :: u8) m" if "m < 6" for m
    using that bit_push_bit_iff [of 6 "3 :: u8" m] by simp
  then have "take_bit 6 (w :: u8) AND 0xc0 = 0" for w by (intro bit_word_eqI) (auto simp: bit_simps)
  ultimately show ?thesis by metis
qed

lemma skip_label:
  assumes "0 < length l" "length l \<le> 63"
  shows "skip_name (p @ label_bytes l @ s) (length p) = skip_name (p @ label_bytes l @ s) (length (p @ label_bytes l))"
proof -
  have n: "unat (of_nat (length l) :: u8) = length l" using assms by (simp add: unat_of_nat)
  then have "(of_nat (length l) :: u8) \<noteq> 0" using assms by (metis length_0_conv less_numeral_extra(3) unat_0)
  then show ?thesis
    using assms small_label [of "length l"] n
    by (subst skip_name.simps) (simp add: label_bytes_def nth_append)
qed

lemma pointer_bits: "(hi OR 0xc0 :: u8) AND 0xc0 = 0xc0" "(hi OR 0xc0 :: u8) \<noteq> 0"
proof -
  show bits: "(hi OR 0xc0) AND 0xc0 = 0xc0" by (rule bit_word_eqI) (auto simp: bit_simps)
  show "hi OR 0xc0 \<noteq> 0"
  proof
    assume "hi OR 0xc0 = 0"
    with bits show False by simp
  qed
qed

lemma skip_name_end: "skip_name (p @ name_end_bytes e @ s) (length p) = Inr (length p + length (name_end_bytes e))"
  by (cases e) (subst skip_name.simps, auto simp: nth_append slice_get_def pointer_bits)+

lemma skip_name_at:
  assumes "name_ok n"
  shows "skip_name (p @ name_bytes n @ s) (length p) = Inr (length p + length (name_bytes n))"
proof -
  have "skip_name (p @ concat (map label_bytes ls) @ name_end_bytes e @ s) (length p) =
      Inr (length p + length (concat (map label_bytes ls) @ name_end_bytes e))"
    if "\<forall>l\<in>set ls. 0 < length l \<and> length l \<le> 63" for ls e
    using that
  proof (induction ls arbitrary: p)
    case (Cons l ls)
    from Cons.IH [of "p @ label_bytes l"] Cons.prems show ?case
      using skip_label [of l p "concat (map label_bytes ls) @ name_end_bytes e @ s"] by simp
  qed (simp add: skip_name_end)
  from this [of "dn_labels n" "dn_end n"] show ?thesis using assms by (simp add: name_bytes_def name_ok_def)
qed

lemma length_record_bytes: "length (record_bytes r) = length (name_bytes (dr_name r)) + 10 + length (dr_data r)"
  by (simp add: record_bytes_def)

lemma read_u16_in: "packet = p @ to_be 2 w @ s \<Longrightarrow> length p = a \<Longrightarrow> read_u16 packet a = Inr w"
  using read_u16_at by blast

lemma read_answer_at:
  assumes r: "record_ok r"
  shows "read_answer (p @ record_bytes r @ s) (length p) =
    Inr (if is_address r then Inl (record_address r) else Inr (length p + length (record_bytes r)))"
proof -
  let ?n = "name_bytes (dr_name r)" and ?k = "length p + length (name_bytes (dr_name r))"
    and ?packet = "p @ record_bytes r @ s"
  have name: "skip_name ?packet (length p) = Inr ?k"
    using r skip_name_at [of "dr_name r" p] by (simp add: record_ok_def record_bytes_def)
  have ty: "read_u16 ?packet ?k = Inr (dr_type r)"
    by (rule read_u16_in [where p = "p @ ?n"]) (simp_all add: record_bytes_def)
  have cl: "read_u16 ?packet (?k + 2) = Inr (dr_class r)"
    by (rule read_u16_in [where p = "p @ ?n @ to_be 2 (dr_type r)"]) (simp_all add: record_bytes_def)
  have len: "read_u16 ?packet (?k + 8) = Inr (of_nat (length (dr_data r)))"
    by (rule read_u16_in [where p = "p @ ?n @ to_be 2 (dr_type r) @ to_be 2 (dr_class r) @ to_be 4 (dr_ttl r)"])
       (simp_all add: record_bytes_def)
  have data: "?packet ! (?k + 10 + i) = dr_data r ! i" if "i < length (dr_data r)" for i
    using that by (simp add: record_bytes_def nth_append)
  have n: "unat (of_nat (length (dr_data r)) :: u16) = length (dr_data r)"
    using r by (simp add: record_ok_def unat_of_nat)
  have four: "?packet ! (?k + 10) = dr_data r ! 0" if "length (dr_data r) = 4"
    using data [of 0] that by simp
  show ?thesis
    using four data [of 1] data [of 2] data [of 3]
    by (auto simp: read_answer_def name ty cl [simplified] len n length_record_bytes is_address_def record_address_def
        slice_index_def Let_def)
qed

lemma scan_answers_at:
  assumes "\<forall>r\<in>set rs. record_ok r"
  shows "scan_answers (length rs) (p @ concat (map record_bytes rs) @ s) (length p) =
    (case find is_address rs of None \<Rightarrow> Inl (DnsFailed (io_error_new NotFound)) | Some r \<Rightarrow> Inr (record_address r))"
  using assms
proof (induction rs arbitrary: p)
  case (Cons r rs)
  from Cons.IH [of "p @ record_bytes r"] Cons.prems
  show ?case using read_answer_at [of r p "concat (map record_bytes rs) @ s"] by simp
qed simp

section \<open>A query and its answer\<close>

text \<open>The message a server sends for a query: the identifier and the question again, with the records it has.\<close>

definition dns_reply :: "u8 \<Rightarrow> u8 \<Rightarrow> bytes \<Rightarrow> dns_record list \<Rightarrow> bytes \<Rightarrow> bytes" where
  "dns_reply flags code query answers rest =
     take 2 query @ [flags, code, 0, 1] @ to_be 2 (of_nat (length answers) :: u16) @ [0, 0, 0, 0] @ drop 12 query @
     concat (map record_bytes answers) @ rest"

lemma push_labels_bytes:
  "push_labels labels = Inr bs \<Longrightarrow>
   \<exists>ls. bs = concat (map label_bytes ls) \<and> (\<forall>l\<in>set ls. 0 < length l \<and> length l \<le> 63)"
proof (induction labels arbitrary: bs)
  case Nil
  then show ?case by (intro exI [of _ "[]"]) simp
next
  case (Cons label labels)
  then obtain tail where label: "label \<noteq> []" "str_len label \<le> 63" "is_ascii label"
    and tail: "push_labels labels = Inr tail" and bs: "bs = of_nat (str_len label) # map of_nat label @ tail"
    by (auto simp: result_simps split: if_splits)
  from Cons.IH [OF tail] obtain ls where "tail = concat (map label_bytes ls)"
    and "\<forall>l\<in>set ls. 0 < length l \<and> length l \<le> 63" by blast
  moreover have "str_len label = length label" using label by (simp add: str_len_ascii is_ascii_def)
  ultimately show ?case
    using label bs by (intro exI [of _ "map of_nat label # ls"]) (simp add: label_bytes_def [of "map of_nat label"])
qed

lemma build_query_question:
  assumes "build_query name identifier = Inr query"
  obtains n where "name_ok n"
    and "query = identifier @ [1, 0, 0, 1, 0, 0, 0, 0, 0, 0] @ name_bytes n @ [0, 1, 0, 1]"
proof -
  from assms obtain labels where "push_labels (split_dots (trim_dots name)) = Inr labels"
    and query: "query = identifier @ [1, 0, 0, 1, 0, 0, 0, 0, 0, 0] @ labels @ [0, 0, 1, 0, 1]"
    by (auto simp: build_query_def Let_def result_simps split: if_splits)
  with push_labels_bytes obtain ls where "labels = concat (map label_bytes ls)"
    and "\<forall>l\<in>set ls. 0 < length l \<and> length l \<le> 63" by blast
  then show thesis
    using query by (intro that [of "\<lparr>dn_labels = ls, dn_end = Root\<rparr>"]) (simp_all add: name_ok_def name_bytes_def)
qed

lemma parse_reply:
  assumes ident: "length identifier = 2" and query: "build_query name identifier = Inr query"
    and flags: "flags AND 0x80 \<noteq> 0" "code AND 0x0f = 0"
    and answers: "\<forall>r\<in>set answers. record_ok r" "length answers < 2 ^ 16"
  shows "parse_response (dns_reply flags code query answers rest) identifier =
    (case find is_address answers of
       None \<Rightarrow> Inl (DnsFailed (io_error_new NotFound))
     | Some r \<Rightarrow> Inr (record_address r))"
proof -
  obtain n where n: "name_ok n" and q: "query = identifier @ [1, 0, 0, 1, 0, 0, 0, 0, 0, 0] @ name_bytes n @ [0, 1, 0, 1]"
    using query by (rule build_query_question)
  obtain i0 i1 where i: "identifier = [i0, i1]"
    using ident by (cases "identifier"; cases "tl identifier") auto
  let ?count = "to_be 2 (of_nat (length answers) :: u16)"
  let ?head = "[i0, i1, flags, code, 0, 1] @ ?count @ [0, 0, 0, 0]"
  let ?tail = "concat (map record_bytes answers) @ rest"
  let ?packet = "?head @ name_bytes n @ [0, 1, 0, 1] @ ?tail"
  have packet: "dns_reply flags code query answers rest = ?packet" by (simp add: dns_reply_def q i)
  have one: "to_be 2 (1 :: u16) = [0, 1]" by (simp add: to_be_def numeral_2_eq_2)
  have questions: "read_u16 ?packet 4 = Inr 1"
    by (rule read_u16_in [where p = "[i0, i1, flags, code]"]) (simp_all add: one)
  have count: "read_u16 ?packet 6 = Inr (of_nat (length answers))"
    by (rule read_u16_in [where p = "[i0, i1, flags, code, 0, 1]"]) simp_all
  have "skip_name ?packet 12 = Inr (12 + length (name_bytes n))"
    using skip_name_at [OF n, of ?head "[0, 1, 0, 1] @ ?tail"] by simp
  then have skip: "skip_questions 1 ?packet 12 = Inr (length (?head @ name_bytes n @ [0, 1, 0, 1]))" by simp
  have scan: "scan_answers (length answers) ?packet (length (?head @ name_bytes n @ [0, 1, 0, 1])) =
      (case find is_address answers of None \<Rightarrow> Inl (DnsFailed (io_error_new NotFound)) | Some r \<Rightarrow> Inr (record_address r))"
    using scan_answers_at [OF answers(1), of "?head @ name_bytes n @ [0, 1, 0, 1]" rest] by simp
  have "unat (of_nat (length answers) :: u16) = length answers" using answers(2) by (simp add: unat_of_nat)
  then show ?thesis
    unfolding packet using questions count skip scan flags
    by (simp add: parse_response_def i slice_index_def)
qed

lemma no_panic_failure: "no_panic (dns_failure r)"
  by (cases r) (simp_all add: dns_failure_def)

lemma no_panic_resolve: "no_panic (resolve_ipv4 w name)"
  unfolding resolve_ipv4_def by (intro no_panic_bind no_panic_failure no_panic_parse_response)

text \<open>
  C38. When a server answers a query by repeating its question and appending well-formed records, resolving the name returns the
  address in the first IPv4 address record of the answer, whatever records come before it and whether or not their names are
  compressed, and reports that nothing was found if there is none. Whatever arrives instead, the resolver never reads outside
  the packet.
\<close>

theorem resolver_finds_the_first_address:
  assumes random: "dw_random w = Inr ident" "length ident = 2" and query: "build_query name ident = Inr query"
    and sent: "dw_socket w = Inr ()" "dw_sent w = Some (Inr ())"
    and received: "dw_received w query = Some (Inr (dns_reply flags code query answers rest))"
      "length (dns_reply flags code query answers rest) \<le> 4096"
    and success: "flags AND 0x80 \<noteq> 0" "code AND 0x0f = 0"
    and answers: "\<forall>r\<in>set answers. record_ok r" "length answers < 2 ^ 16"
  shows "resolve_ipv4 w name =
      (case find is_address answers of
         None \<Rightarrow> Inl (DnsFailed (io_error_new NotFound))
       | Some r \<Rightarrow> Inr (record_address r)) \<and>
    resolve_ipv4 w' name' \<noteq> Inl Panicked"
  using parse_reply [OF random(2) query success answers, of rest] random query sent received
    no_panic_resolve [of w' name']
  by (simp add: resolve_ipv4_def dns_failure_def within_timeout_def no_panic_def)

definition sample_alias :: dns_record where
  "sample_alias = \<lparr>dr_name = \<lparr>dn_labels = [], dn_end = Pointer 0 12\<rparr>, dr_type = 5, dr_class = 1, dr_ttl = 60, dr_data = [1, 98, 0]\<rparr>"

definition sample_address :: dns_record where
  "sample_address = \<lparr>dr_name = \<lparr>dn_labels = [[98]], dn_end = Root\<rparr>, dr_type = 1, dr_class = 1, dr_ttl = 60, dr_data = [10, 0, 0, 7]\<rparr>"

definition sample_dns :: dns_world where
  "sample_dns = \<lparr>dw_random = Inr [1, 2], dw_socket = Inr (), dw_sent = Some (Inr ()),
     dw_received = (\<lambda>query. Some (Inr (dns_reply 0x81 0x80 query [sample_alias, sample_address] [])))\<rparr>"

theorem resolver_finds_the_first_address_witness:
  "resolve_ipv4 sample_dns [97] = Inr (Ipv4Addr 10 0 0 7) \<and> resolve_ipv4 sample_dns [] \<noteq> Inl Panicked"
proof -
  let ?query = "[1, 2, 1, 0, 0, 1, 0, 0, 0, 0, 0, 0, 1, 97, 0, 0, 1, 0, 1] :: bytes"
  have query: "build_query [97] [1, 2] = Inr ?query"
    by (simp add: build_query_def trim_dots_def DOT_def str_len_def utf8_len_def is_ascii_def)
  note facts = sample_dns_def sample_alias_def sample_address_def record_ok_def name_ok_def is_address_def record_address_def
    dns_reply_def record_bytes_def name_bytes_def label_bytes_def
  have "resolve_ipv4 sample_dns [97] =
      (case find is_address [sample_alias, sample_address] of
         None \<Rightarrow> Inl (DnsFailed (io_error_new NotFound))
       | Some r \<Rightarrow> Inr (record_address r)) \<and> resolve_ipv4 sample_dns [] \<noteq> Inl Panicked"
    by (rule resolver_finds_the_first_address [where ident = "[1, 2]" and query = ?query and flags = "0x81" and code = "0x80"
          and rest = "[]"])
       (use query in \<open>simp_all add: facts\<close>)
  then show ?thesis by (simp add: facts)
qed

end
