(* ===== verification/Socks.thy ===== *)
theory Socks
  imports Dns
begin

text \<open>
  The SOCKS5 server of the Linux client, \<^verbatim>\<open>crates/linux-client/src/socks\<close>: reading the request of a client, resolving and
  connecting to its target, and the replies. A connection is what the client still sends, the error of reading past its end, the
  messages written to it, and which of the writes fail.
\<close>

section \<open>UTF-8\<close>

text \<open>
  \<^verbatim>\<open>str::from_utf8\<close>: a leading byte says how many continuation bytes follow, and the scalar value they give must be one that
  needs exactly that many bytes.
\<close>

definition is_scalar :: "nat \<Rightarrow> bool" where
  "is_scalar c \<longleftrightarrow> c \<le> 0x10FFFF \<and> \<not> (0xD800 \<le> c \<and> c \<le> 0xDFFF)"

definition utf8_lead :: "u8 \<Rightarrow> (nat \<times> nat) option" where
  "utf8_lead b =
     (if b < 0x80 then Some (0, unat b)
      else if b < 0xC0 then None
      else if b < 0xE0 then Some (1, unat b - 0xC0)
      else if b < 0xF0 then Some (2, unat b - 0xE0)
      else if b < 0xF8 then Some (3, unat b - 0xF0)
      else None)"

definition utf8_scalar :: "u8 \<Rightarrow> bytes \<Rightarrow> (nat \<times> nat) option" where
  "utf8_scalar b rest =
     (case utf8_lead b of
        None \<Rightarrow> None
      | Some (n, lead) \<Rightarrow>
          let tail = take n rest; c = foldl (\<lambda>acc x. acc * 64 + (unat x - 0x80)) lead tail in
          if length tail = n \<and> (\<forall>x\<in>set tail. 0x80 \<le> x \<and> x < 0xC0) \<and> is_scalar c \<and> utf8_len c = n + 1
          then Some (c, n) else None)"

fun from_utf8 :: "bytes \<Rightarrow> rust_string option" where
  "from_utf8 [] = Some []"
| "from_utf8 (b # rest) =
     (case utf8_scalar b rest of
        None \<Rightarrow> None
      | Some (c, n) \<Rightarrow> map_option (Cons c) (from_utf8 (drop n rest)))"

section \<open>Connections\<close>

record tcp_stream =
  st_input :: bytes
  st_read_error :: io_error
  st_output :: "bytes list"
  st_write_error :: "nat \<Rightarrow> io_error option"

definition read_exact :: "nat \<Rightarrow> tcp_stream \<Rightarrow> (io_error + bytes) \<times> tcp_stream" where
  "read_exact n s =
     (if n \<le> length (st_input s) then (Inr (take n (st_input s)), s\<lparr>st_input := drop n (st_input s)\<rparr>)
      else (Inl (st_read_error s), s\<lparr>st_input := []\<rparr>))"

definition write_all :: "bytes \<Rightarrow> tcp_stream \<Rightarrow> (io_error + unit) \<times> tcp_stream" where
  "write_all data s =
     (case st_write_error s (length (st_output s)) of
        Some e \<Rightarrow> (Inl e, s)
      | None \<Rightarrow> (Inr (), s\<lparr>st_output := st_output s @ [data]\<rparr>))"

section \<open>Requests\<close>

datatype Target = TargetIpv4 ipv4 u16 | TargetDomain rust_string u16

record RequestError =
  re_source :: io_error
  re_reply_code :: u8

definition RequestError_new :: "error_kind \<Rightarrow> u8 \<Rightarrow> RequestError" where
  "RequestError_new kind reply_code = \<lparr>re_source = io_error_new kind, re_reply_code = reply_code\<rparr>"

definition socks_io_error :: "io_error \<Rightarrow> RequestError" where
  "socks_io_error source = \<lparr>re_source = source, re_reply_code = 0x01\<rparr>"

definition or_request :: "(io_error + 'a) \<times> tcp_stream \<Rightarrow> (RequestError + 'a) \<times> tcp_stream" where
  "or_request m = (map_err socks_io_error (fst m), snd m)"

definition negotiate_auth :: "tcp_stream \<Rightarrow> (RequestError + unit) \<times> tcp_stream" where
  "negotiate_auth s =
     and_then (or_request (read_exact 2 s)) (\<lambda>greeting s.
     if greeting ! 0 \<noteq> 5 \<or> greeting ! 1 = 0 then (Inl (RequestError_new InvalidData 0x01), s)
     else and_then (or_request (read_exact (unat (greeting ! 1)) s)) (\<lambda>methods s.
       if 0 \<notin> set methods then
         and_then (or_request (write_all [5, 0xff] s)) (\<lambda>_ s. (Inl (RequestError_new PermissionDenied 0x01), s))
       else or_request (write_all [5, 0] s)))"

definition read_ipv4 :: "tcp_stream \<Rightarrow> (RequestError + Target) \<times> tcp_stream" where
  "read_ipv4 s =
     and_then (or_request (read_exact 6 s)) (\<lambda>bs s.
       (Inr (TargetIpv4 (Ipv4Addr (bs ! 0) (bs ! 1) (bs ! 2) (bs ! 3)) (from_be [bs ! 4, bs ! 5])), s))"

definition read_domain :: "tcp_stream \<Rightarrow> (RequestError + Target) \<times> tcp_stream" where
  "read_domain s =
     and_then (or_request (read_exact 1 s)) (\<lambda>len s.
     if len ! 0 = 0 then (Inl (RequestError_new InvalidData 0x04), s)
     else
       let n = unat (len ! 0) in
       and_then (or_request (read_exact (n + 2) s)) (\<lambda>bs s.
       case from_utf8 (take n bs) of
         None \<Rightarrow> (Inl (RequestError_new InvalidData 0x04), s)
       | Some name \<Rightarrow> (Inr (TargetDomain name (from_be [bs ! n, bs ! (n + 1)])), s)))"

definition read_request :: "tcp_stream \<Rightarrow> (RequestError + Target) \<times> tcp_stream" where
  "read_request s =
     and_then (negotiate_auth s) (\<lambda>_ s.
     and_then (or_request (read_exact 4 s)) (\<lambda>header s.
     if header ! 0 \<noteq> 5 \<or> header ! 2 \<noteq> 0 then (Inl (RequestError_new InvalidData 0x01), s)
     else if header ! 1 \<noteq> 1 then (Inl (RequestError_new Unsupported 0x07), s)
     else if header ! 3 = 1 then read_ipv4 s
     else if header ! 3 = 3 then read_domain s
     else (Inl (RequestError_new Unsupported 0x08), s)))"

section \<open>Replies\<close>

definition success_reply :: "SocketAddr \<Rightarrow> bytes" where
  "success_reply bound =
     [5, 0, 0, 1] @ (case sa_ip bound of V4 address \<Rightarrow> octets address | V6 _ \<Rightarrow> [0, 0, 0, 0]) @ to_be 2 (sa_port bound)"

definition write_success :: "SocketAddr \<Rightarrow> tcp_stream \<Rightarrow> (io_error + unit) \<times> tcp_stream" where
  "write_success bound = write_all (success_reply bound)"

definition failure_reply :: "u8 \<Rightarrow> bytes" where
  "failure_reply reply_code = [5, reply_code, 0, 1, 0, 0, 0, 0, 0, 0]"

definition write_failure :: "u8 \<Rightarrow> tcp_stream \<Rightarrow> (io_error + unit) \<times> tcp_stream" where
  "write_failure reply_code = write_all (failure_reply reply_code)"

definition reply_code :: "io_error \<Rightarrow> u8" where
  "reply_code e =
     (case ioe_kind e of
        ConnectionRefused \<Rightarrow> 0x05
      | TimedOut \<Rightarrow> 0x06
      | NetworkUnreachable \<Rightarrow> 0x03
      | HostUnreachable \<Rightarrow> 0x04
      | _ \<Rightarrow> 0x01)"

section \<open>Serving a client\<close>

text \<open>
  Outcomes of one connection attempt: the calls that make the marked socket, the connect call, the conversion to an asynchronous
  stream, the wait for it to be writable, and the error it reports then.
\<close>

record connect_world =
  cw_socket :: "io_error + unit"
  cw_connect :: "io_error option"
  cw_stream :: "io_error + unit"
  cw_writable :: "io_error + unit"
  cw_take_error :: "io_error + io_error option"

definition EINPROGRESS :: int where "EINPROGRESS = 115"

definition connect_marked :: "connect_world \<Rightarrow> io_error + unit" where
  "connect_marked w =
     bind_r (cw_socket w) (\<lambda>_.
     bind_r (case cw_connect w of
               None \<Rightarrow> Inr ()
             | Some e \<Rightarrow> if ioe_kind e = WouldBlock then Inr ()
                         else if ioe_raw_os e = Some EINPROGRESS then Inr () else Inl e) (\<lambda>_.
     bind_r (cw_stream w) (\<lambda>_.
     bind_r (cw_writable w) (\<lambda>_.
     bind_r (cw_take_error w) (\<lambda>failed. case failed of Some e \<Rightarrow> Inl e | None \<Rightarrow> Inr ())))))"

record socks_world =
  sw_dns :: dns_world
  sw_connect :: "ipv4 \<Rightarrow> u16 \<Rightarrow> connect_world"
  sw_local_addr :: "io_error + SocketAddr"
  sw_copy :: "io_error + unit"

fun resolve_target :: "dns_world \<Rightarrow> Target \<Rightarrow> dns_error + ipv4 \<times> u16" where
  "resolve_target w (TargetIpv4 address port) = Inr (address, port)"
| "resolve_target w (TargetDomain name port) = bind_r (resolve_ipv4 w name) (\<lambda>address. Inr (address, port))"

definition serve_client :: "socks_world \<Rightarrow> tcp_stream \<Rightarrow> (dns_error + unit) \<times> tcp_stream" where
  "serve_client w s0 =
     (case read_request s0 of
        (Inl e, s) \<Rightarrow> (Inl (DnsFailed (re_source e)), snd (write_failure (re_reply_code e) s))
      | (Inr target, s) \<Rightarrow>
          (case resolve_target (sw_dns w) target of
             Inl e \<Rightarrow> (Inl e, snd (write_failure 0x04 s))
           | Inr (address, port) \<Rightarrow>
               (case connect_marked (sw_connect w address port) of
                  Inl e \<Rightarrow> (Inl (DnsFailed e), snd (write_failure (reply_code e) s))
                | Inr _ \<Rightarrow>
                    (case sw_local_addr w of
                       Inl e \<Rightarrow> (Inl (DnsFailed e), s)
                     | Inr bound \<Rightarrow>
                         and_then (dns_failure (fst (write_success bound s)), snd (write_success bound s)) (\<lambda>_ s.
                           (dns_failure (sw_copy w), s))))))"

section \<open>Requests are read exactly\<close>

lemma and_then_eq_Inr [result_simps]:
  "and_then m f = (Inr y, s') \<longleftrightarrow> (\<exists>x s. m = (Inr x, s) \<and> f x s = (Inr y, s'))"
  by (cases m; cases "fst m") (auto simp: and_then_def)

lemma or_request_eq_Inr [result_simps]: "or_request m = (Inr x, s) \<longleftrightarrow> m = (Inr x, s)"
  by (cases m) (auto simp: or_request_def result_simps)

lemma read_exact_eq_Inr [result_simps]:
  "read_exact n s = (Inr bs, s') \<longleftrightarrow> (\<exists>rest. st_input s = bs @ rest \<and> length bs = n \<and> s' = s\<lparr>st_input := rest\<rparr>)"
proof
  assume "read_exact n s = (Inr bs, s')"
  then show "\<exists>rest. st_input s = bs @ rest \<and> length bs = n \<and> s' = s\<lparr>st_input := rest\<rparr>"
    by (intro exI [of _ "drop n (st_input s)"]) (auto simp: read_exact_def split: if_splits)
qed (auto simp: read_exact_def)

lemma write_all_eq_Inr [result_simps]:
  "write_all data s = (Inr u, s') \<longleftrightarrow>
   st_write_error s (length (st_output s)) = None \<and> s' = s\<lparr>st_output := st_output s @ [data]\<rparr>"
  by (auto simp: write_all_def split: option.splits)

text \<open>A greeting and a target as RFC 1928 lays them out.\<close>

definition greeting_bytes :: "bytes \<Rightarrow> bytes" where
  "greeting_bytes methods = 5 # of_nat (length methods) # methods"

fun target_bytes :: "Target \<Rightarrow> bytes \<Rightarrow> bool" where
  "target_bytes (TargetIpv4 address port) bs \<longleftrightarrow> bs = 1 # octets address @ to_be 2 port"
| "target_bytes (TargetDomain name port) bs \<longleftrightarrow>
     (\<exists>encoded. encoded \<noteq> [] \<and> length encoded < 256 \<and> from_utf8 encoded = Some name \<and>
        bs = 3 # of_nat (length encoded) # encoded @ to_be 2 port)"

lemma length_list_cases:
  "length bs = Suc 0 \<longleftrightarrow> (\<exists>a. bs = [a])"
  "length bs = 2 \<longleftrightarrow> (\<exists>a b. bs = [a, b])"
  "length bs = 4 \<longleftrightarrow> (\<exists>a b c d. bs = [a, b, c, d])"
  "length bs = 6 \<longleftrightarrow> (\<exists>a b c d e f. bs = [a, b, c, d, e, f])"
  by (auto simp: numeral_eq_Suc length_Suc_conv)

lemma byte_count: "length bs = unat (b :: u8) \<Longrightarrow> b = of_nat (length bs)" "length bs = unat (b :: u8) \<Longrightarrow> length bs < 256"
  using unat_byte_lt [of b] by simp_all

lemma negotiate_auth_exact:
  "negotiate_auth s = (Inr u, s') \<longleftrightarrow>
   (\<exists>methods rest. st_input s = greeting_bytes methods @ rest \<and> length methods < 256 \<and> 0 \<in> set methods \<and>
      st_write_error s (length (st_output s)) = None \<and>
      s' = s\<lparr>st_input := rest, st_output := st_output s @ [[5, 0]]\<rparr>)"
  (is "?L \<longleftrightarrow> ?R")
proof
  assume ?L
  then obtain b methods rest where "st_input s = 5 # b # methods @ rest" "length methods = unat b" "0 \<in> set methods"
    "st_write_error s (length (st_output s)) = None" "s' = s\<lparr>st_input := rest, st_output := st_output s @ [[5, 0]]\<rparr>"
    by (auto simp: negotiate_auth_def result_simps length_list_cases split: if_splits)
  then show ?R
    by - (rule exI [of _ methods], rule exI [of _ rest], auto simp: greeting_bytes_def unat_byte_lt)
next
  assume ?R
  then obtain methods rest where input: "st_input s = greeting_bytes methods @ rest" and n: "length methods < 256"
    and zero: "0 \<in> set methods" and ok: "st_write_error s (length (st_output s)) = None"
    and s': "s' = s\<lparr>st_input := rest, st_output := st_output s @ [[5, 0]]\<rparr>" by blast
  have "unat (of_nat (length methods) :: u8) = length methods" using n by (simp add: unat_of_nat)
  moreover have "methods \<noteq> []" using zero by auto
  ultimately have "(of_nat (length methods) :: u8) \<noteq> 0" by (metis length_0_conv unat_0)
  then show ?L
    using input n zero ok s' \<open>unat _ = _\<close>
    by (auto simp: negotiate_auth_def greeting_bytes_def read_exact_def and_then_def or_request_def write_all_def)
qed

lemma to_be_16: "\<exists>a b. to_be 2 (w :: u16) = [a, b]"
  using length_list_cases(2) [of "to_be 2 w"] by simp

lemma to_be_two: "to_be 2 (w :: u16) = [of_nat (unat w div 256 mod 256), of_nat (unat w mod 256)]"
proof -
  have "be_digits 2 n = [n div 256 mod 256, n mod 256]" for n by (simp add: numeral_2_eq_2)
  then show ?thesis by (simp add: to_be_def)
qed

lemma bytes_to_be_16: "[a, b] = to_be 2 (from_be [a, b] :: u16)"
  using to_from_be_16 [of "[a, b]"] by simp

lemma read_ipv4_exact:
  "read_ipv4 s = (Inr t, s') \<longleftrightarrow>
   (\<exists>address port rest. t = TargetIpv4 address port \<and> st_input s = octets address @ to_be 2 port @ rest \<and>
      s' = s\<lparr>st_input := rest\<rparr>)"
  (is "?L \<longleftrightarrow> ?R")
proof
  assume ?L
  then obtain a b c d e f rest where "t = TargetIpv4 (Ipv4Addr a b c d) (from_be [e, f])"
    and "st_input s = [a, b, c, d] @ [e, f] @ rest" and "s' = s\<lparr>st_input := rest\<rparr>"
    by (auto simp: read_ipv4_def result_simps length_list_cases)
  then show ?R using bytes_to_be_16 [of e f] by (intro exI [of _ "Ipv4Addr a b c d"]) auto
next
  assume ?R
  then obtain address port rest where t: "t = TargetIpv4 address port"
    and input: "st_input s = octets address @ to_be 2 port @ rest" and s': "s' = s\<lparr>st_input := rest\<rparr>" by blast
  obtain a b where port: "to_be 2 port = [a, b]" using to_be_16 by blast
  then have "from_be [a, b] = port" using from_to_be_16 [of port] by simp
  then show ?L using t input s' port
    by (cases address) (simp add: read_ipv4_def read_exact_def and_then_def or_request_def)
qed

lemma read_domain_exact:
  "read_domain s = (Inr t, s') \<longleftrightarrow>
   (\<exists>name port encoded rest. t = TargetDomain name port \<and> encoded \<noteq> [] \<and> length encoded < 256 \<and>
      from_utf8 encoded = Some name \<and>
      st_input s = of_nat (length encoded) # encoded @ to_be 2 port @ rest \<and> s' = s\<lparr>st_input := rest\<rparr>)"
  (is "?L \<longleftrightarrow> ?R")
proof
  assume ?L
  then obtain len bs rest where input: "st_input s = len # bs @ rest" and len: "len \<noteq> 0" "length bs = unat len + 2"
    and name: "case from_utf8 (take (unat len) bs) of None \<Rightarrow> False
        | Some name \<Rightarrow> t = TargetDomain name (from_be [bs ! unat len, bs ! (unat len + 1)])"
    and s': "s' = s\<lparr>st_input := rest\<rparr>"
    by (auto simp: read_domain_def result_simps length_list_cases Let_def split: if_splits option.splits)
  define encoded where "encoded = take (unat len) bs"
  have n: "length encoded = unat len" using len by (simp add: encoded_def)
  have "length (drop (unat len) bs) = 2" using len by simp
  then obtain x y where "drop (unat len) bs = [x, y]" unfolding length_list_cases by blast
  then have bs: "bs = encoded @ [x, y]" unfolding encoded_def by (metis append_take_drop_id)
  then obtain utf8 where "from_utf8 encoded = Some utf8" "t = TargetDomain utf8 (from_be [x, y])"
    using name n by (auto simp: nth_append split: option.splits)
  moreover have "encoded \<noteq> []" "length encoded < 256" "len = of_nat (length encoded)"
    using n len unat_byte_lt [of len] by (auto simp: unat_eq_0)
  ultimately show ?R
    using input s' bs bytes_to_be_16 [of x y]
    by - (rule exI [of _ utf8], rule exI [of _ "from_be [x, y]"], rule exI [of _ encoded], rule exI [of _ rest], simp)
next
  assume ?R
  then obtain name port encoded rest where t: "t = TargetDomain name port" and ne: "encoded \<noteq> []"
    and n: "length encoded < 256" and name: "from_utf8 encoded = Some name"
    and input: "st_input s = of_nat (length encoded) # encoded @ to_be 2 port @ rest" and s': "s' = s\<lparr>st_input := rest\<rparr>"
    by blast
  obtain a b where port: "to_be 2 port = [a, b]" using to_be_16 by blast
  then have "from_be [a, b] = port" using from_to_be_16 [of port] by simp
  moreover have len: "unat (of_nat (length encoded) :: u8) = length encoded" using n by (simp add: unat_of_nat)
  moreover have "(of_nat (length encoded) :: u8) \<noteq> 0" using len ne by (metis length_0_conv unat_0)
  ultimately show ?L using t name input s' port
    by (simp add: read_domain_def read_exact_def and_then_def or_request_def nth_append)
qed

lemma read_request_exact:
  "read_request s = (Inr t, s') \<longleftrightarrow>
   (\<exists>methods target rest. st_input s = greeting_bytes methods @ [5, 1, 0] @ target @ rest \<and>
      length methods < 256 \<and> 0 \<in> set methods \<and> target_bytes t target \<and>
      st_write_error s (length (st_output s)) = None \<and>
      s' = s\<lparr>st_input := rest, st_output := st_output s @ [[5, 0]]\<rparr>)"
  (is "?L \<longleftrightarrow> ?R")
proof
  assume ?L
  then obtain s1 a rest1 where auth: "negotiate_auth s = (Inr (), s1)" and input: "st_input s1 = [5, 1, 0, a] @ rest1"
    and t: "a = 1 \<and> read_ipv4 (s1\<lparr>st_input := rest1\<rparr>) = (Inr t, s') \<or>
            a = 3 \<and> read_domain (s1\<lparr>st_input := rest1\<rparr>) = (Inr t, s')"
    by (auto simp: read_request_def result_simps length_list_cases split: if_splits)
  from auth obtain methods rest0 where m: "st_input s = greeting_bytes methods @ rest0" "length methods < 256"
    "0 \<in> set methods" "st_write_error s (length (st_output s)) = None"
    "s1 = s\<lparr>st_input := rest0, st_output := st_output s @ [[5, 0]]\<rparr>"
    by (auto simp: negotiate_auth_exact)
  have "\<exists>target rest. target_bytes t (a # target) \<and> rest1 = target @ rest \<and> s' = s1\<lparr>st_input := rest\<rparr>"
    using t
  proof (elim disjE conjE)
    assume "read_domain (s1\<lparr>st_input := rest1\<rparr>) = (Inr t, s')" and "a = 3"
    then obtain name port encoded rest where "t = TargetDomain name port" "encoded \<noteq> []" "length encoded < 256"
      "from_utf8 encoded = Some name" "rest1 = (of_nat (length encoded) # encoded @ to_be 2 port) @ rest"
      "s' = s1\<lparr>st_input := rest\<rparr>" by (auto simp: read_domain_exact)
    then show ?thesis using \<open>a = 3\<close> by (metis target_bytes.simps(2))
  qed (auto simp: read_ipv4_exact)
  then obtain target rest where "target_bytes t (a # target)" "rest1 = target @ rest" "s' = s1\<lparr>st_input := rest\<rparr>"
    by blast
  then show ?R
    using m input by - (rule exI [of _ methods], rule exI [of _ "a # target"], rule exI [of _ rest], simp)
next
  assume ?R
  then obtain methods target rest where input: "st_input s = greeting_bytes methods @ [5, 1, 0] @ target @ rest"
    and m: "length methods < 256" "0 \<in> set methods" and target: "target_bytes t target"
    and ok: "st_write_error s (length (st_output s)) = None"
    and s': "s' = s\<lparr>st_input := rest, st_output := st_output s @ [[5, 0]]\<rparr>" by blast
  let ?s1 = "s\<lparr>st_input := [5, 1, 0] @ target @ rest, st_output := st_output s @ [[5, 0]]\<rparr>"
  have auth: "negotiate_auth s = (Inr (), ?s1)" using input m ok by (auto simp: negotiate_auth_exact)
  show ?L
  proof (cases t)
    case (TargetIpv4 address port)
    then show ?thesis
      using target s' by (simp add: read_request_def auth and_then_def or_request_def read_exact_def read_ipv4_exact)
  next
    case (TargetDomain name port)
    then show ?thesis
      using target s' by (auto simp: read_request_def auth and_then_def or_request_def read_exact_def read_domain_exact)
  qed
qed

section \<open>Every client gets one reply\<close>

lemma read_exact_keeps [simp]:
  "st_output (snd (read_exact n s)) = st_output s" "st_write_error (snd (read_exact n s)) = st_write_error s"
  by (simp_all add: read_exact_def)

lemma or_request_simps [simp]: "fst (or_request m) = map_err socks_io_error (fst m)" "snd (or_request m) = snd m"
  by (simp_all add: or_request_def)

lemma and_then_split:
  "and_then m f = (case fst m of Inl e \<Rightarrow> (Inl e, snd m) | Inr x \<Rightarrow> f x (snd m))"
  by (cases m) (auto simp: and_then_def split: sum.splits)

definition refused :: "tcp_stream \<Rightarrow> (RequestError + 'a) \<times> tcp_stream \<Rightarrow> bool" where
  "refused s m \<longleftrightarrow> st_write_error (snd m) = st_write_error s \<and>
     st_output (snd m) \<in> {st_output s, st_output s @ [[5, 0]], st_output s @ [[5, 0xff]]} \<and>
     (\<forall>e. fst m = Inl e \<longrightarrow> re_reply_code e \<noteq> 0)"

lemma map_err_eq_Inl: "map_err g r = Inl e \<longleftrightarrow> (\<exists>e'. r = Inl e' \<and> e = g e')"
  by (cases r) auto

lemmas request_codes = RequestError_new_def socks_io_error_def map_err_eq_Inl

lemma negotiate_auth_refused:
  assumes "\<And>n. st_write_error s n = None"
  shows "refused s (negotiate_auth s)"
  using assms
  by (auto simp: refused_def negotiate_auth_def and_then_split write_all_def request_codes split: sum.splits)

lemma target_reads_refused:
  "st_write_error (snd (read_ipv4 s)) = st_write_error s" "st_output (snd (read_ipv4 s)) = st_output s"
  "fst (read_ipv4 s) = Inl e \<Longrightarrow> re_reply_code e \<noteq> 0"
  "st_write_error (snd (read_domain s)) = st_write_error s" "st_output (snd (read_domain s)) = st_output s"
  "fst (read_domain s) = Inl e \<Longrightarrow> re_reply_code e \<noteq> 0"
  by (auto simp: read_ipv4_def read_domain_def and_then_split request_codes Let_def split: sum.splits option.splits if_splits)

lemma read_request_refused:
  assumes "\<And>n. st_write_error s n = None"
  shows "refused s (read_request s)"
proof (cases "negotiate_auth s")
  case (Pair r s1)
  then have "refused s (r, s1)" using negotiate_auth_refused [OF assms] by simp
  then show ?thesis
    using target_reads_refused
    by (auto simp: refused_def read_request_def Pair and_then_split request_codes split: sum.splits)
qed

text \<open>A stream that begins with a request for the target, followed by the given bytes.\<close>

definition requests :: "tcp_stream \<Rightarrow> Target \<Rightarrow> bytes \<Rightarrow> bool" where
  "requests s t rest \<longleftrightarrow>
     (\<exists>methods target. st_input s = greeting_bytes methods @ [5, 1, 0] @ target @ rest \<and>
        length methods < 256 \<and> 0 \<in> set methods \<and> target_bytes t target)"

lemma read_request_requests:
  assumes "\<And>n. st_write_error s n = None"
  shows "read_request s = (Inr t, s') \<longleftrightarrow>
    (\<exists>rest. requests s t rest \<and> s' = s\<lparr>st_input := rest, st_output := st_output s @ [[5, 0]]\<rparr>)"
  unfolding read_request_exact requests_def using assms by blast

lemma reply_code_nonzero: "reply_code e \<noteq> 0"
  by (simp add: reply_code_def split: error_kind.splits)

text \<open>
  C37. On a connection whose writes succeed, a client that asks for a target which can be resolved and connected to gets the
  success reply and its remaining bytes are left for the relay, unless the address of the new connection cannot be read, in which
  case it gets no reply to its request and the error is returned. Every client that asks for no such target gets exactly one failure reply
  with a code other than zero, after at most the answer to its greeting, and an error is returned.
\<close>

theorem every_client_gets_one_reply:
  assumes writes: "\<And>n. st_write_error s n = None" and fresh: "st_output s = []"
  shows "if \<exists>t rest target. requests s t rest \<and> resolve_target (sw_dns w) t = Inr target \<and>
           connect_marked (sw_connect w (fst target) (snd target)) = Inr ()
         then \<exists>t rest. requests s t rest \<and> serve_client w s =
           (case sw_local_addr w of
              Inr bound \<Rightarrow> (dns_failure (sw_copy w), s\<lparr>st_input := rest, st_output := [[5, 0], success_reply bound]\<rparr>)
            | Inl e \<Rightarrow> (Inl (DnsFailed e), s\<lparr>st_input := rest, st_output := [[5, 0]]\<rparr>))
         else \<exists>greeted code e. greeted \<in> {[], [[5, 0]], [[5, 0xff]]} \<and> code \<noteq> 0 \<and>
           fst (serve_client w s) = Inl e \<and> st_output (snd (serve_client w s)) = greeted @ [failure_reply code]"
proof (cases "read_request s")
  case (Pair r s1)
  show ?thesis
  proof (cases r)
    case (Inl e)
    then have "\<not> requests s t rest" for t rest
      using Pair read_request_requests [OF writes] by (metis Pair_inject sum.distinct(1))
    moreover have "refused s (Inl e :: RequestError + Target, s1)" using read_request_refused [OF writes] Pair Inl by simp
    ultimately show ?thesis
      using Inl fresh writes
      by (auto simp: serve_client_def Pair write_failure_def write_all_def refused_def split: option.splits)
  next
    case (Inr t)
    with Pair obtain rest where t: "requests s t rest" and s1: "s1 = s\<lparr>st_input := rest, st_output := [[5, 0]]\<rparr>"
      using read_request_requests [OF writes] fresh by auto
    have unique: "t' = t" if "requests s t' rest'" for t' rest'
      using that Pair Inr read_request_requests [OF writes, of t'] by auto
    have served: "serve_client w s = (case resolve_target (sw_dns w) t of
        Inl e \<Rightarrow> (Inl e, s1\<lparr>st_output := [[5, 0], failure_reply 4]\<rparr>)
      | Inr (address, port) \<Rightarrow> (case connect_marked (sw_connect w address port) of
            Inl e \<Rightarrow> (Inl (DnsFailed e), s1\<lparr>st_output := [[5, 0], failure_reply (reply_code e)]\<rparr>)
          | Inr _ \<Rightarrow> (case sw_local_addr w of
              Inr bound \<Rightarrow> (dns_failure (sw_copy w), s1\<lparr>st_output := [[5, 0], success_reply bound]\<rparr>)
            | Inl e \<Rightarrow> (Inl (DnsFailed e), s1))))"
      using writes s1
      by (auto simp: serve_client_def Pair Inr write_failure_def write_success_def write_all_def dns_failure_def
          and_then_def split: sum.splits)
    show ?thesis
    proof (cases "\<exists>target. resolve_target (sw_dns w) t = Inr target \<and>
        connect_marked (sw_connect w (fst target) (snd target)) = Inr ()")
      case True
      then have "serve_client w s = (case sw_local_addr w of
              Inr bound \<Rightarrow> (dns_failure (sw_copy w), s\<lparr>st_input := rest, st_output := [[5, 0], success_reply bound]\<rparr>)
            | Inl e \<Rightarrow> (Inl (DnsFailed e), s\<lparr>st_input := rest, st_output := [[5, 0]]\<rparr>))"
        using s1 by (auto simp: served split: sum.split)
      then show ?thesis using True t by (subst if_P) blast+
    next
      case False
      then have "\<exists>code e. code \<noteq> 0 \<and> fst (serve_client w s) = Inl e \<and>
          st_output (snd (serve_client w s)) = [[5, 0]] @ [failure_reply code]"
        using reply_code_nonzero by (cases "resolve_target (sw_dns w) t") (auto simp: served failure_reply_def split: sum.splits)
      moreover have "\<not> (\<exists>t' rest' target. requests s t' rest' \<and> resolve_target (sw_dns w) t' = Inr target \<and>
          connect_marked (sw_connect w (fst target) (snd target)) = Inr ())"
        using False unique by blast
      ultimately show ?thesis by (subst if_not_P) blast+
    qed
  qed
qed

definition sample_stream :: tcp_stream where
  "sample_stream = \<lparr>st_input = [5, 1, 0, 5, 1, 0, 1, 10, 0, 0, 7, 0, 80, 42], st_read_error = io_error_new UnexpectedEof,
     st_output = [], st_write_error = (\<lambda>_. None)\<rparr>"

definition sample_socks_world :: socks_world where
  "sample_socks_world = \<lparr>sw_dns = \<lparr>dw_random = Inr [1, 2], dw_socket = Inr (), dw_sent = None, dw_received = (\<lambda>_. None)\<rparr>,
     sw_connect = (\<lambda>_ _. \<lparr>cw_socket = Inr (), cw_connect = Some \<lparr>ioe_kind = OtherKind, ioe_raw_os = Some EINPROGRESS\<rparr>,
       cw_stream = Inr (), cw_writable = Inr (), cw_take_error = Inr None\<rparr>),
     sw_local_addr = Inr \<lparr>sa_ip = V4 (Ipv4Addr 10 0 0 2), sa_port = 4000\<rparr>, sw_copy = Inr ()\<rparr>"

lemma sample_stream_fields: "st_output sample_stream = []" "st_write_error sample_stream n = None"
  by (simp_all add: sample_stream_def)

lemma sample_socks_fields: "sw_local_addr sample_socks_world = Inr \<lparr>sa_ip = V4 (Ipv4Addr 10 0 0 2), sa_port = 4000\<rparr>"
  "sw_copy sample_socks_world = Inr ()"
  by (simp_all add: sample_socks_world_def)

lemma sample_stream_requests: "requests sample_stream (TargetIpv4 (Ipv4Addr 10 0 0 7) 80) [42]"
  by (simp add: requests_def sample_stream_def greeting_bytes_def to_be_two exI [of _ "[0]"])

theorem every_client_gets_one_reply_witness:
  "\<exists>t rest. requests sample_stream t rest \<and> serve_client sample_socks_world sample_stream =
     (Inr (), sample_stream\<lparr>st_input := rest, st_output := [[5, 0], [5, 0, 0, 1, 10, 0, 0, 2, 15, 160]]\<rparr>)"
proof -
  have "\<exists>t rest target. requests sample_stream t rest \<and> resolve_target (sw_dns sample_socks_world) t = Inr target \<and>
      connect_marked (sw_connect sample_socks_world (fst target) (snd target)) = Inr ()"
    using sample_stream_requests
    by - (rule exI, rule exI, rule exI, rule conjI, assumption, simp add: sample_socks_world_def connect_marked_def)
  then show ?thesis
    using every_client_gets_one_reply [of sample_stream sample_socks_world]
    by (simp add: sample_stream_fields sample_socks_fields success_reply_def dns_failure_def to_be_two)
qed

end
