(* ===== verification/AndroidClient.thy ===== *)
theory AndroidClient
  imports LinuxClient
begin

text \<open>
  The native part of the Android client (\<^verbatim>\<open>crates/android-native\<close>): the handshake that can be cancelled
  (\<^verbatim>\<open>handshake.rs\<close>) and the running session with its receiving and sending threads (\<^verbatim>\<open>session.rs\<close>). The record holds what the
  threads share through \<^verbatim>\<open>Arc\<close> and what the receiving loop owns; each thread is a sequence of phases, one per
  operation that other threads can observe, so that the runs are the interleavings of those phases. Errors
  are \<^verbatim>\<open>anyhow\<close> values that the code never inspects; only their origin is kept.
\<close>

section \<open>Errors\<close>

datatype AndroidError = AeClient ClientError | AeCancelled | AePoisoned | AePartialWrite | AeSetup io_error

definition an_is_peer_unavailable :: "io_error \<Rightarrow> bool" where
  "an_is_peer_unavailable e \<longleftrightarrow>
     ioe_kind e \<in> {ConnectionRefused, ConnectionReset, NotConnected, NetworkUnreachable, HostUnreachable, AddrNotAvailable}"

definition is_poll_event :: "io_error \<Rightarrow> bool" where
  "is_poll_event e \<longleftrightarrow> ioe_kind e \<in> {TimedOut, WouldBlock, Interrupted}"

definition is_transient_send :: "io_error \<Rightarrow> bool" where
  "is_transient_send e \<longleftrightarrow> ioe_kind e \<in> {TimedOut, WouldBlock, Interrupted} \<or> ioe_raw_os e \<in> {Some ENOBUFS, Some ENOMEM}"

definition an_is_retryable :: "io_error \<Rightarrow> bool" where
  "an_is_retryable e \<longleftrightarrow>
     ioe_kind e \<in> {TimedOut, WouldBlock, Interrupted, ConnectionRefused, ConnectionReset, NotConnected}"

section \<open>The handshake\<close>

text \<open>
  The waiting loop of \<^verbatim>\<open>renegotiate\<close>: each turn first looks at the flag that asks the session to stop, if there is one. The flag is
  only ever set, so a turn carries whether it has been set by another thread since the turn before, and the loop returns the flag as it
  last saw it. The rest of a turn is that of the other clients, and an answer that cannot be authenticated ends it.
\<close>

fun renegotiate_loop ::
  "wire_libs \<Rightarrow> 'h Snow \<Rightarrow> u64 \<Rightarrow> 'h \<Rightarrow> bytes \<Rightarrow> instant \<Rightarrow> (bool \<times> handshake_turn) list \<Rightarrow> bool option \<Rightarrow> instant \<Rightarrow>
   ClientWire \<Rightarrow> bytes list \<times> (AndroidError + negotiated) option \<times> ClientWire \<times> bool option" where
  "renegotiate_loop W S session_id handshake request deadline [] stopping next_retransmit wire = ([], None, wire, stopping)"
| "renegotiate_loop W S session_id handshake request deadline ((set_since, turn) # turns) stopping0 next_retransmit wire =
     (let stopping = map_option (\<lambda>flag. flag \<or> set_since) stopping0 in
      if stopping = Some True then ([], Some (Inl AeCancelled), wire, stopping)
      else
        (case handshake_step W S an_is_retryable InvalidHandshakeResponse session_id handshake request deadline turn
                next_retransmit wire of
           (outs, Some r, _, wire1) \<Rightarrow> (outs, Some (map_err AeClient r), wire1, stopping)
         | (outs, None, next1, wire1) \<Rightarrow>
             let (outs', r, wire2, stopped) = renegotiate_loop W S session_id handshake request deadline turns stopping next1 wire1
             in (outs @ outs', r, wire2, stopped)))"

record renegotiate_world =
  rw_socket :: "io_error + nat"
  rw_session_random :: "string + bytes"
  rw_started :: instant
  rw_cover_random :: "string + bytes"
  rw_covers :: "nat \<Rightarrow> send_world \<times> (string + bytes)"
  rw_first :: send_world
  rw_turns :: "(bool \<times> handshake_turn) list"

definition renegotiate ::
  "wire_libs \<Rightarrow> 'h Snow \<Rightarrow> ValidatedClientConfig \<Rightarrow> renegotiate_world \<Rightarrow> bool option \<Rightarrow> ClientWire \<Rightarrow>
   bytes list \<times> (AndroidError + negotiated) option \<times> ClientWire \<times> bool option" where
  "renegotiate W S config w stopping wire =
     (case random_session_id (rw_session_random w) of
        Inl e \<Rightarrow> ([], Some (Inl (AeClient e)), wire, stopping)
      | Inr session_id \<Rightarrow>
          (case ClientHandshake_new S (vcc_client_private_key config) (vcc_server_public_key config) (vcc_context config) of
             Inl e \<Rightarrow> ([], Some (Inl (AeClient (CeCrypto e))), wire, stopping)
           | Inr handshake \<Rightarrow>
               (case ClientHandshake_write_initial S handshake [] of
                  Inl e \<Rightarrow> ([], Some (Inl (AeClient (CeCrypto e))), wire, stopping)
                | Inr (handshake1, initial) \<Rightarrow>
                    let request = handshake_request session_id initial in
                    (case send_prelude W (rw_cover_random w) (rw_covers w) wire of
                       (covers, Inl e) \<Rightarrow> (covers, Some (Inl (AeClient e)), wire, stopping)
                     | (covers, Inr _) \<Rightarrow>
                         (case send_request W an_is_retryable (rw_first w) request wire of
                            (Inl e, wire1) \<Rightarrow> (covers, Some (Inl (AeClient e)), wire1, stopping)
                          | (Inr encoded, wire1) \<Rightarrow>
                              let (outs, r, wire2, stopped) = renegotiate_loop W S session_id handshake1 request
                                    (rw_started w + HANDSHAKE_TIMEOUT) (rw_turns w) stopping (rw_started w + HANDSHAKE_RETRANSMIT) wire1
                              in (covers @ encoded # outs, r, wire2, stopped))))))"

text \<open>Binding, protecting and connecting the socket is one outcome; then the handshake runs over it.\<close>

definition an_reconnect ::
  "wire_libs \<Rightarrow> 'h Snow \<Rightarrow> ValidatedClientConfig \<Rightarrow> renegotiate_world \<Rightarrow> bool option \<Rightarrow> ClientWire \<Rightarrow>
   bytes list \<times> (AndroidError + nat \<times> negotiated) option \<times> ClientWire \<times> bool option" where
  "an_reconnect W S config w stopping wire =
     (case rw_socket w of
        Inl e \<Rightarrow> ([], Some (Inl (AeSetup e)), wire, stopping)
      | Inr socket \<Rightarrow>
          let (outs, r, wire1, stopped) = renegotiate W S config w stopping wire
          in (outs, map_option (\<lambda>r. bind_r r (\<lambda>session. Inr (socket, session))) r, wire1, stopped))"

section \<open>State\<close>

record SessionMetrics =
  am_packets_sent :: u64
  am_bytes_sent :: u64
  am_packets_received :: u64
  am_bytes_received :: u64
  am_tun_drops :: u64
  am_udp_send_drops :: u64
  am_reconnects :: u64
  am_last_reconnect_ms :: u64
  am_network_changes :: u64
  am_session_timeouts :: u64
  am_peer_unreachable :: u64
  am_reconnect_failures :: u64
  am_invalid_datagrams :: u64
  am_keepalives_sent :: u64
  am_keepalive_responses :: u64
  am_last_keepalive_rtt_ms :: u64
  am_max_keepalive_rtt_ms :: u64

definition SessionMetrics_default :: SessionMetrics where
  "SessionMetrics_default =
     \<lparr>am_packets_sent = 0, am_bytes_sent = 0, am_packets_received = 0, am_bytes_received = 0, am_tun_drops = 0,
      am_udp_send_drops = 0, am_reconnects = 0, am_last_reconnect_ms = 0, am_network_changes = 0, am_session_timeouts = 0,
      am_peer_unreachable = 0, am_reconnect_failures = 0, am_invalid_datagrams = 0, am_keepalives_sent = 0,
      am_keepalive_responses = 0, am_last_keepalive_rtt_ms = 0, am_max_keepalive_rtt_ms = 0\<rparr>"

text \<open>Where the receiving loop stands: \<open>InConnecting\<close> waits for a handshake it started at the given instant.\<close>

datatype incoming_phase =
  InTop | InKeepalive | InUpdate | InDecide | InConnecting instant | InReturned "AndroidError option" | InJoining |
  InFinished

text \<open>Where the sending thread stands: with packets it has read, or with the answer of the socket still to be recorded.\<close>

datatype an_outgoing_phase =
  AoPoll | AoPackets "bytes list" | AoSent "io_error + nat" "nat list" | AoReturned "AndroidError option" | AoDone

record AndroidSession =
  an_stopping :: bool
  an_alive :: bool
  an_reconnecting :: bool
  an_reconnect_requested :: bool
  an_parameters_changed :: bool
  an_metrics :: SessionMetrics
  an_parameters :: SessionParameters
  an_wire :: ClientWire
  an_outbound_transport :: nat
  an_sender :: TunnelSender
  an_poisoned :: bool
  an_outgoing_stopping :: bool
  an_wakes :: nat
  an_transport :: nat
  an_receiver :: TunnelReceiver
  an_last_sent :: instant
  an_keepalive_sent_at :: "instant option"
  an_last_received :: instant
  an_next_reconnect :: instant
  an_backoff :: duration
  an_needed :: bool
  an_in :: incoming_phase
  an_out :: an_outgoing_phase
  an_log :: "client_output list"

definition an_KEEPALIVE :: duration where "an_KEEPALIVE = secs 10"
definition an_SESSION_TIMEOUT :: duration where "an_SESSION_TIMEOUT = secs 20"
definition MIN_RECONNECT_RETRY :: duration where "MIN_RECONNECT_RETRY = secs 1"
definition MAX_RECONNECT_RETRY :: duration where "MAX_RECONNECT_RETRY = secs 16"
definition an_UDP_BATCH_SIZE :: nat where "an_UDP_BATCH_SIZE = 32"

abbreviation an_counted :: "((u64 \<Rightarrow> u64) \<Rightarrow> SessionMetrics \<Rightarrow> SessionMetrics) \<Rightarrow> u64 \<Rightarrow> AndroidSession \<Rightarrow> AndroidSession" where
  "an_counted counter n \<equiv> an_metrics_update (counter (\<lambda>m. m + n))"

definition an_signal :: "AndroidSession \<Rightarrow> AndroidSession" where
  "an_signal s = s\<lparr>an_wakes := an_wakes s + 1\<rparr>"

definition millis :: "duration \<Rightarrow> u64" where
  "millis d = of_nat (min (d div 1000000) (2 ^ 64 - 1))"

section \<open>The receiving loop\<close>

text \<open>
  Writing to the TUN device repeats interrupted writes; the answer here is the first one that is not an interruption.
\<close>

datatype tun_write = Wrote nat | WriteWouldBlock | WriteFailed io_error

definition write_packet_nonblocking :: "tun_write \<Rightarrow> bytes \<Rightarrow> AndroidError + bool" where
  "write_packet_nonblocking answer packet =
     (case answer of
        Wrote n \<Rightarrow> if n \<noteq> 0 \<and> n = length packet then Inr True else Inl AePartialWrite
      | WriteWouldBlock \<Rightarrow> Inr False
      | WriteFailed e \<Rightarrow> Inl (AeClient (CeIo e)))"

record received_world =
  rc_decode_clock :: "u64 option"
  rc_now :: instant
  rc_rtt_now :: instant
  rc_tun :: tun_write

definition process_received ::
  "wire_libs \<Rightarrow> received_world \<Rightarrow> bytes \<Rightarrow> AndroidSession \<Rightarrow> (AndroidError + unit) \<times> AndroidSession" where
  "process_received W w packet s0 =
     (let (decoded, wire) = ClientWire_decode W (rc_decode_clock w) (an_wire s0) packet;
          s = s0\<lparr>an_wire := wire\<rparr>;
          datagram = (case decoded of Inr (True, payload) \<Rightarrow> ok (Datagram_decode payload) | _ \<Rightarrow> None)
      in
      case datagram of
        None \<Rightarrow> (Inr (), an_counted am_invalid_datagrams_update 1 s)
      | Some d \<Rightarrow>
          let (r, receiver) = TunnelReceiver_decode_into (an_receiver s) d; s1 = s\<lparr>an_receiver := receiver\<rparr> in
          (case r of
             Inr (DecodedIp ip) \<Rightarrow>
               let s2 = an_counted am_bytes_received_update (of_nat (length ip))
                          (an_counted am_packets_received_update 1 (s1\<lparr>an_last_received := rc_now w\<rparr>)) in
               (case write_packet_nonblocking (rc_tun w) ip of
                  Inl e \<Rightarrow> (Inl e, s2)
                | Inr True \<Rightarrow> (Inr (), s2\<lparr>an_log := an_log s2 @ [OutTun ip]\<rparr>)
                | Inr False \<Rightarrow> (Inr (), an_counted am_tun_drops_update 1 s2))
           | Inr DecodedKeepalive \<Rightarrow>
               let s2 = s1\<lparr>an_last_received := rc_now w, an_keepalive_sent_at := None\<rparr> in
               (case an_keepalive_sent_at s1 of
                  None \<Rightarrow> (Inr (), s2)
                | Some sent_at \<Rightarrow>
                    let rtt_ms = millis (rc_rtt_now w - sent_at) in
                    (Inr (), an_metrics_update (\<lambda>m. m\<lparr>am_keepalive_responses := am_keepalive_responses m + 1,
                       am_last_keepalive_rtt_ms := rtt_ms,
                       am_max_keepalive_rtt_ms := max (am_max_keepalive_rtt_ms m) rtt_ms\<rparr>) s2))
           | Inl _ \<Rightarrow> (Inr (), an_counted am_invalid_datagrams_update 1 s1)))"

fun process_all ::
  "wire_libs \<Rightarrow> (bytes \<times> received_world) list \<Rightarrow> AndroidSession \<Rightarrow> (AndroidError + unit) \<times> AndroidSession" where
  "process_all W [] s = (Inr (), s)"
| "process_all W ((packet, w) # rest) s = and_then (process_received W w packet s) (\<lambda>_ s. process_all W rest s)"

text \<open>The server cannot be reached: an_counted once until the session is replaced.\<close>

definition peer_lost :: "AndroidSession \<Rightarrow> AndroidSession" where
  "peer_lost s = (if an_needed s then s else an_counted am_peer_unreachable_update 1 s)\<lparr>an_needed := True\<rparr>"

definition receive_turn :: "wire_libs \<Rightarrow> io_error + (bytes \<times> received_world) list \<Rightarrow> AndroidSession \<Rightarrow> AndroidSession" where
  "receive_turn W received s =
     (if an_stopping s then s\<lparr>an_in := InReturned None\<rparr>
      else
        (case received of
           Inr packets \<Rightarrow>
             (case process_all W packets s of
                (Inr _, s1) \<Rightarrow> s1\<lparr>an_in := InKeepalive\<rparr>
              | (Inl e, s1) \<Rightarrow> s1\<lparr>an_in := InReturned (Some e)\<rparr>)
         | Inl e \<Rightarrow>
             if is_poll_event e then s\<lparr>an_in := InKeepalive\<rparr>
             else if an_is_peer_unavailable e then (peer_lost s)\<lparr>an_in := InKeepalive\<rparr>
             else s\<lparr>an_in := InReturned (Some (AeClient (CeIo e)))\<rparr>))"

record keepalive_world =
  kw_due_now :: instant
  kw_send :: send_world
  kw_sent_now :: instant

definition an_send_keepalive :: "wire_libs \<Rightarrow> keepalive_world \<Rightarrow> AndroidSession \<Rightarrow> (AndroidError + unit) \<times> AndroidSession" where
  "an_send_keepalive W w s0 =
     (if an_poisoned s0 then (Inl AePoisoned, s0)
      else
        let (encoded, sender) = TunnelSender_encode_keepalive_into (an_sender s0); s = s0\<lparr>an_sender := sender\<rparr> in
        (case encoded of
           Inl e \<Rightarrow> (Inl (AeClient (CeDataPlane e)), s)
         | Inr datagram \<Rightarrow>
             let (masked, wire) = ClientWire_encode W (sw_clock (kw_send w)) (sw_random (kw_send w)) (an_wire s) datagram;
                 s1 = s\<lparr>an_wire := wire\<rparr>
             in
             (case masked of
                Inl e \<Rightarrow> (Inl (AeClient (CeWire e)), s1)
              | Inr out \<Rightarrow>
                  (case sw_sent (kw_send w) of
                     None \<Rightarrow>
                       (Inr (), an_counted am_keepalives_sent_update 1 (s1\<lparr>an_last_sent := kw_sent_now w,
                          an_keepalive_sent_at := Some (kw_sent_now w), an_log := an_log s1 @ [OutSend (an_transport s1) out]\<rparr>))
                   | Some e \<Rightarrow>
                       if an_is_peer_unavailable e then
                         (Inr (), (peer_lost s1)\<lparr>an_last_sent := kw_sent_now w, an_keepalive_sent_at := None\<rparr>)
                       else if is_transient_send e then
                         (Inr (), s1\<lparr>an_last_sent := kw_sent_now w, an_keepalive_sent_at := None\<rparr>)
                       else (Inl (AeClient (CeIo e)), s1)))))"

definition keepalive_turn :: "wire_libs \<Rightarrow> keepalive_world \<Rightarrow> AndroidSession \<Rightarrow> AndroidSession" where
  "keepalive_turn W w s =
     (if kw_due_now w - an_last_sent s \<ge> an_KEEPALIVE then
        (case an_send_keepalive W w s of
           (Inr _, s1) \<Rightarrow> s1\<lparr>an_in := InUpdate\<rparr>
         | (Inl e, s1) \<Rightarrow> s1\<lparr>an_in := InReturned (Some e)\<rparr>)
      else s\<lparr>an_in := InUpdate\<rparr>)"

definition update_reconnect_state :: "instant \<Rightarrow> instant \<Rightarrow> AndroidSession \<Rightarrow> AndroidSession" where
  "update_reconnect_state now silence_now s =
     (let s1 = (if an_reconnect_requested s then s\<lparr>an_needed := True, an_next_reconnect := now\<rparr> else s)
                 \<lparr>an_reconnect_requested := False\<rparr>;
          s2 = (if silence_now - an_last_received s1 \<ge> an_SESSION_TIMEOUT \<and> \<not> an_needed s1
                then (an_counted am_session_timeouts_update 1 s1)\<lparr>an_needed := True\<rparr> else s1)
      in if an_needed s2 then (if an_reconnecting s2 then s2 else an_signal s2)\<lparr>an_reconnecting := True\<rparr> else s2)"

text \<open>The decision to reconnect, up to the start of the handshake.\<close>

definition decide_turn :: "instant \<Rightarrow> instant \<Rightarrow> AndroidSession \<Rightarrow> AndroidSession" where
  "decide_turn now started s =
     (if an_needed s \<and> now \<ge> an_next_reconnect s
      then (an_counted am_reconnects_update 1 s)\<lparr>an_in := InConnecting started\<rparr>
      else s\<lparr>an_in := InTop\<rparr>)"

record install_world =
  in_timeout_set :: "io_error option"
  in_clone :: "io_error option"
  in_now :: instant

definition install_replacement ::
  "install_world \<Rightarrow> nat \<Rightarrow> TunnelDataPlane \<Rightarrow> AndroidSession \<Rightarrow> (AndroidError + unit) \<times> AndroidSession" where
  "install_replacement w socket plane s =
     (case in_timeout_set w of
        Some e \<Rightarrow> (Inl (AeSetup e), s)
      | None \<Rightarrow>
          let (sender, receiver) = TunnelDataPlane_split plane; s1 = s\<lparr>an_receiver := receiver\<rparr> in
          (case in_clone w of
             Some e \<Rightarrow> (Inl (AeSetup e), s1)
           | None \<Rightarrow>
               if an_poisoned s1 then (Inl AePoisoned, s1)
               else (Inr (), s1\<lparr>an_outbound_transport := socket, an_sender := sender, an_transport := socket,
                       an_last_received := in_now w, an_last_sent := in_now w, an_keepalive_sent_at := None,
                       an_needed := False, an_backoff := MIN_RECONNECT_RETRY\<rparr>)))"

definition record_reconnect_duration :: "duration \<Rightarrow> AndroidSession \<Rightarrow> AndroidSession" where
  "record_reconnect_duration elapsed = an_metrics_update (am_last_reconnect_ms_update (\<lambda>_. millis elapsed))"

definition finish_reconnect :: "duration \<Rightarrow> AndroidSession \<Rightarrow> AndroidSession" where
  "finish_reconnect elapsed s = an_signal ((record_reconnect_duration elapsed s)\<lparr>an_reconnecting := False\<rparr>)"

record connect_outcome =
  co_world :: renegotiate_world
  co_install :: install_world
  co_finished :: instant

text \<open>
  The end of \<^verbatim>\<open>try_reconnect\<close>. The handshake reads the session's own flag, and a request to stop that came during it stays set; a
  handshake that still waits leaves the loop where it is.
\<close>

definition finish_connecting ::
  "wire_libs \<Rightarrow> 'h Snow \<Rightarrow> ValidatedClientConfig \<Rightarrow> connect_outcome \<Rightarrow> instant \<Rightarrow> AndroidSession \<Rightarrow> AndroidSession" where
  "finish_connecting W S config w started s0 =
     (let (outs, r, wire, stopped) = an_reconnect W S config (co_world w) (Some (an_stopping s0)) (an_wire s0);
          socket = (case rw_socket (co_world w) of Inr n \<Rightarrow> n | Inl _ \<Rightarrow> 0);
          s = s0\<lparr>an_wire := wire, an_log := an_log s0 @ map (OutSend socket) outs, an_stopping := stopped = Some True\<rparr>;
          elapsed = co_finished w - started
      in
      case r of
        None \<Rightarrow> s0
      | Some (Inr (transport, plane, parameters)) \<Rightarrow>
          if parameters = an_parameters s then
            (case install_replacement (co_install w) transport plane s of
               (Inr _, s1) \<Rightarrow> (finish_reconnect elapsed s1)\<lparr>an_in := InTop\<rparr>
             | (Inl e, s1) \<Rightarrow> (finish_reconnect elapsed s1)\<lparr>an_in := InReturned (Some e)\<rparr>)
          else (finish_reconnect elapsed (s\<lparr>an_parameters_changed := True, an_stopping := True\<rparr>))\<lparr>an_in := InTop\<rparr>
      | Some (Inl _) \<Rightarrow>
          (record_reconnect_duration elapsed
             ((an_counted am_reconnect_failures_update 1 s)
                \<lparr>an_next_reconnect := co_finished w + an_backoff s, an_backoff := min (an_backoff s * 2) MAX_RECONNECT_RETRY\<rparr>))
            \<lparr>an_in := InTop\<rparr>)"

record incoming_world =
  iw_received :: "io_error + (bytes \<times> received_world) list"
  iw_keepalive :: keepalive_world
  iw_now :: instant
  iw_silence_now :: instant
  iw_started :: instant
  iw_connect :: connect_outcome

text \<open>One operation of the receiving thread; after its loop it tells the sending thread to stop and joins it.\<close>

definition incoming_step ::
  "wire_libs \<Rightarrow> 'h Snow \<Rightarrow> ValidatedClientConfig \<Rightarrow> incoming_world \<Rightarrow> AndroidSession \<Rightarrow> AndroidSession" where
  "incoming_step W S config w s =
     (case an_in s of
        InTop \<Rightarrow> receive_turn W (iw_received w) s
      | InKeepalive \<Rightarrow> keepalive_turn W (iw_keepalive w) s
      | InUpdate \<Rightarrow> (update_reconnect_state (iw_now w) (iw_silence_now w) s)\<lparr>an_in := InDecide\<rparr>
      | InDecide \<Rightarrow> decide_turn (iw_now w) (iw_started w) s
      | InConnecting started \<Rightarrow> finish_connecting W S config (iw_connect w) started s
      | InReturned _ \<Rightarrow> an_signal (s\<lparr>an_outgoing_stopping := True, an_in := InJoining\<rparr>)
      | InJoining \<Rightarrow> if an_out s = AoDone then s\<lparr>an_alive := False, an_in := InFinished\<rparr> else s
      | InFinished \<Rightarrow> s)"

section \<open>The sending thread\<close>

text \<open>At most a batch of packets, up to the first read that would block; \<open>None\<close> is the end of the device.\<close>

fun an_read_batch :: "nat \<Rightarrow> (io_error + bytes) list \<Rightarrow> (AndroidError + bytes list) option" where
  "an_read_batch 0 reads = Some (Inr [])"
| "an_read_batch (Suc n) [] = Some (Inr [])"
| "an_read_batch (Suc n) (Inr packet # reads) =
     (if packet = [] then None
      else map_option (\<lambda>r. bind_r r (\<lambda>packets. Inr (packet # packets))) (an_read_batch n reads))"
| "an_read_batch (Suc n) (Inl e # reads) =
     Some (if ioe_kind e \<in> {WouldBlock, Interrupted} then Inr [] else Inl (AeClient (CeIo e)))"

record an_outgoing_world =
  aw_poll :: "io_error + bool"
  aw_reads :: "(io_error + bytes) list"
  aw_wire :: "nat \<Rightarrow> u64 option \<times> (string + bytes)"
  aw_sent :: "io_error + nat"

text \<open>The wait for a packet or a wake-up, during a reconnection only for a wake-up, and the reads that follow it.\<close>

definition poll_turn :: "an_outgoing_world \<Rightarrow> AndroidSession \<Rightarrow> AndroidSession" where
  "poll_turn w s =
     (if an_outgoing_stopping s \<or> an_stopping s then s\<lparr>an_out := AoReturned None\<rparr>
      else
        (case aw_poll w of
           Inl e \<Rightarrow> s\<lparr>an_out := AoReturned (Some (AeSetup e))\<rparr>
         | Inr readable \<Rightarrow>
             let s1 = s\<lparr>an_wakes := 0\<rparr> in
             if \<not> (readable \<and> \<not> an_reconnecting s) then s1
             else
               (case an_read_batch an_UDP_BATCH_SIZE (aw_reads w) of
                  None \<Rightarrow> s1\<lparr>an_out := AoReturned None\<rparr>
                | Some (Inl e) \<Rightarrow> s1\<lparr>an_out := AoReturned (Some e)\<rparr>
                | Some (Inr packets) \<Rightarrow> s1\<lparr>an_out := AoPackets packets\<rparr>)))"

text \<open>Packets of IPv6 and packets that cannot be encoded are left out; the lengths are those of the packets taken.\<close>

fun an_encode_packets :: "bytes list \<Rightarrow> TunnelSender \<Rightarrow> (bytes \<times> nat) list \<times> TunnelSender" where
  "an_encode_packets [] sender = ([], sender)"
| "an_encode_packets (packet # packets) sender =
     (if is_ipv6 packet then an_encode_packets packets sender
      else
        (case TunnelSender_encode_ip_into sender packet of
           (Inl _, sender1) \<Rightarrow> an_encode_packets packets sender1
         | (Inr datagram, sender1) \<Rightarrow>
             let (datagrams, sender2) = an_encode_packets packets sender1 in ((datagram, length packet) # datagrams, sender2)))"

text \<open>What happens while the outbound state is locked; an empty batch is not sent.\<close>

definition send_turn :: "wire_libs \<Rightarrow> an_outgoing_world \<Rightarrow> bytes list \<Rightarrow> AndroidSession \<Rightarrow> AndroidSession" where
  "send_turn W w packets s =
     (if an_poisoned s then s\<lparr>an_out := AoReturned (Some AePoisoned)\<rparr>
      else
        let (datagrams, sender) = an_encode_packets packets (an_sender s);
            s1 = s\<lparr>an_sender := sender\<rparr>;
            (masked, wire) = mask_datagrams W (aw_wire w) (map fst datagrams) (an_wire s1);
            s2 = s1\<lparr>an_wire := wire\<rparr>
        in
        (case masked of
           Inl e \<Rightarrow> s2\<lparr>an_out := AoReturned (Some (AeClient e))\<rparr>
         | Inr outs \<Rightarrow>
             let answer = (if outs = [] then Inr 0 else aw_sent w);
                 accepted = (case answer of Inr n \<Rightarrow> take n outs | Inl _ \<Rightarrow> [])
             in s2\<lparr>an_out := AoSent answer (map snd datagrams),
                   an_log := an_log s2 @ map (OutSend (an_outbound_transport s2)) accepted\<rparr>))"

definition record_outgoing_result :: "io_error + nat \<Rightarrow> nat list \<Rightarrow> AndroidSession \<Rightarrow> AndroidSession" where
  "record_outgoing_result answer sizes s =
     (case answer of
        Inr n \<Rightarrow>
          (an_counted am_udp_send_drops_update (of_nat (length sizes - n))
             (an_counted am_bytes_sent_update (of_nat (sum_list (take n sizes)))
                (an_counted am_packets_sent_update (of_nat n) s)))\<lparr>an_out := AoPoll\<rparr>
      | Inl e \<Rightarrow>
          if an_is_peer_unavailable e then
            (if an_reconnect_requested s then s else an_signal (an_counted am_peer_unreachable_update 1 s))
              \<lparr>an_reconnect_requested := True, an_out := AoPoll\<rparr>
          else if is_transient_send e then (an_counted am_udp_send_drops_update (of_nat (length sizes)) s)\<lparr>an_out := AoPoll\<rparr>
          else s\<lparr>an_out := AoReturned (Some (AeClient (CeIo e)))\<rparr>)"

text \<open>The end of the thread: if nobody asked it to end, it ends the session.\<close>

definition outgoing_ends :: "AndroidSession \<Rightarrow> AndroidSession" where
  "outgoing_ends s =
     (if \<not> an_stopping s \<and> \<not> an_outgoing_stopping s then an_signal (s\<lparr>an_stopping := True\<rparr>) else s)\<lparr>an_out := AoDone\<rparr>"

definition an_outgoing_step :: "wire_libs \<Rightarrow> an_outgoing_world \<Rightarrow> AndroidSession \<Rightarrow> AndroidSession" where
  "an_outgoing_step W w s =
     (case an_out s of
        AoPoll \<Rightarrow> poll_turn w s
      | AoPackets packets \<Rightarrow> send_turn W w packets s
      | AoSent answer sizes \<Rightarrow> record_outgoing_result answer sizes s
      | AoReturned _ \<Rightarrow> outgoing_ends s
      | AoDone \<Rightarrow> s)"

section \<open>Both threads and the service\<close>

text \<open>The service reports a change of network or asks the session to stop, \<^verbatim>\<open>registry.rs\<close>.\<close>

definition an_network_changed :: "AndroidSession \<Rightarrow> AndroidSession" where
  "an_network_changed s = an_signal ((an_counted am_network_changes_update 1 s)\<lparr>an_reconnect_requested := True\<rparr>)"

definition an_request_stop :: "AndroidSession \<Rightarrow> AndroidSession" where
  "an_request_stop s = an_signal (s\<lparr>an_stopping := True\<rparr>)"

datatype android_event = Incoming incoming_world | Sending an_outgoing_world | NetworkChange | StopRequest

fun android_step ::
  "wire_libs \<Rightarrow> 'h Snow \<Rightarrow> ValidatedClientConfig \<Rightarrow> AndroidSession \<Rightarrow> android_event \<Rightarrow> AndroidSession" where
  "android_step W S config s (Incoming w) = incoming_step W S config w s"
| "android_step W S config s (Sending w) = an_outgoing_step W w s"
| "android_step W S config s NetworkChange = an_network_changed s"
| "android_step W S config s StopRequest = an_request_stop s"

definition android_run ::
  "wire_libs \<Rightarrow> 'h Snow \<Rightarrow> ValidatedClientConfig \<Rightarrow> AndroidSession \<Rightarrow> android_event list \<Rightarrow> AndroidSession" where
  "android_run W S config = foldl (android_step W S config)"

text \<open>\<^verbatim>\<open>spawn\<close> and the start of \<^verbatim>\<open>run\<close>, once both threads are there.\<close>

definition an_spawn :: "nat \<Rightarrow> negotiated \<Rightarrow> ClientWire \<Rightarrow> instant \<Rightarrow> AndroidSession" where
  "an_spawn socket session wire now =
     (let (sender, receiver) = TunnelDataPlane_split (fst session) in
      \<lparr>an_stopping = False, an_alive = True, an_reconnecting = False, an_reconnect_requested = False,
       an_parameters_changed = False, an_metrics = SessionMetrics_default, an_parameters = snd session, an_wire = wire,
       an_outbound_transport = socket, an_sender = sender, an_poisoned = False, an_outgoing_stopping = False, an_wakes = 0,
       an_transport = socket, an_receiver = receiver, an_last_sent = now, an_keepalive_sent_at = None,
       an_last_received = now, an_next_reconnect = now, an_backoff = MIN_RECONNECT_RETRY, an_needed = False,
       an_in = InTop, an_out = AoPoll, an_log = []\<rparr>)"

end
