(* ===== verification/Sessions.thy ===== *)
theory Sessions
  imports ClientProps
begin

text \<open>
  What the clients of every platform rely on: a negotiated session carries the MTU of its parameters, and using a half of
  the tunnel changes neither the session it belongs to nor its MTU.
\<close>

section \<open>Negotiated sessions\<close>

definition matches_parameters :: "negotiated \<Rightarrow> bool" where
  "matches_parameters session \<longleftrightarrow> tdp_mtu (fst session) = unat (sp_mtu (snd session))"

lemma handshake_reply_matches:
  "handshake_reply S rejected session_id handshake decoded = Some (Inr session) \<Longrightarrow> matches_parameters session"
  by (auto simp: handshake_reply_def matches_parameters_def TunnelDataPlane_new_def split: sum.splits prod.splits bool.splits if_splits)

lemma handshake_step_matches:
  "handshake_step W S retryable rejected i h request deadline turn next wire = (outs, Some (Inr session), t, wire') \<Longrightarrow>
   matches_parameters session"
  by (auto simp: handshake_step_def Let_def split: if_splits sum.splits prod.splits option.splits
      dest: handshake_reply_matches)

lemma handshake_loop_matches:
  "handshake_loop W S retryable rejected i h request deadline turns nxt wire = (outs, Some (Inr session), wire') \<Longrightarrow>
   matches_parameters session"
proof (induction turns arbitrary: nxt wire outs wire')
  case (Cons turn turns)
  then show ?case
    by (auto split: if_splits prod.splits option.splits dest: handshake_step_matches)
qed simp

lemma win_negotiate_matches:
  "win_negotiate W S config w wire = (outs, Some (Inr session), wire') \<Longrightarrow> matches_parameters session"
  by (auto simp: win_negotiate_def await_session_def Let_def split: sum.splits prod.splits dest: handshake_loop_matches)

lemma sample_matches: "matches_parameters sample_negotiated"
  by (simp add: matches_parameters_def sample_negotiated_def TunnelDataPlane_new_def)

section \<open>Halves of the tunnel\<close>

lemma encode_into_keeps: "ts_session_id (snd (TunnelSender_encode_into s kind ikind payload)) = ts_session_id s"
  "ts_mtu (snd (TunnelSender_encode_into s kind ikind payload)) = ts_mtu s"
  by (simp_all add: TunnelSender_encode_into_def Let_def split: option.splits sum.splits)

lemma encode_ip_keeps: "ts_session_id (snd (TunnelSender_encode_ip_into s packet)) = ts_session_id s"
  "ts_mtu (snd (TunnelSender_encode_ip_into s packet)) = ts_mtu s"
  by (simp_all add: TunnelSender_encode_ip_into_def encode_into_keeps split: sum.splits)

lemma encode_keepalive_keeps: "ts_session_id (snd (TunnelSender_encode_keepalive_into s)) = ts_session_id s"
  "ts_mtu (snd (TunnelSender_encode_keepalive_into s)) = ts_mtu s"
  by (simp_all add: TunnelSender_encode_keepalive_into_def encode_into_keeps)

lemma decode_into_keeps: "tr_session_id (snd (TunnelReceiver_decode_into r d)) = tr_session_id r"
  "tr_mtu (snd (TunnelReceiver_decode_into r d)) = tr_mtu r"
  by (simp_all add: TunnelReceiver_decode_into_def Let_def split: prod.splits)

definition halves_agree :: "SessionParameters \<Rightarrow> TunnelSender \<Rightarrow> TunnelReceiver \<Rightarrow> bool" where
  "halves_agree parameters sender receiver \<longleftrightarrow>
     ts_session_id sender = tr_session_id receiver \<and> ts_mtu sender = unat (sp_mtu parameters) \<and>
     tr_mtu receiver = unat (sp_mtu parameters)"

lemma split_halves_agree:
  "matches_parameters (plane, parameters) \<Longrightarrow> TunnelDataPlane_split plane = (sender, receiver) \<Longrightarrow>
   halves_agree parameters sender receiver"
  by (auto simp: matches_parameters_def halves_agree_def TunnelDataPlane_split_def split: prod.splits)

end
