(* ===== verification/AndroidProps.thy ===== *)
theory AndroidProps
  imports AndroidClient Sessions
begin

text \<open>
  Properties of the running Android session: both halves of the tunnel always belong to one session with the negotiated
  parameters, the sending thread pauses only while a reconnection is due, and the session ends once the sending thread has.
\<close>

section \<open>Negotiated sessions\<close>

lemma renegotiate_loop_matches:
  "renegotiate_loop W S i h request deadline turns stopping nxt wire = (outs, Some (Inr session), wire', stopped) \<Longrightarrow>
   matches_parameters session"
proof (induction turns arbitrary: stopping nxt wire outs wire')
  case (Cons x turns)
  obtain set_since turn where x: "x = (set_since, turn)" by (cases x)
  from Cons show ?case
    by (auto simp: x Let_def map_err_eq_Inr split: if_splits prod.splits option.splits sum.splits dest: handshake_step_matches)
qed simp

lemma renegotiate_matches:
  "renegotiate W S config w stopping wire = (outs, Some (Inr session), wire', stopped) \<Longrightarrow> matches_parameters session"
  by (auto simp: renegotiate_def Let_def split: sum.splits prod.splits dest: renegotiate_loop_matches)

lemma an_reconnect_matches:
  "an_reconnect W S config w stopping wire = (outs, Some (Inr (socket, session)), wire', stopped) \<Longrightarrow> matches_parameters session"
  by (auto simp: an_reconnect_def bind_r_eq_Inr split: sum.splits prod.splits dest: renegotiate_matches)

text \<open>A handshake never clears the flag that asks it to stop.\<close>

lemma an_reconnect_stopped:
  "an_reconnect W S config w (Some True) wire = (outs, r, wire', stopped) \<Longrightarrow> stopped = Some True"
  by (cases "rw_turns w") (auto simp: an_reconnect_def renegotiate_def Let_def split_beta split: sum.splits prod.splits)

text \<open>It ends at once when it is to stop, and otherwise by its deadline.\<close>

lemma renegotiate_loop_ends:
  assumes "\<exists>(set_since, turn) \<in> set turns. flag \<or> set_since \<or> deadline \<le> ht_now turn"
  shows "fst (snd (renegotiate_loop W S i h request deadline turns (Some flag) nxt wire)) \<noteq> None"
  using assms
proof (induction turns arbitrary: flag nxt wire)
  case (Cons x turns)
  obtain set_since turn where x: "x = (set_since, turn)" by (cases x)
  obtain outs r next1 wire1 where step:
    "handshake_step W S an_is_retryable InvalidHandshakeResponse i h request deadline turn nxt wire = (outs, r, next1, wire1)"
    by (metis prod_cases4)
  show ?case
  proof (cases "flag \<or> set_since \<or> r \<noteq> None")
    case True
    then show ?thesis by (auto simp: x step Let_def)
  next
    case False
    then have "\<not> deadline \<le> ht_now turn" using handshake_step_due(1) [OF step] by blast
    with False Cons.prems have "\<exists>(set_since, turn) \<in> set turns. flag \<or> set_since \<or> deadline \<le> ht_now turn" by (auto simp: x)
    then show ?thesis using False Cons.IH [of False next1 wire1] by (auto simp: x step Let_def split_beta)
  qed
qed simp

lemma an_reconnect_ends:
  assumes "\<exists>(set_since, turn) \<in> set (rw_turns w). flag \<or> set_since \<or> rw_started w + HANDSHAKE_TIMEOUT \<le> ht_now turn"
  shows "fst (snd (an_reconnect W S config w (Some flag) wire)) \<noteq> None"
proof -
  have ends: "\<exists>r. fst (snd (renegotiate_loop W S i h request (rw_started w + HANDSHAKE_TIMEOUT) (rw_turns w) (Some flag) nxt wire)) = Some r"
    for i h request nxt wire using renegotiate_loop_ends [OF assms, of W S i h request nxt wire] by simp
  show ?thesis by (auto simp: an_reconnect_def renegotiate_def Let_def split_beta ends split: sum.splits prod.splits)
qed

section \<open>The invariant\<close>

lemma encode_packets_keeps: "ts_session_id (snd (an_encode_packets packets s)) = ts_session_id s \<and>
    ts_mtu (snd (an_encode_packets packets s)) = ts_mtu s"
proof (induction packets arbitrary: s)
  case (Cons packet packets)
  then show ?case
    using encode_ip_keeps [of s packet] by (cases "TunnelSender_encode_ip_into s packet") (simp add: Let_def split_beta split: sum.splits)
qed simp

definition in_loop :: "incoming_phase \<Rightarrow> bool" where
  "in_loop phase \<longleftrightarrow> (case phase of InReturned _ \<Rightarrow> False | InJoining \<Rightarrow> False | InFinished \<Rightarrow> False | _ \<Rightarrow> True)"

definition one_session :: "AndroidSession \<Rightarrow> bool" where
  "one_session s \<longleftrightarrow> ts_session_id (an_sender s) = tr_session_id (an_receiver s) \<and>
     ts_mtu (an_sender s) = unat (sp_mtu (an_parameters s)) \<and> tr_mtu (an_receiver s) = unat (sp_mtu (an_parameters s)) \<and>
     an_outbound_transport s = an_transport s"

definition android_inv :: "SessionParameters \<Rightarrow> AndroidSession \<Rightarrow> bool" where
  "android_inv parameters s \<longleftrightarrow>
     an_parameters s = parameters \<and>
     MIN_RECONNECT_RETRY \<le> an_backoff s \<and> an_backoff s \<le> MAX_RECONNECT_RETRY \<and>
     (an_parameters_changed s \<longrightarrow> an_stopping s) \<and>
     (an_reconnecting s \<longrightarrow> an_needed s) \<and>
     (in_loop (an_in s) \<longrightarrow> one_session s) \<and>
     (an_outgoing_stopping s \<longrightarrow> an_in s \<in> {InJoining, InFinished}) \<and>
     (an_out s = AoDone \<longrightarrow> an_stopping s \<or> an_outgoing_stopping s) \<and>
     (an_alive s \<longleftrightarrow> an_in s \<noteq> InFinished) \<and>
     (an_in s = InFinished \<longrightarrow> an_out s = AoDone)"

text \<open>
  Operations that leave alone what the invariant speaks of, apart from the session's halves, and that only ever set
  the wish to reconnect.
\<close>

definition keeps :: "AndroidSession \<Rightarrow> AndroidSession \<Rightarrow> bool" where
  "keeps s t \<longleftrightarrow>
     an_parameters t = an_parameters s \<and> an_backoff t = an_backoff s \<and> an_parameters_changed t = an_parameters_changed s \<and>
     an_stopping t = an_stopping s \<and> an_reconnecting t = an_reconnecting s \<and> (an_needed s \<longrightarrow> an_needed t) \<and>
     (one_session s \<longrightarrow> one_session t) \<and> an_outgoing_stopping t = an_outgoing_stopping s \<and> an_out t = an_out s \<and>
     an_alive t = an_alive s \<and> an_in t = an_in s"

lemma keeps_refl [simp]: "keeps s s"
  by (simp add: keeps_def)

lemma keeps_trans: "keeps s t \<Longrightarrow> keeps t u \<Longrightarrow> keeps s u"
  by (auto simp: keeps_def)

lemma keeps_inv: "keeps s t \<Longrightarrow> android_inv p s \<Longrightarrow> android_inv p t"
  by (auto simp: keeps_def android_inv_def)

lemma process_received_keeps: "keeps s (snd (process_received W w packet s))"
  using decode_into_keeps [of "an_receiver s"]
  by (simp add: keeps_def one_session_def process_received_def Let_def split_beta
      split: sum.split option.split bool.split DecodedPacket.split)

lemma process_all_keeps: "keeps s (snd (process_all W packets s))"
proof (induction packets arbitrary: s)
  case (Cons x packets)
  obtain packet w where x: "x = (packet, w)" by (cases x)
  show ?case
    using process_received_keeps [of s W w packet] Cons.IH
    by (cases "process_received W w packet s") (auto simp: x and_then_def split: sum.splits intro: keeps_trans)
qed simp

lemma peer_lost_keeps: "keeps s (peer_lost s)"
  by (auto simp: keeps_def peer_lost_def one_session_def)

lemma send_keepalive_keeps: "keeps s (snd (an_send_keepalive W w s))"
  using encode_keepalive_keeps [of "an_sender s"]
  by (simp add: keeps_def one_session_def an_send_keepalive_def peer_lost_def Let_def split_beta
      split: sum.split option.split)

text \<open>Moving from one phase of the loop to another that is not past the loop, or out of it.\<close>

lemma inv_phase:
  assumes "android_inv p s" "in_loop (an_in s)" "phase \<noteq> InFinished" "phase \<noteq> InJoining"
  shows "android_inv p (s\<lparr>an_in := phase\<rparr>)"
  using assms by (auto simp: android_inv_def one_session_def in_loop_def)

lemma keeps_phase: "keeps s t \<Longrightarrow> in_loop (an_in s) \<Longrightarrow> in_loop (an_in t)"
  by (simp add: keeps_def)

lemma receive_turn_inv:
  assumes inv: "android_inv p s" and at: "in_loop (an_in s)"
  shows "android_inv p (receive_turn W received s)"
proof (cases received)
  case (Inl e)
  have "android_inv p (peer_lost s)" "in_loop (an_in (peer_lost s))"
    using keeps_inv [OF peer_lost_keeps inv] keeps_phase [OF peer_lost_keeps at] by simp_all
  then show ?thesis
    using inv at by (auto simp: receive_turn_def Inl intro!: inv_phase)
next
  case (Inr packets)
  have "keeps s (snd (process_all W packets s))" by (rule process_all_keeps)
  then have "android_inv p (snd (process_all W packets s))" "in_loop (an_in (snd (process_all W packets s)))"
    using inv at keeps_inv keeps_phase by blast+
  then show ?thesis
    using inv at by (auto simp: receive_turn_def Inr split_beta split: sum.split intro!: inv_phase)
qed

lemma keepalive_turn_inv:
  assumes inv: "android_inv p s" and at: "in_loop (an_in s)"
  shows "android_inv p (keepalive_turn W w s)"
proof -
  have "keeps s (snd (an_send_keepalive W w s))" by (rule send_keepalive_keeps)
  then have "android_inv p (snd (an_send_keepalive W w s))" "in_loop (an_in (snd (an_send_keepalive W w s)))"
    using inv at keeps_inv keeps_phase by blast+
  then show ?thesis
    using inv at by (auto simp: keepalive_turn_def split_beta split: sum.split intro!: inv_phase)
qed

lemma in_loop_simps [simp]:
  "in_loop InTop" "in_loop InKeepalive" "in_loop InUpdate" "in_loop InDecide" "in_loop (InConnecting t)"
  "\<not> in_loop (InReturned r)" "\<not> in_loop InJoining" "\<not> in_loop InFinished"
  by (simp_all add: in_loop_def)

definition loop_inv :: "SessionParameters \<Rightarrow> AndroidSession \<Rightarrow> bool" where
  "loop_inv p s \<longleftrightarrow> an_parameters s = p \<and> MIN_RECONNECT_RETRY \<le> an_backoff s \<and> an_backoff s \<le> MAX_RECONNECT_RETRY \<and>
     (an_parameters_changed s \<longrightarrow> an_stopping s) \<and> (an_reconnecting s \<longrightarrow> an_needed s) \<and> \<not> an_outgoing_stopping s \<and>
     (an_out s = AoDone \<longrightarrow> an_stopping s) \<and> an_alive s"

lemma android_inv_loop: "in_loop (an_in s) \<Longrightarrow> android_inv p s \<longleftrightarrow> loop_inv p s \<and> one_session s"
  by (cases "an_in s") (auto simp: android_inv_def loop_inv_def)

lemma android_inv_returned: "an_in s = InReturned r \<Longrightarrow> android_inv p s \<longleftrightarrow> loop_inv p s"
  by (auto simp: android_inv_def loop_inv_def)

lemma update_reconnect_state_inv:
  "android_inv p s \<Longrightarrow> an_in s = InUpdate \<Longrightarrow>
   android_inv p ((update_reconnect_state now silence_now s)\<lparr>an_in := InDecide\<rparr>)"
  by (simp add: android_inv_loop loop_inv_def one_session_def update_reconnect_state_def Let_def an_signal_def)

lemma decide_turn_inv: "android_inv p s \<Longrightarrow> an_in s = InDecide \<Longrightarrow> android_inv p (decide_turn now started s)"
  by (simp add: android_inv_loop loop_inv_def one_session_def decide_turn_def)

lemma split_matches:
  "matches_parameters (plane, parameters) \<Longrightarrow> TunnelDataPlane_split plane = (sender, receiver) \<Longrightarrow>
   ts_session_id sender = tr_session_id receiver \<and> ts_mtu sender = unat (sp_mtu parameters) \<and>
   tr_mtu receiver = unat (sp_mtu parameters)"
  by (auto simp: TunnelDataPlane_split_def matches_parameters_def Let_def split: prod.splits)

lemma install_replacement_inv:
  assumes inv: "android_inv p s" and at: "in_loop (an_in s)"
    and m: "matches_parameters (plane, an_parameters s)" and r: "install_replacement w socket plane s = (r, t)"
  shows "android_inv p ((finish_reconnect elapsed t)\<lparr>an_in := (case r of Inr _ \<Rightarrow> InTop | Inl e \<Rightarrow> InReturned (Some e))\<rparr>)"
proof -
  obtain sender receiver where split: "TunnelDataPlane_split plane = (sender, receiver)" by fastforce
  have range: "MIN_RECONNECT_RETRY \<le> MAX_RECONNECT_RETRY" by (simp add: MIN_RECONNECT_RETRY_def MAX_RECONNECT_RETRY_def)
  note fields = loop_inv_def one_session_def finish_reconnect_def record_reconnect_duration_def an_signal_def
  from r show ?thesis
    using inv [unfolded android_inv_loop [OF at]] split_matches [OF m split] range
    by (cases r) (auto simp: install_replacement_def split Let_def fields android_inv_returned android_inv_loop
        split: option.splits if_splits)
qed

lemma finish_connecting_inv:
  assumes inv: "android_inv p s" and at: "an_in s = InConnecting started0"
  shows "android_inv p (finish_connecting W S config w started s)"
proof -
  obtain outs r wire stopped where call: "an_reconnect W S config (co_world w) (Some (an_stopping s)) (an_wire s) = (outs, r, wire, stopped)"
    by (metis prod_cases4)
  then have stop: "an_stopping s \<Longrightarrow> stopped = Some True" using an_reconnect_stopped by simp
  define s1 where "s1 = s\<lparr>an_wire := wire, an_log := an_log s @
    map (OutSend (case rw_socket (co_world w) of Inr n \<Rightarrow> n | Inl _ \<Rightarrow> 0)) outs, an_stopping := stopped = Some True\<rparr>"
  have inv1: "android_inv p s1" and at1: "in_loop (an_in s1)" and same: "an_parameters s1 = an_parameters s"
    using inv at stop by (auto simp: s1_def android_inv_loop loop_inv_def one_session_def)
  have backoff: "an_backoff s = an_backoff s1" by (simp add: s1_def)
  note unfolded = finish_connecting_def call Let_def s1_def [symmetric]
  consider "r = None" | e where "r = Some (Inl e)" | socket plane parameters where "r = Some (Inr (socket, plane, parameters))"
    by (metis option.exhaust prod_cases3 sum.exhaust)
  then show ?thesis
  proof cases
    case 1
    then show ?thesis using inv by (simp add: unfolded)
  next
    case (2 e)
    then show ?thesis
      using inv1 [unfolded android_inv_loop [OF at1]]
      by (simp add: unfolded backoff android_inv_loop loop_inv_def one_session_def record_reconnect_duration_def
          MIN_RECONNECT_RETRY_def MAX_RECONNECT_RETRY_def)
  next
    case (3 socket plane parameters)
    have m: "matches_parameters (plane, parameters)" using an_reconnect_matches call 3 by blast
    show ?thesis
    proof (cases "parameters = an_parameters s1")
      case True
      obtain q t where install: "install_replacement (co_install w) socket plane s1 = (q, t)" by fastforce
      from install_replacement_inv [OF inv1 at1 m [unfolded True] install, of "co_finished w - started"]
      show ?thesis using 3 True install same by (cases q) (simp_all add: unfolded)
    next
      case False
      then show ?thesis
        using 3 same inv at
        by (simp add: finish_connecting_def call Let_def s1_def android_inv_loop loop_inv_def one_session_def finish_reconnect_def
            record_reconnect_duration_def an_signal_def)
    qed
  qed
qed

lemma incoming_step_inv:
  assumes inv: "android_inv p s"
  shows "android_inv p (incoming_step W S config w s)"
proof (cases "an_in s")
  case (InReturned r)
  then show ?thesis using inv by (auto simp: incoming_step_def android_inv_def an_signal_def)
next
  case InJoining
  then show ?thesis using inv by (auto simp: incoming_step_def android_inv_def)
qed (use inv in \<open>simp_all add: incoming_step_def receive_turn_inv keepalive_turn_inv update_reconnect_state_inv decide_turn_inv
      finish_connecting_inv\<close>)

text \<open>The sending thread and the service leave the receiving loop and its halves alone.\<close>

definition keeps_in :: "AndroidSession \<Rightarrow> AndroidSession \<Rightarrow> bool" where
  "keeps_in s t \<longleftrightarrow>
     an_parameters t = an_parameters s \<and> an_backoff t = an_backoff s \<and> an_parameters_changed t = an_parameters_changed s \<and>
     (an_stopping s \<longrightarrow> an_stopping t) \<and> an_reconnecting t = an_reconnecting s \<and> an_needed t = an_needed s \<and>
     (one_session s \<longrightarrow> one_session t) \<and> an_outgoing_stopping t = an_outgoing_stopping s \<and>
     (an_out s = AoDone \<longrightarrow> an_out t = AoDone) \<and> (an_out t = AoDone \<longrightarrow> an_out s = AoDone \<or> an_stopping t \<or> an_outgoing_stopping t) \<and>
     an_alive t = an_alive s \<and> an_in t = an_in s"

lemma keeps_in_inv: "keeps_in s t \<Longrightarrow> android_inv p s \<Longrightarrow> android_inv p t"
  by (auto simp: keeps_in_def android_inv_def)

lemma outgoing_step_keeps: "keeps_in s (an_outgoing_step W w s)"
proof (cases "an_out s")
  case AoPoll
  then show ?thesis
    by (simp add: keeps_in_def an_outgoing_step_def poll_turn_def one_session_def Let_def
        split: sum.split option.split)
next
  case (AoPackets packets)
  then show ?thesis
    using encode_packets_keeps [of packets "an_sender s"]
    by (simp add: keeps_in_def an_outgoing_step_def send_turn_def one_session_def Let_def split_beta split: sum.split)
next
  case (AoSent answer sizes)
  then show ?thesis
    by (simp add: keeps_in_def an_outgoing_step_def record_outgoing_result_def one_session_def an_signal_def split: sum.split)
next
  case (AoReturned r)
  then show ?thesis
    by (simp add: keeps_in_def an_outgoing_step_def outgoing_ends_def one_session_def an_signal_def)
next
  case AoDone
  then show ?thesis by (simp add: keeps_in_def an_outgoing_step_def)
qed

lemma service_keeps: "keeps_in s (an_network_changed s)" "keeps_in s (an_request_stop s)"
  by (simp_all add: keeps_in_def an_network_changed_def an_request_stop_def an_signal_def one_session_def)

lemma android_step_inv: "android_inv p s \<Longrightarrow> android_inv p (android_step W S config s event)"
  by (cases event)
     (simp_all add: incoming_step_inv keeps_in_inv [OF outgoing_step_keeps] keeps_in_inv [OF service_keeps(1)]
       keeps_in_inv [OF service_keeps(2)])

lemma android_run_inv: "android_inv p s \<Longrightarrow> android_inv p (android_run W S config s events)"
  unfolding android_run_def by (induction events arbitrary: s) (simp_all add: android_step_inv)

lemma spawn_inv: "matches_parameters session \<Longrightarrow> android_inv (snd session) (an_spawn socket session wire now)"
  using split_matches [of "fst session" "snd session"]
  by (cases "TunnelDataPlane_split (fst session)")
     (simp add: an_spawn_def android_inv_loop loop_inv_def one_session_def MIN_RECONNECT_RETRY_def MAX_RECONNECT_RETRY_def)

text \<open>
  C29. In every interleaving of the Android client's threads, network changes and requests to stop, the session keeps the
  parameters it was started with; while the receiving loop runs, both halves of the tunnel belong to one session of
  those parameters and use one socket; a session that came back with other parameters is asked to stop; the delay
  between attempts stays between 1 and 16 seconds; and the sending thread pauses only while a reconnection is due.
\<close>

theorem android_session_stays_whole:
  assumes "matches_parameters session"
  shows "let s = android_run W S config (an_spawn socket session wire now) events in
    an_parameters s = snd session \<and>
    (in_loop (an_in s) \<longrightarrow> one_session s) \<and>
    (an_parameters_changed s \<longrightarrow> an_stopping s) \<and>
    an_backoff s \<in> {secs 1..secs 16} \<and>
    (an_reconnecting s \<longrightarrow> an_needed s)"
  using android_run_inv [OF spawn_inv [OF assms], of W S config socket wire now events]
  by (simp add: android_inv_def MIN_RECONNECT_RETRY_def MAX_RECONNECT_RETRY_def)

theorem android_session_stays_whole_witness:
  "let s = android_run plain_wire_libs plain_snow (sample_client PLegacy) (an_spawn 4 sample_negotiated WLegacy 0)
       [NetworkChange, StopRequest] in
    an_parameters s = snd sample_negotiated \<and> one_session s \<and> an_backoff s \<in> {secs 1..secs 16}"
proof -
  let ?s = "android_run plain_wire_libs plain_snow (sample_client PLegacy) (an_spawn 4 sample_negotiated WLegacy 0)
       [NetworkChange, StopRequest]"
  have "in_loop (an_in ?s)"
    by (simp add: android_run_def an_network_changed_def an_request_stop_def an_signal_def an_spawn_def split_beta)
  then show ?thesis
    using android_session_stays_whole [OF sample_matches, of plain_wire_libs plain_snow "sample_client PLegacy" 4 WLegacy 0
        "[NetworkChange, StopRequest]"]
    by (simp add: Let_def)
qed

section \<open>The end of a session\<close>

text \<open>The waiting loop of a handshake has a turn, so that it looks at the flag.\<close>

definition looks_at_flag :: "incoming_world \<Rightarrow> bool" where
  "looks_at_flag w \<longleftrightarrow> rw_turns (co_world (iw_connect w)) \<noteq> []"

fun in_rank :: "incoming_phase \<Rightarrow> nat" where
  "in_rank InKeepalive = 7"
| "in_rank InUpdate = 6"
| "in_rank InDecide = 5"
| "in_rank (InConnecting _) = 4"
| "in_rank InTop = 3"
| "in_rank (InReturned _) = 2"
| "in_rank InJoining = 1"
| "in_rank InFinished = 0"

lemma in_rank_le: "in_rank phase \<le> 7"
  by (cases phase) simp_all

lemma finish_connecting_phase:
  assumes "an_stopping s" "rw_turns (co_world w) \<noteq> []"
  shows "in_rank (an_in (finish_connecting W S config w started s)) \<le> 3 \<and>
    an_out (finish_connecting W S config w started s) = an_out s"
proof -
  have "\<exists>(set_since, turn) \<in> set (rw_turns (co_world w)). True \<or> set_since \<or> rw_started (co_world w) + HANDSHAKE_TIMEOUT \<le> ht_now turn"
    using assms(2) by (cases "rw_turns (co_world w)") auto
  from an_reconnect_ends [OF this]
  have "\<exists>r. fst (snd (an_reconnect W S config (co_world w) (Some True) (an_wire s))) = Some r" by blast
  then show ?thesis
    using assms(1)
    by (auto simp: finish_connecting_def Let_def split_beta finish_reconnect_def record_reconnect_duration_def an_signal_def
        install_replacement_def split: option.split sum.split)
qed

lemma incoming_ends:
  assumes inv: "android_inv p s" and ended: "an_out s = AoDone" and looks: "looks_at_flag w"
  shows "in_rank (an_in (incoming_step W S config w s)) \<le> in_rank (an_in s) - 1 \<and> an_out (incoming_step W S config w s) = AoDone"
proof (cases "an_in s")
  case InTop
  then have "an_stopping s" using inv ended by (auto simp: android_inv_def)
  then show ?thesis using InTop ended by (simp add: incoming_step_def receive_turn_def)
next
  case InKeepalive
  have "an_out (snd (an_send_keepalive W (iw_keepalive w) s)) = an_out s"
    using send_keepalive_keeps [of s] by (simp add: keeps_def)
  then show ?thesis
    using InKeepalive ended by (simp add: incoming_step_def keepalive_turn_def split_beta split: sum.split)
next
  case (InConnecting started)
  then show ?thesis
    using finish_connecting_phase [of s "iw_connect w" W S config started] looks ended inv
    by (auto simp: incoming_step_def looks_at_flag_def android_inv_def)
qed (use ended in \<open>simp_all add: incoming_step_def update_reconnect_state_def decide_turn_def an_signal_def Let_def\<close>)

definition is_incoming :: "android_event \<Rightarrow> bool" where
  "is_incoming event \<longleftrightarrow> (case event of Incoming _ \<Rightarrow> True | _ \<Rightarrow> False)"

lemma run_ends:
  assumes "android_inv p s" "an_out s = AoDone" "\<And>w. Incoming w \<in> set events \<Longrightarrow> looks_at_flag w"
  shows "in_rank (an_in (android_run W S config s events)) \<le> in_rank (an_in s) - length (filter is_incoming events)"
  using assms
proof (induction events arbitrary: s)
  case (Cons event events)
  let ?t = "android_step W S config s event"
  have inv: "android_inv p ?t" using Cons.prems(1) by (rule android_step_inv)
  have step: "an_out ?t = AoDone \<and> in_rank (an_in ?t) \<le> in_rank (an_in s) - (if is_incoming event then 1 else 0)"
  proof (cases event)
    case (Incoming w)
    then show ?thesis
      using incoming_ends [OF Cons.prems(1,2), of w W S config] Cons.prems(3) by (simp add: is_incoming_def)
  next
    case (Sending w)
    then show ?thesis using outgoing_step_keeps [of s W w] Cons.prems(2) by (simp add: keeps_in_def is_incoming_def)
  qed (use service_keeps [of s] Cons.prems(2) in \<open>simp_all add: keeps_in_def is_incoming_def\<close>)
  then have "in_rank (an_in (android_run W S config ?t events)) \<le> in_rank (an_in ?t) - length (filter is_incoming events)"
    using Cons.IH [OF inv] Cons.prems(3) by simp
  then show ?case using step by (auto simp: android_run_def split: if_splits)
qed (simp add: android_run_def)

text \<open>
  C30. Once the sending thread of an Android session has ended, for whatever reason, seven operations of the receiving thread end
  the session and report it as no longer alive, however they interleave with network changes and requests to stop. This holds during a
  handshake too, as soon as its waiting loop comes round to look at the session's flag.
\<close>

theorem session_ends_with_its_sending_thread:
  assumes "matches_parameters session"
    and "s = android_run W S config (an_spawn socket session wire now) before" and "an_out s = AoDone"
    and "\<And>w. Incoming w \<in> set events \<Longrightarrow> looks_at_flag w"
    and "7 \<le> length (filter is_incoming events)"
  shows "an_in (android_run W S config s events) = InFinished \<and> \<not> an_alive (android_run W S config s events)"
proof -
  have inv: "android_inv (snd session) s" using assms(1,2) by (simp add: android_run_inv spawn_inv)
  have "in_rank (an_in (android_run W S config s events)) = 0"
    using run_ends [OF inv assms(3,4)] in_rank_le [of "an_in s"] assms(5) by fastforce
  then have "an_in (android_run W S config s events) = InFinished"
    by (cases "an_in (android_run W S config s events)") simp_all
  then show ?thesis using android_run_inv [OF inv, of W S config events] by (simp add: android_inv_def)
qed

definition sample_incoming :: incoming_world where
  "sample_incoming =
     \<lparr>iw_received = Inl (io_error_new TimedOut),
      iw_keepalive = \<lparr>kw_due_now = 0, kw_send = \<lparr>sw_clock = None, sw_random = Inr [], sw_sent = None\<rparr>, kw_sent_now = 0\<rparr>,
      iw_now = 0, iw_silence_now = 0, iw_started = 0,
      iw_connect = \<lparr>co_world = \<lparr>rw_socket = Inr 7, rw_session_random = Inr [1, 2, 3, 4, 5, 6, 7, 8], rw_started = 0,
          rw_cover_random = Inr [], rw_covers = (\<lambda>_. (\<lparr>sw_clock = None, sw_random = Inr [], sw_sent = None\<rparr>, Inr [])), rw_first = \<lparr>sw_clock = None, sw_random = Inr [], sw_sent = None\<rparr>,
          rw_turns = [(False, sample_turn\<lparr>ht_received := (\<lambda>_. Inl (io_error_new TimedOut))\<rparr>)]\<rparr>,
        co_install = \<lparr>in_timeout_set = None, in_clone = None, in_now = 0\<rparr>, co_finished = 0\<rparr>\<rparr>"

definition sample_poll_fails :: an_outgoing_world where
  "sample_poll_fails =
     \<lparr>aw_poll = Inl (io_error_new OtherKind), aw_reads = [], aw_wire = (\<lambda>_. (None, Inr [])), aw_sent = Inr 0\<rparr>"

text \<open>The sending thread ends while the receiving thread waits for the answer to a handshake.\<close>

definition sample_interrupted :: AndroidSession where
  "sample_interrupted = android_run plain_wire_libs plain_snow (sample_client PLegacy) (an_spawn 4 sample_negotiated WLegacy 0)
     [NetworkChange, Incoming sample_incoming, Incoming sample_incoming, Incoming sample_incoming, Incoming sample_incoming,
      Sending sample_poll_fails, Sending sample_poll_fails]"

lemma sample_interrupted_state: "an_in sample_interrupted = InConnecting 0" "an_out sample_interrupted = AoDone"
  by (simp_all add: sample_interrupted_def android_run_def an_network_changed_def an_signal_def an_spawn_def split_beta
      incoming_step_def receive_turn_def keepalive_turn_def update_reconnect_state_def decide_turn_def sample_incoming_def is_poll_event_def
      io_error_new_def an_KEEPALIVE_def an_SESSION_TIMEOUT_def an_outgoing_step_def poll_turn_def sample_poll_fails_def outgoing_ends_def Let_def)

theorem session_ends_with_its_sending_thread_witness:
  "an_in sample_interrupted = InConnecting 0 \<and>
   \<not> an_alive (android_run plain_wire_libs plain_snow (sample_client PLegacy) sample_interrupted
     (NetworkChange # replicate 7 (Incoming sample_incoming)))"
  using session_ends_with_its_sending_thread [OF sample_matches sample_interrupted_def sample_interrupted_state(2),
      of "NetworkChange # replicate 7 (Incoming sample_incoming)"] sample_interrupted_state(1)
  by (simp add: is_incoming_def looks_at_flag_def sample_incoming_def)

end
