(* ===== verification/AndroidRegistry.thy ===== *)
theory AndroidRegistry
  imports AndroidClient
begin

text \<open>
  The table of sessions behind the handles that the Android service holds (\<^verbatim>\<open>android-native/registry.rs\<close>, and the start of
  a session in \<^verbatim>\<open>jni_api.rs\<close>). A prepared session carries what its handshake negotiated; the table is guarded by
  a lock, and every function here is what runs between two other calls.
\<close>

type_synonym handle = "64 word"

datatype 'p Entry = PendingEntry 'p | RunningEntry AndroidSession

record 'p registry =
  rg_next :: handle
  rg_entries :: "handle \<Rightarrow> 'p Entry option"
  rg_poisoned :: bool

datatype registry_error = RegistryPoisoned | UnknownHandle | AlreadyRunning | SpawnFailed io_error

definition registry_new :: "'p registry" where
  "registry_new = \<lparr>rg_next = 1, rg_entries = (\<lambda>_. None), rg_poisoned = False\<rparr>"

definition insert_pending :: "'p \<Rightarrow> 'p registry \<Rightarrow> (registry_error + handle) \<times> 'p registry" where
  "insert_pending session r =
     (let h = rg_next r; r1 = r\<lparr>rg_next := h + 1\<rparr> in
      if rg_poisoned r then (Inl RegistryPoisoned, r1)
      else (Inr h, r1\<lparr>rg_entries := (rg_entries r)(h \<mapsto> PendingEntry session)\<rparr>))"

definition an_take_pending :: "handle \<Rightarrow> 'p registry \<Rightarrow> (registry_error + 'p) \<times> 'p registry" where
  "an_take_pending h r =
     (if rg_poisoned r then (Inl RegistryPoisoned, r)
      else
        (case rg_entries r h of
           None \<Rightarrow> (Inl UnknownHandle, r)
         | Some (PendingEntry session) \<Rightarrow> (Inr session, r\<lparr>rg_entries := (rg_entries r)(h := None)\<rparr>)
         | Some (RunningEntry session) \<Rightarrow>
             (Inl AlreadyRunning, r\<lparr>rg_entries := ((rg_entries r)(h := None))(h \<mapsto> RunningEntry session)\<rparr>)))"

definition insert_running :: "handle \<Rightarrow> AndroidSession \<Rightarrow> 'p registry \<Rightarrow> (registry_error + unit) \<times> 'p registry" where
  "insert_running h session r =
     (if rg_poisoned r then (Inl RegistryPoisoned, r)
      else (Inr (), r\<lparr>rg_entries := (rg_entries r)(h \<mapsto> RunningEntry session)\<rparr>))"

definition network_changed :: "handle \<Rightarrow> 'p registry \<Rightarrow> 'p registry" where
  "network_changed h r =
     (case (rg_poisoned r, rg_entries r h) of
        (False, Some (RunningEntry session)) \<Rightarrow>
          r\<lparr>rg_entries := (rg_entries r)(h \<mapsto> RunningEntry (an_network_changed session))\<rparr>
      | _ \<Rightarrow> r)"

datatype session_status = StError | StPrepared | StParametersChanged | StStopped | StReconnecting | StRunning

definition an_status :: "handle \<Rightarrow> 'p registry \<Rightarrow> session_status" where
  "an_status h r =
     (if rg_poisoned r then StError
      else
        (case rg_entries r h of
           Some (PendingEntry _) \<Rightarrow> StPrepared
         | Some (RunningEntry session) \<Rightarrow>
             if an_parameters_changed session then StParametersChanged
             else if \<not> an_alive session then StStopped
             else if an_reconnecting session then StReconnecting
             else StRunning
         | None \<Rightarrow> StStopped))"

text \<open>Stopping removes the entry and, for a running session, leaves it with the request to stop, before its threads are joined.\<close>

definition stop :: "handle \<Rightarrow> 'p registry \<Rightarrow> AndroidSession option \<times> 'p registry" where
  "stop h r =
     (if rg_poisoned r then (None, r)
      else
        ((case rg_entries r h of Some (RunningEntry session) \<Rightarrow> Some (an_request_stop session) | _ \<Rightarrow> None),
         r\<lparr>rg_entries := (rg_entries r)(h := None)\<rparr>))"

text \<open>\<^verbatim>\<open>NativeBridge_start\<close>: the prepared session is taken out, its threads are started, and it is put back as running.\<close>

definition native_start ::
  "('p \<Rightarrow> io_error + AndroidSession) \<Rightarrow> handle \<Rightarrow> 'p registry \<Rightarrow> (registry_error + unit) \<times> 'p registry" where
  "native_start spawn h r =
     and_then (an_take_pending h r) (\<lambda>session r.
       case spawn session of
         Inl e \<Rightarrow> (Inl (SpawnFailed e), r)
       | Inr running \<Rightarrow> insert_running h running r)"

section \<open>Handles are not reused\<close>

text \<open>The service's calls, and what the threads of a running session do to it in between.\<close>

datatype 'p registry_call =
  CallPrepare 'p | CallStart "'p \<Rightarrow> io_error + AndroidSession" handle | CallNetworkChanged handle | CallStop handle |
  ThreadsRun handle "AndroidSession \<Rightarrow> AndroidSession"

fun an_registry_step :: "'p registry \<Rightarrow> 'p registry_call \<Rightarrow> 'p registry" where
  "an_registry_step r (CallPrepare session) = snd (insert_pending session r)"
| "an_registry_step r (CallStart spawn h) = snd (native_start spawn h r)"
| "an_registry_step r (CallNetworkChanged h) = network_changed h r"
| "an_registry_step r (CallStop h) = snd (stop h r)"
| "an_registry_step r (ThreadsRun h f) =
     (case rg_entries r h of
        Some (RunningEntry session) \<Rightarrow> r\<lparr>rg_entries := (rg_entries r)(h \<mapsto> RunningEntry (f session))\<rparr>
      | _ \<Rightarrow> r)"

definition prepares :: "'p registry_call list \<Rightarrow> nat" where
  "prepares calls = length (filter (\<lambda>c. case c of CallPrepare _ \<Rightarrow> True | _ \<Rightarrow> False) calls)"

lemma absent_stays_absent:
  assumes "rg_entries r h = None" "h \<noteq> rg_next r"
  shows "rg_entries (an_registry_step r c) h = None"
  using assms
  by (cases c) (auto simp: insert_pending_def native_start_def an_take_pending_def insert_running_def network_changed_def stop_def
      and_then_def Let_def split: prod.splits option.splits Entry.splits sum.splits bool.splits if_splits)

lemma next_after_step: "rg_next (an_registry_step r c) = rg_next r + (case c of CallPrepare _ \<Rightarrow> 1 | _ \<Rightarrow> 0)"
  by (cases c) (auto simp: insert_pending_def native_start_def an_take_pending_def insert_running_def network_changed_def stop_def
      and_then_def Let_def split: prod.splits option.splits Entry.splits sum.splits bool.splits if_splits)

lemma poisoned_after_step [simp]: "rg_poisoned (an_registry_step r c) = rg_poisoned r"
  by (cases c) (auto simp: insert_pending_def native_start_def an_take_pending_def insert_running_def network_changed_def stop_def
      and_then_def Let_def split: prod.splits option.splits Entry.splits sum.splits bool.splits if_splits)

lemma absent_after_calls:
  assumes "rg_entries r h = None" "prepares calls \<le> unat (h - rg_next r)"
  shows "rg_entries (foldl an_registry_step r calls) h = None"
  using assms
proof (induction calls arbitrary: r)
  case (Cons c calls)
  show ?case
  proof (cases "\<exists>p. c = CallPrepare p")
    case True
    then have fresh: "h - rg_next r \<noteq> 0" "prepares calls \<le> unat (h - rg_next r) - 1"
      using Cons.prems(2) by (auto simp: prepares_def)
    then have "unat (h - rg_next r - 1) = unat (h - rg_next r) - 1" by (simp add: unat_minus_one)
    then have "unat (h - (rg_next r + 1)) = unat (h - rg_next r) - 1" by (metis diff_diff_add)
    then have "prepares calls \<le> unat (h - rg_next (an_registry_step r c))"
      using fresh(2) True by (auto simp: next_after_step)
    moreover have "h \<noteq> rg_next r" using fresh(1) by simp
    ultimately show ?thesis using Cons.IH [OF absent_stays_absent [OF Cons.prems(1)]] by simp
  next
    case False
    then have "prepares (c # calls) = prepares calls" by (cases c) (simp_all add: prepares_def)
    moreover have "rg_next (an_registry_step r c) = rg_next r" using False next_after_step [of r c] by (cases c) simp_all
    moreover have "rg_entries (an_registry_step r c) h = None"
      using False Cons.prems(1)
      by (cases c) (auto simp: native_start_def an_take_pending_def insert_running_def network_changed_def stop_def
          and_then_def split: prod.splits option.splits Entry.splits sum.splits bool.splits if_splits)
    ultimately show ?thesis using Cons.IH Cons.prems(2) by simp
  qed
qed simp

lemma poisoned_after_calls: "rg_poisoned (foldl an_registry_step r calls) = rg_poisoned r"
  by (induction calls arbitrary: r) simp_all

text \<open>
  A handle that was stopped reports a stopped session from then on, until the counter of handles comes around
  to it again.
\<close>

lemma stopped_handles_stay_stopped:
  assumes "\<not> rg_poisoned r" "prepares calls \<le> unat (h - rg_next r)"
  shows "an_status h (foldl an_registry_step (snd (stop h r)) calls) = StStopped"
  using absent_after_calls [of "snd (stop h r)" h calls] assms
  by (simp add: an_status_def poisoned_after_calls stop_def)

end
