(* ===== verification/WinClient.thy ===== *)
theory WinClient
  imports LinuxClient
begin

text \<open>
  The full tunnel of the Windows client: the packet loop and the Wintun worker of \<^verbatim>\<open>windows-client/packet_loop.rs\<close>, the part of
  \<^verbatim>\<open>network.rs\<close> that changes the settings of the adapter, and the restarts of \<^verbatim>\<open>runtime.rs\<close>. What the loop does during a
  reconnection is a phase of its own, so that the worker's operations interleave with it. Windows calls take their
  outcome as an argument; the settings they leave behind are part of the state.
\<close>

section \<open>Errors\<close>

datatype WinError = WeClient ClientError | WePlatform string

abbreviation we_io :: "io_error \<Rightarrow> WinError" where "we_io e \<equiv> WeClient (CeIo e)"

definition win_is_peer_unavailable :: "io_error \<Rightarrow> bool" where
  "win_is_peer_unavailable e \<longleftrightarrow>
     ioe_kind e \<in> {ConnectionRefused, ConnectionReset, NotConnected, HostUnreachable, NetworkUnreachable}"

definition is_transient_io :: "io_error \<Rightarrow> bool" where
  "is_transient_io e \<longleftrightarrow> ioe_kind e \<in> {Interrupted, TimedOut, WouldBlock}"

text \<open>An error of the Wintun library is an I/O error or one of its own.\<close>

datatype wintun_error = WintunIo io_error | WintunOther string

definition is_wintun_send_queue_full :: "wintun_error \<Rightarrow> bool" where
  "is_wintun_send_queue_full e \<longleftrightarrow> (case e of WintunIo e \<Rightarrow> ioe_raw_os e = Some 111 | WintunOther _ \<Rightarrow> False)"

section \<open>Settings of the adapter\<close>

text \<open>
  The guard's own record of the parameters, and what the adapter has: its address, resolver and MTU, each \<open>None\<close> once a
  call that changes it has failed half way. Setting the address clears the previous one first; a failed change of the MTU
  leaves it as it was or in doubt.
\<close>

record WinNetwork =
  nw_parameters :: SessionParameters
  nw_address :: "(ipv4 \<times> u8) option"
  nw_dns :: "ipv4 option"
  nw_mtu :: "u16 option"

datatype mtu_answer = MtuSet | MtuRefused string | MtuInDoubt string

definition set_mtu :: "mtu_answer \<Rightarrow> u16 \<Rightarrow> WinNetwork \<Rightarrow> (string + unit) \<times> WinNetwork" where
  "set_mtu answer mtu n =
     (case answer of
        MtuSet \<Rightarrow> (Inr (), n\<lparr>nw_mtu := Some mtu\<rparr>)
      | MtuRefused e \<Rightarrow> (Inl e, n)
      | MtuInDoubt e \<Rightarrow> (Inl e, n\<lparr>nw_mtu := None\<rparr>))"

record apply_world =
  ap_address :: "WinError option"
  ap_dns :: "WinError option"

definition apply_parameters :: "apply_world \<Rightarrow> SessionParameters \<Rightarrow> WinNetwork \<Rightarrow> (WinError + unit) \<times> WinNetwork" where
  "apply_parameters w parameters n =
     (case ap_address w of
        Some e \<Rightarrow> (Inl e, n\<lparr>nw_address := None\<rparr>)
      | None \<Rightarrow>
          let n1 = n\<lparr>nw_address := Some (sp_client_address parameters, sp_prefix_len parameters)\<rparr> in
          (case ap_dns w of
             Some e \<Rightarrow> (Inl e, n1\<lparr>nw_dns := None\<rparr>)
           | None \<Rightarrow> (Inr (), n1\<lparr>nw_dns := Some (sp_dns parameters)\<rparr>)))"

record update_world =
  uw_prepare :: "WinError option"
  uw_apply :: apply_world
  uw_restore :: apply_world

definition update_parameters :: "update_world \<Rightarrow> SessionParameters \<Rightarrow> WinNetwork \<Rightarrow> (WinError + unit) \<times> WinNetwork" where
  "update_parameters w parameters n =
     (if parameters = nw_parameters n then (Inr (), n)
      else
        (case uw_prepare w of
           Some e \<Rightarrow> (Inl e, n)
         | None \<Rightarrow>
             (case apply_parameters (uw_apply w) parameters n of
                (Inr _, n1) \<Rightarrow> (Inr (), n1\<lparr>nw_parameters := parameters\<rparr>)
              | (Inl _, n1) \<Rightarrow>
                  and_then (apply_parameters (uw_restore w) (nw_parameters n) n1)
                    (\<lambda>_ n2. (Inl (WePlatform ''updating MouseVPN session parameters failed''), n2)))))"

section \<open>State\<close>

text \<open>
  The loop is at the head of a turn, in a handshake for a replacement, or waiting to hand the replacement's socket to the
  worker. The worker is at the head of a turn, has been told of packets, or sends what it has encoded.
\<close>

datatype win_phase = WlTop | WlConnecting | WlHandover nat | WlEnded "WinError option"

datatype win_worker_phase =
  WwHead | WwReadable | WwEncoded "bytes list" | WwReturned "WinError option"

record WinLoop =
  wl_transport :: nat
  wl_parameters :: SessionParameters
  wl_receiver :: TunnelReceiver
  wl_sender :: TunnelSender
  wl_poisoned :: bool
  wl_stopping :: bool
  wl_reconnecting :: bool
  wl_requested :: bool
  wl_replacements :: "nat list"
  wl_network :: WinNetwork
  wl_wire :: ClientWire
  wl_send_drops :: u64
  wl_grace :: "instant option"
  wl_liveness :: Liveness
  wl_phase :: win_phase
  wl_outgoing :: nat
  wl_dropped :: u64
  wl_worker :: win_worker_phase
  wl_reported :: bool
  wl_log :: "client_output list"

definition POST_RECONNECT_EVENT_GRACE :: duration where "POST_RECONNECT_EVENT_GRACE = secs 3"
definition WIN_BATCH_SIZE :: nat where "WIN_BATCH_SIZE = 32"

definition note_packet_drop :: "u64 \<Rightarrow> u64" where
  "note_packet_drop counter = saturating_add counter 1"

section \<open>The packet loop\<close>

definition win_check_worker :: "WinLoop \<Rightarrow> (WinError + unit) \<times> WinLoop" where
  "win_check_worker s =
     (case wl_worker s of
        WwReturned r \<Rightarrow>
          if wl_reported s then (Inl (WePlatform ''channel closed''), s)
          else (case r of Some e \<Rightarrow> Inl e | None \<Rightarrow> Inl (WePlatform ''worker stopped''), s\<lparr>wl_reported := True\<rparr>)
      | _ \<Rightarrow> (Inr (), s))"

definition win_take_reconnect_request :: "instant \<Rightarrow> WinLoop \<Rightarrow> bool \<times> WinLoop" where
  "win_take_reconnect_request now s =
     (wl_requested s \<and> (case wl_grace s of None \<Rightarrow> True | Some deadline \<Rightarrow> now \<ge> deadline), s\<lparr>wl_requested := False\<rparr>)"

text \<open>The answer of Wintun to a request for room for a packet.\<close>

definition send_to_windows :: "wintun_error option \<Rightarrow> bytes \<Rightarrow> WinError + bool" where
  "send_to_windows answer packet =
     (if length packet > 65535 then Inl (WePlatform ''packet too large'')
      else
        (case answer of
           None \<Rightarrow> Inr True
         | Some e \<Rightarrow> if is_wintun_send_queue_full e then Inr False else Inl (WePlatform ''Wintun send queue failed'')))"

record win_received =
  wr_datagram :: bytes
  wr_decode_clock :: "u64 option"
  wr_now :: instant
  wr_wintun :: "wintun_error option"

definition win_process :: "wire_libs \<Rightarrow> win_received \<Rightarrow> WinLoop \<Rightarrow> (WinError + unit) \<times> WinLoop" where
  "win_process W w s0 =
     (let (decoded, wire) = ClientWire_decode W (wr_decode_clock w) (wl_wire s0) (wr_datagram w);
          s = s0\<lparr>wl_wire := wire\<rparr>;
          datagram = (case decoded of Inr (True, payload) \<Rightarrow> ok (Datagram_decode payload) | _ \<Rightarrow> None)
      in
      case datagram of
        None \<Rightarrow> (Inr (), s)
      | Some d \<Rightarrow>
          let (r, receiver) = TunnelReceiver_decode_into (wl_receiver s) d; s1 = s\<lparr>wl_receiver := receiver\<rparr> in
          (case r of
             Inr (DecodedIp packet) \<Rightarrow>
               let s2 = wl_liveness_update (win_packet_received (wr_now w)) s1 in
               (case send_to_windows (wr_wintun w) packet of
                  Inl e \<Rightarrow> (Inl e, s2)
                | Inr True \<Rightarrow> (Inr (), s2\<lparr>wl_log := wl_log s2 @ [OutTun packet]\<rparr>)
                | Inr False \<Rightarrow> (Inr (), wl_send_drops_update note_packet_drop s2))
           | Inr DecodedKeepalive \<Rightarrow> (Inr (), wl_liveness_update (win_packet_received (wr_now w)) s1)
           | Inl _ \<Rightarrow> (Inr (), s1)))"

definition win_receive :: "wire_libs \<Rightarrow> io_error + win_received \<Rightarrow> instant \<Rightarrow> WinLoop \<Rightarrow> (WinError + unit) \<times> WinLoop" where
  "win_receive W received failed_now s =
     (case received of
        Inr w \<Rightarrow> win_process W w s
      | Inl e \<Rightarrow>
          if is_timeout e then (Inr (), s)
          else if win_is_peer_unavailable e then (Inr (), wl_liveness_update (win_connection_lost failed_now) s)
          else if ioe_kind e = Interrupted then (Inr (), s)
          else (Inl (we_io e), s))"

definition win_send_keepalive :: "wire_libs \<Rightarrow> send_world \<Rightarrow> instant \<Rightarrow> WinLoop \<Rightarrow> (WinError + unit) \<times> WinLoop" where
  "win_send_keepalive W w now s0 =
     (if wl_poisoned s0 then (Inl (WePlatform ''sender poisoned''), s0)
      else
        let (encoded, sender) = TunnelSender_encode_keepalive_into (wl_sender s0); s = s0\<lparr>wl_sender := sender\<rparr> in
        (case encoded of
           Inl e \<Rightarrow> (Inl (WeClient (CeDataPlane e)), s)
         | Inr datagram \<Rightarrow>
             let (masked, wire) = ClientWire_encode W (sw_clock w) (sw_random w) (wl_wire s) datagram;
                 s1 = s\<lparr>wl_wire := wire\<rparr>
             in
             (case masked of
                Inl e \<Rightarrow> (Inl (WeClient (CeWire e)), s1)
              | Inr out \<Rightarrow>
                  (case sw_sent w of
                     None \<Rightarrow> (Inr (), wl_liveness_update (win_keepalive_sent now)
                               (s1\<lparr>wl_log := wl_log s1 @ [OutSend (wl_transport s1) out]\<rparr>))
                   | Some e \<Rightarrow>
                       if win_is_peer_unavailable e then (Inr (), wl_liveness_update (win_connection_lost now) s1)
                       else (Inl (we_io e), s1)))))"

text \<open>The timer's decision; a reconnection starts here and is finished in the next phase.\<close>

definition win_maintain_liveness :: "wire_libs \<Rightarrow> send_world \<Rightarrow> instant \<Rightarrow> WinLoop \<Rightarrow> (WinError + unit) \<times> WinLoop" where
  "win_maintain_liveness W w now s =
     (case win_action (wl_liveness s) now of
        ActNone \<Rightarrow> (Inr (), s)
      | ActKeepalive \<Rightarrow> win_send_keepalive W w now s
      | ActReconnect \<Rightarrow>
          (Inr (), (wl_liveness_update (win_reconnect_attempted now) s)\<lparr>wl_reconnecting := True, wl_phase := WlConnecting\<rparr>))"

text \<open>A handshake over a new socket. One that has not ended within the given turns leaves the loop where it is.\<close>

definition win_connect ::
  "wire_libs \<Rightarrow> 'h Snow \<Rightarrow> (SocketAddr \<Rightarrow> SocketAddr \<Rightarrow> io_error + nat) \<Rightarrow> ValidatedClientConfig \<Rightarrow> attempt_world \<Rightarrow>
   ClientWire \<Rightarrow> (WinError + nat \<times> negotiated) option \<times> ClientWire" where
  "win_connect W S bind config w wire =
     (case bind (unspecified_local (vcc_server config)) (vcc_server config) of
        Inl e \<Rightarrow> (Some (Inl (we_io e)), wire)
      | Inr socket \<Rightarrow>
          let (_, r, wire1) = win_negotiate W S config w wire
          in (map_option (\<lambda>r. map_err WeClient (bind_r r (\<lambda>session. Inr (socket, session)))) r, wire1))"

record replacement_world =
  rw_refresh :: "WinError option"
  rw_bind :: "SocketAddr \<Rightarrow> SocketAddr \<Rightarrow> io_error + nat"
  rw_attempt :: attempt_world
  rw_timeout_set :: "io_error option"
  rw_clone :: "io_error option"
  rw_mtu :: mtu_answer
  rw_update :: update_world
  rw_mtu_back :: mtu_answer

definition win_io :: "io_error option \<Rightarrow> 's \<Rightarrow> (WinError + unit) \<times> 's" where
  "win_io answer s = (case answer of None \<Rightarrow> Inr () | Some e \<Rightarrow> Inl (we_io e), s)"

text \<open>The new parameters on the adapter; when the guard refuses them the old MTU is put back.\<close>

definition adopt_parameters :: "replacement_world \<Rightarrow> SessionParameters \<Rightarrow> WinLoop \<Rightarrow> (WinError + unit) \<times> WinLoop" where
  "adopt_parameters w parameters s =
     (if parameters = wl_parameters s then (Inr (), s)
      else
        (case set_mtu (rw_mtu w) (sp_mtu parameters) (wl_network s) of
           (Inl e, n) \<Rightarrow> (Inl (WePlatform e), s\<lparr>wl_network := n\<rparr>)
         | (Inr _, n) \<Rightarrow>
             (case update_parameters (rw_update w) parameters n of
                (Inr _, n1) \<Rightarrow> (Inr (), s\<lparr>wl_network := n1, wl_parameters := parameters\<rparr>)
              | (Inl e, n1) \<Rightarrow>
                  (case set_mtu (rw_mtu_back w) (sp_mtu (wl_parameters s)) n1 of
                     (Inr _, n2) \<Rightarrow> (Inl e, s\<lparr>wl_network := n2\<rparr>)
                   | (Inl _, n2) \<Rightarrow> (Inl (WePlatform ''MTU rollback failed''), s\<lparr>wl_network := n2\<rparr>)))))"

definition swap_halves :: "TunnelDataPlane \<Rightarrow> WinLoop \<Rightarrow> (WinError + unit) \<times> WinLoop" where
  "swap_halves plane s =
     (if wl_poisoned s then (Inl (WePlatform ''sender poisoned''), s)
      else let (sender, receiver) = TunnelDataPlane_split plane in (Inr (), s\<lparr>wl_sender := sender, wl_receiver := receiver\<rparr>))"

definition reconnect_failed :: "WinLoop \<Rightarrow> WinLoop" where
  "reconnect_failed s = s\<lparr>wl_reconnecting := False, wl_phase := WlTop\<rparr>"

text \<open>\<^verbatim>\<open>establish_replacement\<close> up to the socket that it hands to the worker.\<close>

definition win_establish_replacement ::
  "wire_libs \<Rightarrow> 'h Snow \<Rightarrow> ValidatedClientConfig \<Rightarrow> replacement_world \<Rightarrow> WinLoop \<Rightarrow> WinLoop" where
  "win_establish_replacement W S config w s =
     (case rw_refresh w of
        Some _ \<Rightarrow> reconnect_failed s
      | None \<Rightarrow>
          let (r, wire) = win_connect W S (rw_bind w) config (rw_attempt w) (wl_wire s); s1 = s\<lparr>wl_wire := wire\<rparr> in
          (case r of
             None \<Rightarrow> s1
           | Some (Inl _) \<Rightarrow> reconnect_failed s1
           | Some (Inr (socket, plane, parameters)) \<Rightarrow>
               (case and_then (win_io (rw_timeout_set w) s1) (\<lambda>_ s.
                     and_then (win_io (rw_clone w) s) (\<lambda>_ s.
                     and_then (adopt_parameters w parameters s) (\<lambda>_ s. swap_halves plane s))) of
                  (Inl _, s2) \<Rightarrow> reconnect_failed s2
                | (Inr _, s2) \<Rightarrow> s2\<lparr>wl_phase := WlHandover socket\<rparr>)))"

text \<open>
  The channel to the worker holds one socket: the loop waits for room, and fails once the worker is gone. After a success
  the requests that came during the handshake are dropped.
\<close>

definition win_handover :: "instant \<Rightarrow> nat \<Rightarrow> WinLoop \<Rightarrow> WinLoop" where
  "win_handover now socket s =
     (case wl_worker s of
        WwReturned _ \<Rightarrow> reconnect_failed s
      | _ \<Rightarrow>
          if wl_replacements s \<noteq> [] then s
          else
            s\<lparr>wl_replacements := [socket], wl_transport := socket, wl_reconnecting := False, wl_requested := False,
              wl_grace := Some (now + POST_RECONNECT_EVENT_GRACE), wl_liveness := win_reconnected now (wl_liveness s),
              wl_phase := WlTop\<rparr>)"

record win_turn =
  wt_received :: "io_error + win_received"
  wt_failed_now :: instant
  wt_now :: instant
  wt_later :: instant
  wt_keepalive :: send_world
  wt_replacement :: replacement_world
  wt_reconnected_at :: instant

text \<open>A request that is due counts as the loss of the connection.\<close>

definition win_heed_request :: "instant \<Rightarrow> WinLoop \<Rightarrow> WinLoop" where
  "win_heed_request now s =
     (let (requested, s1) = win_take_reconnect_request now s
      in if requested then wl_liveness_update (win_connection_lost now) s1 else s1)"

definition win_top :: "wire_libs \<Rightarrow> win_turn \<Rightarrow> WinLoop \<Rightarrow> WinLoop" where
  "win_top W w s =
     (if wl_stopping s then s\<lparr>wl_phase := WlEnded None\<rparr>
      else
        (case and_then (win_check_worker s) (\<lambda>_ s.
              and_then (win_receive W (wt_received w) (wt_failed_now w) s) (\<lambda>_ s.
                win_maintain_liveness W (wt_keepalive w) (wt_later w) (win_heed_request (wt_now w) s))) of
           (Inl e, s1) \<Rightarrow> s1\<lparr>wl_phase := WlEnded (Some e)\<rparr>
         | (Inr _, s1) \<Rightarrow> s1))"

definition win_loop_step :: "wire_libs \<Rightarrow> 'h Snow \<Rightarrow> ValidatedClientConfig \<Rightarrow> win_turn \<Rightarrow> WinLoop \<Rightarrow> WinLoop" where
  "win_loop_step W S config w s =
     (case wl_phase s of
        WlTop \<Rightarrow> win_top W w s
      | WlConnecting \<Rightarrow> win_establish_replacement W S config (wt_replacement w) s
      | WlHandover socket \<Rightarrow> win_handover (wt_reconnected_at w) socket s
      | WlEnded _ \<Rightarrow> s)"

section \<open>The Wintun worker\<close>

datatype wait_answer = WaitFailed | WaitPackets | WaitTimeout

text \<open>What Wintun gives for one request: a packet, or a failure; the end of the list is an empty ring.\<close>

fun win_encode_batch ::
  "nat \<Rightarrow> (string + bytes) list \<Rightarrow> TunnelSender \<Rightarrow> u64 \<Rightarrow> (WinError + bytes list) \<times> TunnelSender \<times> u64" where
  "win_encode_batch 0 reads sender drops = (Inr [], sender, drops)"
| "win_encode_batch (Suc n) [] sender drops = (Inr [], sender, drops)"
| "win_encode_batch (Suc n) (Inl e # reads) sender drops = (Inl (WePlatform e), sender, drops)"
| "win_encode_batch (Suc n) (Inr packet # reads) sender drops =
     (if packet = [] \<or> drop_bit 4 (hd packet) \<noteq> 4 then win_encode_batch (Suc n) reads sender drops
      else
        (case TunnelSender_encode_ip_into sender packet of
           (Inr datagram, sender1) \<Rightarrow>
             let (r, rest) = win_encode_batch n reads sender1 drops
             in (bind_r r (\<lambda>datagrams. Inr (datagram # datagrams)), rest)
         | (Inl (PacketExceedsMtu _ _), sender1) \<Rightarrow> win_encode_batch (Suc n) reads sender1 (note_packet_drop drops)
         | (Inl (Ip _), sender1) \<Rightarrow> win_encode_batch (Suc n) reads sender1 (note_packet_drop drops)
         | (Inl e, sender1) \<Rightarrow> (Inl (WeClient (CeDataPlane e)), sender1, drops)))"

record worker_world =
  ww_event :: "string option"
  ww_wait :: wait_answer
  ww_reads :: "(string + bytes) list"
  ww_send :: send_world

text \<open>The head of a turn: the latest socket is taken, and nothing is read during a reconnection.\<close>

definition worker_head :: "worker_world \<Rightarrow> WinLoop \<Rightarrow> WinLoop" where
  "worker_head w s0 =
     (if wl_stopping s0 then s0\<lparr>wl_worker := WwReturned None\<rparr>
      else
        let s = s0\<lparr>wl_outgoing := List.last (wl_outgoing s0 # wl_replacements s0), wl_replacements := []\<rparr> in
        if wl_reconnecting s then s
        else
          (case ww_event w of
             Some e \<Rightarrow> s\<lparr>wl_worker := WwReturned (Some (WePlatform e))\<rparr>
           | None \<Rightarrow>
               (case ww_wait w of
                  WaitPackets \<Rightarrow> s\<lparr>wl_worker := WwReadable\<rparr>
                | WaitTimeout \<Rightarrow> s
                | WaitFailed \<Rightarrow> s\<lparr>wl_worker := WwReturned (Some (WePlatform ''waiting for Wintun packets failed''))\<rparr>)))"

definition worker_encode :: "worker_world \<Rightarrow> WinLoop \<Rightarrow> WinLoop" where
  "worker_encode w s =
     (if wl_reconnecting s then s\<lparr>wl_worker := WwHead\<rparr>
      else if wl_poisoned s then s\<lparr>wl_worker := WwReturned (Some (WePlatform ''sender poisoned''))\<rparr>
      else
        let (r, sender, drops) = win_encode_batch WIN_BATCH_SIZE (ww_reads w) (wl_sender s) (wl_dropped s) in
        s\<lparr>wl_sender := sender, wl_dropped := drops,
          wl_worker := (case r of Inl e \<Rightarrow> WwReturned (Some e) | Inr datagrams \<Rightarrow> WwEncoded datagrams)\<rparr>)"

definition worker_send :: "wire_libs \<Rightarrow> worker_world \<Rightarrow> bytes list \<Rightarrow> WinLoop \<Rightarrow> WinLoop" where
  "worker_send W w datagrams s =
     (case datagrams of
        [] \<Rightarrow> s\<lparr>wl_worker := WwHead\<rparr>
      | datagram # rest \<Rightarrow>
          let (masked, wire) = ClientWire_encode W (sw_clock (ww_send w)) (sw_random (ww_send w)) (wl_wire s) datagram;
              s1 = s\<lparr>wl_wire := wire\<rparr>
          in
          (case masked of
             Inl e \<Rightarrow> s1\<lparr>wl_worker := WwReturned (Some (WeClient (CeWire e)))\<rparr>
           | Inr out \<Rightarrow>
               (case sw_sent (ww_send w) of
                  None \<Rightarrow> s1\<lparr>wl_worker := WwEncoded rest, wl_log := wl_log s1 @ [OutSend (wl_outgoing s1) out]\<rparr>
                | Some e \<Rightarrow>
                    if win_is_peer_unavailable e then s1\<lparr>wl_requested := True, wl_worker := WwHead\<rparr>
                    else if is_transient_io e then (wl_dropped_update note_packet_drop s1)\<lparr>wl_worker := WwEncoded rest\<rparr>
                    else s1\<lparr>wl_worker := WwReturned (Some (we_io e))\<rparr>)))"

definition win_worker_step :: "wire_libs \<Rightarrow> worker_world \<Rightarrow> WinLoop \<Rightarrow> WinLoop" where
  "win_worker_step W w s =
     (case wl_worker s of
        WwHead \<Rightarrow> worker_head w s
      | WwReadable \<Rightarrow> worker_encode w s
      | WwEncoded datagrams \<Rightarrow> worker_send W w datagrams s
      | WwReturned _ \<Rightarrow> s)"

section \<open>Both threads and Windows\<close>

text \<open>Windows reports a change of address or a wake-up by setting the request; the user asks to stop.\<close>

datatype win_event = LoopTurn win_turn | WorkerTurn worker_world | WinNetworkEvent | WinStop

fun win_client_step :: "wire_libs \<Rightarrow> 'h Snow \<Rightarrow> ValidatedClientConfig \<Rightarrow> WinLoop \<Rightarrow> win_event \<Rightarrow> WinLoop" where
  "win_client_step W S config s (LoopTurn w) = win_loop_step W S config w s"
| "win_client_step W S config s (WorkerTurn w) = win_worker_step W w s"
| "win_client_step W S config s WinNetworkEvent = s\<lparr>wl_requested := True\<rparr>"
| "win_client_step W S config s WinStop = s\<lparr>wl_stopping := True\<rparr>"

definition win_client_run :: "wire_libs \<Rightarrow> 'h Snow \<Rightarrow> ValidatedClientConfig \<Rightarrow> WinLoop \<Rightarrow> win_event list \<Rightarrow> WinLoop" where
  "win_client_run W S config = foldl (win_client_step W S config)"

definition win_loop_new :: "nat \<Rightarrow> TunnelDataPlane \<Rightarrow> SessionParameters \<Rightarrow> WinNetwork \<Rightarrow> ClientWire \<Rightarrow> instant \<Rightarrow> WinLoop" where
  "win_loop_new socket plane parameters network wire now =
     (let (sender, receiver) = TunnelDataPlane_split plane in
      \<lparr>wl_transport = socket, wl_parameters = parameters, wl_receiver = receiver, wl_sender = sender, wl_poisoned = False,
       wl_stopping = False, wl_reconnecting = False, wl_requested = False, wl_replacements = [], wl_network = network,
       wl_wire = wire, wl_send_drops = 0, wl_grace = None, wl_liveness = win_new now, wl_phase = WlTop, wl_outgoing = socket,
       wl_dropped = 0, wl_worker = WwHead, wl_reported = False, wl_log = []\<rparr>)"

section \<open>Restarts\<close>

text \<open>
  \<^verbatim>\<open>run_with_stop\<close> hands its parameters to the packet loop by value, so what the loop changes reaches it only through the
  guard. Its waits end by a request to stop or by the backoff running out.
\<close>

definition RESTART_BACKOFF_MIN :: duration where "RESTART_BACKOFF_MIN = secs 1"
definition RESTART_BACKOFF_MAX :: duration where "RESTART_BACKOFF_MAX = secs 16"
definition STABLE_RUNTIME :: duration where "STABLE_RUNTIME = secs 60"

record WinRuntime =
  rt_parameters :: SessionParameters
  rt_network :: WinNetwork
  rt_wire :: ClientWire
  rt_backoff :: duration

datatype restart_result = RestartStopped | RestartRetry | RestartReady nat TunnelDataPlane

definition slow_down :: "WinRuntime \<Rightarrow> restart_result \<times> WinRuntime" where
  "slow_down rt = (RestartRetry, rt\<lparr>rt_backoff := min (rt_backoff rt * 2) RESTART_BACKOFF_MAX\<rparr>)"

text \<open>The end of a packet loop: \<open>None\<close> when the user asked for it.\<close>

definition loop_ended :: "duration \<Rightarrow> WinLoop \<Rightarrow> WinRuntime \<Rightarrow> WinRuntime option" where
  "loop_ended elapsed s rt =
     (if wl_stopping s then None
      else
        Some (rt\<lparr>rt_network := wl_network s, rt_wire := wl_wire s,
                rt_backoff := (if elapsed \<ge> STABLE_RUNTIME then RESTART_BACKOFF_MIN else rt_backoff rt)\<rparr>))"

record restart_world =
  rs_stopped :: bool
  rs_replacement :: replacement_world
  rs_session :: "string option"

text \<open>The attempt up to the new Wintun session, then the parameters when they are not the ones the runtime knows.\<close>

definition restart_attempt ::
  "wire_libs \<Rightarrow> 'h Snow \<Rightarrow> ValidatedClientConfig \<Rightarrow> restart_world \<Rightarrow> WinRuntime \<Rightarrow>
   (WinError + nat \<times> negotiated) option \<times> WinRuntime" where
  "restart_attempt W S config w rt =
     (let rw = rs_replacement w;
          (r, wire) = win_connect W S (rw_bind rw) config (rw_attempt rw) (rt_wire rt);
          rt1 = rt\<lparr>rt_wire := wire\<rparr>
      in
      case r of
        Some (Inr (socket, plane, parameters)) \<Rightarrow>
          let (x, rt2) =
            and_then (win_io (rw_timeout_set rw) rt1) (\<lambda>_ rt.
            and_then (win_io (rw_clone rw) rt) (\<lambda>_ rt.
              let (m, n) = set_mtu (rw_mtu rw) (sp_mtu parameters) (rt_network rt); rt = rt\<lparr>rt_network := n\<rparr> in
              (case (m, rs_session w) of
                 (Inl e, _) \<Rightarrow> (Inl (WePlatform e), rt)
               | (Inr _, Some e) \<Rightarrow> (Inl (WePlatform e), rt)
               | (Inr _, None) \<Rightarrow> (Inr (), rt))))
          in (Some (bind_r x (\<lambda>_. Inr (socket, plane, parameters))), rt2)
      | _ \<Rightarrow> (r, rt1))"

definition restart_turn ::
  "wire_libs \<Rightarrow> 'h Snow \<Rightarrow> ValidatedClientConfig \<Rightarrow> restart_world \<Rightarrow> WinRuntime \<Rightarrow> restart_result \<times> WinRuntime" where
  "restart_turn W S config w rt =
     (if rs_stopped w then (RestartStopped, rt)
      else if rw_refresh (rs_replacement w) \<noteq> None then slow_down rt
      else
        (case restart_attempt W S config w rt of
           (Some (Inr (socket, plane, parameters)), rt1) \<Rightarrow>
             if parameters = rt_parameters rt1 then (RestartReady socket plane, rt1\<lparr>rt_backoff := RESTART_BACKOFF_MIN\<rparr>)
             else
               (case update_parameters (rw_update (rs_replacement w)) parameters (rt_network rt1) of
                  (Inr _, n) \<Rightarrow>
                    (RestartReady socket plane,
                     rt1\<lparr>rt_network := n, rt_parameters := parameters, rt_backoff := RESTART_BACKOFF_MIN\<rparr>)
                | (Inl _, n) \<Rightarrow>
                    slow_down (rt1\<lparr>rt_network := snd (set_mtu (rw_mtu_back (rs_replacement w)) (sp_mtu (rt_parameters rt1)) n)\<rparr>))
         | (Some (Inl _), rt1) \<Rightarrow> slow_down rt1
         | (None, rt1) \<Rightarrow> (RestartRetry, rt1)))"

end
