(* ===== verification/WinProps.thy ===== *)
theory WinProps
  imports WinClient Sessions
begin

text \<open>
  What the Windows client keeps in every interleaving of its packet loop with its worker: the adapter has the settings of
  the session in use, both halves of the tunnel belong to that session, and the worker ends up on its socket.
\<close>

section \<open>Settings of the adapter\<close>

definition settings_match :: "WinNetwork \<Rightarrow> SessionParameters \<Rightarrow> bool" where
  "settings_match n p \<longleftrightarrow>
     nw_parameters n = p \<and> nw_address n = Some (sp_client_address p, sp_prefix_len p) \<and> nw_dns n = Some (sp_dns p) \<and>
     nw_mtu n = Some (sp_mtu p)"

text \<open>Putting the old settings back works, and a refused change of the MTU leaves it.\<close>

definition rolls_back :: "replacement_world \<Rightarrow> bool" where
  "rolls_back w \<longleftrightarrow>
     (case rw_mtu w of MtuInDoubt _ \<Rightarrow> False | _ \<Rightarrow> True) \<and> rw_mtu_back w = MtuSet \<and>
     ap_address (uw_restore (rw_update w)) = None \<and> ap_dns (uw_restore (rw_update w)) = None"

fun rolling_back :: "win_event \<Rightarrow> bool" where
  "rolling_back (LoopTurn w) = rolls_back (wt_replacement w)"
| "rolling_back _ = True"

lemma update_parameters_matches:
  assumes "nw_parameters n = p" "nw_address n = Some (sp_client_address p, sp_prefix_len p)" "nw_dns n = Some (sp_dns p)"
    and "ap_address (uw_restore w) = None" "ap_dns (uw_restore w) = None"
    and "update_parameters w q n = (r, n')"
  shows "nw_mtu n' = nw_mtu n \<and>
    (case r of
       Inr _ \<Rightarrow> nw_parameters n' = q \<and> nw_address n' = Some (sp_client_address q, sp_prefix_len q) \<and> nw_dns n' = Some (sp_dns q)
     | Inl _ \<Rightarrow> nw_parameters n' = p \<and> nw_address n' = Some (sp_client_address p, sp_prefix_len p) \<and> nw_dns n' = Some (sp_dns p))"
  using assms
  by (auto simp: update_parameters_def apply_parameters_def and_then_def Let_def split: if_splits option.splits)

lemma adopt_parameters_matches:
  assumes "settings_match (wl_network s) (wl_parameters s)" and "rolls_back w" and "adopt_parameters w p s = (r, t)"
  shows "settings_match (wl_network t) (wl_parameters t) \<and>
    (case r of Inr _ \<Rightarrow> wl_parameters t = p | Inl _ \<Rightarrow> wl_parameters t = wl_parameters s) \<and>
    (\<exists>n q. t = s\<lparr>wl_network := n, wl_parameters := q\<rparr>)"
proof (cases "p = wl_parameters s")
  case True
  then have "r = Inr ()" "t = s" using assms(3) by (simp_all add: adopt_parameters_def)
  moreover have "s = s\<lparr>wl_network := wl_network s, wl_parameters := wl_parameters s\<rparr>" by simp
  ultimately show ?thesis using assms(1) True by (metis sum.case(2))
next
  case False
  obtain r1 n1 where first: "set_mtu (rw_mtu w) (sp_mtu p) (wl_network s) = (r1, n1)" by fastforce
  obtain r2 n2 where second: "update_parameters (rw_update w) p n1 = (r2, n2)" by fastforce
  obtain r3 n3 where third: "set_mtu (rw_mtu_back w) (sp_mtu (wl_parameters s)) n2 = (r3, n3)" by fastforce
  have n1: "nw_parameters n1 = wl_parameters s" "nw_address n1 = nw_address (wl_network s)" "nw_dns n1 = nw_dns (wl_network s)"
    "case r1 of Inr _ \<Rightarrow> nw_mtu n1 = Some (sp_mtu p) | Inl _ \<Rightarrow> n1 = wl_network s"
    using first assms(1,2) by (auto simp: set_mtu_def settings_match_def rolls_back_def split: mtu_answer.splits)
  have n3: "r3 = Inr () \<and> n3 = n2\<lparr>nw_mtu := Some (sp_mtu (wl_parameters s))\<rparr>"
    using third assms(2) by (auto simp: set_mtu_def rolls_back_def)
  have n2: "nw_mtu n2 = nw_mtu n1 \<and>
    (case r2 of
       Inr _ \<Rightarrow> nw_parameters n2 = p \<and> nw_address n2 = Some (sp_client_address p, sp_prefix_len p) \<and> nw_dns n2 = Some (sp_dns p)
     | Inl _ \<Rightarrow> nw_parameters n2 = wl_parameters s \<and> nw_address n2 = nw_address (wl_network s) \<and> nw_dns n2 = nw_dns (wl_network s))"
    using update_parameters_matches [OF _ _ _ _ _ second, of "wl_parameters s"] n1 assms(1,2)
    by (cases r2) (simp_all add: settings_match_def rolls_back_def)
  have t: "(r, t) = (case r1 of Inl e \<Rightarrow> (Inl (WePlatform e), s\<lparr>wl_network := n1\<rparr>)
     | Inr _ \<Rightarrow> (case r2 of Inr _ \<Rightarrow> (Inr (), s\<lparr>wl_network := n2, wl_parameters := p\<rparr>) | Inl e \<Rightarrow> (Inl e, s\<lparr>wl_network := n3\<rparr>)))"
    using assms(3) False first second third n3 by (auto simp: adopt_parameters_def split: sum.splits)
  have shape: "\<exists>n q. t = s\<lparr>wl_network := n, wl_parameters := q\<rparr>"
  proof -
    have "t = s\<lparr>wl_network := wl_network t, wl_parameters := wl_parameters t\<rparr>" using t by (auto split: sum.splits)
    then show ?thesis by blast
  qed
  have "settings_match (wl_network t) (wl_parameters t) \<and>
    (case r of Inr _ \<Rightarrow> wl_parameters t = p | Inl _ \<Rightarrow> wl_parameters t = wl_parameters s)"
    using t n1 n2 n3 assms(1) by (cases r1; cases r2) (simp_all add: settings_match_def)
  with shape show ?thesis by blast
qed

section \<open>The invariant\<close>

definition win_inv :: "WinLoop \<Rightarrow> bool" where
  "win_inv s \<longleftrightarrow>
     settings_match (wl_network s) (wl_parameters s) \<and>
     halves_agree (wl_parameters s) (wl_sender s) (wl_receiver s) \<and>
     List.last (wl_outgoing s # wl_replacements s) = wl_transport s \<and> length (wl_replacements s) \<le> 1 \<and>
     \<not> wl_poisoned s \<and>
     (wl_reconnecting s \<longleftrightarrow> (case wl_phase s of WlConnecting \<Rightarrow> True | WlHandover _ \<Rightarrow> True | _ \<Rightarrow> False))"

text \<open>Operations that replace neither the session nor a socket.\<close>

definition win_keeps :: "WinLoop \<Rightarrow> WinLoop \<Rightarrow> bool" where
  "win_keeps s t \<longleftrightarrow>
     wl_network t = wl_network s \<and> wl_parameters t = wl_parameters s \<and>
     ts_session_id (wl_sender t) = ts_session_id (wl_sender s) \<and> ts_mtu (wl_sender t) = ts_mtu (wl_sender s) \<and>
     tr_session_id (wl_receiver t) = tr_session_id (wl_receiver s) \<and> tr_mtu (wl_receiver t) = tr_mtu (wl_receiver s) \<and>
     wl_outgoing t = wl_outgoing s \<and> wl_replacements t = wl_replacements s \<and> wl_transport t = wl_transport s \<and>
     wl_poisoned t = wl_poisoned s \<and> wl_reconnecting t = wl_reconnecting s \<and> wl_phase t = wl_phase s"

lemma win_keeps_refl [simp]: "win_keeps s s"
  by (simp add: win_keeps_def)

lemma win_keeps_trans: "win_keeps s t \<Longrightarrow> win_keeps t u \<Longrightarrow> win_keeps s u"
  by (simp add: win_keeps_def)

lemma win_keeps_inv: "win_keeps s t \<Longrightarrow> win_inv s \<Longrightarrow> win_inv t"
  by (simp add: win_keeps_def win_inv_def halves_agree_def)

lemma win_keeps_and_then:
  "win_keeps s (snd x) \<Longrightarrow> (\<And>a u. win_keeps u (snd (f a u))) \<Longrightarrow> win_keeps s (snd (and_then x f))"
  by (cases x) (auto simp: and_then_def split: sum.splits intro: win_keeps_trans)

lemma and_then_simps: "and_then (Inl e, s) f = (Inl e, s)" "and_then (Inr a, s) f = f a s"
  by (simp_all add: and_then_def)

lemma check_worker_win_keeps: "win_keeps s (snd (win_check_worker s))"
  by (simp add: win_check_worker_def win_keeps_def split: win_worker_phase.split option.split)

lemma process_win_keeps: "win_keeps s (snd (win_process W w s))"
  using decode_into_keeps [of "wl_receiver s"]
  by (simp add: win_process_def win_keeps_def Let_def split_beta split: option.split sum.split DecodedPacket.split bool.split)

lemma receive_win_keeps: "win_keeps s (snd (win_receive W received now s))"
  using process_win_keeps by (simp add: win_receive_def win_keeps_def split: sum.split)

lemma send_keepalive_win_keeps: "win_keeps s (snd (win_send_keepalive W w now s))"
  using encode_keepalive_keeps [of "wl_sender s"]
  by (simp add: win_send_keepalive_def win_keeps_def Let_def split_beta split: option.split sum.split)

lemma maintain_liveness_inv: "win_inv s \<Longrightarrow> wl_phase s = WlTop \<Longrightarrow> win_inv (snd (win_maintain_liveness W w now s))"
  using win_keeps_inv [OF send_keepalive_win_keeps, of s W w now]
  by (cases "win_action (wl_liveness s) now") (simp_all add: win_maintain_liveness_def, simp add: win_inv_def)

lemma maintain_liveness_error:
  "win_maintain_liveness W w now s = (Inl e, t) \<Longrightarrow> win_keeps s t"
  using send_keepalive_win_keeps [of s W w now] by (auto simp: win_maintain_liveness_def split: Action.splits)

lemma top_inv:
  assumes "win_inv s" "wl_phase s = WlTop"
  shows "win_inv (win_top W w s)"
proof -
  let ?request = "win_heed_request (wt_now w)"
  have request: "win_keeps u (?request u)" for u
    by (simp add: win_heed_request_def win_take_reconnect_request_def win_keeps_def)
  obtain r1 s1 where s1: "win_check_worker s = (r1, s1)" by fastforce
  obtain r2 s2 where s2: "win_receive W (wt_received w) (wt_failed_now w) s1 = (r2, s2)" by fastforce
  obtain r3 s3 where s3: "win_maintain_liveness W (wt_keepalive w) (wt_later w) (?request s2) = (r3, s3)" by fastforce
  have k1: "win_keeps s s1" using check_worker_win_keeps [of s] s1 by simp
  have k2: "win_keeps s s2" using win_keeps_trans [OF k1] receive_win_keeps [of s1 W "wt_received w" "wt_failed_now w"] s2 by simp
  have k3: "win_keeps s (?request s2)" using win_keeps_trans [OF k2 request] .
  have i3: "win_inv s3"
    using maintain_liveness_inv [of "?request s2" W "wt_keepalive w" "wt_later w"] win_keeps_inv [OF k3 assms(1)] k3 s3 assms(2)
    by (simp add: win_keeps_def)
  have failed: "win_inv (t\<lparr>wl_phase := WlEnded x\<rparr>)" if "win_keeps s t" for t x
    using win_keeps_inv [OF that assms(1)] that assms(2) by (auto simp: win_inv_def win_keeps_def split: if_splits)
  have "win_keeps s s3" if "r3 = Inl e" for e
    using win_keeps_trans [OF k3 maintain_liveness_error] s3 that by blast
  then show ?thesis
    using s1 s2 s3 k1 k2 i3 failed
    by (cases "wl_stopping s"; cases r1; cases r2; cases r3)
      (simp_all add: win_top_def and_then_simps)
qed

lemma reconnect_failed_inv: "win_inv s \<Longrightarrow> win_inv (reconnect_failed s)"
  by (simp add: win_inv_def reconnect_failed_def)

lemma connect_matches:
  "win_connect W S bind config w wire = (Some (Inr (socket, session)), wire') \<Longrightarrow> matches_parameters session"
  by (auto simp: win_connect_def bind_r_eq_Inr map_err_eq_Inr split: sum.splits prod.splits dest: win_negotiate_matches)

lemma handover_inv: "win_inv s \<Longrightarrow> win_inv (win_handover now socket s)"
  using reconnect_failed_inv [of s]
  by (cases "wl_worker s") (simp_all add: win_handover_def, simp_all add: win_inv_def)

text \<open>A batch is encoded by the sender it started with.\<close>

lemma encode_batch_keeps:
  "ts_session_id (fst (snd (win_encode_batch n reads sender drops))) = ts_session_id sender \<and>
   ts_mtu (fst (snd (win_encode_batch n reads sender drops))) = ts_mtu sender"
proof (induction n reads sender drops rule: win_encode_batch.induct)
  case (4 n packet reads sender drops)
  obtain x sender1 where x: "TunnelSender_encode_ip_into sender packet = (x, sender1)" by fastforce
  have keeps: "ts_session_id sender1 = ts_session_id sender" "ts_mtu sender1 = ts_mtu sender"
    using encode_ip_keeps [of sender packet] x by simp_all
  show ?case
  proof (cases "packet = [] \<or> drop_bit 4 (hd packet) \<noteq> 4")
    case True
    then show ?thesis using 4(1) by simp
  next
    case False
    show ?thesis
    proof (cases x)
      case (Inr datagram)
      then show ?thesis using False x keeps 4(4) [OF False x [symmetric] Inr] by (simp add: split_beta)
    next
      case (Inl e)
      then show ?thesis
        using False x keeps 4(2,3) [OF False x [symmetric] Inl] by (cases e) simp_all
    qed
  qed
qed simp_all

lemma worker_head_inv: "win_inv s \<Longrightarrow> win_inv (worker_head w s)"
  by (auto simp: worker_head_def win_inv_def Let_def split: option.split wait_answer.split if_splits)

lemma worker_encode_keeps: "win_keeps s (worker_encode w s)"
proof -
  obtain r sender drops
    where "win_encode_batch WIN_BATCH_SIZE (ww_reads w) (wl_sender s) (wl_dropped s) = (r, sender, drops)"
    by (metis prod_cases3)
  then show ?thesis
    using encode_batch_keeps [of WIN_BATCH_SIZE "ww_reads w" "wl_sender s" "wl_dropped s"]
    by (simp add: worker_encode_def win_keeps_def)
qed

lemma worker_send_keeps: "win_keeps s (worker_send W w datagrams s)"
  by (simp add: worker_send_def win_keeps_def Let_def split_beta split: list.split sum.split option.split)

lemma worker_step_inv: "win_inv s \<Longrightarrow> win_inv (win_worker_step W w s)"
  using win_keeps_inv [OF worker_encode_keeps] win_keeps_inv [OF worker_send_keeps]
  by (simp add: win_worker_step_def worker_head_inv split: win_worker_phase.split)

lemma install_session_inv:
  assumes s: "win_inv s" "wl_phase s = WlConnecting" and "rolls_back w" and "matches_parameters (plane, parameters)"
    and run: "and_then (adopt_parameters w parameters s) (\<lambda>_ s. swap_halves plane s) = (r, t)"
  shows "win_inv (case r of Inl _ \<Rightarrow> reconnect_failed t | Inr _ \<Rightarrow> t\<lparr>wl_phase := WlHandover socket\<rparr>)"
proof -
  obtain x u where u: "adopt_parameters w parameters s = (x, u)" by fastforce
  obtain sender receiver where halves: "TunnelDataPlane_split plane = (sender, receiver)" by fastforce
  have agree: "halves_agree parameters sender receiver" using split_halves_agree [OF assms(4) halves] .
  have "settings_match (wl_network s) (wl_parameters s)" using s(1) by (simp add: win_inv_def)
  note u' = adopt_parameters_matches [OF this assms(3) u]
  obtain n q where shape: "u = s\<lparr>wl_network := n, wl_parameters := q\<rparr>" using u' by blast
  have n: "settings_match n q" "case x of Inr _ \<Rightarrow> q = parameters | Inl _ \<Rightarrow> q = wl_parameters s"
    using u' by (cases x; simp add: shape)+
  show ?thesis
  proof (cases x)
    case (Inl e)
    then have "r = Inl e" "t = u" using run u by (simp_all add: and_then_def)
    then show ?thesis using s(1) n Inl by (auto simp: shape win_inv_def reconnect_failed_def)
  next
    case (Inr y)
    have "\<not> wl_poisoned u" using s(1) by (simp add: shape win_inv_def)
    then have "r = Inr ()" "t = u\<lparr>wl_sender := sender, wl_receiver := receiver\<rparr>"
      using run Inr by (auto simp: u and_then_simps swap_halves_def halves)
    then show ?thesis using s n Inr agree by (auto simp: shape win_inv_def)
  qed
qed

lemma win_establish_replacement_inv:
  assumes "win_inv s" "wl_phase s = WlConnecting" "rolls_back w"
  shows "win_inv (win_establish_replacement W S config w s)"
proof -
  obtain r wire where c: "win_connect W S (rw_bind w) config (rw_attempt w) (wl_wire s) = (r, wire)" by fastforce
  let ?s1 = "s\<lparr>wl_wire := wire\<rparr>"
  have s1: "win_inv ?s1" "wl_phase ?s1 = WlConnecting" using assms(1,2) by (simp_all add: win_inv_def)
  note failed = reconnect_failed_inv [OF assms(1)] reconnect_failed_inv [OF s1(1)]
  consider "r = None" | e where "r = Some (Inl e)" | socket plane parameters where "r = Some (Inr (socket, plane, parameters))"
    by (metis option.exhaust sum.exhaust prod_cases3)
  then show ?thesis
  proof cases
    case (3 socket plane parameters)
    obtain x t where t: "and_then (adopt_parameters w parameters ?s1) (\<lambda>_ s. swap_halves plane s) = (x, t)" by fastforce
    have "win_inv (case x of Inl _ \<Rightarrow> reconnect_failed t | Inr _ \<Rightarrow> t\<lparr>wl_phase := WlHandover socket\<rparr>)"
      using install_session_inv [OF s1 assms(3) _ t] connect_matches c 3 by blast
    then show ?thesis
      using c 3 t failed
      by (cases "rw_refresh w"; cases "rw_timeout_set w"; cases "rw_clone w"; cases x)
        (simp_all add: win_establish_replacement_def and_then_simps win_io_def)
  qed (use c s1 failed in \<open>cases "rw_refresh w"; simp add: win_establish_replacement_def\<close>)+
qed

lemma win_client_step_inv:
  assumes "win_inv s" "rolling_back e"
  shows "win_inv (win_client_step W S config s e)"
proof (cases e)
  case (LoopTurn w)
  then show ?thesis
    using assms top_inv [OF assms(1)] win_establish_replacement_inv [OF assms(1)] handover_inv [OF assms(1)]
    by (cases "wl_phase s") (simp_all add: win_loop_step_def)
next
  case (WorkerTurn w)
  then show ?thesis using worker_step_inv [OF assms(1)] by simp
qed (use assms(1) in \<open>simp_all add: win_inv_def\<close>)

lemma win_client_run_inv:
  "win_inv s \<Longrightarrow> (\<And>e. e \<in> set events \<Longrightarrow> rolling_back e) \<Longrightarrow> win_inv (win_client_run W S config s events)"
proof (induction events arbitrary: s)
  case (Cons e events)
  then have "win_inv (win_client_step W S config s e)" by (simp add: win_client_step_inv)
  from Cons.IH [OF this] Cons.prems(2) show ?case by (simp add: win_client_run_def)
qed (simp add: win_client_run_def)

lemma win_loop_new_inv:
  "matches_parameters (plane, parameters) \<Longrightarrow> settings_match network parameters \<Longrightarrow>
   win_inv (win_loop_new socket plane parameters network wire now)"
  by (cases "TunnelDataPlane_split plane") (simp add: win_inv_def win_loop_new_def split_halves_agree)

text \<open>
  C31. Whatever the packet loop, its worker, Windows and the user do, and in whatever order: as long as settings that have to
  be put back can be, the adapter has the address, resolver and MTU of the session in use, both halves of the tunnel belong
  to that session and carry its MTU, and the worker's next socket is the one on which the loop receives.
\<close>

theorem windows_settings_follow_the_session:
  assumes "matches_parameters (plane, parameters)" and "settings_match network parameters"
    and "\<And>e. e \<in> set events \<Longrightarrow> rolling_back e"
  shows "let s = win_client_run W S config (win_loop_new socket plane parameters network wire now) events in
    settings_match (wl_network s) (wl_parameters s) \<and>
    halves_agree (wl_parameters s) (wl_sender s) (wl_receiver s) \<and>
    List.last (wl_outgoing s # wl_replacements s) = wl_transport s"
proof -
  have "win_inv (win_client_run W S config (win_loop_new socket plane parameters network wire now) events)"
    by (rule win_client_run_inv [OF win_loop_new_inv [OF assms(1,2)] assms(3)])
  then show ?thesis by (simp only: win_inv_def Let_def)
qed

definition settings_of :: "SessionParameters \<Rightarrow> WinNetwork" where
  "settings_of p = \<lparr>nw_parameters = p, nw_address = Some (sp_client_address p, sp_prefix_len p), nw_dns = Some (sp_dns p),
     nw_mtu = Some (sp_mtu p)\<rparr>"

lemma settings_of_match: "settings_match (settings_of p) p"
  by (simp add: settings_match_def settings_of_def)

text \<open>A world in which the server answers, the new parameters are refused and the old ones are put back.\<close>

definition sample_replacement :: "WinError option \<Rightarrow> replacement_world" where
  "sample_replacement refused =
     \<lparr>rw_refresh = None, rw_bind = (\<lambda>_ _. Inr 7), rw_attempt = sample_attempt, rw_timeout_set = None, rw_clone = None,
      rw_mtu = MtuSet,
      rw_update = \<lparr>uw_prepare = None, uw_apply = \<lparr>ap_address = None, ap_dns = refused\<rparr>,
        uw_restore = \<lparr>ap_address = None, ap_dns = None\<rparr>\<rparr>,
      rw_mtu_back = MtuSet\<rparr>"

definition sample_win_turn :: "WinError option \<Rightarrow> win_turn" where
  "sample_win_turn refused =
     \<lparr>wt_received = Inl (io_error_new TimedOut), wt_failed_now = secs 20, wt_now = secs 20, wt_later = secs 20,
      wt_keepalive = \<lparr>sw_clock = None, sw_random = Inr [], sw_sent = None\<rparr>, wt_replacement = sample_replacement refused,
      wt_reconnected_at = secs 21\<rparr>"


theorem windows_settings_follow_the_session_witness:
  "let s = win_client_run plain_wire_libs plain_snow (sample_client PLegacy)
       (win_loop_new 4 (fst sample_negotiated) (snd sample_negotiated) (settings_of (snd sample_negotiated)) WLegacy 0)
       [WinNetworkEvent, LoopTurn (sample_win_turn None), LoopTurn (sample_win_turn (Some (WePlatform ''netsh''))),
        LoopTurn (sample_win_turn None), WinStop] in
    settings_match (wl_network s) (wl_parameters s) \<and> halves_agree (wl_parameters s) (wl_sender s) (wl_receiver s)"
proof -
  let ?events = "[WinNetworkEvent, LoopTurn (sample_win_turn None), LoopTurn (sample_win_turn (Some (WePlatform ''netsh''))),
        LoopTurn (sample_win_turn None), WinStop]"
  have "rolling_back e" if "e \<in> set ?events" for e
    using that by (auto simp: sample_win_turn_def sample_replacement_def rolls_back_def)
  then show ?thesis
    using windows_settings_follow_the_session [of "fst sample_negotiated" "snd sample_negotiated"
        "settings_of (snd sample_negotiated)" ?events plain_wire_libs plain_snow "sample_client PLegacy" 4 WLegacy 0]
      sample_matches settings_of_match
    by (simp add: Let_def)
qed

section \<open>After a reconnection\<close>

text \<open>For three seconds after a reconnection no request of Windows or of the worker leads to another one.\<close>

lemma events_are_coalesced:
  assumes "wl_grace s = Some (now + POST_RECONNECT_EVENT_GRACE)" "later < now + POST_RECONNECT_EVENT_GRACE"
  shows "win_heed_request later s = s\<lparr>wl_requested := False\<rparr>"
  using assms by (simp add: win_heed_request_def win_take_reconnect_request_def)

section \<open>Restarts\<close>













end
