(* ===== verification/WinRoutes.thy ===== *)
theory WinRoutes
  imports WinClient
begin

text \<open>
  Routes and blocked prefixes of the Windows client, \<^verbatim>\<open>network.rs\<close>: the prefixes that the kill switch blocks, and the repair of
  the routes that the tunnel owns. The route table is the list of the routes that carry the client's own metric.
\<close>

section \<open>Blocked prefixes\<close>

text \<open>One turn per prefix length: the sibling of the server's network at that length is blocked.\<close>

fun blocked_networks_from :: "u32 \<Rightarrow> nat list \<Rightarrow> u32 \<Rightarrow> (u32 \<times> nat) list" where
  "blocked_networks_from server [] network = []"
| "blocked_networks_from server (prefix_len # lens) network =
     (let b = push_bit (32 - prefix_len) 1 in
      if and server b = 0 then (or network b, prefix_len) # blocked_networks_from server lens network
      else (network, prefix_len) # blocked_networks_from server lens (or network b))"

definition blocked_ipv4_prefixes :: "ipv4 \<Rightarrow> (ipv4 \<times> nat) list" where
  "blocked_ipv4_prefixes server_ip =
     map (\<lambda>(network, prefix_len). (ipv4_of_bits network, prefix_len)) (blocked_networks_from (ipv4_bits server_ip) [1..<33] 0)"

definition in_prefix :: "u32 \<Rightarrow> u32 \<times> nat \<Rightarrow> bool" where
  "in_prefix a p \<longleftrightarrow> drop_bit (32 - snd p) a = drop_bit (32 - snd p) (fst p)"

text \<open>The addresses that first differ from the server's in the last bit of the prefix.\<close>

definition branches_at :: "u32 \<Rightarrow> u32 \<Rightarrow> nat \<Rightarrow> bool" where
  "branches_at server a l \<longleftrightarrow> (\<forall>n < 32. 32 - l < n \<longrightarrow> bit a n = bit server n) \<and> bit a (32 - l) \<noteq> bit server (32 - l)"

lemma in_prefix_bits: "in_prefix a (network, l) \<longleftrightarrow> (\<forall>n < 32. 32 - l \<le> n \<longrightarrow> bit a n = bit network n)"
proof -
  have top: "\<not> bit w n" if "32 \<le> n" for w :: u32 and n
    using that bit_imp_le_length [of w n] by auto
  have "in_prefix a (network, l) \<longleftrightarrow> (\<forall>n. bit a (32 - l + n) = bit network (32 - l + n))"
  proof
    assume "in_prefix a (network, l)"
    then have "bit (drop_bit (32 - l) a) n = bit (drop_bit (32 - l) network) n" for n by (simp add: in_prefix_def)
    then show "\<forall>n. bit a (32 - l + n) = bit network (32 - l + n)" by (simp add: bit_drop_bit_eq)
  qed (simp add: in_prefix_def bit_eq_iff bit_drop_bit_eq)
  also have "\<dots> \<longleftrightarrow> (\<forall>n. 32 - l \<le> n \<longrightarrow> bit a n = bit network n)"
    by (metis le_add1 le_add_diff_inverse)
  also have "\<dots> \<longleftrightarrow> (\<forall>n < 32. 32 - l \<le> n \<longrightarrow> bit a n = bit network n)"
    using top by (metis linorder_not_less)
  finally show ?thesis .
qed

lemma bit_single: "k < 32 \<Longrightarrow> bit (2 ^ k :: u32) n \<longleftrightarrow> n = k"
  by (auto simp: bit_exp_iff)

lemma and_bit_zero:
  fixes server :: u32
  assumes "k < 32"
  shows "and server (2 ^ k) = 0 \<longleftrightarrow> \<not> bit server k"
proof
  assume "and server (2 ^ k) = 0"
  then have "\<not> bit (and server (2 ^ k)) k" by simp
  then show "\<not> bit server k" using assms by (auto simp only: bit_and_iff bit_single)
next
  assume "\<not> bit server k"
  then show "and server (2 ^ k) = 0" using assms by (intro bit_word_eqI) (auto simp: bit_and_iff bit_single)
qed

text \<open>The networks are the siblings of the server's own ones, in order of their length.\<close>

lemma blocked_from:
  assumes "1 \<le> l" "l \<le> 33" "\<And>n. n < 32 \<Longrightarrow> bit network n \<longleftrightarrow> 33 - l \<le> n \<and> bit server n"
  shows "map snd (blocked_networks_from server [l..<33] network) = [l..<33] \<and>
    (\<forall>p \<in> set (blocked_networks_from server [l..<33] network). \<forall>a. in_prefix a p \<longleftrightarrow> branches_at server a (snd p))"
  using assms
proof (induction "33 - l" arbitrary: l network)
  case (Suc k)
  then have l: "l < 33" by simp
  have k: "32 - l < 32" using Suc.prems(1) by simp
  let ?b = "2 ^ (32 - l) :: u32"
  have upt: "[l..<33] = l # [Suc l..<33]" using l by (simp add: upt_conv_Cons)
  have nxt: "k = 33 - Suc l" "1 \<le> Suc l" "Suc l \<le> 33" using Suc.hyps(2) l by simp_all
  have le: "33 - Suc l \<le> n \<longleftrightarrow> 33 - l \<le> n \<or> n = 32 - l" for n using l Suc.prems(1) by auto
  have gap: "\<not> 33 - l \<le> 32 - l" using l by simp
  have above: "bit network n = bit server n" if "n < 32" "32 - l < n" for n
    using Suc.prems(3) [OF that(1)] that l by auto
  have branch: "in_prefix a (sibling, l) \<longleftrightarrow> branches_at server a l"
    if "bit sibling (32 - l) \<noteq> bit server (32 - l)" "\<And>n. n < 32 \<Longrightarrow> 32 - l < n \<Longrightarrow> bit sibling n = bit server n" for a sibling
    using that k unfolding in_prefix_bits branches_at_def by (metis le_less less_or_eq_imp_le)
  show ?case
  proof (cases "bit server (32 - l)")
    case True
    have net: "bit (or network ?b) n \<longleftrightarrow> 33 - Suc l \<le> n \<and> bit server n" if "n < 32" for n
      using Suc.prems(3) [OF that] bit_single [OF k, of n] True le [of n] by (auto simp: bit_or_iff)
    have "in_prefix a (network, l) \<longleftrightarrow> branches_at server a l" for a
      using branch [of network a] Suc.prems(3) [OF k] above True gap by blast
    then show ?thesis
      using Suc.hyps(1) [OF nxt net] True l Suc.prems(1) by (simp add: upt and_bit_zero Let_def)
  next
    case False
    have net: "bit network n \<longleftrightarrow> 33 - Suc l \<le> n \<and> bit server n" if "n < 32" for n
      using Suc.prems(3) [OF that] False le [of n] by auto
    have "in_prefix a (or network ?b, l) \<longleftrightarrow> branches_at server a l" for a
      using branch [of "or network ?b" a] above False k by (simp add: bit_or_iff bit_single)
    then show ?thesis
      using Suc.hyps(1) [OF nxt net] False l Suc.prems(1) by (simp add: upt and_bit_zero Let_def)
  qed
qed simp

lemma branches_not_later: "branches_at server a l \<Longrightarrow> branches_at server a m \<Longrightarrow> 1 \<le> l \<Longrightarrow> m \<le> 32 \<Longrightarrow> \<not> l < m"
  by (auto simp: branches_at_def dest!: spec [of _ "32 - l"])

lemma branches_exists:
  assumes "a \<noteq> server"
  shows "\<exists>l. 1 \<le> l \<and> l \<le> 32 \<and> branches_at server a l"
proof -
  let ?D = "{n. n < 32 \<and> bit a n \<noteq> bit server n}"
  have "?D \<noteq> {}" using assms by (auto simp: bit_eq_iff)
  then have m: "Max ?D \<in> ?D" by (intro Max_in) auto
  have above: "bit a n = bit server n" if "n < 32" "Max ?D < n" for n
    using that Max_ge [of ?D n] by fastforce
  obtain k where k: "k < 32" "bit a k \<noteq> bit server k" "\<And>n. n < 32 \<Longrightarrow> k < n \<Longrightarrow> bit a n = bit server n"
    by (rule that [of "Max ?D"]) (use m above in blast)+
  then have "branches_at server a (32 - k)" by (simp add: branches_at_def)
  then show ?thesis using k(1) by (intro exI [of _ "32 - k"]) simp
qed

text \<open>
  C33. The kill switch blocks everything but the server: the prefixes it is given contain every address other than the
  server's exactly once, and the server's address not at all.
\<close>

theorem blocked_prefixes_spare_the_server:
  "length (filter (\<lambda>(network, prefix_len). in_prefix (ipv4_bits a) (ipv4_bits network, prefix_len)) (blocked_ipv4_prefixes server)) =
   (if a = server then 0 else 1)"
proof -
  let ?ps = "blocked_networks_from (ipv4_bits server) [1..<33] 0"
  have snd: "map snd ?ps = [1..<33]"
    and branch: "\<And>p. p \<in> set ?ps \<Longrightarrow> in_prefix (ipv4_bits a) p \<longleftrightarrow> branches_at (ipv4_bits server) (ipv4_bits a) (snd p)"
    using blocked_from [of 1 0 "ipv4_bits server"] by auto
  have "length (filter (\<lambda>(network, prefix_len). in_prefix (ipv4_bits a) (ipv4_bits network, prefix_len)) (blocked_ipv4_prefixes server)) =
      length (filter (in_prefix (ipv4_bits a)) ?ps)"
    by (simp add: blocked_ipv4_prefixes_def filter_map comp_def split_beta)
  also have "\<dots> = length (filter (branches_at (ipv4_bits server) (ipv4_bits a)) (map snd ?ps))"
    using branch by (simp add: filter_map comp_def cong: filter_cong)
  also have "\<dots> = card {l \<in> {1..<33}. branches_at (ipv4_bits server) (ipv4_bits a) l}"
    by (simp only: snd distinct_length_filter distinct_upt set_upt Collect_conj_eq Collect_mem_eq Int_commute)
  also have "\<dots> = (if a = server then 0 else 1)"
  proof (cases "a = server")
    case True
    then show ?thesis by (simp add: branches_at_def)
  next
    case False
    then obtain l where l: "1 \<le> l" "l \<le> 32" "branches_at (ipv4_bits server) (ipv4_bits a) l"
      using branches_exists [of "ipv4_bits a" "ipv4_bits server"] by auto
    have unique: "m = l" if "1 \<le> m" "m < 33" "branches_at (ipv4_bits server) (ipv4_bits a) m" for m
      using branches_not_later [OF l(3) that(3)] branches_not_later [OF that(3) l(3)] l that by simp
    have "{l \<in> {1..<33}. branches_at (ipv4_bits server) (ipv4_bits a) l} = {l}"
    proof (intro equalityI subsetI)
      fix m
      assume "m \<in> {l \<in> {1..<33}. branches_at (ipv4_bits server) (ipv4_bits a) l}"
      then show "m \<in> {l}" using unique [of m] by simp
    qed (use l in simp)
    then show ?thesis using False by simp
  qed
  finally show ?thesis .
qed

section \<open>Routes of the tunnel\<close>

text \<open>
  The IPv4 route table of Windows is the list of its rows. What Windows answers is in \<open>route_world\<close>: the status of each of the
  three table reads of a repair, of deleting a row and of creating one, and the index of an interface. A row that could not be
  deleted because it was already gone is gone; a row is created with the index that belongs to its interface.
\<close>

record forward_row =
  fr_luid :: nat
  fr_index :: nat
  fr_destination :: ipv4
  fr_prefix_len :: nat
  fr_next_hop :: ipv4
  fr_metric :: nat
  fr_protocol :: nat

record route_world =
  rw_index :: "nat \<Rightarrow> nat + nat"
  rw_read_default :: nat
  rw_read_owned :: nat
  rw_read_removed :: nat
  rw_delete :: "forward_row \<Rightarrow> nat"
  rw_create :: "forward_row list \<Rightarrow> forward_row \<Rightarrow> nat"

record DefaultRoute =
  dr_interface_luid :: nat
  dr_interface_index :: nat
  dr_next_hop :: ipv4

record OwnedRoute =
  or_destination :: ipv4
  or_prefix_len :: nat
  or_interface_index :: nat
  or_next_hop :: ipv4

definition ERROR_SUCCESS :: nat where "ERROR_SUCCESS = 0"
definition ERROR_FILE_NOT_FOUND :: nat where "ERROR_FILE_NOT_FOUND = 2"
definition ERROR_NOT_FOUND :: nat where "ERROR_NOT_FOUND = 1168"
definition ERROR_OBJECT_ALREADY_EXISTS :: nat where "ERROR_OBJECT_ALREADY_EXISTS = 5010"
definition ROUTE_METRIC :: nat where "ROUTE_METRIC = 4242"
definition MIB_IPPROTO_NETMGMT :: nat where "MIB_IPPROTO_NETMGMT = 3"

abbreviation UNSPECIFIED :: ipv4 where "UNSPECIFIED \<equiv> Ipv4Addr 0 0 0 0"

definition TUNNEL_HALVES :: "ipv4 list" where
  "TUNNEL_HALVES = [Ipv4Addr 0 0 0 0, Ipv4Addr 128 0 0 0]"

definition already_gone :: "nat \<Rightarrow> bool" where
  "already_gone status \<longleftrightarrow> status = ERROR_NOT_FOUND \<or> status = ERROR_FILE_NOT_FOUND"

text \<open>The text of an error leaves out the number of the Windows error and, for an added route, its prefix.\<close>

definition win32_error :: "string \<Rightarrow> WinError" where
  "win32_error operation = WePlatform (''failed to '' @ operation)"

definition win_interface_index :: "route_world \<Rightarrow> nat \<Rightarrow> WinError + nat" where
  "win_interface_index w luid =
     (case rw_index w luid of
        Inr i \<Rightarrow> Inr i
      | Inl _ \<Rightarrow> Inl (win32_error ''resolve the MouseVPN interface index''))"

text \<open>The loop over the table that keeps the cheapest default route with a gateway and outside the tunnel.\<close>

fun best_default :: "nat option \<Rightarrow> forward_row list \<Rightarrow> (nat \<times> DefaultRoute) option \<Rightarrow> (nat \<times> DefaultRoute) option" where
  "best_default tunnel [] best = best"
| "best_default tunnel (row # rows) best =
     (if fr_prefix_len row \<noteq> 0 then best_default tunnel rows best
      else if fr_next_hop row = UNSPECIFIED \<or> tunnel = Some (fr_luid row) then best_default tunnel rows best
      else if (case best of Some (metric, _) \<Rightarrow> fr_metric row < metric | None \<Rightarrow> True) then
        best_default tunnel rows (Some (fr_metric row,
          \<lparr>dr_interface_luid = fr_luid row, dr_interface_index = fr_index row, dr_next_hop = fr_next_hop row\<rparr>))
      else best_default tunnel rows best)"

definition default_ipv4_route :: "route_world \<Rightarrow> nat option \<Rightarrow> forward_row list \<Rightarrow> WinError + DefaultRoute" where
  "default_ipv4_route w tunnel table =
     (if rw_read_default w \<noteq> ERROR_SUCCESS then Inl (win32_error ''read the Windows IPv4 route table'')
      else (case best_default tunnel table None of
          Some (_, route) \<Rightarrow> Inr route
        | None \<Rightarrow> Inl (WePlatform ''No active physical IPv4 default route found'')))"

definition owned_route :: "forward_row \<Rightarrow> OwnedRoute" where
  "owned_route row = \<lparr>or_destination = fr_destination row, or_prefix_len = fr_prefix_len row,
     or_interface_index = fr_index row, or_next_hop = fr_next_hop row\<rparr>"

definition is_owned :: "forward_row \<Rightarrow> bool" where
  "is_owned row \<longleftrightarrow> fr_metric row = ROUTE_METRIC \<and> fr_protocol row = MIB_IPPROTO_NETMGMT"

definition owned_routes :: "route_world \<Rightarrow> forward_row list \<Rightarrow> WinError + OwnedRoute list" where
  "owned_routes w table =
     (if rw_read_owned w \<noteq> ERROR_SUCCESS then Inl (win32_error ''read the Windows IPv4 route table'')
      else Inr (map owned_route (filter is_owned table)))"

definition is_deleted :: "nat \<Rightarrow> bool" where
  "is_deleted status \<longleftrightarrow> status = ERROR_SUCCESS \<or> already_gone status"

text \<open>Removing goes on after a failure and reports it at the end.\<close>

definition remove_owned_routes ::
  "route_world \<Rightarrow> (OwnedRoute \<Rightarrow> bool) \<Rightarrow> forward_row list \<Rightarrow> (WinError + unit) \<times> forward_row list" where
  "remove_owned_routes w selected table =
     (if rw_read_removed w \<noteq> ERROR_SUCCESS then (Inl (win32_error ''read the Windows IPv4 route table''), table)
      else
        (let chosen = (\<lambda>row. is_owned row \<and> selected (owned_route row)) in
         (if list_ex (\<lambda>row. chosen row \<and> \<not> is_deleted (rw_delete w row)) table
          then Inl (win32_error ''remove a MouseVPN route'') else Inr (),
          filter (\<lambda>row. \<not> (chosen row \<and> is_deleted (rw_delete w row))) table)))"

definition add_route ::
  "route_world \<Rightarrow> nat \<Rightarrow> ipv4 \<Rightarrow> nat \<Rightarrow> ipv4 \<Rightarrow> forward_row list \<Rightarrow> (WinError + unit) \<times> forward_row list" where
  "add_route w luid destination prefix_len next_hop table =
     (let row = \<lparr>fr_luid = luid, fr_index = 0, fr_destination = destination, fr_prefix_len = prefix_len,
                 fr_next_hop = next_hop, fr_metric = ROUTE_METRIC, fr_protocol = MIB_IPPROTO_NETMGMT\<rparr>;
          status = rw_create w table row in
      if status = ERROR_SUCCESS then
        (Inr (), table @ [row\<lparr>fr_index := (case rw_index w luid of Inr i \<Rightarrow> i | Inl _ \<Rightarrow> 0)\<rparr>])
      else if status = ERROR_OBJECT_ALREADY_EXISTS then (Inr (), table)
      else (Inl (win32_error ''add a route''), table))"

definition is_server_route :: "OwnedRoute \<Rightarrow> ipv4 \<Rightarrow> bool" where
  "is_server_route route server_ip \<longleftrightarrow> or_destination route = server_ip \<and> or_prefix_len route = 32"

definition server_route_is_stale :: "OwnedRoute list \<Rightarrow> ipv4 \<Rightarrow> nat \<Rightarrow> ipv4 \<Rightarrow> bool" where
  "server_route_is_stale routes server_ip interface_index next_hop =
     (let own = filter (\<lambda>route. is_server_route route server_ip) routes in
      length own \<noteq> 1 \<or>
      length (filter (\<lambda>route. or_interface_index route = interface_index \<and> or_next_hop route = next_hop) own) \<noteq> 1)"

fun add_missing_halves ::
  "route_world \<Rightarrow> nat \<Rightarrow> nat \<Rightarrow> OwnedRoute list \<Rightarrow> ipv4 list \<Rightarrow> forward_row list \<Rightarrow> (WinError + unit) \<times> forward_row list" where
  "add_missing_halves w tunnel tunnel_index routes [] table = (Inr (), table)"
| "add_missing_halves w tunnel tunnel_index routes (destination # halves) table =
     and_then
       (if list_ex (\<lambda>route. or_destination route = destination \<and> or_prefix_len route = 1 \<and>
          or_interface_index route = tunnel_index) routes
        then (Inr (), table)
        else add_route w tunnel destination 1 UNSPECIFIED table)
       (\<lambda>_. add_missing_halves w tunnel tunnel_index routes halves)"

definition repair_routes :: "route_world \<Rightarrow> nat \<Rightarrow> ipv4 \<Rightarrow> forward_row list \<Rightarrow> (WinError + unit) \<times> forward_row list" where
  "repair_routes w tunnel server_ip table =
     (case win_interface_index w tunnel of Inl e \<Rightarrow> (Inl e, table) | Inr tunnel_index \<Rightarrow>
     (case default_ipv4_route w (Some tunnel) table of Inl e \<Rightarrow> (Inl e, table) | Inr dflt \<Rightarrow>
     (case owned_routes w table of Inl e \<Rightarrow> (Inl e, table) | Inr routes \<Rightarrow>
       and_then
         (if server_route_is_stale routes server_ip (dr_interface_index dflt) (dr_next_hop dflt) then
            and_then (remove_owned_routes w (\<lambda>route. is_server_route route server_ip) table)
              (\<lambda>_. add_route w (dr_interface_luid dflt) server_ip 32 (dr_next_hop dflt))
          else (Inr (), table))
         (\<lambda>_. add_missing_halves w tunnel tunnel_index routes TUNNEL_HALVES))))"

text \<open>
  What is relied on of Windows: creating a route reports a duplicate only when the table has a route to the same prefix through
  the same interface and gateway, and the rows of the table carry the index of their interface.
\<close>

definition same_route :: "forward_row \<Rightarrow> forward_row \<Rightarrow> bool" where
  "same_route r row \<longleftrightarrow> fr_luid r = fr_luid row \<and> fr_destination r = fr_destination row \<and>
     fr_prefix_len r = fr_prefix_len row \<and> fr_next_hop r = fr_next_hop row"

definition reports_duplicates :: "route_world \<Rightarrow> bool" where
  "reports_duplicates w \<longleftrightarrow>
     (\<forall>table row. rw_create w table row = ERROR_OBJECT_ALREADY_EXISTS \<longrightarrow> list_ex (\<lambda>r. same_route r row) table)"

definition indexes_agree :: "route_world \<Rightarrow> forward_row list \<Rightarrow> bool" where
  "indexes_agree w table \<longleftrightarrow> list_all (\<lambda>row. rw_index w (fr_luid row) = Inr (fr_index row)) table"

text \<open>A default route through a gateway that is not the tunnel's, a route to a prefix, and the client's own route to the server.\<close>

definition physical_default :: "nat \<Rightarrow> forward_row \<Rightarrow> bool" where
  "physical_default tunnel row \<longleftrightarrow> fr_prefix_len row = 0 \<and> fr_next_hop row \<noteq> UNSPECIFIED \<and> fr_luid row \<noteq> tunnel"

definition row_to :: "ipv4 \<Rightarrow> nat \<Rightarrow> nat \<Rightarrow> forward_row \<Rightarrow> bool" where
  "row_to destination prefix_len interface_index row \<longleftrightarrow>
     fr_destination row = destination \<and> fr_prefix_len row = prefix_len \<and> fr_index row = interface_index"

definition own_server_row :: "ipv4 \<Rightarrow> forward_row \<Rightarrow> bool" where
  "own_server_row server_ip row \<longleftrightarrow> is_owned row \<and> fr_destination row = server_ip \<and> fr_prefix_len row = 32"

lemma own_server_row_iff: "own_server_row server_ip row \<longleftrightarrow> is_owned row \<and> is_server_route (owned_route row) server_ip"
  by (simp add: own_server_row_def is_server_route_def owned_route_def)

lemma best_default_cheapest:
  assumes "best_default (Some tunnel) rows best = Some (m, route)"
  shows "(best = Some (m, route) \<or> (\<exists>row \<in> set rows. physical_default tunnel row \<and> m = fr_metric row \<and>
       route = \<lparr>dr_interface_luid = fr_luid row, dr_interface_index = fr_index row, dr_next_hop = fr_next_hop row\<rparr>)) \<and>
     (\<forall>row \<in> set rows. physical_default tunnel row \<longrightarrow> m \<le> fr_metric row) \<and> (\<forall>m' r. best = Some (m', r) \<longrightarrow> m \<le> m')"
  using assms
proof (induction rows arbitrary: best)
  case (Cons row rows)
  show ?case
  proof (cases "physical_default tunnel row")
    case False
    then have "best_default (Some tunnel) rows best = Some (m, route)"
      using Cons.prems by (auto simp: physical_default_def split: if_splits)
    from Cons.IH [OF this] False show ?thesis by auto
  next
    case True
    let ?route = "\<lparr>dr_interface_luid = fr_luid row, dr_interface_index = fr_index row, dr_next_hop = fr_next_hop row\<rparr>"
    show ?thesis
    proof (cases "case best of Some (metric, _) \<Rightarrow> fr_metric row < metric | None \<Rightarrow> True")
      case better: True
      then have "best_default (Some tunnel) rows (Some (fr_metric row, ?route)) = Some (m, route)"
        using True Cons.prems by (simp add: physical_default_def)
      from Cons.IH [OF this] have "m \<le> fr_metric row" by blast
      with better Cons.IH [OF \<open>best_default _ _ (Some _) = _\<close>] True show ?thesis
        by (fastforce split: option.splits)
    next
      case worse: False
      then have "best_default (Some tunnel) rows best = Some (m, route)"
        using True Cons.prems by (simp add: physical_default_def)
      from Cons.IH [OF this] worse True show ?thesis by (fastforce split: option.splits)
    qed
  qed
qed auto

lemma default_route_cheapest:
  assumes "default_ipv4_route w (Some tunnel) table = Inr route"
  obtains gateway where "gateway \<in> set table" "physical_default tunnel gateway"
    "\<forall>row \<in> set table. physical_default tunnel row \<longrightarrow> fr_metric gateway \<le> fr_metric row"
    "route = \<lparr>dr_interface_luid = fr_luid gateway, dr_interface_index = fr_index gateway, dr_next_hop = fr_next_hop gateway\<rparr>"
proof -
  obtain m where "best_default (Some tunnel) table None = Some (m, route)"
    using assms by (auto simp: default_ipv4_route_def split: if_splits option.splits)
  from best_default_cheapest [OF this] show ?thesis using that by auto
qed

lemma add_route_ok:
  assumes "add_route w luid destination prefix_len next_hop table = (Inr x, table')" "reports_duplicates w"
    and "rw_index w luid = Inr i" "indexes_agree w table"
  obtains new row where "table' = table @ new" "new = [] \<or> new = [row]" "row \<in> set table'"
    "row_to destination prefix_len i row" "fr_next_hop row = next_hop" "indexes_agree w table'"
proof -
  let ?row = "\<lparr>fr_luid = luid, fr_index = 0, fr_destination = destination, fr_prefix_len = prefix_len,
    fr_next_hop = next_hop, fr_metric = ROUTE_METRIC, fr_protocol = MIB_IPPROTO_NETMGMT\<rparr>"
  consider "rw_create w table ?row = ERROR_SUCCESS" | "rw_create w table ?row = ERROR_OBJECT_ALREADY_EXISTS" "table' = table"
    using assms(1) by (auto simp: add_route_def Let_def split: if_splits)
  then show ?thesis
  proof cases
    case 1
    then have "table' = table @ [?row\<lparr>fr_index := i\<rparr>]" using assms(1,3) by (simp add: add_route_def)
    then show ?thesis using that [of "[?row\<lparr>fr_index := i\<rparr>]" "?row\<lparr>fr_index := i\<rparr>"] assms(3,4)
      by (simp add: row_to_def indexes_agree_def)
  next
    case 2
    then obtain r where "r \<in> set table" "same_route r ?row"
      using assms(2) by (auto simp: reports_duplicates_def list_ex_iff)
    then show ?thesis using that [of "[]" r] assms(3,4) 2(2)
      by (auto simp: row_to_def same_route_def indexes_agree_def list_all_iff)
  qed
qed

lemma add_halves:
  assumes "add_missing_halves w tunnel i routes halves table = (Inr x, table')" "reports_duplicates w"
    and "rw_index w tunnel = Inr i" "indexes_agree w table"
  shows "\<exists>new. table' = table @ new \<and> (\<forall>row \<in> set new. fr_prefix_len row = 1) \<and>
     (\<forall>h \<in> set halves. (\<exists>r \<in> set routes. or_destination r = h \<and> or_prefix_len r = 1 \<and> or_interface_index r = i) \<or>
        (\<exists>row \<in> set table'. row_to h 1 i row))"
  using assms(1,4)
proof (induction halves arbitrary: table)
  case (Cons h halves)
  let ?here = "\<lambda>r. or_destination r = h \<and> or_prefix_len r = 1 \<and> or_interface_index r = i"
  obtain y table1 where step: "(if list_ex ?here routes then (Inr (), table) else add_route w tunnel h 1 UNSPECIFIED table) = (Inr y, table1)"
    and rest: "add_missing_halves w tunnel i routes halves table1 = (Inr x, table')"
    using Cons.prems(1) by (auto simp: and_then_def split: prod.splits sum.splits)
  have "\<exists>new. table1 = table @ new \<and> (\<forall>row \<in> set new. fr_prefix_len row = 1) \<and> indexes_agree w table1 \<and>
      ((\<exists>r \<in> set routes. ?here r) \<or> (\<exists>row \<in> set table1. row_to h 1 i row))"
  proof (cases "list_ex ?here routes")
    case True
    then show ?thesis using step Cons.prems(2) by (auto simp: list_ex_iff)
  next
    case False
    then have "add_route w tunnel h 1 UNSPECIFIED table = (Inr y, table1)" using step by (simp only: if_False)
    from add_route_ok [OF this assms(2,3) Cons.prems(2)] show ?thesis
      by (metis empty_iff row_to_def list.set(1) set_ConsD)
  qed
  then obtain new1 where new1: "table1 = table @ new1" "\<forall>row \<in> set new1. fr_prefix_len row = 1" "indexes_agree w table1"
    "(\<exists>r \<in> set routes. ?here r) \<or> (\<exists>row \<in> set table1. row_to h 1 i row)" by blast
  obtain new2 where "table' = table1 @ new2" "\<forall>row \<in> set new2. fr_prefix_len row = 1"
    "\<forall>h \<in> set halves. (\<exists>r \<in> set routes. or_destination r = h \<and> or_prefix_len r = 1 \<and> or_interface_index r = i) \<or>
        (\<exists>row \<in> set table'. row_to h 1 i row)"
    using Cons.IH [OF rest new1(3)] by blast
  with new1 show ?case by (intro exI [of _ "new1 @ new2"]) auto
qed simp

lemma filter_single: "filter P xs = [x] \<Longrightarrow> x \<in> set xs \<and> P x \<and> (\<forall>y \<in> set xs. P y \<longrightarrow> y = x)"
  by (induction xs) (auto simp: filter_empty_conv split: if_splits)

lemma fresh_server_row:
  assumes "\<not> server_route_is_stale (map owned_route (filter is_owned table)) server_ip i next_hop"
  shows "\<exists>row. filter (own_server_row server_ip) table = [row] \<and> row_to server_ip 32 i row \<and> fr_next_hop row = next_hop"
proof -
  have "filter (\<lambda>route. is_server_route route server_ip) (map owned_route (filter is_owned table)) =
      map owned_route (filter (own_server_row server_ip) table)"
    by (simp add: filter_map comp_def own_server_row_iff [abs_def])
  then obtain row where row: "filter (own_server_row server_ip) table = [row]"
    and at: "or_interface_index (owned_route row) = i" "or_next_hop (owned_route row) = next_hop"
    using assms by (auto simp: server_route_is_stale_def Let_def length_Suc_conv split: if_splits)
  from filter_single [OF row] at show ?thesis using row by (auto simp: own_server_row_def row_to_def owned_route_def)
qed

lemma half_kept:
  assumes "r \<in> set (map owned_route (filter is_owned table))" "or_destination r = h" "or_prefix_len r = 1" "or_interface_index r = i"
    and "filter (\<lambda>row. \<not> own_server_row server_ip row) table1 = filter (\<lambda>row. \<not> own_server_row server_ip row) table @ new"
  shows "\<exists>row \<in> set table1. row_to h 1 i row"
proof -
  obtain row where row: "row \<in> set table" "row_to h 1 i row" using assms(1-4) by (auto simp: owned_route_def row_to_def)
  then have "row \<in> set (filter (\<lambda>row. \<not> own_server_row server_ip row) table)" by (simp add: own_server_row_def row_to_def)
  then have "row \<in> set (filter (\<lambda>row. \<not> own_server_row server_ip row) table1)" by (simp only: assms(5) set_append Un_iff simp_thms)
  with row(2) show ?thesis by auto
qed

text \<open>What the first step of a repair leaves: the route to the server, and the other rows as they were.\<close>

definition server_row_set :: "ipv4 \<Rightarrow> nat \<Rightarrow> ipv4 \<Rightarrow> forward_row list \<Rightarrow> bool" where
  "server_row_set server_ip i next_hop table \<longleftrightarrow>
     (\<exists>row \<in> set table. row_to server_ip 32 i row \<and> fr_next_hop row = next_hop) \<and>
     length (filter (own_server_row server_ip) table) \<le> 1 \<and>
     (\<forall>row \<in> set table. own_server_row server_ip row \<longrightarrow> fr_index row = i \<and> fr_next_hop row = next_hop)"

lemma server_row_replaced:
  assumes "and_then (remove_owned_routes w (\<lambda>route. is_server_route route server_ip) table)
      (\<lambda>_. add_route w luid server_ip 32 next_hop) = (Inr x, table1)"
    and "reports_duplicates w" "rw_index w luid = Inr i" "indexes_agree w table"
  shows "server_row_set server_ip i next_hop table1 \<and> indexes_agree w table1 \<and>
    (\<exists>new. filter (\<lambda>row. \<not> own_server_row server_ip row) table1 = filter (\<lambda>row. \<not> own_server_row server_ip row) table @ new)"
proof -
  let ?kept = "filter (\<lambda>row. \<not> own_server_row server_ip row) table"
  obtain y table0 where removed: "remove_owned_routes w (\<lambda>route. is_server_route route server_ip) table = (Inr y, table0)"
    and added: "add_route w luid server_ip 32 next_hop table0 = (Inr x, table1)"
    using assms(1) by (auto simp: and_then_def split: prod.splits sum.splits)
  from removed have "\<forall>row \<in> set table. own_server_row server_ip row \<longrightarrow> is_deleted (rw_delete w row)"
    and "table0 = filter (\<lambda>row. \<not> (own_server_row server_ip row \<and> is_deleted (rw_delete w row))) table"
    by (auto simp: remove_owned_routes_def Let_def list_ex_iff own_server_row_iff split: if_splits intro!: filter_cong)
  then have table0: "table0 = ?kept" by (auto intro: filter_cong)
  then have agree: "indexes_agree w table0" using assms(4) by (simp add: indexes_agree_def list_all_iff)
  from add_route_ok [OF added assms(2,3) agree] obtain new row where new: "table1 = ?kept @ new" "new = [] \<or> new = [row]"
    "row \<in> set table1" "row_to server_ip 32 i row" "fr_next_hop row = next_hop" "indexes_agree w table1"
    unfolding table0 by metis
  then show ?thesis by (auto simp: server_row_set_def row_to_def)
qed

lemma server_row_ensured:
  assumes "(if server_route_is_stale (map owned_route (filter is_owned table)) server_ip i next_hop then
          and_then (remove_owned_routes w (\<lambda>route. is_server_route route server_ip) table) (\<lambda>_. add_route w luid server_ip 32 next_hop)
        else (Inr (), table)) = (Inr x, table1)"
    and "reports_duplicates w" "rw_index w luid = Inr i" "indexes_agree w table"
  shows "server_row_set server_ip i next_hop table1 \<and> indexes_agree w table1 \<and>
    (\<exists>new. filter (\<lambda>row. \<not> own_server_row server_ip row) table1 = filter (\<lambda>row. \<not> own_server_row server_ip row) table @ new)"
proof (cases "server_route_is_stale (map owned_route (filter is_owned table)) server_ip i next_hop")
  case True
  then show ?thesis using assms(1) server_row_replaced [OF _ assms(2-4)] by simp
next
  case False
  then have "table1 = table" using assms(1) by simp
  moreover obtain row where row: "filter (own_server_row server_ip) table = [row]" "row_to server_ip 32 i row"
    "fr_next_hop row = next_hop" using fresh_server_row [OF False] by blast
  moreover from filter_single [OF row(1)]
  have "row \<in> set table" "\<forall>r \<in> set table. own_server_row server_ip r \<longrightarrow> r = row" by auto
  ultimately show ?thesis using assms(4) by (auto simp: server_row_set_def row_to_def intro!: bexI [of _ row])
qed

text \<open>
  C34. A repair that reports success has worked, whatever roaming or another VPN did to the table. The table has a route to the
  server's address through the interface and gateway of the cheapest physical default route; the client has at most one route
  of its own to the server, and that one leads there too (it has none when Windows reports that somebody else's identical route
  is there already); both halves of the address space lead into the tunnel; and every other row is still there.
\<close>

theorem repaired_routes_follow_the_gateway:
  assumes "repair_routes w tunnel server_ip table = (Inr (), table')"
    and "reports_duplicates w" "indexes_agree w table"
  shows "\<exists>gateway \<in> set table. physical_default tunnel gateway \<and>
    (\<forall>row \<in> set table. physical_default tunnel row \<longrightarrow> fr_metric gateway \<le> fr_metric row) \<and>
    (\<exists>row \<in> set table'. row_to server_ip 32 (fr_index gateway) row \<and> fr_next_hop row = fr_next_hop gateway) \<and>
    length (filter (own_server_row server_ip) table') \<le> 1 \<and>
    (\<forall>row \<in> set table'. own_server_row server_ip row \<longrightarrow> fr_index row = fr_index gateway \<and> fr_next_hop row = fr_next_hop gateway) \<and>
    (\<exists>i. rw_index w tunnel = Inr i \<and> (\<forall>h \<in> set TUNNEL_HALVES. \<exists>row \<in> set table'. row_to h 1 i row)) \<and>
    (\<exists>new. filter (\<lambda>row. \<not> own_server_row server_ip row) table' = filter (\<lambda>row. \<not> own_server_row server_ip row) table @ new)"
proof -
  let ?rest = "filter (\<lambda>row. \<not> own_server_row server_ip row)"
  let ?routes = "map owned_route (filter is_owned table)"
  obtain i dflt x table1 where i: "rw_index w tunnel = Inr i" and dflt: "default_ipv4_route w (Some tunnel) table = Inr dflt"
    and first: "(if server_route_is_stale ?routes server_ip (dr_interface_index dflt) (dr_next_hop dflt) then
          and_then (remove_owned_routes w (\<lambda>route. is_server_route route server_ip) table)
            (\<lambda>_. add_route w (dr_interface_luid dflt) server_ip 32 (dr_next_hop dflt))
        else (Inr (), table)) = (Inr x, table1)"
    and halves: "add_missing_halves w tunnel i ?routes TUNNEL_HALVES table1 = (Inr (), table')"
    using assms(1)
    by (auto simp: repair_routes_def win_interface_index_def owned_routes_def and_then_def [of "if _ then _ else _"]
        split: sum.splits prod.splits if_splits)
  from dflt obtain g where g: "g \<in> set table" "physical_default tunnel g"
    "\<forall>row \<in> set table. physical_default tunnel row \<longrightarrow> fr_metric g \<le> fr_metric row"
    and dflt_eq: "dflt = \<lparr>dr_interface_luid = fr_luid g, dr_interface_index = fr_index g, dr_next_hop = fr_next_hop g\<rparr>"
    by (rule default_route_cheapest)
  have g_index: "rw_index w (fr_luid g) = Inr (fr_index g)" using g(1) assms(3) by (simp add: indexes_agree_def list_all_iff)
  from server_row_ensured [OF first [unfolded dflt_eq DefaultRoute.simps] assms(2) g_index assms(3)]
  obtain new1 where server: "server_row_set server_ip (fr_index g) (fr_next_hop g) table1" and agree: "indexes_agree w table1"
    and new1: "?rest table1 = ?rest table @ new1" by blast
  obtain new2 where new2: "table' = table1 @ new2" "\<forall>row \<in> set new2. fr_prefix_len row = 1"
    "\<forall>h \<in> set TUNNEL_HALVES. (\<exists>r \<in> set ?routes. or_destination r = h \<and> or_prefix_len r = 1 \<and> or_interface_index r = i) \<or>
       (\<exists>row \<in> set table'. row_to h 1 i row)"
    using add_halves [OF halves assms(2) i agree] by blast
  have later: "\<not> own_server_row server_ip row" if "row \<in> set new2" for row using that new2(2) by (auto simp: own_server_row_def)
  have "\<exists>row \<in> set table'. row_to h 1 i row" if h: "h \<in> set TUNNEL_HALVES" for h
  proof (cases "\<exists>row \<in> set table'. row_to h 1 i row")
    case False
    with new2(3) h obtain r where "r \<in> set ?routes" "or_destination r = h" "or_prefix_len r = 1" "or_interface_index r = i"
      by blast
    from half_kept [OF this new1] show ?thesis using new2(1) by auto
  qed
  with g i server new1 show ?thesis using later new2(1) by (intro bexI [of _ g]) (auto simp: server_row_set_def)
qed

definition sample_windows :: route_world where
  "sample_windows = \<lparr>rw_index = (\<lambda>luid. Inr (luid div 10)), rw_read_default = 0, rw_read_owned = 0, rw_read_removed = 0,
     rw_delete = (\<lambda>_. 0),
     rw_create = (\<lambda>table row. if list_ex (\<lambda>r. same_route r row) table then ERROR_OBJECT_ALREADY_EXISTS else 0)\<rparr>"

definition sample_row :: "nat \<Rightarrow> ipv4 \<Rightarrow> nat \<Rightarrow> ipv4 \<Rightarrow> nat \<Rightarrow> forward_row" where
  "sample_row i destination prefix_len next_hop metric = \<lparr>fr_luid = 10 * i, fr_index = i, fr_destination = destination,
     fr_prefix_len = prefix_len, fr_next_hop = next_hop, fr_metric = metric, fr_protocol = MIB_IPPROTO_NETMGMT\<rparr>"

definition sample_forward_table :: "forward_row list" where
  "sample_forward_table =
     [sample_row 2 UNSPECIFIED 0 (Ipv4Addr 10 0 0 1) 50,
      sample_row 3 UNSPECIFIED 0 (Ipv4Addr 192 168 1 1) 25,
      sample_row 9 UNSPECIFIED 0 (Ipv4Addr 10 8 0 1) 1,
      sample_row 2 (Ipv4Addr 203 0 113 5) 32 (Ipv4Addr 10 0 0 1) ROUTE_METRIC,
      sample_row 9 (Ipv4Addr 128 0 0 0) 1 UNSPECIFIED ROUTE_METRIC]"

theorem repaired_routes_follow_the_gateway_witness:
  "let table = snd (repair_routes sample_windows 90 (Ipv4Addr 203 0 113 5) sample_forward_table) in
   (\<exists>row \<in> set table. row_to (Ipv4Addr 203 0 113 5) 32 3 row \<and> fr_next_hop row = Ipv4Addr 192 168 1 1) \<and>
   length (filter (own_server_row (Ipv4Addr 203 0 113 5)) table) \<le> 1 \<and> (\<exists>row \<in> set table. row_to UNSPECIFIED 1 9 row)"
proof -
  let ?server = "Ipv4Addr 203 0 113 5"
  let ?table = "snd (repair_routes sample_windows 90 ?server sample_forward_table)"
  have "fst (repair_routes sample_windows 90 ?server sample_forward_table) = Inr ()" by code_simp
  then have run: "repair_routes sample_windows 90 ?server sample_forward_table = (Inr (), ?table)" by (metis prod.collapse)
  have dup: "reports_duplicates sample_windows" by (simp add: reports_duplicates_def sample_windows_def ERROR_OBJECT_ALREADY_EXISTS_def)
  have agree: "indexes_agree sample_windows sample_forward_table" by code_simp
  obtain g where g: "g \<in> set sample_forward_table" "physical_default 90 g"
      "\<forall>row \<in> set sample_forward_table. physical_default 90 row \<longrightarrow> fr_metric g \<le> fr_metric row"
    and at: "\<exists>row \<in> set ?table. row_to ?server 32 (fr_index g) row \<and> fr_next_hop row = fr_next_hop g"
      "length (filter (own_server_row ?server) ?table) \<le> 1"
      "\<exists>i. rw_index sample_windows 90 = Inr i \<and> (\<forall>h \<in> set TUNNEL_HALVES. \<exists>row \<in> set ?table. row_to h 1 i row)"
    using repaired_routes_follow_the_gateway [OF run dup agree] by blast
  from g have "fr_index g = 3 \<and> fr_next_hop g = Ipv4Addr 192 168 1 1"
    by (auto simp: sample_forward_table_def sample_row_def physical_default_def)
  with at show ?thesis by (simp add: Let_def TUNNEL_HALVES_def sample_windows_def)
qed

end
