(* ===== verification/LinuxRoutes.thy ===== *)
theory LinuxRoutes
  imports LinuxClient
begin

text \<open>
  The routes of the Linux client, \<^verbatim>\<open>linux-platform/routes.rs\<close>: choosing the server's route, installing the routes of the full
  tunnel, following a change of the gateway, and removing the routes with the guard. The kernel's table is a list; adding
  and deleting a route take the kernel's answer as an argument.
\<close>

section \<open>Routes\<close>

record Route =
  ro_destination :: IpAddr
  ro_prefix :: nat
  ro_gateway :: "IpAddr option"
  ro_if_index :: "nat option"
  ro_if_name :: "string option"
  ro_metric :: "u32 option"

definition Route_new :: "IpAddr \<Rightarrow> nat \<Rightarrow> Route" where
  "Route_new destination prefix =
     \<lparr>ro_destination = destination, ro_prefix = prefix, ro_gateway = None, ro_if_index = None, ro_if_name = None, ro_metric = None\<rparr>"

definition SERVER_ROUTE_METRIC :: u32 where "SERVER_ROUTE_METRIC = 4242"

abbreviation unspecified :: IpAddr where "unspecified \<equiv> V4 (Ipv4Addr 0 0 0 0)"
abbreviation upper_half :: IpAddr where "upper_half \<equiv> V4 (Ipv4Addr 128 0 0 0)"

definition has_full_tunnel :: "Route list \<Rightarrow> bool" where
  "has_full_tunnel routes =
     list_ex (\<lambda>route. ro_prefix route = 1 \<and> (ro_destination route = unspecified \<or> ro_destination route = upper_half)) routes"

definition reject_full_tunnel :: "Route list \<Rightarrow> io_error + unit" where
  "reject_full_tunnel routes = (if has_full_tunnel routes then Inl (io_error_new AlreadyExists) else Inr ())"

definition route_cost :: "Route \<Rightarrow> u32" where
  "route_cost route = (case ro_metric route of None \<Rightarrow> - 1 | Some metric \<Rightarrow> metric)"

text \<open>\<^verbatim>\<open>min_by_key\<close>: the first of the cheapest.\<close>

fun cheapest :: "Route list \<Rightarrow> Route option" where
  "cheapest [] = None"
| "cheapest (route # routes) =
     (case cheapest routes of
        None \<Rightarrow> Some route
      | Some other \<Rightarrow> if route_cost route \<le> route_cost other then Some route else Some other)"

definition server_route :: "ipv4 \<Rightarrow> Route list \<Rightarrow> io_error + Route" where
  "server_route server routes =
     (case cheapest (filter (\<lambda>route. ro_destination route = unspecified \<and> ro_prefix route = 0) routes) of
        None \<Rightarrow> Inl (io_error_new NotFound)
      | Some best \<Rightarrow>
          let route = (Route_new (V4 server) 32)\<lparr>ro_metric := Some SERVER_ROUTE_METRIC, ro_gateway := ro_gateway best\<rparr> in
          Inr (case ro_if_index best of
                 Some index \<Rightarrow> route\<lparr>ro_if_index := Some index\<rparr>
               | None \<Rightarrow> route\<lparr>ro_if_name := ro_if_name best\<rparr>))"

definition is_owned_server_route :: "Route \<Rightarrow> ipv4 \<Rightarrow> bool" where
  "is_owned_server_route route server \<longleftrightarrow>
     ro_destination route = V4 server \<and> ro_prefix route = 32 \<and> ro_metric route = Some SERVER_ROUTE_METRIC"

definition same_server_path :: "Route \<Rightarrow> Route \<Rightarrow> bool" where
  "same_server_path l r \<longleftrightarrow>
     ro_destination l = ro_destination r \<and> ro_prefix l = ro_prefix r \<and> ro_gateway l = ro_gateway r \<and>
     (case (ro_if_index l, ro_if_index r) of
        (Some i, Some j) \<Rightarrow> i = j
      | (None, None) \<Rightarrow> ro_if_name l = ro_if_name r
      | _ \<Rightarrow> ro_if_name l \<noteq> None \<and> ro_if_name l = ro_if_name r) \<and>
     ro_metric l = ro_metric r"

section \<open>The guard\<close>

record RouteGuard =
  rg_kernel :: "Route list"
  rg_server_ip :: ipv4
  rg_server_route :: "Route option"
  rg_tunnel_routes :: "Route list"

definition manager_add :: "io_error option \<Rightarrow> Route \<Rightarrow> RouteGuard \<Rightarrow> (io_error + unit) \<times> RouteGuard" where
  "manager_add answer route g =
     (case answer of Some e \<Rightarrow> (Inl e, g) | None \<Rightarrow> (Inr (), g\<lparr>rg_kernel := rg_kernel g @ [route]\<rparr>))"

definition manager_delete :: "io_error option \<Rightarrow> Route \<Rightarrow> RouteGuard \<Rightarrow> (io_error + unit) \<times> RouteGuard" where
  "manager_delete answer route g =
     (case answer of
        Some e \<Rightarrow> (Inl e, g)
      | None \<Rightarrow> (Inr (), g\<lparr>rg_kernel := filter (\<lambda>r. \<not> same_server_path r route) (rg_kernel g)\<rparr>))"

definition add_tunnel_route :: "io_error option \<Rightarrow> Route \<Rightarrow> RouteGuard \<Rightarrow> (io_error + unit) \<times> RouteGuard" where
  "add_tunnel_route answer route g =
     and_then (manager_add answer route g) (\<lambda>_ g. (Inr (), g\<lparr>rg_tunnel_routes := rg_tunnel_routes g @ [route]\<rparr>))"

text \<open>The guard is dropped with the routes in reverse order; what the kernel refuses to delete stays.\<close>

definition RouteGuard_drop :: "(Route \<Rightarrow> io_error option) \<Rightarrow> RouteGuard \<Rightarrow> RouteGuard" where
  "RouteGuard_drop answer g =
     foldl (\<lambda>g route. snd (manager_delete (answer route) route g)) g
       (rev (rg_tunnel_routes g) @ (case rg_server_route g of None \<Rightarrow> [] | Some route \<Rightarrow> [route]))"

record install_answers =
  ia_list :: "io_error option"
  ia_server :: "io_error option"
  ia_first :: "io_error option"
  ia_second :: "io_error option"
  ia_drop :: "Route \<Rightarrow> io_error option"

text \<open>A guard whose installation fails is dropped at once.\<close>

definition RouteGuard_install ::
  "install_answers \<Rightarrow> ipv4 \<Rightarrow> string \<Rightarrow> Route list \<Rightarrow> (io_error + unit) \<times> RouteGuard" where
  "RouteGuard_install w server device_name  table =
     (let g = \<lparr>rg_kernel = table, rg_server_ip = server, rg_server_route = None, rg_tunnel_routes = []\<rparr> in
      case ia_list w of
        Some e \<Rightarrow> (Inl e, g)
      | None \<Rightarrow>
          (case bind_r (reject_full_tunnel table) (\<lambda>_. server_route server table) of
             Inl e \<Rightarrow> (Inl e, g)
           | Inr route \<Rightarrow>
               let (r, g1) =
                 and_then (manager_add (ia_server w) route g) (\<lambda>_ g.
                 and_then (add_tunnel_route (ia_first w) ((Route_new unspecified 1)\<lparr>ro_if_name := Some device_name\<rparr>)
                     (g\<lparr>rg_server_route := Some route\<rparr>)) (\<lambda>_.
                   add_tunnel_route (ia_second w) ((Route_new upper_half 1)\<lparr>ro_if_name := Some device_name\<rparr>)))
               in (r, case r of Inr _ \<Rightarrow> g1 | Inl _ \<Rightarrow> RouteGuard_drop (ia_drop w) g1)))"

record refresh_answers =
  ra_list :: "io_error option"
  ra_delete :: "io_error option"
  ra_add :: "io_error option"
  ra_add_back :: "io_error option"

definition refresh_server_route :: "refresh_answers \<Rightarrow> RouteGuard \<Rightarrow> (io_error + unit) \<times> RouteGuard" where
  "refresh_server_route w g =
     (case ra_list w of
        Some e \<Rightarrow> (Inl e, g)
      | None \<Rightarrow>
          (case server_route (rg_server_ip g) (rg_kernel g) of
             Inl e \<Rightarrow> (Inl e, g)
           | Inr replacement \<Rightarrow>
               if list_ex (\<lambda>route. same_server_path route replacement) (rg_kernel g)
               then (Inr (), g\<lparr>rg_server_route := Some replacement\<rparr>)
               else
                 let previous = rg_server_route g; g0 = g\<lparr>rg_server_route := None\<rparr> in
                 and_then
                   (case previous of
                      Some route \<Rightarrow>
                        if list_ex (\<lambda>r. same_server_path r route) (rg_kernel g) then manager_delete (ra_delete w) route g0
                        else (Inr (), g0)
                    | None \<Rightarrow> (Inr (), g0))
                   (\<lambda>_ g1.
                      case manager_add (ra_add w) replacement g1 of
                        (Inr _, g2) \<Rightarrow> (Inr (), g2\<lparr>rg_server_route := Some replacement\<rparr>)
                      | (Inl e, g2) \<Rightarrow>
                          (Inl e,
                           case previous of
                             None \<Rightarrow> g2
                           | Some route \<Rightarrow>
                               (case manager_add (ra_add_back w) route g2 of
                                  (Inr _, g3) \<Rightarrow> g3\<lparr>rg_server_route := Some route\<rparr>
                                | (Inl _, g3) \<Rightarrow> g3)))))"

section \<open>What the guard keeps\<close>

lemma same_server_path_refl [simp]: "same_server_path r r"
  by (simp add: same_server_path_def split: option.split)

lemma server_route_owned: "server_route server routes = Inr route \<Longrightarrow> is_owned_server_route route server"
  by (auto simp: server_route_def is_owned_server_route_def Route_new_def Let_def split: option.splits)

lemma cheapest_None: "cheapest routes = None \<longleftrightarrow> routes = []"
  by (cases routes) (simp_all split: option.split)

lemma cheapest_default:
  "cheapest routes = Some route \<Longrightarrow> route \<in> set routes \<and> (\<forall>r \<in> set routes. route_cost route \<le> route_cost r)"
proof (induction routes arbitrary: route)
  case (Cons a routes)
  show ?case
  proof (cases "cheapest routes")
    case None
    then show ?thesis using Cons.prems cheapest_None [of routes] by simp
  next
    case (Some other)
    then show ?thesis using Cons.IH [OF Some] Cons.prems by (auto split: if_splits)
  qed
qed simp

definition is_default :: "Route \<Rightarrow> bool" where
  "is_default route \<longleftrightarrow> ro_destination route = unspecified \<and> ro_prefix route = 0"

text \<open>A route to the server that leaves through the gateway and the interface of \<open>best\<close>.\<close>

definition reaches_through :: "ipv4 \<Rightarrow> Route \<Rightarrow> Route \<Rightarrow> bool" where
  "reaches_through server best route \<longleftrightarrow>
     is_owned_server_route route server \<and> ro_gateway route = ro_gateway best \<and>
     (case ro_if_index best of
        Some i \<Rightarrow> ro_if_index route = Some i
      | None \<Rightarrow> ro_if_name route = ro_if_name best)"

lemma server_route_cheapest:
  assumes "server_route server routes = Inr route"
  obtains best where "best \<in> set routes" "is_default best" "\<forall>r \<in> set routes. is_default r \<longrightarrow> route_cost best \<le> route_cost r"
    "reaches_through server best route" "\<And>r. same_server_path r route \<Longrightarrow> reaches_through server best r"
proof -
  obtain best where best: "cheapest (filter is_default routes) = Some best"
    and route: "route = (let route = (Route_new (V4 server) 32)\<lparr>ro_metric := Some SERVER_ROUTE_METRIC, ro_gateway := ro_gateway best\<rparr> in
          case ro_if_index best of Some index \<Rightarrow> route\<lparr>ro_if_index := Some index\<rparr> | None \<Rightarrow> route\<lparr>ro_if_name := ro_if_name best\<rparr>)"
    using assms by (auto simp: server_route_def is_default_def [abs_def] Let_def split: option.splits)
  have "reaches_through server best route"
    by (simp add: route Let_def reaches_through_def is_owned_server_route_def Route_new_def split: option.split)
  moreover have "reaches_through server best r" if "same_server_path r route" for r
    using that by (auto simp: route Let_def same_server_path_def reaches_through_def is_owned_server_route_def Route_new_def
        split: option.splits)
  ultimately show ?thesis using cheapest_default [OF best] that by auto
qed

lemma server_route_missing: "server_route server routes = Inl e \<Longrightarrow> \<not> list_ex is_default routes"
  by (auto simp: server_route_def cheapest_None is_default_def [abs_def] filter_empty_conv list_ex_iff Let_def split: option.splits)

text \<open>The ways a refresh can end once the table is read and has a default route.\<close>

lemma refresh_cases:
  assumes "refresh_server_route w g = (r, g')" "ra_list w = None" "server_route (rg_server_ip g) (rg_kernel g) = Inr replacement"
  obtains
    (there) route where "r = Inr ()" "g' = g\<lparr>rg_server_route := Some replacement\<rparr>" "route \<in> set (rg_kernel g')" "same_server_path route replacement"
  | (added) kernel' where "r = Inr ()" "g' = g\<lparr>rg_kernel := kernel' @ [replacement], rg_server_route := Some replacement\<rparr>"
      "\<forall>route \<in> set (rg_kernel g). (\<forall>p. rg_server_route g = Some p \<longrightarrow> \<not> same_server_path route p) \<longrightarrow> route \<in> set kernel'"
  | (not_deleted) e where "r = Inl e" "ra_delete w = Some e" "g' = g\<lparr>rg_server_route := None\<rparr>"
  | (not_added) e kernel' where "r = Inl e" "ra_add w = Some e"
      "\<forall>route \<in> set (rg_kernel g). (\<forall>p. rg_server_route g = Some p \<longrightarrow> \<not> same_server_path route p) \<longrightarrow> route \<in> set kernel'"
      "g' = (case rg_server_route g of
          Some route \<Rightarrow> if ra_add_back w = None then g\<lparr>rg_kernel := kernel' @ [route]\<rparr> else g\<lparr>rg_kernel := kernel', rg_server_route := None\<rparr>
        | None \<Rightarrow> g\<lparr>rg_kernel := kernel'\<rparr>)"
proof (cases "list_ex (\<lambda>route. same_server_path route replacement) (rg_kernel g)")
  case True
  then show ?thesis using assms there by (auto simp: refresh_server_route_def list_ex_iff)
next
  case False
  define g0 where "g0 = g\<lparr>rg_server_route := None\<rparr>"
  define cleared where "cleared = (case rg_server_route g of
      Some route \<Rightarrow> if list_ex (\<lambda>r. same_server_path r route) (rg_kernel g) then manager_delete (ra_delete w) route g0 else (Inr (), g0)
    | None \<Rightarrow> (Inr (), g0))"
  have run: "(r, g') = and_then cleared (\<lambda>_ g1. case manager_add (ra_add w) replacement g1 of
        (Inr _, g2) \<Rightarrow> (Inr (), g2\<lparr>rg_server_route := Some replacement\<rparr>)
      | (Inl e, g2) \<Rightarrow> (Inl e, case rg_server_route g of None \<Rightarrow> g2
          | Some route \<Rightarrow> (case manager_add (ra_add_back w) route g2 of (Inr _, g3) \<Rightarrow> g3\<lparr>rg_server_route := Some route\<rparr> | (Inl _, g3) \<Rightarrow> g3)))"
    using assms False unfolding cleared_def g0_def by (simp add: refresh_server_route_def Let_def)
  have "(\<exists>e. cleared = (Inl e, g0) \<and> ra_delete w = Some e) \<or> (\<exists>kernel'. cleared = (Inr (), g0\<lparr>rg_kernel := kernel'\<rparr>) \<and>
      (\<forall>route \<in> set (rg_kernel g). (\<forall>p. rg_server_route g = Some p \<longrightarrow> \<not> same_server_path route p) \<longrightarrow> route \<in> set kernel'))"
    by (auto simp: cleared_def g0_def manager_delete_def split: option.split intro: exI [of _ "rg_kernel g"])
  then show ?thesis
  proof (elim disjE exE conjE)
    fix e
    assume "cleared = (Inl e, g0)" "ra_delete w = Some e"
    then show ?thesis using not_deleted run by (simp add: and_then_def g0_def)
  next
    fix kernel'
    assume "cleared = (Inr (), g0\<lparr>rg_kernel := kernel'\<rparr>)"
      and kept: "\<forall>route \<in> set (rg_kernel g). (\<forall>p. rg_server_route g = Some p \<longrightarrow> \<not> same_server_path route p) \<longrightarrow> route \<in> set kernel'"
    then have "(r, g') = (case manager_add (ra_add w) replacement (g0\<lparr>rg_kernel := kernel'\<rparr>) of
        (Inr _, g2) \<Rightarrow> (Inr (), g2\<lparr>rg_server_route := Some replacement\<rparr>)
      | (Inl e, g2) \<Rightarrow> (Inl e, case rg_server_route g of None \<Rightarrow> g2
          | Some route \<Rightarrow> (case manager_add (ra_add_back w) route g2 of (Inr _, g3) \<Rightarrow> g3\<lparr>rg_server_route := Some route\<rparr> | (Inl _, g3) \<Rightarrow> g3)))"
      using run by (simp add: and_then_def)
    with kept show ?thesis using added not_added
      by (cases "ra_add w"; cases "ra_add_back w"; cases "rg_server_route g") (simp_all add: manager_add_def g0_def)
  qed
qed

text \<open>
  C35. The server stays reachable outside the tunnel. When a refresh succeeds, the kernel has the client's route to the server
  through the gateway and interface of a cheapest default route of the table, and the guard remembers a route of that kind.
  When it fails, either nothing has changed, because the table could not be read or has no default route; or the kernel
  refused to delete the old route, which stays in the table and is no longer remembered; or it refused the new one, and
  then the old one is there again and remembered when the kernel takes it back, and is not remembered otherwise. In every case the
  routes of the tunnel, and all rows but those of the old server route, stay.
\<close>

theorem refreshed_server_route_is_installed:
  assumes "refresh_server_route w g = (r, g')"
  shows "rg_tunnel_routes g' = rg_tunnel_routes g \<and>
    (\<forall>route \<in> set (rg_kernel g). (\<forall>p. rg_server_route g = Some p \<longrightarrow> \<not> same_server_path route p) \<longrightarrow> route \<in> set (rg_kernel g')) \<and>
    (case r of
       Inr _ \<Rightarrow> \<exists>best \<in> set (rg_kernel g). is_default best \<and>
         (\<forall>other \<in> set (rg_kernel g). is_default other \<longrightarrow> route_cost best \<le> route_cost other) \<and>
         (\<exists>route \<in> set (rg_kernel g'). reaches_through (rg_server_ip g) best route) \<and>
         (\<exists>kept. rg_server_route g' = Some kept \<and> reaches_through (rg_server_ip g) best kept)
     | Inl e \<Rightarrow>
         g' = g \<and> (ra_list w = Some e \<or> \<not> list_ex is_default (rg_kernel g)) \<or>
         ra_delete w = Some e \<and> g' = g\<lparr>rg_server_route := None\<rparr> \<or>
         ra_add w = Some e \<and>
           (case rg_server_route g of
              Some old \<Rightarrow> if ra_add_back w = None then rg_server_route g' = Some old \<and> old \<in> set (rg_kernel g') else rg_server_route g' = None
            | None \<Rightarrow> rg_server_route g' = None))"
proof (cases "ra_list w")
  case None
  show ?thesis
  proof (cases "server_route (rg_server_ip g) (rg_kernel g)")
    case (Inl e)
    moreover from this have "\<not> list_ex is_default (rg_kernel g)" by (simp add: server_route_missing)
    ultimately show ?thesis using assms None by (auto simp: refresh_server_route_def)
  next
    case (Inr replacement)
    from Inr obtain best where best: "best \<in> set (rg_kernel g)" "is_default best"
        "\<forall>other \<in> set (rg_kernel g). is_default other \<longrightarrow> route_cost best \<le> route_cost other"
      and through: "reaches_through (rg_server_ip g) best replacement"
        "\<And>r. same_server_path r replacement \<Longrightarrow> reaches_through (rg_server_ip g) best r"
      by (rule server_route_cheapest) blast
    from assms None Inr show ?thesis
    proof (cases rule: refresh_cases)
      case (there route)
      then have "\<exists>route \<in> set (rg_kernel g'). reaches_through (rg_server_ip g) best route" using through(2) by blast
      then show ?thesis using best through(1) there(1,2) by auto
    next
      case added
      then show ?thesis using best through(1) by auto
    next
      case not_deleted
      then show ?thesis by simp
    next
      case (not_added e kernel')
      then show ?thesis by (cases "rg_server_route g") auto
    qed
  qed
qed (use assms in \<open>auto simp: refresh_server_route_def\<close>)

definition sample_guard :: RouteGuard where
  "sample_guard =
     \<lparr>rg_kernel =
        [(Route_new unspecified 0)\<lparr>ro_gateway := Some (V4 (Ipv4Addr 10 0 0 1)), ro_if_index := Some 2, ro_metric := Some 700\<rparr>,
         (Route_new unspecified 0)\<lparr>ro_gateway := Some (V4 (Ipv4Addr 192 168 1 1)), ro_if_index := Some 3, ro_metric := Some 600\<rparr>,
         (Route_new (V4 (Ipv4Addr 203 0 113 5)) 32)\<lparr>ro_gateway := Some (V4 (Ipv4Addr 10 0 0 1)), ro_if_index := Some 2,
           ro_metric := Some SERVER_ROUTE_METRIC\<rparr>],
      rg_server_ip = Ipv4Addr 203 0 113 5,
      rg_server_route = Some ((Route_new (V4 (Ipv4Addr 203 0 113 5)) 32)\<lparr>ro_gateway := Some (V4 (Ipv4Addr 10 0 0 1)),
        ro_if_index := Some 2, ro_metric := Some SERVER_ROUTE_METRIC\<rparr>),
      rg_tunnel_routes = []\<rparr>"

theorem refreshed_server_route_is_installed_witness:
  "\<exists>route \<in> set (rg_kernel (snd (refresh_server_route \<lparr>ra_list = None, ra_delete = None, ra_add = None, ra_add_back = None\<rparr> sample_guard))).
     ro_destination route = V4 (Ipv4Addr 203 0 113 5) \<and> ro_gateway route = Some (V4 (Ipv4Addr 192 168 1 1)) \<and> ro_if_index route = Some 3"
proof -
  let ?r = "refresh_server_route \<lparr>ra_list = None, ra_delete = None, ra_add = None, ra_add_back = None\<rparr> sample_guard"
  have "fst ?r = Inr ()" by code_simp
  then have "?r = (Inr (), snd ?r)" by (metis prod.collapse)
  from refreshed_server_route_is_installed [OF this]
  obtain best where best: "best \<in> set (rg_kernel sample_guard)" "is_default best"
      "\<forall>other \<in> set (rg_kernel sample_guard). is_default other \<longrightarrow> route_cost best \<le> route_cost other"
    and at: "\<exists>route \<in> set (rg_kernel (snd ?r)). reaches_through (rg_server_ip sample_guard) best route" by auto
  from best have "ro_gateway best = Some (V4 (Ipv4Addr 192 168 1 1))" "ro_if_index best = Some 3"
    by (auto simp: sample_guard_def is_default_def Route_new_def route_cost_def)
  with at show ?thesis by (auto simp: reaches_through_def is_owned_server_route_def sample_guard_def)
qed

text \<open>
  A route that the kernel refuses to delete is forgotten all the same: it stays in the table, and dropping the guard does
  not try to remove it again.
\<close>

lemma refused_deletion_is_forgotten:
  assumes "rg_server_route g = Some route" "route \<in> set (rg_kernel g)" "ra_list w = None" "ra_delete w = Some e"
    and "server_route (rg_server_ip g) (rg_kernel g) = Inr replacement"
    and "\<not> list_ex (\<lambda>r. same_server_path r replacement) (rg_kernel g)"
  shows "refresh_server_route w g = (Inl e, g\<lparr>rg_server_route := None\<rparr>)"
proof -
  have "list_ex (\<lambda>r. same_server_path r route) (rg_kernel g)" using assms(2) by (auto simp: list_ex_iff intro: bexI [of _ route])
  then show ?thesis using assms by (simp add: refresh_server_route_def manager_delete_def and_then_def)
qed

end
