(* ===== verification/AppleClient.thy ===== *)
theory AppleClient
  imports Sessions
begin

text \<open>
  The native part of the macOS client (\<^verbatim>\<open>apple-native\<close>): the framing in which batches of packets cross the boundary to
  Swift, the session with its locked halves, the local address from which it connects and the errors on which its handshake tries again.
  The handshake itself is not modelled. Error values carry their message only; here they are named.
\<close>

section \<open>Errors\<close>

datatype AppleClientError =
  ApClient ClientError | ApContext string AppleClientError | FamiliesDiffer | PoisonedLock | InvalidBatch |
  TruncatedBatch | InvalidCount | InvalidFramedLength | TrailingBytes | BatchTooLarge | MissingArgument string

section \<open>Batches of packets\<close>

definition MAX_PACKET_BATCH :: nat where "MAX_PACKET_BATCH = 32"
definition MAX_FRAMED_PACKET :: nat where "MAX_FRAMED_PACKET = 65535"

definition ap_read_u32 :: "bytes \<Rightarrow> AppleClientError + nat \<times> bytes" where
  "ap_read_u32 input =
     (if length input < 4 then Inl TruncatedBatch else Inr (unat (from_be (take 4 input) :: u32), drop 4 input))"

definition ap_write_u32 :: "nat \<Rightarrow> AppleClientError + bytes" where
  "ap_write_u32 n = (if n < 2 ^ 32 then Inr (to_be 4 (of_nat n :: u32)) else Inl BatchTooLarge)"

text \<open>The rest of the input stands for the cursor.\<close>

fun ap_decode_packets :: "nat \<Rightarrow> bytes \<Rightarrow> AppleClientError + bytes list \<times> bytes" where
  "ap_decode_packets 0 input = Inr ([], input)"
| "ap_decode_packets (Suc n) input =
     bind_r (ap_read_u32 input) (\<lambda>(len, rest).
       if len = 0 \<or> len > MAX_FRAMED_PACKET \<or> length rest < len then Inl InvalidFramedLength
       else bind_r (ap_decode_packets n (drop len rest)) (\<lambda>(packets, rest'). Inr (take len rest # packets, rest')))"

definition decode_batch :: "bytes \<Rightarrow> AppleClientError + bytes list" where
  "decode_batch input =
     bind_r (ap_read_u32 input) (\<lambda>(count, rest).
       if count < 1 \<or> count > MAX_PACKET_BATCH then Inl InvalidCount
       else bind_r (ap_decode_packets count rest) (\<lambda>(packets, rest'). if rest' \<noteq> [] then Inl TrailingBytes else Inr packets))"

fun ap_encode_packets :: "bytes list \<Rightarrow> AppleClientError + bytes" where
  "ap_encode_packets [] = Inr []"
| "ap_encode_packets (packet # packets) =
     bind_r (ap_write_u32 (length packet)) (\<lambda>len. bind_r (ap_encode_packets packets) (\<lambda>rest. Inr (len @ packet @ rest)))"

definition encode_batch :: "bytes list \<Rightarrow> AppleClientError + bytes" where
  "encode_batch packets =
     bind_r (ap_write_u32 (length packets)) (\<lambda>count. bind_r (ap_encode_packets packets) (\<lambda>rest. Inr (count @ rest)))"

definition framed_packet :: "bytes \<Rightarrow> bool" where
  "framed_packet packet \<longleftrightarrow> 0 < length packet \<and> length packet \<le> MAX_FRAMED_PACKET"

definition framed_batch :: "bytes list \<Rightarrow> bool" where
  "framed_batch packets \<longleftrightarrow> 1 \<le> length packets \<and> length packets \<le> MAX_PACKET_BATCH \<and> list_all framed_packet packets"

lemma read_written_u32: "n < 2 ^ 32 \<Longrightarrow> ap_read_u32 (to_be 4 (of_nat n :: u32) @ rest) = Inr (n, rest)"
  by (simp add: ap_read_u32_def unat_of_nat)

lemma ap_packets_roundtrip:
  "ap_encode_packets packets = Inr out \<Longrightarrow> list_all framed_packet packets \<Longrightarrow>
   ap_decode_packets (length packets) (out @ rest) = Inr (packets, rest)"
proof (induction packets arbitrary: out)
  case (Cons packet packets)
  have len: "length packet < 2 ^ 32" using Cons.prems(2) by (simp add: framed_packet_def MAX_FRAMED_PACKET_def)
  then obtain out' where out': "ap_encode_packets packets = Inr out'" "out = to_be 4 (of_nat (length packet) :: u32) @ packet @ out'"
    using Cons.prems(1) by (auto simp: bind_r_eq_Inr ap_write_u32_def)
  have "ap_decode_packets (length packets) (out' @ rest) = Inr (packets, rest)"
    using Cons.IH [OF out'(1)] Cons.prems(2) by simp
  then show ?case
    using read_written_u32 [OF len] Cons.prems(2) by (simp add: out'(2) framed_packet_def)
qed simp

lemma ap_encode_packets_total: "list_all framed_packet packets \<Longrightarrow> \<exists>out. ap_encode_packets packets = Inr out"
  by (induction packets) (auto simp: framed_packet_def ap_write_u32_def MAX_FRAMED_PACKET_def)

lemma read_u32_sound:
  assumes "ap_read_u32 input = Inr (n, rest)"
  shows "n < 2 ^ 32 \<and> input = to_be 4 (of_nat n :: u32) @ rest"
proof -
  have "n = unat (from_be (take 4 input) :: u32)" "rest = drop 4 input" "length (take 4 input) = 4"
    using assms by (auto simp: ap_read_u32_def split: if_splits)
  then show ?thesis
    using unat_bound [of "from_be (take 4 input) :: u32"] to_from_be_32 [of "take 4 input"] by simp
qed

lemma ap_decode_packets_sound:
  "ap_decode_packets n input = Inr (packets, rest) \<Longrightarrow>
   length packets = n \<and> list_all framed_packet packets \<and> (\<exists>out. ap_encode_packets packets = Inr out \<and> input = out @ rest)"
proof (induction n arbitrary: input packets)
  case (Suc n)
  obtain len rest1 packets1 where read: "ap_read_u32 input = Inr (len, rest1)"
    and len: "len \<noteq> 0" "len \<le> MAX_FRAMED_PACKET" "len \<le> length rest1"
    and more: "ap_decode_packets n (drop len rest1) = Inr (packets1, rest)" and packets: "packets = take len rest1 # packets1"
    using Suc.prems by (auto simp: bind_r_eq_Inr split: if_splits)
  obtain out1 where out1: "ap_encode_packets packets1 = Inr out1" "drop len rest1 = out1 @ rest"
    using Suc.IH [OF more] by blast
  have "rest1 = take len rest1 @ out1 @ rest" using out1(2) by (metis append_take_drop_id)
  then have "input = (to_be 4 (of_nat len :: u32) @ take len rest1 @ out1) @ rest"
    using read_u32_sound [OF read] by simp
  moreover have "ap_encode_packets packets = Inr (to_be 4 (of_nat len :: u32) @ take len rest1 @ out1)"
    using read_u32_sound [OF read] len out1(1) by (simp add: packets ap_write_u32_def min_absorb2)
  moreover have "framed_packet (take len rest1)" using len by (auto simp: framed_packet_def)
  ultimately show ?case using Suc.IH [OF more] by (simp add: packets)
qed simp

lemma decode_batch_encode:
  assumes "framed_batch packets" "encode_batch packets = Inr input"
  shows "decode_batch input = Inr packets"
proof -
  have n: "length packets < 2 ^ 32" using assms(1) by (simp add: framed_batch_def MAX_PACKET_BATCH_def)
  with assms(2) obtain out where out: "ap_encode_packets packets = Inr out" "input = to_be 4 (of_nat (length packets) :: u32) @ out"
    by (auto simp: encode_batch_def ap_write_u32_def bind_r_eq_Inr)
  with assms(1) ap_packets_roundtrip [OF out(1), of "[]"] read_written_u32 [OF n, of out]
  show ?thesis by (auto simp: decode_batch_def framed_batch_def)
qed

text \<open>
  C36. Packets cross the boundary unchanged: an input is taken apart into a batch exactly when the batch has one to 32
  packets of one to 65535 bytes and the input is what encoding that batch gives. So every such batch survives, and no
  truncated, padded or otherwise malformed input is read as packets.
\<close>

theorem packet_batches_roundtrip:
  "decode_batch input = Inr packets \<longleftrightarrow> framed_batch packets \<and> encode_batch packets = Inr input"
proof
  assume "decode_batch input = Inr packets"
  then obtain count rest where read: "ap_read_u32 input = Inr (count, rest)" and count: "1 \<le> count" "count \<le> MAX_PACKET_BATCH"
    and packets: "ap_decode_packets count rest = Inr (packets, [])"
    by (auto simp: decode_batch_def bind_r_eq_Inr split: if_splits)
  from ap_decode_packets_sound [OF packets] read_u32_sound [OF read] count
  show "framed_batch packets \<and> encode_batch packets = Inr input"
    by (auto simp: framed_batch_def encode_batch_def ap_write_u32_def)
qed (use decode_batch_encode in blast)

lemma encode_batch_total: "framed_batch packets \<Longrightarrow> \<exists>out. encode_batch packets = Inr out"
  using ap_encode_packets_total [of packets]
  by (auto simp: framed_batch_def encode_batch_def ap_write_u32_def MAX_PACKET_BATCH_def)

section \<open>Sessions\<close>

record TunnelParameters =
  tp_client_address :: ipv4
  tp_prefix_len :: u8
  tp_dns :: ipv4
  tp_mtu :: u16
  tp_remote_address :: IpAddr

definition tunnel_parameters :: "SessionParameters \<Rightarrow> IpAddr \<Rightarrow> TunnelParameters" where
  "tunnel_parameters parameters remote_address =
     \<lparr>tp_client_address = sp_client_address parameters, tp_prefix_len = sp_prefix_len parameters, tp_dns = sp_dns parameters,
      tp_mtu = sp_mtu parameters, tp_remote_address = remote_address\<rparr>"

record AppleSession =
  as_parameters :: TunnelParameters
  as_transport :: nat
  as_sender :: TunnelSender
  as_outbound_poisoned :: bool
  as_receiver :: TunnelReceiver
  as_inbound_poisoned :: bool
  as_read_timeout :: duration
  as_wire :: ClientWire
  as_log :: "client_output list"

definition ap_is_retryable :: "io_error \<Rightarrow> bool" where
  "ap_is_retryable e \<longleftrightarrow>
     ioe_kind e \<in> {TimedOut, WouldBlock, Interrupted, ConnectionRefused, ConnectionReset, NotConnected}"

text \<open>The local address to bind: of the server's family, or refused.\<close>

definition ap_local :: "SocketAddr \<Rightarrow> IpAddr option \<Rightarrow> AppleClientError + SocketAddr" where
  "ap_local server local_address =
     (case (sa_ip server, local_address) of
        (V4 _, Some (V4 a)) \<Rightarrow> Inr \<lparr>sa_ip = V4 a, sa_port = 0\<rparr>
      | (V6 _, Some (V6 a)) \<Rightarrow> Inr \<lparr>sa_ip = V6 a, sa_port = 0\<rparr>
      | (_, None) \<Rightarrow> Inr (unspecified_local server)
      | _ \<Rightarrow> Inl FamiliesDiffer)"

definition validate_batch_size :: "nat \<Rightarrow> AppleClientError + unit" where
  "validate_batch_size n = (if 1 \<le> n \<and> n \<le> MAX_PACKET_BATCH then Inr () else Inl InvalidBatch)"

text \<open>One datagram on the locked outbound half: the encoder's answer is masked and sent.\<close>

definition ap_send ::
  "wire_libs \<Rightarrow> send_world \<Rightarrow> string \<Rightarrow> (DataPlaneError + bytes) \<times> TunnelSender \<Rightarrow> AppleSession \<Rightarrow> (AppleClientError + unit) \<times> AppleSession" where
  "ap_send W w what encoded s =
     (let s1 = s\<lparr>as_sender := snd encoded\<rparr> in
      case fst encoded of
        Inl e \<Rightarrow> (Inl (ApClient (CeDataPlane e)), s1)
      | Inr datagram \<Rightarrow>
          let (masked, wire) = ClientWire_encode W (sw_clock w) (sw_random w) (as_wire s1) datagram; s2 = s1\<lparr>as_wire := wire\<rparr> in
          (case masked of
             Inl e \<Rightarrow> (Inl (ApClient (CeWire e)), s2)
           | Inr out \<Rightarrow>
               (case sw_sent w of
                  None \<Rightarrow> (Inr (), s2\<lparr>as_log := as_log s2 @ [OutSend (as_transport s2) out]\<rparr>)
                | Some e \<Rightarrow> (Inl (ApContext what (ApClient (CeIo e))), s2))))"

fun ap_send_all :: "wire_libs \<Rightarrow> (nat \<Rightarrow> send_world) \<Rightarrow> bytes list \<Rightarrow> AppleSession \<Rightarrow> (AppleClientError + unit) \<times> AppleSession" where
  "ap_send_all W w [] s = (Inr (), s)"
| "ap_send_all W w (packet # packets) s =
     and_then (ap_send W (w (length packets)) ''sending encrypted UDP packet failed''
         (TunnelSender_encode_ip_into (as_sender s) packet) s)
       (\<lambda>_. ap_send_all W w packets)"

definition send_packets ::
  "wire_libs \<Rightarrow> (nat \<Rightarrow> send_world) \<Rightarrow> bytes list \<Rightarrow> AppleSession \<Rightarrow> (AppleClientError + nat) \<times> AppleSession" where
  "send_packets W w packets s =
     (case validate_batch_size (length packets) of
        Inl e \<Rightarrow> (Inl e, s)
      | Inr _ \<Rightarrow>
          if as_outbound_poisoned s then (Inl PoisonedLock, s)
          else and_then (ap_send_all W w packets s) (\<lambda>_ s. (Inr (length packets), s)))"

definition ap_send_keepalive :: "wire_libs \<Rightarrow> send_world \<Rightarrow> AppleSession \<Rightarrow> (AppleClientError + unit) \<times> AppleSession" where
  "ap_send_keepalive W w s =
     (if as_outbound_poisoned s then (Inl PoisonedLock, s)
      else ap_send W w ''sending keepalive failed'' (TunnelSender_encode_keepalive_into (as_sender s)) s)"

record ap_read =
  ar_received :: "io_error + bytes"
  ar_clock :: "u64 option"
  ar_timeout_set :: "io_error option"

definition ap_decode :: "wire_libs \<Rightarrow> u64 option \<Rightarrow> bytes \<Rightarrow> AppleSession \<Rightarrow> Datagram option \<times> AppleSession" where
  "ap_decode W clock datagram s =
     (let (decoded, wire) = ClientWire_decode W clock (as_wire s) datagram in
      (case decoded of
         Inr (True, payload) \<Rightarrow> if looks_like_protocol_datagram payload then ok (Datagram_decode payload) else None
       | _ \<Rightarrow> None, s\<lparr>as_wire := wire\<rparr>))"

definition ap_note :: "(DataPlaneError + DecodedPacket) \<Rightarrow> bytes list \<times> bool \<Rightarrow> bytes list \<times> bool" where
  "ap_note x batch =
     (case x of
        Inr (DecodedIp packet) \<Rightarrow> (fst batch @ [packet], True)
      | Inr DecodedKeepalive \<Rightarrow> (fst batch, True)
      | Inl _ \<Rightarrow> batch)"

text \<open>After the first packet the socket is only drained.\<close>

definition ap_drain_only :: "io_error option \<Rightarrow> bytes list \<Rightarrow> AppleSession \<Rightarrow> (AppleClientError + unit) \<times> AppleSession" where
  "ap_drain_only answer packets s =
     (if length packets = 1 then
        (case answer of None \<Rightarrow> (Inr (), s\<lparr>as_read_timeout := 1000000\<rparr>) | Some e \<Rightarrow> (Inl (ApClient (CeIo e)), s))
      else (Inr (), s))"

text \<open>The socket's answers, one per receive; after them it times out.\<close>

fun ap_receive_loop ::
  "wire_libs \<Rightarrow> nat \<Rightarrow> ap_read list \<Rightarrow> bytes list \<times> bool \<Rightarrow> AppleSession \<Rightarrow> (AppleClientError + bytes list \<times> bool) \<times> AppleSession" where
  "ap_receive_loop W maximum [] batch s = (Inr batch, s)"
| "ap_receive_loop W maximum (r # reads) batch s =
     (if length (fst batch) \<ge> maximum then (Inr batch, s)
      else
        (case ar_received r of
           Inl e \<Rightarrow>
             if ap_is_retryable e then (Inr batch, s)
             else (Inl (ApContext ''receiving encrypted UDP packet failed'' (ApClient (CeIo e))), s)
         | Inr datagram \<Rightarrow>
             (case ap_decode W (ar_clock r) datagram s of
                (None, s1) \<Rightarrow> ap_receive_loop W maximum reads batch s1
              | (Some d, s1) \<Rightarrow>
                  (case TunnelReceiver_decode_into (as_receiver s1) d of
                     (x, receiver) \<Rightarrow>
                       (case ap_drain_only (ar_timeout_set r) (fst (ap_note x batch)) (s1\<lparr>as_receiver := receiver\<rparr>) of
                          (Inl e, s2) \<Rightarrow> (Inl e, s2)
                        | (Inr _, s2) \<Rightarrow> ap_receive_loop W maximum reads (ap_note x batch) s2)))))"

definition receive_packets ::
  "wire_libs \<Rightarrow> io_error option \<Rightarrow> ap_read list \<Rightarrow> duration \<Rightarrow> nat \<Rightarrow> AppleSession \<Rightarrow>
   (AppleClientError + bytes list \<times> bool) \<times> AppleSession" where
  "receive_packets W timeout_set reads timeout maximum s =
     (case validate_batch_size maximum of
        Inl e \<Rightarrow> (Inl e, s)
      | Inr _ \<Rightarrow>
          if as_inbound_poisoned s then (Inl PoisonedLock, s)
          else
            (case timeout_set of
               Some e \<Rightarrow> (Inl (ApClient (CeIo e)), s)
             | None \<Rightarrow> ap_receive_loop W maximum reads ([], False) (s\<lparr>as_read_timeout := timeout\<rparr>)))"

section \<open>The boundary to Swift\<close>

text \<open>\<open>None\<close> is a null pointer.\<close>

definition mousevpn_apple_send_packet_batch ::
  "wire_libs \<Rightarrow> (nat \<Rightarrow> send_world) \<Rightarrow> bytes option \<Rightarrow> AppleSession option \<Rightarrow> (AppleClientError + unit) \<times> AppleSession option" where
  "mousevpn_apple_send_packet_batch W w framed session =
     (case session of
        None \<Rightarrow> (Inl (MissingArgument ''session''), None)
      | Some s \<Rightarrow>
          (case framed of
             None \<Rightarrow> (Inl (MissingArgument ''packet batch''), session)
           | Some input \<Rightarrow>
               if input = [] then (Inl (MissingArgument ''packet batch''), session)
               else
                 (case decode_batch input of
                    Inl e \<Rightarrow> (Inl e, session)
                  | Inr packets \<Rightarrow>
                      let (r, s1) = send_packets W w packets s in (bind_r r (\<lambda>_. Inr ()), Some s1))))"

text \<open>A batch with packets is framed; an empty one is reported as a timeout.\<close>

definition mousevpn_apple_receive_packet_batch ::
  "wire_libs \<Rightarrow> io_error option \<Rightarrow> ap_read list \<Rightarrow> u64 \<Rightarrow> nat \<Rightarrow> AppleSession option \<Rightarrow>
   (AppleClientError + bytes option) \<times> AppleSession option" where
  "mousevpn_apple_receive_packet_batch W timeout_set reads timeout_millis maximum session =
     (case session of
        None \<Rightarrow> (Inl (MissingArgument ''session''), None)
      | Some s \<Rightarrow>
          let (r, s1) = receive_packets W timeout_set reads (max (unat timeout_millis) 1 * 1000000) maximum s in
          (bind_r r (\<lambda>(packets, _).
             if packets = [] then Inr None else bind_r (encode_batch packets) (\<lambda>framed. Inr (Some framed))), Some s1))"

section \<open>What is received\<close>

lemma decoded_is_framed:
  assumes "TunnelReceiver_decode_into r d = (Inr (DecodedIp p), r')" "tr_mtu r \<le> MAX_FRAMED_PACKET"
  shows "framed_packet p"
proof -
  from assms(1) obtain inner ip where "Ipv4Packet_parse inner = Inr ip" "p = ip_bytes ip" "length p \<le> tr_mtu r"
    by (elim TunnelReceiver_decode_into_ip) blast
  then show ?thesis
    using assms(2) by (auto simp: framed_packet_def Ipv4Packet_parse_def MINIMUM_HEADER_LEN_def Let_def split: if_splits)
qed

lemma receive_loop_framed:
  assumes "ap_receive_loop W maximum reads batch s = (Inr (packets, act), t)" "length (fst batch) \<le> maximum"
    and "list_all framed_packet (fst batch)" "tr_mtu (as_receiver s) \<le> MAX_FRAMED_PACKET"
  shows "length packets \<le> maximum \<and> list_all framed_packet packets"
  using assms
proof (induction W maximum reads batch s rule: ap_receive_loop.induct)
  case (2 W maximum r reads batch s)
  show ?case
  proof (cases "length (fst batch) \<ge> maximum \<or> (\<exists>e. ar_received r = Inl e)")
    case True
    then show ?thesis using 2(3-5) by (auto split: if_splits)
  next
    case False
    then obtain datagram where d: "ar_received r = Inr datagram" by (cases "ar_received r") auto
    obtain y s1 where y: "ap_decode W (ar_clock r) datagram s = (y, s1)" by fastforce
    then have s1: "as_receiver s1 = as_receiver s" by (auto simp: ap_decode_def split: prod.splits)
    show ?thesis
    proof (cases y)
      case None
      then show ?thesis using 2(1) [OF _ d] 2(3-) False d y s1 by simp
    next
      case (Some dg)
      obtain x receiver where x: "TunnelReceiver_decode_into (as_receiver s1) dg = (x, receiver)" by fastforce
      obtain z s2 where z: "ap_drain_only (ar_timeout_set r) (fst (ap_note x batch)) (s1\<lparr>as_receiver := receiver\<rparr>) = (z, s2)"
        by fastforce
      have "as_receiver s2 = receiver" using z by (auto simp: ap_drain_only_def split: if_splits option.splits)
      then have mtu: "tr_mtu (as_receiver s2) \<le> MAX_FRAMED_PACKET"
        using decode_into_keeps(2) [of "as_receiver s1" dg] x s1 2(6) by simp
      have noted: "length (fst (ap_note x batch)) \<le> maximum" "list_all framed_packet (fst (ap_note x batch))"
        using False 2(5,6) x s1 decoded_is_framed [of "as_receiver s1" dg _ receiver]
        by (auto simp: ap_note_def split: sum.splits DecodedPacket.splits)
      obtain u where "z = Inr u" using 2(3) False d y Some x z by (cases z) auto
      then show ?thesis
        using 2(2) [OF _ d y [symmetric] Some x [symmetric] z [symmetric]] 2(3) False d y Some x z noted mtu by simp
    qed
  qed
qed simp

text \<open>Whatever is received crosses the boundary: framing it never fails, and Swift reads the same packets.\<close>

lemma received_batches_cross:
  assumes "receive_packets W timeout_set reads (max (unat timeout_millis) 1 * 1000000) maximum s = (Inr (packets, act), t)"
    and "packets \<noteq> []" "tr_mtu (as_receiver s) \<le> MAX_FRAMED_PACKET"
  shows "\<exists>framed. mousevpn_apple_receive_packet_batch W timeout_set reads timeout_millis maximum (Some s) = (Inr (Some framed), Some t)
    \<and> decode_batch framed = Inr packets"
proof -
  have max: "1 \<le> maximum" "maximum \<le> MAX_PACKET_BATCH"
    and loop: "ap_receive_loop W maximum reads ([], False) (s\<lparr>as_read_timeout := max (unat timeout_millis) 1 * 1000000\<rparr>) =
      (Inr (packets, act), t)"
    using assms(1) by (auto simp: receive_packets_def validate_batch_size_def split: if_splits option.splits)
  have "framed_batch packets"
    using receive_loop_framed [OF loop] max assms(2,3) by (cases packets) (simp_all add: framed_batch_def)
  then obtain framed where "encode_batch packets = Inr framed" "decode_batch framed = Inr packets"
    using encode_batch_total decode_batch_encode by metis
  then show ?thesis
    using assms(1,2) by (simp add: mousevpn_apple_receive_packet_batch_def)
qed

end
