(* ===== verification/AdminApi.thy ===== *)
theory AdminApi
  imports Registry Traffic
begin

text \<open>
  The administration service: the bearer token (\<^verbatim>\<open>admin-api/auth.rs\<close>) and the request handlers (\<^verbatim>\<open>handlers.rs\<close>) over the device
  registry and the traffic store. Routing, JSON and the encryption of profiles are libraries: a request is what they parsed,
  and the encryption of a profile takes its answer as an argument.
\<close>

section \<open>Token and errors\<close>

definition MINIMUM_TOKEN_LEN :: nat where "MINIMUM_TOKEN_LEN = 32"

datatype TokenError = TooShort nat nat

definition AdminToken_new :: "string \<Rightarrow> TokenError + string" where
  "AdminToken_new token =
     (if length token < MINIMUM_TOKEN_LEN then Inl (TooShort (length token) MINIMUM_TOKEN_LEN) else Inr token)"

datatype status_code = UNAUTHORIZED | BAD_REQUEST | NOT_FOUND | INTERNAL_SERVER_ERROR

datatype ApiError = ApiError status_code string

definition unauthorized :: ApiError where "unauthorized = ApiError UNAUTHORIZED ''invalid admin bearer token''"
definition bad_request :: "string \<Rightarrow> ApiError" where "bad_request message = ApiError BAD_REQUEST message"
definition internal_error :: ApiError where "internal_error = ApiError INTERNAL_SERVER_ERROR ''internal server error''"

section \<open>State\<close>

record ApiState =
  api_registry :: DeviceRegistry
  api_traffic :: TrafficStore
  api_token :: string

record CreateDeviceRequest =
  cd_name :: rust_string
  cd_platform :: DevicePlatform
  cd_password :: "rust_string option"

record DeviceSummary =
  ds_name :: rust_string
  ds_platform :: DevicePlatform
  ds_public_key :: string
  ds_address :: ipv4

definition DeviceSummary_from :: "DeviceRecord \<Rightarrow> DeviceSummary" where
  "DeviceSummary_from r =
     \<lparr>ds_name = rec_name r, ds_platform = rec_platform r, ds_public_key = rec_public_key r, ds_address = rec_address r\<rparr>"

text \<open>The header's text, when there is one.\<close>

definition BEARER :: string where "BEARER = ''Bearer ''"

definition strip_header :: "string \<Rightarrow> string \<Rightarrow> string option" where
  "strip_header p s = (if take (length p) s = p then Some (drop (length p) s) else None)"

definition authenticate :: "string option \<Rightarrow> ApiState \<Rightarrow> ApiError + unit" where
  "authenticate authorization state =
     (case Option.bind authorization (strip_header BEARER) of
        None \<Rightarrow> Inl unauthorized
      | Some candidate \<Rightarrow> if candidate = api_token state then Inr () else Inl unauthorized)"

section \<open>Handlers\<close>

datatype api_answer =
  AnsHealth | AnsDevices "DeviceSummary list" | AnsTraffic TrafficReport |
  AnsProvisioned DeviceSummary SecretKey "string option" | AnsRevoked

definition health :: "string option \<Rightarrow> ApiState \<Rightarrow> (ApiError + api_answer) \<times> ApiState" where
  "health authorization state = (bind_r (authenticate authorization state) (\<lambda>_. Inr AnsHealth), state)"

definition list_devices :: "string option \<Rightarrow> ApiState \<Rightarrow> (ApiError + api_answer) \<times> ApiState" where
  "list_devices authorization state =
     (bind_r (authenticate authorization state) (\<lambda>_. Inr (AnsDevices (map DeviceSummary_from (dr_devices (api_registry state))))),
      state)"

definition traffic_handler :: "string + unit \<Rightarrow> u64 \<Rightarrow> u64 option \<Rightarrow> string option \<Rightarrow> ApiState \<Rightarrow> (ApiError + api_answer) \<times> ApiState" where
  "traffic_handler io now query authorization state =
     (bind_r (authenticate authorization state) (\<lambda>_.
        let hours = (case query of None \<Rightarrow> 24 | Some h \<Rightarrow> h) in
        if hours = 0 \<or> hours > MAX_QUERY_HOURS then Inl (bad_request ''hours must be between 1 and 744'')
        else map_err (\<lambda>_. internal_error) (bind_r (report_at io (api_traffic state) hours now) (\<lambda>r. Inr (AnsTraffic r)))),
      state)"

record admin_libs =
  al_base64 :: base64_lib
  al_config_error :: "ConfigError \<Rightarrow> string"
  al_crypto_error :: "CryptoError \<Rightarrow> string"

record provision_world =
  pv_io :: "string + unit"
  pv_keys :: "SnowError + bytes \<times> bytes"
  pv_encrypted :: "string + string"

definition store_error :: "RegistryStoreError \<Rightarrow> ApiError" where
  "store_error e = (case e of RegistryStoreError message \<Rightarrow> bad_request message)"

definition api_provision_device ::
  "admin_libs \<Rightarrow> provision_world \<Rightarrow> CreateDeviceRequest \<Rightarrow> string option \<Rightarrow> ApiState \<Rightarrow> (ApiError + api_answer) \<times> ApiState" where
  "api_provision_device L w request authorization state =
     (case authenticate authorization state of
        Inl e \<Rightarrow> (Inl e, state)
      | Inr _ \<Rightarrow>
          if cd_platform request = Android \<and> cd_password request = None
          then (Inl (bad_request ''Android profile requires a password of at least 8 characters''), state)
          else if (case cd_password request of None \<Rightarrow> False | Some password \<Rightarrow> str_len password < 8)
          then (Inl (bad_request ''profile password must contain at least 8 characters''), state)
          else
            (case provision (al_base64 L) (al_crypto_error L) (pv_io w) (pv_keys w) (api_registry state) (cd_name request)
                    (cd_platform request) of
               (Inl e, registry) \<Rightarrow> (Inl (store_error e), state\<lparr>api_registry := registry\<rparr>)
             | (Inr provisioned, registry) \<Rightarrow>
                 let state1 = state\<lparr>api_registry := registry\<rparr>;
                     answer = (\<lambda>profile. Inr (AnsProvisioned (DeviceSummary_from (apd_record provisioned))
                       (apd_private_key provisioned) profile))
                 in
                 (case cd_password request of
                    None \<Rightarrow> (answer None, state1)
                  | Some _ \<Rightarrow>
                      (case pv_encrypted w of
                         Inl _ \<Rightarrow> (Inl internal_error, state1)
                       | Inr profile \<Rightarrow> (answer (Some profile), state1)))))"

definition api_revoke_device ::
  "admin_libs \<Rightarrow> string + unit \<Rightarrow> string \<Rightarrow> string option \<Rightarrow> ApiState \<Rightarrow> (ApiError + api_answer) \<times> ApiState" where
  "api_revoke_device L io public_key authorization state =
     (case authenticate authorization state of
        Inl e \<Rightarrow> (Inl e, state)
      | Inr _ \<Rightarrow>
          (case revoke (al_base64 L) (al_config_error L) io (api_registry state) public_key of
             (Inl e, registry) \<Rightarrow> (Inl (store_error e), state\<lparr>api_registry := registry\<rparr>)
           | (Inr revoked, registry) \<Rightarrow>
               (if revoked then Inr AnsRevoked else Inl (ApiError NOT_FOUND ''device key not found''),
                state\<lparr>api_registry := registry\<rparr>)))"

datatype admin_request =
  HealthRequest | ListRequest | TrafficRequest "string + unit" u64 "u64 option" |
  ProvisionRequest provision_world CreateDeviceRequest | RevokeRequest "string + unit" string

fun admin_handle :: "admin_libs \<Rightarrow> string option \<Rightarrow> admin_request \<Rightarrow> ApiState \<Rightarrow> (ApiError + api_answer) \<times> ApiState" where
  "admin_handle L authorization HealthRequest state = health authorization state"
| "admin_handle L authorization ListRequest state = list_devices authorization state"
| "admin_handle L authorization (TrafficRequest io now query) state = traffic_handler io now query authorization state"
| "admin_handle L authorization (ProvisionRequest w request) state = api_provision_device L w request authorization state"
| "admin_handle L authorization (RevokeRequest io public_key) state = api_revoke_device L io public_key authorization state"

fun serve :: "admin_libs \<Rightarrow> (string option \<times> admin_request) list \<Rightarrow> ApiState \<Rightarrow> (ApiError + api_answer) list \<times> ApiState" where
  "serve L [] state = ([], state)"
| "serve L ((authorization, request) # requests) state =
     (let (answer, state1) = admin_handle L authorization request state; (answers, state2) = serve L requests state1
      in (answer # answers, state2))"

section \<open>Authority\<close>

lemma strip_header_Some: "strip_header p s = Some rest \<longleftrightarrow> s = p @ rest"
  unfolding strip_header_def by (auto simp: append_eq_conv_conj) (metis append_take_drop_id)

definition carries :: "string \<Rightarrow> string option \<Rightarrow> bool" where
  "carries token authorization \<longleftrightarrow> authorization = Some (BEARER @ token)"

lemma authenticate_iff: "authenticate authorization state = Inr x \<longleftrightarrow> carries (api_token state) authorization"
proof (cases authorization)
  case (Some header)
  then show ?thesis
    using strip_header_Some [of BEARER header]
    by (cases "strip_header BEARER header") (auto simp: authenticate_def carries_def)
qed (simp add: authenticate_def carries_def)

lemma refused: "\<not> carries (api_token state) authorization \<Longrightarrow> authenticate authorization state = Inl unauthorized"
  using authenticate_iff [of authorization state "()"] by (auto simp: authenticate_def split: option.splits if_splits)

lemma handle_refused:
  "\<not> carries (api_token state) authorization \<Longrightarrow> admin_handle L authorization request state = (Inl unauthorized, state)"
  by (cases request) (simp_all add: refused health_def list_devices_def traffic_handler_def api_provision_device_def api_revoke_device_def)

text \<open>No handler changes the token or the traffic store.\<close>

lemma handle_token: "api_token (snd (admin_handle L authorization request state)) = api_token state"
  by (cases request)
    (simp_all add: health_def list_devices_def traffic_handler_def api_provision_device_def api_revoke_device_def Let_def split_beta
      split: sum.split option.split)

definition with_token :: "string \<Rightarrow> (string option \<times> admin_request) list \<Rightarrow> (string option \<times> admin_request) list" where
  "with_token token = filter (\<lambda>(authorization, _). carries token authorization)"

text \<open>
  C16. Only the holder of the token reaches the registry: in any sequence of requests, those without the token are answered as
  unauthorized and leave no trace; the registry ends up as if only the requests with the token had been made, and those get
  the answers they would have got alone.
\<close>

theorem only_the_token_reaches_the_registry:
  "snd (serve L requests state) = snd (serve L (with_token (api_token state) requests) state) \<and>
   map snd (filter (\<lambda>((authorization, _), _). carries (api_token state) authorization) (zip requests (fst (serve L requests state)))) =
     fst (serve L (with_token (api_token state) requests) state) \<and>
   list_all (\<lambda>((authorization, _), answer). carries (api_token state) authorization \<or> answer = Inl unauthorized)
     (zip requests (fst (serve L requests state)))"
proof (induction requests arbitrary: state)
  case (Cons r requests)
  obtain authorization request where r: "r = (authorization, request)" by (cases r)
  obtain answer state1 where step: "admin_handle L authorization request state = (answer, state1)" by fastforce
  have token: "api_token state1 = api_token state" using handle_token [of L authorization request state] step by simp
  obtain answers state2 where all: "serve L requests state1 = (answers, state2)" by fastforce
  obtain answers' state2' where own: "serve L (with_token (api_token state) requests) state1 = (answers', state2')" by fastforce
  show ?case
  proof (cases "carries (api_token state) authorization")
    case True
    then have "with_token (api_token state) (r # requests) = r # with_token (api_token state) requests"
      by (simp add: r with_token_def)
    then show ?thesis using Cons.IH [of state1] True all own by (simp add: r step token)
  next
    case False
    then have "answer = Inl unauthorized" "state1 = state" using handle_refused [OF False, of L request] step by simp_all
    moreover have "with_token (api_token state) (r # requests) = with_token (api_token state) requests"
      using False by (simp add: r with_token_def)
    ultimately show ?thesis using Cons.IH [of state] False all own by (simp add: r step)
  qed
qed (simp add: with_token_def)

text \<open>
  A device is registered before its profile is encrypted: when the encryption fails the caller gets an internal error, but the
  device has its lease and its address, and the private key is gone.
\<close>

lemma failed_encryption_leaves_the_device:
  assumes "carries (api_token state) authorization" "cd_password request = Some password" "8 \<le> str_len password"
    and "provision (al_base64 L) (al_crypto_error L) (pv_io w) (pv_keys w) (api_registry state) (cd_name request) (cd_platform request) =
      (Inr device, registry)" "pv_encrypted w = Inl e"
  shows "api_provision_device L w request authorization state = (Inl internal_error, state\<lparr>api_registry := registry\<rparr>)"
  using assms authenticate_iff [of authorization state "()"] by (simp add: api_provision_device_def)

end
