(* ===== verification/Spec2Isabelle.thy ===== *)
theory Spec2Isabelle
  imports Handshake DataPlane ClientWire RateLimit ServerState Registry Traffic ServerWire DaemonProps SplitProps
    Liveness ClientProps EndToEnd Socks AndroidProps AndroidRegistry
    WinProps WinRoutes LinuxRoutes AppleClient AdminApi
begin

text \<open>
  Verification of MouseVPN, a VPN of clients for several platforms and one daemon (\<^verbatim>\<open>crates\<close>).

  \<^bold>\<open>The program.\<close> A client negotiates a session over UDP with a Noise IK handshake, then carries IPv4 packets between a
  virtual device and the server in encrypted datagrams. The datagrams are sent as they are (legacy), inside MouseMorph frames that
  hide their shape, or with the masked headers of Speedy. The daemon recognizes the mode of each datagram, limits handshakes,
  looks a client's key up in the device registry, keeps one session per leased address and counts traffic. An administration
  service provisions and revokes devices.

  \<^bold>\<open>Conventions.\<close> Bytes are 8-bit words and machine integers words of their width, so that arithmetic wraps or saturates as in
  the source; \<open>usize\<close>, instants and durations are natural numbers (instants in nanoseconds). A \<open>Result\<close> is a sum with the
  error on the left; state that a function mutates is passed and returned. What clocks, random generators, sockets, devices and the
  operating system answer is an argument, and what is asked of them is logged where a property speaks about it. Threads are phases
  of a record and a run is any sequence of their steps. Cryptography, Noise, base64 and hashing are records of functions
  (\<open>crypto_lib\<close>, \<open>Snow\<close>, \<open>morph_lib\<close>, \<open>speedy_lib\<close>, \<open>base64_lib\<close>); properties name the documented laws they need as
  hypotheses, and their witnesses instantiate them.

  \<^bold>\<open>Shared.\<close> \<open>Prelude\<close>: results, big-endian numbers, hash maps and the interfaces of wire formats and step machines.
  \<open>RustText\<close>, \<open>RustIo\<close>, \<open>Net\<close>: strings, I/O errors and the question mark operator over state, addresses.

  \<^bold>\<open>Wire and sessions.\<close> \<open>Protocol\<close> (\<^verbatim>\<open>protocol\<close>): headers, datagrams, parameters and their round trips. \<open>Replay\<close>, \<open>Keys\<close>,
  \<open>Session\<close>, \<open>Handshake\<close> (\<^verbatim>\<open>crypto\<close>): the replay window refines a set of numbers, a session delivers a datagram once, the window moves only
  on authentic data, a handshake gives two matching ends. \<open>DataPlane\<close> (\<^verbatim>\<open>data-plane\<close>): sequence numbers increase, splitting a
  tunnel changes nothing. \<open>Morph\<close>, \<open>Speedy\<close>, \<open>Config\<close>, \<open>ClientWire\<close> (\<^verbatim>\<open>morph\<close>, \<^verbatim>\<open>speedy\<close>, \<^verbatim>\<open>config\<close>, \<^verbatim>\<open>client-wire\<close>): frames round trip,
  the tag cache is transparent, a client accepts exactly its own frames.

  \<^bold>\<open>Server.\<close> \<open>RateLimit\<close>, \<open>ServerState\<close>, \<open>ServerWire\<close>, \<open>Daemon\<close>, \<open>DaemonRun\<close>, \<open>DaemonProps\<close> (\<^verbatim>\<open>server\<close>): attempts are limited, session
  tables stay consistent over every run, packets to the device come from their lease, revocation ends sessions, a
  retransmission is answered alike until another message of the device is. \<open>Registry\<close>, \<open>Traffic\<close>, \<open>AdminApi\<close> (\<^verbatim>\<open>admin-api\<close>): leases are unique and revocation is final,
  traffic is conserved, only the bearer token reaches the registry.

  \<^bold>\<open>Clients.\<close> \<open>Liveness\<close>, \<open>Negotiate\<close>, \<open>Sessions\<close>: timers, handshake attempts and what they return. \<open>LinuxClient\<close>,
  \<open>ClientProps\<close> (\<^verbatim>\<open>linux-client\<close>): both threads, replacement of a session as a whole or not at all while the sending thread runs, keepalive
  accounting, termination of an attempt. \<open>Dns\<close>, \<open>Socks\<close> (\<^verbatim>\<open>linux-client/src/socks\<close>): every proxy client gets one reply, or none when the address of its connection cannot be read. \<open>LinuxRoutes\<close>
  (\<^verbatim>\<open>linux-platform/src/routes.rs\<close>): the route to the server follows the cheapest gateway. \<open>AndroidClient\<close>, \<open>AndroidProps\<close>, \<open>AndroidRegistry\<close>
  (\<^verbatim>\<open>android-native\<close>): a session stays whole in every interleaving and ends with its sending thread. \<open>WinClient\<close>, \<open>WinProps\<close>,
  \<open>WinRoutes\<close> (\<^verbatim>\<open>windows-client\<close>: packet_loop, runtime, network, netcfg): the adapter follows the session, which settings a restart leaves, the kill
  switch blocks everything but the server, a repair restores the routes of the table. \<open>WinPacket\<close>, \<open>SplitTunnel\<close>, \<open>SplitProps\<close> (\<^verbatim>\<open>windows-client/src/windivert\<close>): which captured packets take the
  tunnel, and translation round trips. \<open>AppleClient\<close> (\<^verbatim>\<open>apple-native\<close>): batches cross the boundary to Swift unchanged.

  \<^bold>\<open>Together.\<close> \<open>EndToEnd\<close> and this theory connect a MouseMorph client to the daemon and carry packets both ways in every wire mode.

  \<^bold>\<open>Bounds.\<close> Every function is total. A loop over the outside world recurses on the list of what the world answers: a
  handshake over the turns it is given, with \<open>None\<close> when they run out before it ends. That an attempt ends is proved from the clock
  passing the deadline, or from the flag that asks it to stop; that a session ends, from the number of operations of its receiving thread.

  \<^bold>\<open>Not modelled.\<close> Sockets and batched system calls (\<^verbatim>\<open>transport\<close>), the TUN devices, DNS, firewall and proxy-route commands
  of \<^verbatim>\<open>linux-platform\<close>, the Windows filtering platform, recovery journal, PowerShell scripts and other Win32 calls, the macOS command-line
  client, start-up code, command-line tools, the kernel driver and packaging: their effects are in the operating system or in
  libraries. The graphical applications in Kotlin, Swift and Rust have logic of their own (profile files, reliability statistics, lists of
  programs, retry policies) that is out of scope here.
  The handshake of the Apple client is not translated. Log lines and error texts are left out unless
  they are an answer.
\<close>

section \<open>A client and the daemon\<close>

text \<open>
  C1. A registered client connects. A MouseMorph client pinned to the server begins a handshake; the daemon, which rebuilds
  its routing tables for the client's first datagram and has no other claim on its tag, answers. Whatever the client received
  before, if it still waits when the answer arrives before its deadline, then its attempt returns a session with the
  parameters of the lease the registry holds for the client's own key. The daemon has installed the other end of that
  session under its identifier and under the leased address, and in both directions each end accepts what the other
  encrypts.
\<close>

theorem client_connects_to_daemon:
  assumes libs: "dh_commutes (wl_crypto (da_wire L))" "hkdf_length (wl_crypto (da_wire L))" "morph_lib_ok (wl_morph (da_wire L))"
    and noise: "noise_ik (wo_snow w) (public_of (da_wire L)) (sk_bytes (vcc_client_private_key cc)) (sk_bytes (vsc_server_private_key config))
        (context_bytes (vsc_context config))"
    and keys: "vsc_server_public_key config = SecretKey_public_key (wl_crypto (da_wire L)) (vsc_server_private_key config)"
      "pk = SecretKey_public_key (wl_crypto (da_wire L)) (vcc_client_private_key cc)"
      "length (pk_bytes pk) = KEY_LEN" "length (pk_bytes (vsc_server_public_key config)) = KEY_LEN"
    and pinned: "vcc_server_public_key cc = vsc_server_public_key config" "vcc_context cc = vsc_context config"
      "from_config (da_wire L) cc = Inr (WMorph codec)"
    and tun: "tun_prefix_len (vsc_tun config) \<le> 32" "576 \<le> tun_mtu (vsc_tun config)" "tun_mtu (vsc_tun config) \<le> 9000"
    and begun: "ClientHandshake_new (wo_snow w) (vcc_client_private_key cc) (vcc_server_public_key cc) (vcc_context cc) = Inr h"
      "ClientHandshake_write_initial (wo_snow w) h [] = Inr (h1, initial)"
      "aw_session_random a = Inr id_bytes" "sid = from_be id_bytes" "aw_started a < deadline"
      "snd (send_prelude (da_wire L) (aw_cover_random a) (aw_covers a) (WMorph codec)) = Inr ()"
    and sent: "aw_first a = \<lparr>sw_clock = Some t, sw_random = Inr random, sw_sent = None\<rparr>" "length random = FRAME_RANDOM_LEN"
      "fst (send_request (da_wire L) is_retryable_network (aw_first a) (handshake_request sid initial) (WMorph codec)) = Inr frame"
    and clocks: "wo_clock w AtDecode = Some t1" "wo_clock w (AtProfile pk (mc_profile codec)) = Some t2"
      "unat t \<le> unat t1 + unat (epoch_seconds (mc_profile codec))" "unat t1 \<le> unat t + unat (epoch_seconds (mc_profile codec))"
      "unat t \<le> unat t2 + unat (epoch_seconds (mc_profile codec))" "unat t2 \<le> unat t + unat (epoch_seconds (mc_profile codec))"
    and rebuild: "router_sound (da_wire L) config (dm_router d)" "current_epoch (wo_clock w AtResolve) Paranoid = Inr epoch"
      "ro_epoch (dm_router d) \<noteq> Some epoch"
      "refresh (da_wire L) (da_base64 L) (wo_hash_order w) (wo_clock w) epoch config (dm_registry d) (dm_router d) = (Inr u, router')"
      "pk \<in> set (wo_hash_order w (registered_keys (da_base64 L) (dm_registry d)))" "take 8 frame \<notin> ro_ambiguous router'"
    and new: "\<forall>cached. dm_cache d pk = Some cached \<longrightarrow> ch_request cached \<noteq> initial"
    and answered: "receive_datagram L w config peer frame d = ([SendTo peer answer], d')"
      "wo_send_clock w = Some t3" "wo_random w = Inr random'" "length random' = FRAME_RANDOM_LEN"
    and waiting: "aw_turns a = before @ [turn]"
      "fst (snd (handshake_loop (da_wire L) (wo_snow w) is_retryable_network InvalidHandshakeResponse sid h1 (handshake_request sid initial)
         deadline before (aw_started a + HANDSHAKE_RETRANSMIT) (WMorph codec))) = None"
    and arrives: "ht_now turn < deadline" "\<forall>wait. ht_timeout_set turn wait = None" "\<forall>wait. ht_received turn wait = Inr answer"
      "ht_send turn = \<lparr>sw_clock = Some t5, sw_random = Inr random'', sw_sent = None\<rparr>" "length random'' = FRAME_RANDOM_LEN"
      "ht_decode_clock turn = Some t4" "unat t3 \<le> unat t4 + unat (epoch_seconds (mc_profile codec))"
      "unat t4 \<le> unat t3 + unat (epoch_seconds (mc_profile codec))"
  shows "\<exists>lease plane i. registry_authorize (dm_registry d) pk = Some lease \<and>
    fst (snd (negotiate_attempt (da_wire L) (wo_snow w) cc deadline a (WMorph codec))) =
      Some (Inr (plane, offered config (SMorph pk codec) lease)) \<and>
    ss_by_id (dm_sessions d') sid = Some i \<and> ss_by_address (dm_sessions d') (dl_address lease) = Some i \<and>
    awaits (fst (TunnelDataPlane_split plane)) (rs_inbound (session_at d' i)) \<and>
    awaits (rs_outbound (session_at d' i)) (snd (TunnelDataPlane_split plane))"
proof -
  let ?W = "da_wire L" and ?wire = "SMorph pk codec" and ?request = "handshake_request sid initial"
  have key: "length (mk_bytes (mc_key codec)) = 32"
    using pinned(3) derive_wire_key_length [OF libs(2)] unfolding from_config_Morph derive_morph_key_def by blast
  have enc: "fst (ClientWire_encode ?W (Some t) (Inr random) (WMorph codec) ?request) = Inr frame"
    using sent by (auto simp: send_request_def split: sum.splits)
  then have size: "MIN_FRAME_LEN + length ?request \<le> MAX_DATAGRAM_LEN"
    using morph_payload_decodes(2) [OF libs(3) key sent(2), of t t] by (simp add: result_simps)
  have routed: "decode_wire_into ?W (da_base64 L) (wo_hash_order w) (wo_clock w) frame config (dm_registry d) (dm_router d) =
      (Some (?wire, ?request), router')"
    by (rule morph_client_is_routed [OF libs keys(1) pinned(1,3) keys(2) enc sent(2) size clocks rebuild])
  have answer: "length response \<le> MAX_NOISE_MESSAGE_LEN \<and>
      fst (ClientWire_decode ?W (ht_decode_clock turn) (WMorph codec) answer) = Inr (True, response)"
    if "fst (encode_server ?W (wo_send_clock w) (wo_random w) ?wire response) = Inr answer" for response
    using morph_payload_decodes [OF libs(3) key answered(4) arrives(7,8), of response ServerToClient answer] that answered(2,3) arrives(6)
    by (simp add: result_simps morph_consts MAX_NOISE_MESSAGE_LEN_def)
  have server: "PublicKey (public_of ?W (sk_bytes (vsc_server_private_key config))) = vcc_server_public_key cc"
    and client: "PublicKey (public_of ?W (sk_bytes (vcc_client_private_key cc))) = pk"
    and lengths: "length (public_of ?W (sk_bytes (vcc_client_private_key cc))) = KEY_LEN"
      "length (public_of ?W (sk_bytes (vsc_server_private_key config))) = KEY_LEN"
    using keys pinned(1) by simp_all
  have "length initial \<le> MAX_NOISE_MESSAGE_LEN"
    using size by (simp add: handshake_request_def Datagram_encode_def morph_consts MAX_NOISE_MESSAGE_LEN_def)
  moreover have "ClientHandshake_new (wo_snow w) (vcc_client_private_key cc)
      (PublicKey (public_of ?W (sk_bytes (vsc_server_private_key config)))) (vsc_context config) = Inr h"
    using begun(1) pinned(2) unfolding server by simp
  moreover have "ch_request cached \<noteq> initial"
    if "dm_cache d (PublicKey (public_of ?W (sk_bytes (vcc_client_private_key cc)))) = Some cached" for cached
    using that new unfolding client by blast
  ultimately obtain lease response ti tr k k' where ends:
    "registry_authorize (dm_registry d) (PublicKey (public_of ?W (sk_bytes (vcc_client_private_key cc)))) = Some lease"
    "fst (encode_server ?W (wo_send_clock w) (wo_random w) ?wire
       (Datagram_encode \<lparr>dg_header = \<lparr>hdr_kind = HandshakeResponse, hdr_flags = 0, hdr_session_id = sid, hdr_sequence = 0\<rparr>,
          dg_payload = response\<rparr>)) = Inr answer"
    "ClientHandshake_finish (wo_snow w) h1 response = Inr (SecureSession_new ti k, SessionParameters_encode (offered config ?wire lease))"
    "noise_pair ti tr" "noise_pair tr ti"
    "ss_by_id (dm_sessions d') sid = Some (length (ss_heap (dm_sessions d)))"
    "ss_by_address (dm_sessions d') (dl_address lease) = Some (length (ss_heap (dm_sessions d)))"
    "session_at d' (length (ss_heap (dm_sessions d))) =
       new_session L peer ?wire d lease sid (session_mtu ?wire (tun_mtu (vsc_tun config))) (SecureSession_new tr k')"
    using daemon_answers [OF routed answered(1) noise lengths _ begun(2)] answer by (metis WireMode.distinct(5))
  have "SessionParameters_valid (offered config ?wire lease)"
    using tun by (simp add: SessionParameters_valid_def offered_def MORPH_SAFE_TUN_MTU_def min_def)
  moreover have "\<exists>out. fst (send_request ?W is_retryable_network (ht_send turn) ?request (WMorph codec)) = Inr out"
    using frame_roundtrip [OF libs(3) key arrives(5) size, of t5 t5 "mc_profile codec" Payload ClientToServer]
    by (auto simp: send_request_def arrives(4) MorphCodec_encode_payload_def)
  ultimately have "fst (snd (negotiate_attempt ?W (wo_snow w) cc deadline a (WMorph codec))) =
      Some (Inr (TunnelDataPlane_new sid (unat (sp_mtu (offered config ?wire lease))) (SecureSession_new ti k),
        offered config ?wire lease))"
    using attempt_is_answered [OF begun sent(3) waiting arrives(1)] arrives(2,3) conjunct2 [OF answer [OF ends(2)]] ends(3) by blast
  with ends split_awaits [OF ends(4)] split_awaits [OF ends(5)] show ?thesis
    unfolding client by (auto simp: new_session_def offered_def split_beta)
qed

theorem client_connects_to_daemon_witness:
  "\<exists>frame answer d' plane. fst (send_request routing_libs is_retryable_network (aw_first (meeting_attempt answer)) meeting_request (WMorph meeting_codec)) = Inr frame \<and>
     receive_datagram sample_libs meeting_world sample_server_config sample_peer frame meeting_daemon = ([SendTo sample_peer answer], d') \<and>
     fst (snd (negotiate_attempt routing_libs shared_snow (sample_client PMorphQuiet) (secs 10) (meeting_attempt answer) (WMorph meeting_codec))) =
       Some (Inr (plane, offered sample_server_config (SMorph (PublicKey (replicate 32 1)) meeting_codec) (seed_lease 1 0)))"
proof -
  obtain router' where r: "sample_refresh = (Inr (), router')" using sample_refresh_succeeds by blast
  obtain frame where frame: "MorphCodec_encode_payload (wl_morph routing_libs) (Some 3010) (Inr (replicate 45 7)) meeting_codec
      meeting_request ClientToServer = Inr frame"
    using meeting_encodes [of meeting_request "replicate 45 7" 3010 ClientToServer] by (auto simp: meeting_facts(6) morph_consts)
  obtain answer d' where answer: "receive_datagram sample_libs meeting_world sample_server_config sample_peer frame meeting_daemon =
      ([SendTo sample_peer answer], d')" using meeting_answer [OF frame r] by blast
  let ?a = "meeting_attempt answer" and ?h = "(replicate 32 1 :: bytes, Some (replicate 32 1 :: bytes))"
  have sent: "fst (send_request routing_libs is_retryable_network (aw_first ?a) meeting_request (WMorph meeting_codec)) = Inr frame"
    using frame by (simp add: send_request_def meeting_attempt_def)
  let ?first = "sample_turn\<lparr>ht_now := 1, ht_received := (\<lambda>_. Inl (io_error_new TimedOut))\<rparr>"
  let ?second = "sample_turn\<lparr>ht_received := (\<lambda>_. Inr answer), ht_decode_clock := Some 3030,
         ht_send := \<lparr>sw_clock = Some 3020, sw_random = Inr (replicate 45 5), sw_sent = None\<rparr>\<rparr>"
  have turns: "aw_turns ?a = [sample_turn\<lparr>ht_now := 1, ht_received := (\<lambda>_. Inl (io_error_new TimedOut))\<rparr>] @
      [sample_turn\<lparr>ht_received := (\<lambda>_. Inr answer), ht_decode_clock := Some 3030,
         ht_send := \<lparr>sw_clock = Some 3020, sw_random = Inr (replicate 45 5), sw_sent = None\<rparr>\<rparr>]"
    by (simp add: meeting_attempt_def)
  have "\<exists>lease plane i. registry_authorize (dm_registry meeting_daemon) (PublicKey (replicate 32 1)) = Some lease \<and>
    fst (snd (negotiate_attempt (da_wire sample_libs) (wo_snow meeting_world) (sample_client PMorphQuiet) (secs 10) ?a (WMorph meeting_codec))) =
      Some (Inr (plane, offered sample_server_config (SMorph (PublicKey (replicate 32 1)) meeting_codec) lease)) \<and>
    ss_by_id (dm_sessions d') 0x0102030405060708 = Some i \<and> ss_by_address (dm_sessions d') (dl_address lease) = Some i \<and>
    awaits (fst (TunnelDataPlane_split plane)) (rs_inbound (session_at d' i)) \<and>
    awaits (rs_outbound (session_at d' i)) (snd (TunnelDataPlane_split plane))"
    by (rule client_connects_to_daemon [where L = sample_libs and w = meeting_world and codec = meeting_codec and h = ?h and ?h1.0 = ?h
          and initial = "replicate 32 1" and id_bytes = "[1, 2, 3, 4, 5, 6, 7, 8]" and t = 3010 and random = "replicate 45 7" and frame = frame
          and ?t1.0 = 3000 and ?t2.0 = 3000 and epoch = 3000 and u = "()" and router' = router' and peer = sample_peer and answer = answer
          and ?t3.0 = 3020 and random' = "replicate 45 7" and ?t5.0 = 3020 and random'' = "replicate 45 5" and ?t4.0 = 3030
          and before = "[?first]" and turn = ?second],
        use answer turns r sent meeting_frame [OF frame r] router_sound_default in
          \<open>simp_all add: sample_libs_def meeting_world_def meeting_facts(1-6,8,9) meeting_pub routing_libs_ok meeting_config
             shared_snow_ik meeting_refresh meeting_registered KEY_LEN_def morph_consts current_epoch_def meeting_handshake
             meeting_attempt_facts\<close>)
      (simp_all add: sample_server_config_def sample_turn_def handshake_step_def HANDSHAKE_RETRANSMIT_def is_retryable_network_def
        io_error_new_def Let_def)
  then show ?thesis
    using sent answer by (auto simp: meeting_facts(7) registry_authorize_def sample_libs_def meeting_world_def)
qed

text \<open>
  C2. Packets cross in both directions, in every wire mode: bare, MouseMorph and Speedy. Let a client and the daemon hold the two
  ends of a session and mask alike, with clocks within an epoch. A packet from the client's own address that the client's sending
  half encodes and its wire layer masks is written to the daemon's TUN device unchanged when the daemon receives the frame from
  wherever it comes, provided that the daemon's tables name the device by the first bytes of the frame; the daemon answers there from
  then on, and the two ends stay matched. A packet for the client's address that the daemon encodes and masks is written to the
  client's TUN device unchanged when the client receives the frame.
\<close>

theorem packets_cross_in_both_directions:
  assumes libs: "morph_lib_ok (wl_morph (da_wire L))" "speedy_lib_ok (wl_speedy (da_wire L))"
    and session: "ss_by_id (dm_sessions d) (ts_session_id (cl_sender c)) = Some i" "i < length (ss_heap (dm_sessions d))"
      "ss_by_address (dm_sessions d) (rs_client_address (session_at d i)) = Some i"
      "is_active (dm_registry d) (rs_authorization (session_at d i))"
    and ends: "wires_agree (da_wire L) (cl_wire c) (rs_wire (session_at d i))" "awaits (cl_sender c) (rs_inbound (session_at d i))"
      "awaits (rs_outbound (session_at d i)) (cl_receiver c)"
    and up: "Ipv4Packet_parse packet = Inr ip" "ip_source ip = rs_client_address (session_at d i)"
      "TunnelSender_encode_ip_into (cl_sender c) packet = (Inr out, sender)"
      "fst (ClientWire_encode (da_wire L) (Some t1) (Inr random) (cl_wire c) out) = Inr frame" "length random = FRAME_RANDOM_LEN"
      "named_by (da_wire L) (resolve (da_wire L) (da_base64 L) (wo_hash_order w) (wo_clock w) frame config (dm_registry d) (dm_router d))
        frame (rs_wire (session_at d i))"
      "wo_clock w AtDecode = Some t2" "clocks_agree (cl_wire c) t1 t2" "wo_tun_accepts w"
    and down: "Ipv4Packet_parse reply = Inr rip" "ip_destination rip = rs_client_address (session_at d i)"
      "encode_tun_packet L v reply d = (Some item, d1)" "wo_send_clock v = Some t3" "wo_random v = Inr random'"
      "length random' = FRAME_RANDOM_LEN" "dw_clock u = Some t4" "clocks_agree (cl_wire c) t3 t4" "dw_tun u = None"
  shows "(\<exists>d'. receive_datagram L w config peer frame d = ([WriteTun (ip_bytes ip)], d') \<and>
      rs_peer (session_at d' i) = peer \<and> awaits sender (rs_inbound (session_at d' i))) \<and>
    (\<exists>c'. process_datagram (da_wire L) u (ti_datagram item) c = (Inr (), c') \<and> cl_log c' = cl_log c @ [OutTun (ip_bytes rip)])"
proof
  obtain mode router' where "decode_wire_into (da_wire L) (da_base64 L) (wo_hash_order w) (wo_clock w) frame config (dm_registry d) (dm_router d) =
      (Some (mode, out), router')" "wire_matches (rs_wire (session_at d i)) mode"
    using upward_frame_decodes [OF libs ends(1) up(8,7,5,4,6)] by blast
  then show "\<exists>d'. receive_datagram L w config peer frame d = ([WriteTun (ip_bytes ip)], d') \<and>
      rs_peer (session_at d' i) = peer \<and> awaits sender (rs_inbound (session_at d' i))"
    using daemon_writes_packet [OF session(1,2,4) _ ends(2) refl up(3,1,2) _ up(9)] by blast
  have "fst (ClientWire_decode (da_wire L) (dw_clock u) (cl_wire c) (ti_datagram item)) = Inr (True, inner)"
    if "fst (encode_server (da_wire L) (wo_send_clock v) (wo_random v) (rs_wire (session_at d i)) inner) = Inr (ti_datagram item)" for inner
    using downward_frame_decodes [OF libs ends(1) down(8,6)] that by (simp add: down(4,5,7))
  then show "\<exists>c'. process_datagram (da_wire L) u (ti_datagram item) c = (Inr (), c') \<and> cl_log c' = cl_log c @ [OutTun (ip_bytes rip)]"
    by (intro client_writes_packet [OF _ ends(3) down(1,3) _ down(9)]) (use session(3) down(2) in simp_all)
qed

theorem packets_cross_in_both_directions_witness:
  "\<exists>frame item d' c'. receive_datagram sample_libs meeting_world sample_server_config sample_peer frame joined_daemon = ([WriteTun sample_packet], d') \<and>
     fst (encode_tun_packet sample_libs meeting_world meeting_reply joined_daemon) = Some item \<and>
     process_datagram routing_libs \<lparr>dw_clock = Some 3020, dw_now = 0, dw_tun = None\<rparr> (ti_datagram item) joined_client = (Inr (), c') \<and>
     cl_log c' = cl_log joined_client @ [OutTun meeting_reply]"
proof -
  obtain router' where r: "sample_refresh = (Inr (), router')" using sample_refresh_succeeds by blast
  obtain out s' frame where up: "TunnelSender_encode_ip_into (cl_sender joined_client) sample_packet = (Inr out, s')"
      "MorphCodec_encode_payload (wl_morph routing_libs) (Some 3010) (Inr (replicate 45 7)) meeting_codec out ClientToServer = Inr frame"
    using joined_sends [OF joined_senders(1-3) sample_packet_parse, of 3010 ClientToServer] by (auto simp: sample_packet_def)
  obtain rout s'' rframe where "TunnelSender_encode_ip_into (rs_outbound meeting_session) meeting_reply = (Inr rout, s'')"
      "MorphCodec_encode_payload (wl_morph routing_libs) (Some 3020) (Inr (replicate 45 7)) meeting_codec rout ServerToClient = Inr rframe"
    using joined_sends [OF joined_senders(4-6) meeting_reply_parse, of 3020 ServerToClient] by (auto simp: meeting_reply_def)
  then obtain item d1 where down: "encode_tun_packet sample_libs meeting_world meeting_reply joined_daemon = (Some item, d1)"
    by (auto simp: encode_tun_packet_def meeting_reply_parse find_session_by_address_def joined_facts sample_libs_def meeting_world_def Let_def)
  have libs: "morph_lib_ok (wl_morph (da_wire sample_libs))" "speedy_lib_ok (wl_speedy (da_wire sample_libs))"
    using routing_libs_ok(3) plain_speedy_lib_ok by (simp_all add: sample_libs_def routing_libs_def plain_wire_libs_def)
  have key: "length (mk_bytes (mc_key meeting_codec)) = 32" by (simp add: meeting_codec_def)
  have named: "named_by (da_wire sample_libs) (resolve (da_wire sample_libs) (da_base64 sample_libs) (wo_hash_order meeting_world)
      (wo_clock meeting_world) frame sample_server_config (dm_registry joined_daemon) (dm_router joined_daemon)) frame (rs_wire meeting_session)"
    unfolding joined_facts by (rule opened_frame_is_named [OF meeting_routed [OF up(2) r]])
  let ?u = "\<lparr>dw_clock = Some 3020, dw_now = 0, dw_tun = None\<rparr> :: datagram_world"
  have "(\<exists>d'. receive_datagram sample_libs meeting_world sample_server_config sample_peer frame joined_daemon =
        ([WriteTun (ip_bytes \<lparr>ip_bytes = sample_packet, ip_source = Ipv4Addr 10 0 0 2, ip_destination = Ipv4Addr 10 0 0 1\<rparr>)], d') \<and>
      rs_peer (session_at d' 0) = sample_peer \<and> awaits s' (rs_inbound (session_at d' 0))) \<and>
    (\<exists>c'. process_datagram (da_wire sample_libs) ?u (ti_datagram item) joined_client = (Inr (), c') \<and>
      cl_log c' = cl_log joined_client @ [OutTun (ip_bytes \<lparr>ip_bytes = meeting_reply, ip_source = Ipv4Addr 10 0 0 1, ip_destination = Ipv4Addr 10 0 0 2\<rparr>)])"
    by (rule packets_cross_in_both_directions [OF libs, where packet = sample_packet and out = out and reply = meeting_reply
          and v = meeting_world and ?d1.0 = d1 and ?t1.0 = 3010 and random = "replicate 45 7" and ?t2.0 = 3000 and ?t3.0 = 3020
          and random' = "replicate 45 7" and ?t4.0 = 3020 and sender = s'];
        (simp only: joined_facts(1-4,7-9) joined_ends up(1) down sample_packet_parse meeting_reply_parse named [unfolded joined_facts(9)])?;
        (simp add: joined_facts joined_ends up(2) meeting_world_def sample_libs_def key meeting_facts(5) clocks_agree_def wire_epoch_def morph_consts)?)
  with down show ?thesis by (auto simp: sample_libs_def)
qed

end
